(* ===== verification/Prelude.thy ===== *)
theory Prelude
  imports Complex_Main "HOL-Library.Word" "HOL-Library.Sublist"
begin

text \<open>
  Shared ground of the development: the fixed-width integers, the result type in which every
  fallible routine of the source answers, and the parts of Rust's \<open>str\<close> that the modelled code
  uses.  A Rust \<open>String\<close> is its sequence of UTF-8 bytes, here a \<open>string\<close> (a \<open>char\<close> is a byte),
  so \<open>length\<close> is Rust's \<open>len()\<close>.  The named collections gather the rewrite rules the component
  proofs share.
\<close>

named_theorems model_simps \<open>unfolding rules for the small helpers of the model\<close>
named_theorems frame_simps \<open>what an operation leaves unchanged\<close>

type_synonym u32 = "32 word"
type_synonym u64 = "64 word"

abbreviation u32_max :: nat where "u32_max \<equiv> 4294967295"
abbreviation u64_max :: nat where "u64_max \<equiv> 18446744073709551615"

section \<open>Results\<close>

text \<open>\<open>Result<T, E>\<close> is \<open>'e + 'a\<close> with \<open>Inl\<close> for \<open>Err\<close>; \<open>res_bind\<close> is the \<open>?\<close> operator.\<close>

fun res_bind :: "'e + 'a \<Rightarrow> ('a \<Rightarrow> 'e + 'b) \<Rightarrow> 'e + 'b" where
  "res_bind (Inl e) f = Inl e"
| "res_bind (Inr x) f = f x"

fun res_map_err :: "('e \<Rightarrow> 'f) \<Rightarrow> 'e + 'a \<Rightarrow> 'f + 'a" where
  "res_map_err f (Inl e) = Inl (f e)"
| "res_map_err f (Inr x) = Inr x"

fun is_ok :: "'e + 'a \<Rightarrow> bool" where
  "is_ok (Inl e) = False"
| "is_ok (Inr x) = True"

definition ok_or :: "'a option \<Rightarrow> 'e \<Rightarrow> 'e + 'a" where
  "ok_or x e = (case x of None \<Rightarrow> Inl e | Some v \<Rightarrow> Inr v)"

lemma res_bind_Inr_iff [simp]: "res_bind r f = Inr y \<longleftrightarrow> (\<exists>x. r = Inr x \<and> f x = Inr y)"
  by (cases r) auto

lemma res_bind_Inl_iff: "res_bind r f = Inl e \<longleftrightarrow> r = Inl e \<or> (\<exists>x. r = Inr x \<and> f x = Inl e)"
  by (cases r) auto

lemma res_map_err_Inr_iff [simp]: "res_map_err f r = Inr x \<longleftrightarrow> r = Inr x"
  by (cases r) auto

lemma res_map_err_Inl_iff: "res_map_err f r = Inl e \<longleftrightarrow> (\<exists>e'. r = Inl e' \<and> e = f e')"
  by (cases r) auto

lemma ok_or_Inr_iff [simp]: "ok_or x e = Inr v \<longleftrightarrow> x = Some v"
  by (simp add: ok_or_def split: option.splits)

lemma ok_or_simps [simp]: "ok_or None e = Inl e" "ok_or (Some v) e = Inr v"
  by (simp_all add: ok_or_def)

lemma is_ok_iff: "is_ok r \<longleftrightarrow> (\<exists>x. r = Inr x)"
  by (cases r) auto

section \<open>Options\<close>

text \<open>\<open>Option::is_some_and\<close>, \<open>is_none_or\<close> and \<open>filter\<close>.\<close>

definition is_some_and :: "'a option \<Rightarrow> ('a \<Rightarrow> bool) \<Rightarrow> bool" where
  "is_some_and x p = (case x of None \<Rightarrow> False | Some v \<Rightarrow> p v)"

definition is_none_or :: "'a option \<Rightarrow> ('a \<Rightarrow> bool) \<Rightarrow> bool" where
  "is_none_or x p = (case x of None \<Rightarrow> True | Some v \<Rightarrow> p v)"

definition option_filter :: "('a \<Rightarrow> bool) \<Rightarrow> 'a option \<Rightarrow> 'a option" where
  "option_filter p x = (case x of None \<Rightarrow> None | Some v \<Rightarrow> if p v then Some v else None)"

definition unwrap_or :: "'a option \<Rightarrow> 'a \<Rightarrow> 'a" where
  "unwrap_or x d = (case x of None \<Rightarrow> d | Some v \<Rightarrow> v)"

lemma is_some_and_simps [simp]:
  "is_some_and None p = False" "is_some_and (Some v) p = p v"
  by (simp_all add: is_some_and_def)

lemma is_none_or_simps [simp]:
  "is_none_or None p = True" "is_none_or (Some v) p = p v"
  by (simp_all add: is_none_or_def)

lemma option_filter_simps [simp]:
  "option_filter p None = None" "option_filter p (Some v) = (if p v then Some v else None)"
  by (simp_all add: option_filter_def)

lemma option_filter_Some_iff: "option_filter p x = Some v \<longleftrightarrow> x = Some v \<and> p v"
  by (cases x) auto

lemma unwrap_or_simps [simp]: "unwrap_or None d = d" "unwrap_or (Some v) d = v"
  by (simp_all add: unwrap_or_def)

lemma is_some_and_iff: "is_some_and x p \<longleftrightarrow> (\<exists>v. x = Some v \<and> p v)"
  by (cases x) auto

section \<open>Strings\<close>

definition ascii_lower :: "char \<Rightarrow> char" where
  "ascii_lower c =
     (let n = (of_char c :: nat) in if 65 \<le> n \<and> n \<le> 90 then char_of (n + 32) else c)"

definition to_ascii_lowercase :: "string \<Rightarrow> string" where
  "to_ascii_lowercase s = map ascii_lower s"

definition is_ascii_digit :: "char \<Rightarrow> bool" where
  "is_ascii_digit c \<longleftrightarrow> (let n = (of_char c :: nat) in 48 \<le> n \<and> n \<le> 57)"

definition is_ascii_alphanumeric :: "char \<Rightarrow> bool" where
  "is_ascii_alphanumeric c \<longleftrightarrow>
     (let n = (of_char c :: nat) in
        48 \<le> n \<and> n \<le> 57 \<or> 65 \<le> n \<and> n \<le> 90 \<or> 97 \<le> n \<and> n \<le> 122)"

definition quoted :: "string \<Rightarrow> string" where
  "quoted s = [CHR 0x27] @ s @ [CHR 0x27]"

definition strip_prefix :: "string \<Rightarrow> string \<Rightarrow> string option" where
  "strip_prefix p s = (if take (length p) s = p then Some (drop (length p) s) else None)"

lemma strip_prefix_Some_iff: "strip_prefix p s = Some r \<longleftrightarrow> s = p @ r"
proof
  assume "strip_prefix p s = Some r"
  then have "take (length p) s = p" "r = drop (length p) s"
    by (auto simp: strip_prefix_def split: if_splits)
  then show "s = p @ r" by (metis append_take_drop_id)
qed (simp add: strip_prefix_def)

lemma strip_prefix_append [simp]: "strip_prefix p (p @ r) = Some r"
  by (simp add: strip_prefix_Some_iff)

text \<open>
  \<open>rsplit_once\<close>: the text before and after the last occurrence of a separator.  The recursion
  looks for an occurrence further right first.
\<close>

fun rsplit_once :: "string \<Rightarrow> string \<Rightarrow> (string \<times> string) option" where
  "rsplit_once d [] = (if d = [] then Some ([], []) else None)"
| "rsplit_once d (c # s) =
     (case rsplit_once d s of
        Some (a, b) \<Rightarrow> Some (c # a, b)
      | None \<Rightarrow> map_option (\<lambda>b. ([], b)) (strip_prefix d (c # s)))"

lemma rsplit_once_Some: "rsplit_once d s = Some (a, b) \<Longrightarrow> s = a @ d @ b"
  by (induction s arbitrary: a b)
    (auto simp: strip_prefix_Some_iff split: if_splits option.splits)

lemma rsplit_once_None: "rsplit_once d s = None \<Longrightarrow> s \<noteq> a @ d @ b"
proof (induction s arbitrary: a)
  case Nil
  then show ?case by (auto split: if_splits)
next
  case (Cons c s)
  then have IH: "\<And>a. s \<noteq> a @ d @ b" and no: "strip_prefix d (c # s) = None"
    by (auto split: option.splits)
  show ?case
  proof
    assume eq: "c # s = a @ d @ b"
    show False
    proof (cases a)
      case Nil
      with eq no show False by (metis append_Nil option.distinct(1) strip_prefix_append)
    next
      case (Cons x xs)
      with eq IH show False by auto
    qed
  qed
qed

text \<open>
  \<open>str::trim\<close> removes Unicode white space at both ends; \<open>ws_tokens\<close> lists the UTF-8 encodings
  of the code points with the White-Space property.
\<close>

definition ws_tokens :: "string list" where
  "ws_tokens =
     [[CHR 0x09], [CHR 0x0A], [CHR 0x0B], [CHR 0x0C], [CHR 0x0D], [CHR 0x20],
      [CHR 0xC2, CHR 0x85], [CHR 0xC2, CHR 0xA0],
      [CHR 0xE1, CHR 0x9A, CHR 0x80],
      [CHR 0xE2, CHR 0x80, CHR 0x80], [CHR 0xE2, CHR 0x80, CHR 0x81],
      [CHR 0xE2, CHR 0x80, CHR 0x82], [CHR 0xE2, CHR 0x80, CHR 0x83],
      [CHR 0xE2, CHR 0x80, CHR 0x84], [CHR 0xE2, CHR 0x80, CHR 0x85],
      [CHR 0xE2, CHR 0x80, CHR 0x86], [CHR 0xE2, CHR 0x80, CHR 0x87],
      [CHR 0xE2, CHR 0x80, CHR 0x88], [CHR 0xE2, CHR 0x80, CHR 0x89],
      [CHR 0xE2, CHR 0x80, CHR 0x8A], [CHR 0xE2, CHR 0x80, CHR 0xA8],
      [CHR 0xE2, CHR 0x80, CHR 0xA9], [CHR 0xE2, CHR 0x80, CHR 0xAF],
      [CHR 0xE2, CHR 0x81, CHR 0x9F], [CHR 0xE3, CHR 0x80, CHR 0x80]]"

definition strip_any :: "string list \<Rightarrow> string \<Rightarrow> string option" where
  "strip_any ts s =
     (case find (\<lambda>t. t \<noteq> [] \<and> strip_prefix t s \<noteq> None) ts of
        None \<Rightarrow> None
      | Some t \<Rightarrow> strip_prefix t s)"

lemma strip_any_shorter: "strip_any ts s = Some r \<Longrightarrow> length r < length s"
  by (auto simp: strip_any_def strip_prefix_Some_iff find_Some_iff split: option.splits)

function strip_all :: "string list \<Rightarrow> string \<Rightarrow> string" where
  "strip_all ts s = (case strip_any ts s of None \<Rightarrow> s | Some r \<Rightarrow> strip_all ts r)"
  by pat_completeness auto
termination
  by (relation "measure (\<lambda>(ts, s). length s)") (auto dest: strip_any_shorter)

declare strip_all.simps [simp del]

definition trim_start :: "string \<Rightarrow> string" where
  "trim_start s = strip_all ws_tokens s"

definition trim_end :: "string \<Rightarrow> string" where
  "trim_end s = rev (strip_all (map rev ws_tokens) (rev s))"

definition trim :: "string \<Rightarrow> string" where
  "trim s = trim_end (trim_start s)"

definition is_blank :: "string \<Rightarrow> bool" where
  "is_blank s \<longleftrightarrow> trim s = []"

lemma strip_all_fix: "strip_any ts s = None \<Longrightarrow> strip_all ts s = s"
  by (simp add: strip_all.simps)

lemma strip_all_Nil [simp]: "strip_all ts [] = []"
  by (rule strip_all_fix) (auto simp: strip_any_def find_Some_iff strip_prefix_Some_iff
      split: option.splits)

lemma is_blank_Nil [simp]: "is_blank []"
  by (simp add: is_blank_def trim_def trim_start_def trim_end_def)

text \<open>A string of plain lower-case letters is its own normal form under \<open>trim\<close> and lower-casing.\<close>

definition plain_lower :: "string \<Rightarrow> bool" where
  "plain_lower s \<longleftrightarrow> list_all (\<lambda>c. 97 \<le> (of_char c :: nat) \<and> (of_char c :: nat) \<le> 122) s"

lemma ws_first_byte:
  "t \<in> set ws_tokens \<Longrightarrow> t \<noteq> [] \<and> \<not> (97 \<le> (of_char (hd t) :: nat) \<and> (of_char (hd t) :: nat) \<le> 122)"
  "t \<in> set ws_tokens \<Longrightarrow> t \<noteq> [] \<and> \<not> (97 \<le> (of_char (last t) :: nat) \<and> (of_char (last t) :: nat) \<le> 122)"
  by (auto simp: ws_tokens_def)

lemma strip_any_plain:
  assumes "\<And>t. t \<in> set ts \<Longrightarrow> t \<noteq> [] \<and> \<not> (97 \<le> (of_char (hd t) :: nat) \<and> (of_char (hd t) :: nat) \<le> 122)"
    and "plain_lower s"
  shows "strip_any ts s = None"
proof -
  have "strip_prefix t s = None" if "t \<in> set ts" for t
  proof (rule ccontr)
    assume "strip_prefix t s \<noteq> None"
    then obtain r where "s = t @ r" by (auto simp: strip_prefix_Some_iff)
    with assms(1) [OF that] assms(2) show False
      by (cases t) (auto simp: plain_lower_def)
  qed
  then have "find (\<lambda>t. t \<noteq> [] \<and> strip_prefix t s \<noteq> None) ts = None"
    by (simp add: find_None_iff)
  then show ?thesis by (simp add: strip_any_def)
qed

lemma trim_plain: "plain_lower s \<Longrightarrow> trim s = s"
proof -
  assume s: "plain_lower s"
  then have "plain_lower (rev s)" by (simp add: plain_lower_def)
  then have "strip_any (map rev ws_tokens) (rev s) = None"
    by (rule strip_any_plain [rotated]) (auto simp: hd_rev dest: ws_first_byte)
  moreover have "strip_any ws_tokens s = None"
    using s by (rule strip_any_plain [rotated]) (auto dest: ws_first_byte)
  ultimately show ?thesis
    by (simp add: trim_def trim_start_def trim_end_def strip_all_fix)
qed

lemma lower_plain: "plain_lower s \<Longrightarrow> to_ascii_lowercase s = s"
  unfolding to_ascii_lowercase_def
  by (rule map_idI) (auto simp: plain_lower_def ascii_lower_def list_all_iff Let_def)

section \<open>Trimming and lower-casing\<close>

lemma strip_any_None_iff: "strip_any ts s = None \<longleftrightarrow> (\<forall>t \<in> set ts. t = [] \<or> strip_prefix t s = None)"
  by (auto simp: strip_any_def find_Some_iff find_None_iff split: option.splits)

lemma strip_any_strip_all: "strip_any ts (strip_all ts s) = None"
  by (induction ts s rule: strip_all.induct) (subst strip_all.simps, auto split: option.splits)

lemma strip_all_suffix: "\<exists>p. s = p @ strip_all ts s"
proof (induction ts s rule: strip_all.induct)
  case (1 ts s)
  show ?case
  proof (cases "strip_any ts s")
    case (Some r)
    then obtain t where "s = t @ r"
      by (auto simp: strip_any_def strip_prefix_Some_iff split: option.splits)
    moreover obtain p where "r = p @ strip_all ts r" using 1 [OF Some] by blast
    ultimately have "s = (t @ p) @ strip_all ts s" using Some by (subst strip_all.simps) simp
    then show ?thesis by blast
  qed (simp add: strip_all_fix)
qed

definition letterless :: "string \<Rightarrow> bool" where
  "letterless t \<longleftrightarrow> list_all (\<lambda>c. ascii_lower c = c \<and> \<not> (97 \<le> (of_char c :: nat) \<and> (of_char c :: nat) \<le> 122)) t"

lemma ascii_lower_idem [simp]: "ascii_lower (ascii_lower c) = ascii_lower c"
  by (auto simp: ascii_lower_def Let_def)

lemma ascii_lower_upper: "ascii_lower c \<noteq> c \<Longrightarrow>
    97 \<le> (of_char (ascii_lower c) :: nat) \<and> (of_char (ascii_lower c) :: nat) \<le> 122"
  by (auto simp: ascii_lower_def Let_def)

lemma strip_prefix_lower:
  "letterless t \<Longrightarrow> strip_prefix t (to_ascii_lowercase s) = None \<longleftrightarrow> strip_prefix t s = None"
proof (induction t arbitrary: s)
  case (Cons c t)
  show ?case
  proof (cases s)
    case (Cons d s')
    have "ascii_lower d = c \<longleftrightarrow> d = c"
      using Cons.prems ascii_lower_upper [of d]
      by (cases "ascii_lower d = d") (auto simp: letterless_def)
    then show ?thesis using Cons.IH [of s'] Cons.prems Cons
      by (auto simp: letterless_def strip_prefix_def to_ascii_lowercase_def split: if_splits)
  qed (simp add: to_ascii_lowercase_def)
qed (simp add: strip_prefix_def)

lemma ws_letterless: "t \<in> set ws_tokens \<Longrightarrow> letterless t"
  by (auto simp: ws_tokens_def letterless_def ascii_lower_def)

lemma letterless_rev: "letterless (rev t) = letterless t"
  by (simp add: letterless_def)

lemma lower_idem [simp]: "to_ascii_lowercase (to_ascii_lowercase s) = to_ascii_lowercase s"
  by (simp add: to_ascii_lowercase_def)

lemma trim_bare:
  "strip_any ws_tokens (trim s) = None" "strip_any (map rev ws_tokens) (rev (trim s)) = None"
proof -
  show "strip_any (map rev ws_tokens) (rev (trim s)) = None"
    by (simp add: trim_def trim_end_def strip_any_strip_all)
  let ?u = "trim_start s"
  obtain p where "rev ?u = p @ rev (trim s)"
    using strip_all_suffix [of "rev ?u" "map rev ws_tokens"] by (auto simp: trim_def trim_end_def)
  then have u: "?u = trim s @ rev p" by (metis rev_append rev_rev_ident)
  have "strip_any ws_tokens ?u = None" by (simp add: trim_start_def strip_any_strip_all)
  then show "strip_any ws_tokens (trim s) = None"
    unfolding strip_any_None_iff u by (metis append_assoc not_None_eq strip_prefix_Some_iff)
qed

lemma trim_lower_trim: "trim (to_ascii_lowercase (trim s)) = to_ascii_lowercase (trim s)"
proof -
  let ?n = "to_ascii_lowercase (trim s)"
  have "strip_any ws_tokens ?n = None"
    using trim_bare(1) [of s] by (auto simp: strip_any_None_iff strip_prefix_lower ws_letterless)
  moreover have "rev ?n = to_ascii_lowercase (rev (trim s))" by (simp add: to_ascii_lowercase_def rev_map)
  then have "strip_any (map rev ws_tokens) (rev ?n) = None"
    using trim_bare(2) [of s] by (auto simp: strip_any_None_iff strip_prefix_lower ws_letterless letterless_rev)
  ultimately show ?thesis by (simp add: trim_def trim_start_def trim_end_def strip_all_fix)
qed

section \<open>Decimal numbers\<close>

text \<open>
  \<open>show_nat\<close> is \<open>Display\<close> of an unsigned integer; \<open>parse_u32\<close> is \<open>str::parse::<u32>\<close>: an
  optional plus sign, at least one digit, and a value below \<open>2 ^ 32\<close>.
\<close>

definition digit_char :: "nat \<Rightarrow> char" where
  "digit_char d = char_of (48 + d)"

definition digit_value :: "char \<Rightarrow> nat" where
  "digit_value c = of_char c - 48"

fun show_nat :: "nat \<Rightarrow> string" where
  "show_nat n = (if n < 10 then [digit_char n] else show_nat (n div 10) @ [digit_char (n mod 10)])"

declare show_nat.simps [simp del]

definition digits_value :: "string \<Rightarrow> nat" where
  "digits_value s = foldl (\<lambda>v c. 10 * v + digit_value c) 0 s"

definition parse_u32 :: "string \<Rightarrow> nat option" where
  "parse_u32 s =
     (let t = unwrap_or (strip_prefix ''+'' s) s
      in if t \<noteq> [] \<and> list_all is_ascii_digit t \<and> digits_value t \<le> u32_max
         then Some (digits_value t) else None)"

lemma digit_char_props:
  "d < 10 \<Longrightarrow> is_ascii_digit (digit_char d)" "d < 10 \<Longrightarrow> digit_value (digit_char d) = d"
  by (auto simp: is_ascii_digit_def digit_char_def digit_value_def Let_def)

lemma show_nat_digits: "list_all is_ascii_digit (show_nat n)"
  by (induction n rule: show_nat.induct) (subst show_nat.simps, auto simp: digit_char_props)

lemma show_nat_nonempty [simp]: "show_nat n \<noteq> []"
  by (subst show_nat.simps) simp

lemma digits_value_append: "digits_value (s @ [c]) = 10 * digits_value s + digit_value c"
  by (simp add: digits_value_def)

lemma digits_value_show [simp]: "digits_value (show_nat n) = n"
proof (induction n rule: show_nat.induct)
  case (1 n)
  show ?case
  proof (cases "n < 10")
    case True
    then show ?thesis by (subst show_nat.simps) (simp add: digits_value_def digit_char_props)
  next
    case False
    with 1 show ?thesis
      by (subst show_nat.simps) (simp add: digits_value_append digit_char_props)
  qed
qed

lemma show_nat_inj: "show_nat m = show_nat n \<longleftrightarrow> m = n"
  by (metis digits_value_show)

lemma show_nat_no_plus: "strip_prefix ''+'' (show_nat n) = None"
proof (rule ccontr)
  assume "strip_prefix ''+'' (show_nat n) \<noteq> None"
  then obtain r where "show_nat n = ''+'' @ r" by (auto simp: strip_prefix_Some_iff)
  with show_nat_digits [of n] show False by (simp add: is_ascii_digit_def Let_def)
qed

lemma parse_show_u32: "parse_u32 (show_nat n) = (if n \<le> u32_max then Some n else None)"
  by (simp add: parse_u32_def show_nat_no_plus show_nat_digits)

lemma show_nat_length: "n < 10 ^ k \<Longrightarrow> 0 < k \<Longrightarrow> length (show_nat n) \<le> k"
proof (induction n arbitrary: k rule: show_nat.induct)
  case (1 n)
  show ?case
  proof (cases "n < 10")
    case True
    with 1 show ?thesis by (subst show_nat.simps) simp
  next
    case False
    with 1 have "k \<noteq> 1" by auto
    with 1 obtain j where k: "k = Suc j" "0 < j" by (cases k) auto
    then have "n div 10 < 10 ^ j" using 1 by (simp add: less_mult_imp_div_less mult.commute)
    with False k 1 show ?thesis by (subst show_nat.simps) simp
  qed
qed

end
