(* ===== verification/F64.thy ===== *)
theory F64
  imports Prelude "HOL-Library.Log_Nat"
begin

text \<open>
  Rust's \<open>f64\<close> (IEEE 754 binary64) as far as the modelled code uses it: a value is NaN, an
  infinity, or a finite rational; every arithmetic operation computes exactly and then rounds to
  the nearest representable value, ties to even, overflowing to an infinity.  The sign of zero is
  not recorded: no operation the modelled code applies to a float tells the two zeros apart.
  \<open>round53\<close> is the rounding; it is monotone, odd and idempotent, which is what the geometry
  proofs use.
\<close>

section \<open>Rounding\<close>

definition log2_floor :: "rat \<Rightarrow> int" where
  "log2_floor q =
     (let (n, d) = quotient_of q; k = bitlen n - bitlen d
      in if 2 powi k \<le> q then k else k - 1)"

definition ulp_exp :: "rat \<Rightarrow> int" where
  "ulp_exp q = max (log2_floor \<bar>q\<bar> - 52) (- 1074)"

definition rne :: "rat \<Rightarrow> int" where
  "rne x =
     (let f = \<lfloor>x\<rfloor>; r = x - of_int f
      in if r < 1 / 2 then f else if r > 1 / 2 then f + 1 else if even f then f else f + 1)"

definition round_at :: "int \<Rightarrow> rat \<Rightarrow> rat" where
  "round_at k q = of_int (rne (q / 2 powi k)) * 2 powi k"

definition round53 :: "rat \<Rightarrow> rat" where
  "round53 q = (if q = 0 then 0 else round_at (ulp_exp q) q)"

lemma powi2_pos [simp]: "(0::rat) < 2 powi k"
  by simp

lemma powi2_le [simp]: "(2::rat) powi j \<le> 2 powi k \<longleftrightarrow> j \<le> k"
  using power_int_increasing [of j k "2::rat"] power_int_strict_increasing [of k j "2::rat"]
  by (cases "j \<le> k") auto

lemma powi2_less [simp]: "(2::rat) powi j < 2 powi k \<longleftrightarrow> j < k"
  by (simp add: not_le [symmetric] del: not_le)

lemma powi2_nat: "0 \<le> j \<Longrightarrow> (2::rat) powi j = of_int (2 ^ nat j)"
  by (simp add: power_int_def)

lemma log2_floor_bounds:
  assumes "0 < q"
  shows "2 powi (log2_floor q) \<le> q" and "q < 2 powi (log2_floor q + 1)"
proof -
  obtain n d where nd: "quotient_of q = (n, d)" by (cases "quotient_of q")
  then have d: "0 < d" and q: "q = of_int n / of_int d"
    using quotient_of_denom_pos quotient_of_div by blast+
  with assms have n: "0 < n" by (simp add: zero_less_divide_iff)
  define a where "a = bitlen n"
  define b where "b = bitlen d"
  have ab: "1 \<le> a" "1 \<le> b" using n d
    by (simp_all add: a_def b_def bitlen_alt_def)
  have nb: "2 ^ nat (a - 1) \<le> n" "n < 2 ^ nat a" using n bitlen_bounds [of n] by (auto simp: a_def)
  have db: "2 ^ nat (b - 1) \<le> d" "d < 2 ^ nat b" using d bitlen_bounds [of d] by (auto simp: b_def)
  have "(2::rat) powi (a - 1) \<le> of_int n" using nb(1) ab by (simp add: powi2_nat del: of_int_power)
  moreover have "(of_int n :: rat) < 2 powi a" using nb(2) ab by (simp add: powi2_nat del: of_int_power)
  moreover have "(2::rat) powi (b - 1) \<le> of_int d" using db(1) ab by (simp add: powi2_nat del: of_int_power)
  moreover have "(of_int d :: rat) < 2 powi b" using db(2) ab by (simp add: powi2_nat del: of_int_power)
  moreover have "(0::rat) < of_int n" "(0::rat) < of_int d" using n d by auto
  ultimately have lo: "2 powi (a - 1) / 2 powi b < q" and hi: "q < 2 powi a / 2 powi (b - 1)"
    unfolding q using frac_less2 [of "2 powi (a - 1)" "of_int n :: rat" "of_int d" "2 powi b"]
      frac_less [of "of_int n :: rat" "2 powi a" "2 powi (b - 1)" "of_int d"] by simp_all
  have "2 powi (a - 1) / 2 powi b = (2::rat) powi (a - b - 1)"
    and "2 powi a / 2 powi (b - 1) = (2::rat) powi (a - b + 1)"
    by (simp_all flip: power_int_diff add: algebra_simps)
  with lo hi have lo': "2 powi (a - b - 1) < q" and hi': "q < 2 powi (a - b + 1)" by simp_all
  show "2 powi (log2_floor q) \<le> q" and "q < 2 powi (log2_floor q + 1)"
    using lo' hi' by (auto simp: log2_floor_def nd a_def b_def Let_def)
qed

lemma log2_floor_mono:
  assumes "0 < p" "p \<le> q"
  shows "log2_floor p \<le> log2_floor q"
proof -
  have "2 powi (log2_floor p) \<le> p" using assms by (intro log2_floor_bounds)
  also have "\<dots> \<le> q" by fact
  also have "q < 2 powi (log2_floor q + 1)" using assms by (intro log2_floor_bounds) auto
  finally have "(2::rat) powi (log2_floor p) < 2 powi (log2_floor q + 1)" .
  then show ?thesis by simp
qed

lemma log2_floor_unique:
  assumes "2 powi e \<le> q" "q < 2 powi (e + 1)"
  shows "log2_floor q = e"
proof -
  have q: "0 < q" using assms(1) powi2_pos [of e] by linarith
  from log2_floor_bounds [OF q] assms
  have "(2::rat) powi (log2_floor q) < 2 powi (e + 1)" "(2::rat) powi e < 2 powi (log2_floor q + 1)"
    by linarith+
  then show ?thesis by simp
qed

lemma rne_of_int [simp]: "rne (of_int n) = n"
  by (simp add: rne_def)

lemma rne_mono: "x \<le> y \<Longrightarrow> rne x \<le> rne y"
proof (cases "\<lfloor>x\<rfloor> = \<lfloor>y\<rfloor>")
  case False
  moreover assume "x \<le> y"
  ultimately have "\<lfloor>x\<rfloor> + 1 \<le> \<lfloor>y\<rfloor>" using floor_mono [of x y] by linarith
  moreover have "rne x \<le> \<lfloor>x\<rfloor> + 1" "\<lfloor>y\<rfloor> \<le> rne y" by (auto simp: rne_def Let_def)
  ultimately show ?thesis by linarith
qed (auto simp: rne_def Let_def)

lemma rne_minus: "rne (- x) = - rne x"
proof (cases "x = of_int \<lfloor>x\<rfloor>")
  case True
  then show ?thesis by (metis of_int_minus rne_of_int)
next
  case False
  then have f: "\<lfloor>- x\<rfloor> = - \<lfloor>x\<rfloor> - 1" by linarith
  have "x - of_int \<lfloor>x\<rfloor> = 1 / 2 \<longleftrightarrow> - x - of_int \<lfloor>- x\<rfloor> = 1 / 2" unfolding f by auto
  then show ?thesis by (auto simp: rne_def Let_def f)
qed

lemma round_at_mono: "p \<le> q \<Longrightarrow> round_at k p \<le> round_at k q"
  by (auto simp: round_at_def intro!: mult_right_mono rne_mono divide_right_mono)

lemma round_at_grid [simp]: "round_at k (of_int m * 2 powi k) = of_int m * 2 powi k"
  by (simp add: round_at_def)

lemma round_at_power: "k \<le> e \<Longrightarrow> round_at k (2 powi e) = 2 powi e"
proof -
  assume "k \<le> e"
  then have "(2::rat) powi (e - k) = of_int (2 ^ nat (e - k))" by (simp add: powi2_nat)
  moreover have "(2::rat) powi e = 2 powi (e - k) * 2 powi k" by (simp flip: power_int_add)
  ultimately have "(2::rat) powi e = of_int (2 ^ nat (e - k)) * 2 powi k" by (simp only:)
  then show ?thesis by (metis round_at_grid)
qed

lemma round53_0 [simp]: "round53 0 = 0"
  by (simp add: round53_def)

lemma round53_minus: "round53 (- q) = - round53 q"
  by (simp add: round53_def round_at_def ulp_exp_def rne_minus)

lemma round53_nonneg: "0 \<le> q \<Longrightarrow> 0 \<le> round53 q"
  using round_at_mono [of 0 q "ulp_exp q"] round_at_grid [of "ulp_exp q" 0]
  by (auto simp: round53_def)

lemma round53_mono_pos:
  assumes "0 < p" "p \<le> q"
  shows "round53 p \<le> round53 q"
proof -
  define a where "a = ulp_exp p"
  define b where "b = ulp_exp q"
  have r: "round53 p = round_at a p" "round53 q = round_at b q"
    using assms by (auto simp: round53_def a_def b_def)
  have ab: "a \<le> b" using log2_floor_mono [OF assms] assms by (auto simp: a_def b_def ulp_exp_def)
  show ?thesis
  proof (cases "a = b")
    case True
    then show ?thesis using assms by (simp add: r round_at_mono)
  next
    case False
    define e where "e = log2_floor q"
    from False ab have b: "b = e - 52" and pe: "log2_floor p + 1 \<le> e"
      using assms by (auto simp: a_def b_def e_def ulp_exp_def)
    have "p \<le> 2 powi (log2_floor p + 1)" using log2_floor_bounds(2) [OF assms(1)] by simp
    also have "(2::rat) powi (log2_floor p + 1) \<le> 2 powi e" using pe by (simp only: powi2_le)
    finally have "round_at a p \<le> round_at a (2 powi e)" by (rule round_at_mono)
    also have "\<dots> = 2 powi e" using ab b by (intro round_at_power) auto
    also have "\<dots> = round_at b (2 powi e)" using b by (intro round_at_power [symmetric]) auto
    also have "\<dots> \<le> round_at b q"
      using log2_floor_bounds(1) [of q] assms by (intro round_at_mono) (auto simp: e_def)
    finally show ?thesis by (simp add: r)
  qed
qed

lemma round53_mono: "p \<le> q \<Longrightarrow> round53 p \<le> round53 q"
proof -
  assume pq: "p \<le> q"
  consider "0 < p" | "p \<le> 0" "0 \<le> q" | "q < 0" by linarith
  then show ?thesis
  proof cases
    case 1
    then show ?thesis using pq by (rule round53_mono_pos)
  next
    case 2
    then have "0 \<le> round53 (- p)" "0 \<le> round53 q" by (auto intro: round53_nonneg)
    then show ?thesis by (simp add: round53_minus)
  next
    case 3
    then have "round53 (- q) \<le> round53 (- p)" using pq by (intro round53_mono_pos) auto
    then show ?thesis by (simp add: round53_minus)
  qed
qed

lemma round53_power: "- 1074 \<le> j \<Longrightarrow> round53 (2 powi j) = 2 powi j"
proof -
  assume j: "- 1074 \<le> j"
  have "log2_floor (2 powi j) = j" by (rule log2_floor_unique) simp_all
  then have "ulp_exp (2 powi j) \<le> j" using j by (simp add: ulp_exp_def)
  then show ?thesis by (simp add: round53_def round_at_power)
qed

lemma round53_idem_pos:
  assumes "0 < q"
  shows "round53 (round53 q) = round53 q"
proof -
  define k where "k = ulp_exp q"
  define e where "e = log2_floor q"
  define m where "m = rne (q / 2 powi k)"
  have v: "round53 q = of_int m * 2 powi k"
    using assms by (auto simp: round53_def round_at_def k_def m_def)
  have ke: "k = max (e - 52) (- 1074)" using assms by (simp add: k_def e_def ulp_exp_def)
  have q: "2 powi e \<le> q" "q < 2 powi (e + 1)"
    using log2_floor_bounds [OF assms] by (auto simp: e_def)
  consider "round53 q = 0" | "round53 q \<noteq> 0" "ulp_exp (round53 q) = k"
    | "round53 q = 2 powi (e + 1)" "k = e - 52" | "round53 q = 2 powi k" "k = - 1074"
  proof (cases "e \<ge> k")
    case True
    have lo: "2 powi e \<le> round53 q"
      using round_at_mono [OF q(1), of k] round_at_power [OF True] assms by (simp add: round53_def k_def)
    have hi: "round53 q \<le> 2 powi (e + 1)"
      using round_at_mono [of q "2 powi (e + 1)" k] round_at_power [of k "e + 1"] True q assms
      by (simp add: round53_def k_def)
    have pos: "0 < round53 q" using lo powi2_pos [of e] by linarith
    show thesis
    proof (cases "round53 q = 2 powi (e + 1)")
      case False
      with hi have "round53 q < 2 powi (e + 1)" by simp
      from log2_floor_unique [OF lo this] pos ke have "ulp_exp (round53 q) = k"
        by (simp add: ulp_exp_def)
      with pos that(2) show thesis by simp
    next
      case True
      then show thesis using that(2) [of] that(3) ke pos log2_floor_unique [of "e + 1" "round53 q"]
        by (cases "k = e - 52") (auto simp: ulp_exp_def)
    qed
  next
    case False
    then have k: "k = - 1074" using ke by simp
    have "q \<le> 2 powi k" using q(2) False powi2_le [of "e + 1" k] by linarith
    then have "round53 q \<le> 2 powi k"
      using round_at_mono [of q "2 powi k" k] round_at_power [of k k] assms by (simp add: round53_def k_def)
    then have "(of_int m :: rat) \<le> 1" using mult_le_cancel_right_pos [of "2 powi k" "of_int m :: rat" 1] by (simp add: v)
    then have "m \<le> 1" by simp
    moreover have "0 \<le> (of_int m :: rat)"
      using round53_nonneg [of q] assms mult_le_cancel_right_pos [of "2 powi k" 0 "of_int m :: rat"] by (simp add: v)
    then have "0 \<le> m" by simp
    ultimately have "m = 0 \<or> m = 1" by linarith
    then show thesis using that(1) that(4) k by (auto simp: v)
  qed
  then show ?thesis
  proof cases
    case 2
    then show ?thesis by (simp add: round53_def [of "round53 q"]) (simp add: v)
  next
    case 3
    then show ?thesis using ke by (simp add: round53_power)
  next
    case 4
    then show ?thesis by (simp only: round53_power order_refl)
  qed simp
qed

lemma round53_idem [simp]: "round53 (round53 q) = round53 q"
proof -
  consider "q = 0" | "0 < q" | "0 < - q" by linarith
  then show ?thesis
  proof cases
    case 3
    from round53_idem_pos [OF this] show ?thesis by (simp add: round53_minus)
  qed (simp_all add: round53_idem_pos)
qed

section \<open>Values and operations\<close>

datatype f64 = F64_NaN | F64_Inf bool | Fin rat

text \<open>\<open>F64_Inf True\<close> is minus infinity.\<close>

definition f64_limit :: rat where
  "f64_limit = 2 powi 1024"

lemma f64_limit_pos [simp]: "0 < f64_limit" "\<not> f64_limit \<le> 0"
  by (simp_all only: f64_limit_def powi2_pos not_le)

definition f64_of_rat :: "rat \<Rightarrow> f64" where
  "f64_of_rat q = (let v = round53 q in if f64_limit \<le> \<bar>v\<bar> then F64_Inf (v < 0) else Fin v)"

fun is_finite :: "f64 \<Rightarrow> bool" where
  "is_finite (Fin q) = True"
| "is_finite _ = False"

fun f64_neg :: "f64 \<Rightarrow> f64" where
  "f64_neg F64_NaN = F64_NaN"
| "f64_neg (F64_Inf s) = F64_Inf (\<not> s)"
| "f64_neg (Fin q) = Fin (- q)"

fun f64_abs :: "f64 \<Rightarrow> f64" where
  "f64_abs F64_NaN = F64_NaN"
| "f64_abs (F64_Inf s) = F64_Inf False"
| "f64_abs (Fin q) = Fin \<bar>q\<bar>"

fun f64_add :: "f64 \<Rightarrow> f64 \<Rightarrow> f64" where
  "f64_add (Fin p) (Fin q) = f64_of_rat (p + q)"
| "f64_add F64_NaN _ = F64_NaN"
| "f64_add _ F64_NaN = F64_NaN"
| "f64_add (F64_Inf s) (F64_Inf t) = (if s = t then F64_Inf s else F64_NaN)"
| "f64_add (F64_Inf s) (Fin q) = F64_Inf s"
| "f64_add (Fin p) (F64_Inf t) = F64_Inf t"

definition f64_sub :: "f64 \<Rightarrow> f64 \<Rightarrow> f64" where
  "f64_sub a b = f64_add a (f64_neg b)"

fun f64_mul :: "f64 \<Rightarrow> f64 \<Rightarrow> f64" where
  "f64_mul (Fin p) (Fin q) = f64_of_rat (p * q)"
| "f64_mul F64_NaN _ = F64_NaN"
| "f64_mul _ F64_NaN = F64_NaN"
| "f64_mul (F64_Inf s) (F64_Inf t) = F64_Inf (s \<noteq> t)"
| "f64_mul (F64_Inf s) (Fin q) = (if q = 0 then F64_NaN else F64_Inf (s \<noteq> (q < 0)))"
| "f64_mul (Fin p) (F64_Inf t) = (if p = 0 then F64_NaN else F64_Inf (t \<noteq> (p < 0)))"

text \<open>\<open>x / 2.0\<close>, the only division of the modelled code.\<close>

fun f64_half :: "f64 \<Rightarrow> f64" where
  "f64_half (Fin q) = f64_of_rat (q / 2)"
| "f64_half x = x"

fun f64_le :: "f64 \<Rightarrow> f64 \<Rightarrow> bool" where
  "f64_le (Fin p) (Fin q) = (p \<le> q)"
| "f64_le F64_NaN _ = False"
| "f64_le _ F64_NaN = False"
| "f64_le (F64_Inf s) (F64_Inf t) = (s \<or> \<not> t)"
| "f64_le (F64_Inf s) (Fin q) = s"
| "f64_le (Fin p) (F64_Inf t) = (\<not> t)"

definition f64_eq :: "f64 \<Rightarrow> f64 \<Rightarrow> bool" where
  "f64_eq a b \<longleftrightarrow> a \<noteq> F64_NaN \<and> a = b"

definition f64_lt :: "f64 \<Rightarrow> f64 \<Rightarrow> bool" where
  "f64_lt a b \<longleftrightarrow> f64_le a b \<and> \<not> f64_eq a b"

text \<open>\<open>f64::round\<close> rounds half away from zero; \<open>as i64\<close> truncates and saturates.\<close>

fun f64_round :: "f64 \<Rightarrow> f64" where
  "f64_round (Fin q) = Fin (sgn q * of_int \<lfloor>\<bar>q\<bar> + 1 / 2\<rfloor>)"
| "f64_round x = x"

definition i64_clamp :: "int \<Rightarrow> int" where
  "i64_clamp n = max (- (2 ^ 63)) (min (2 ^ 63 - 1) n)"

fun f64_as_i64 :: "f64 \<Rightarrow> int" where
  "f64_as_i64 F64_NaN = 0"
| "f64_as_i64 (F64_Inf s) = (if s then - (2 ^ 63) else 2 ^ 63 - 1)"
| "f64_as_i64 (Fin q) = i64_clamp (if q < 0 then - \<lfloor>- q\<rfloor> else \<lfloor>q\<rfloor>)"

text \<open>
  \<open>wf_f64\<close>: the value is one a 64-bit float can hold.  Every operation returns such a value.
\<close>

fun wf_f64 :: "f64 \<Rightarrow> bool" where
  "wf_f64 (Fin q) = (round53 q = q \<and> \<bar>q\<bar> < f64_limit)"
| "wf_f64 _ = True"

lemma f64_of_rat_wf [simp]: "wf_f64 (f64_of_rat q)"
  by (simp add: f64_of_rat_def Let_def)

lemma f64_add_wf [simp]: "wf_f64 (f64_add a b)"
  by (cases "(a, b)" rule: f64_add.cases) auto

lemma f64_mul_wf [simp]: "wf_f64 (f64_mul a b)"
  by (cases "(a, b)" rule: f64_mul.cases) auto

lemma f64_of_rat_mono: "p \<le> q \<Longrightarrow> f64_le (f64_of_rat p) (f64_of_rat q)"
  using round53_mono [of p q] by (auto simp: f64_of_rat_def Let_def)

lemma f64_of_rat_exact: "wf_f64 (Fin q) \<Longrightarrow> f64_of_rat q = Fin q"
  by (simp add: f64_of_rat_def Let_def)

lemma f64_of_rat_small: "\<bar>q\<bar> \<le> 2 powi j \<Longrightarrow> - 1074 \<le> j \<Longrightarrow> j < 1024 \<Longrightarrow> f64_of_rat q = Fin (round53 q)"
proof -
  assume q: "\<bar>q\<bar> \<le> 2 powi j" and j: "- 1074 \<le> j" "j < 1024"
  then have "round53 q \<le> round53 (2 powi j)" "round53 (- (2 powi j)) \<le> round53 q"
    by (auto intro!: round53_mono)
  then have "\<bar>round53 q\<bar> \<le> 2 powi j" using j by (simp add: round53_power round53_minus)
  also have "(2::rat) powi j < 2 powi 1024" using j by (simp only: powi2_less)
  finally show ?thesis by (simp add: f64_of_rat_def Let_def f64_limit_def del: power_int_numeral)
qed

lemma f64_of_rat_0 [simp]: "f64_of_rat 0 = Fin 0"
  by (simp add: f64_of_rat_def)

lemma f64_abs_of_rat_minus: "f64_abs (f64_of_rat (- q)) = f64_abs (f64_of_rat q)"
  by (simp add: f64_of_rat_def Let_def round53_minus)

lemma f64_le_refl_iff: "f64_le a a \<longleftrightarrow> a \<noteq> F64_NaN"
  by (cases a) auto

lemma f64_le_trans: "f64_le a b \<Longrightarrow> f64_le b c \<Longrightarrow> f64_le a c"
  by (cases a; cases b; cases c) auto

lemma wf_power:
  assumes "- 1074 \<le> j" "j < 1024"
  shows "wf_f64 (Fin (2 powi j)) \<and> wf_f64 (Fin (- (2 powi j)))"
proof -
  have "(2::rat) powi j < f64_limit" unfolding f64_limit_def using assms(2) by (simp only: powi2_less)
  then show ?thesis using assms(1) by (simp add: round53_power round53_minus)
qed

end
