(* ===== verification/Json.thy ===== *)
theory Json
  imports F64
begin

text \<open>
  The structured \<open>details\<close> values (\<open>serde_json::Value\<close>) that errors and results carry, with the
  accessors the code uses, and the interface of a token vocabulary: an enum that is written as a
  string and read back (\<open>serde\<close> \<open>rename_all\<close> or a hand-written \<open>as_str\<close>).  An object is an
  association list with distinct keys; the code only looks keys up and inserts, so the order of
  the keys is not observable.
\<close>

datatype json =
    JNull
  | JBool bool
  | JInt int
  | JFloat f64
  | JStr string
  | JArr "json list"
  | JObj "(string \<times> json) list"

fun alist_insert :: "'k \<Rightarrow> 'v \<Rightarrow> ('k \<times> 'v) list \<Rightarrow> ('k \<times> 'v) list" where
  "alist_insert k v [] = [(k, v)]"
| "alist_insert k v ((k', w) # kvs) =
     (if k' = k then (k, v) # kvs else (k', w) # alist_insert k v kvs)"

fun json_get :: "string \<Rightarrow> json \<Rightarrow> json option" where
  "json_get k (JObj kvs) = map_of kvs k"
| "json_get k _ = None"

text \<open>\<open>value["k"]\<close>: a missing key reads as \<open>Null\<close>.\<close>

definition json_index :: "json \<Rightarrow> string \<Rightarrow> json" where
  "json_index j k = unwrap_or (json_get k j) JNull"

fun json_as_bool :: "json \<Rightarrow> bool option" where
  "json_as_bool (JBool b) = Some b"
| "json_as_bool _ = None"

fun json_as_str :: "json \<Rightarrow> string option" where
  "json_as_str (JStr s) = Some s"
| "json_as_str _ = None"

fun json_as_u64 :: "json \<Rightarrow> nat option" where
  "json_as_u64 (JInt n) = (if 0 \<le> n \<and> n \<le> int u64_max then Some (nat n) else None)"
| "json_as_u64 _ = None"

fun json_as_array :: "json \<Rightarrow> json list option" where
  "json_as_array (JArr js) = Some js"
| "json_as_array _ = None"

fun json_is_object :: "json \<Rightarrow> bool" where
  "json_is_object (JObj _) = True"
| "json_is_object _ = False"

text \<open>\<open>as_object_mut\<close> followed by \<open>insert\<close>: nothing happens on a value that is no object.\<close>

fun json_insert :: "string \<Rightarrow> json \<Rightarrow> json \<Rightarrow> json" where
  "json_insert k v (JObj kvs) = JObj (alist_insert k v kvs)"
| "json_insert k v j = j"

definition json_opt :: "('a \<Rightarrow> json) \<Rightarrow> 'a option \<Rightarrow> json" where
  "json_opt f x = (case x of None \<Rightarrow> JNull | Some v \<Rightarrow> f v)"

lemma map_of_alist_insert [simp]: "map_of (alist_insert k v kvs) = (map_of kvs)(k \<mapsto> v)"
  by (induction kvs) (auto simp: fun_eq_iff)

lemma json_get_insert:
  "json_is_object j \<Longrightarrow> json_get k (json_insert k' v j) = (if k = k' then Some v else json_get k j)"
  by (cases j) auto

lemma json_is_object_insert [simp]: "json_is_object (json_insert k v j) = json_is_object j"
  by (cases j) auto

lemma json_get_object: "json_get k j = Some v \<Longrightarrow> json_is_object j"
  by (cases j) auto

section \<open>Token vocabularies\<close>

text \<open>
  \<open>to_token\<close> writes a value, \<open>of_token\<close> reads one.  A reader accepts what the writer wrote; an
  exact reader accepts nothing else, so that the tokens and the values are in bijection.
\<close>

locale token_reader =
  fixes to_token :: "'a \<Rightarrow> string"
    and of_token :: "string \<Rightarrow> 'a option"
  assumes of_to: "of_token (to_token x) = Some x"
begin

lemma to_token_inject: "to_token x = to_token y \<longleftrightarrow> x = y"
  by (metis of_to option.inject)

lemma to_token_inj: "inj to_token"
  by (simp add: inj_def to_token_inject)

lemma read_written_list: "those (map (of_token \<circ> to_token) xs) = Some xs"
  by (induction xs) (simp_all add: of_to)

end

locale token_codec = token_reader to_token of_token
  for to_token :: "'a \<Rightarrow> string" and of_token :: "string \<Rightarrow> 'a option" +
  assumes to_of: "of_token s = Some x \<Longrightarrow> s = to_token x"
begin

lemma of_token_iff: "of_token s = Some x \<longleftrightarrow> s = to_token x"
  using of_to to_of by blast

lemma of_token_None_iff: "of_token s = None \<longleftrightarrow> s \<notin> range to_token"
  by (metis not_None_eq of_token_iff rangeE rangeI)

lemma of_token_inj: "of_token s = Some x \<Longrightarrow> of_token t = Some x \<Longrightarrow> s = t"
  by (metis of_token_iff)

end

text \<open>A reader given by a table of tokens; the table has to list every value under its token.\<close>

lemma map_of_codec:
  assumes "\<And>x. map_of tab (w x) = Some x" and "list_all (\<lambda>(t, x). t = w x) tab"
  shows "token_codec w (map_of tab)"
proof
  show "map_of tab (w x) = Some x" for x by (rule assms(1))
  show "s = w x" if "map_of tab s = Some x" for s x
    using map_of_SomeD [OF that] assms(2) by (auto simp: list_all_iff)
qed

end
