(* ===== verification/Roles.thy ===== *)
theory Roles
  imports Json
begin

text \<open>
  The role vocabulary: \<open>role.rs\<close> (the \<open>Role\<close> enum, its wire names and \<open>from_token\<close>) and
  \<open>roles.rs\<close> (the roles that receive refs, the aliases a caller may use in a role filter, and
  the classes of roles the rest of the code asks for).
\<close>

section \<open>The enum\<close>

datatype (plugins only: size) role =
    RAlert | RAlertDialog | RApplication | RArticle | RBanner | RBrowser | RButton | RCell |
  RCheckbox | RColorWell | RColumn | RComboBox | RComplementary | RContentInfo | RDateField |
  RDefinition | RDialog | RDisclosure | RDockItem | RDocument | RDrawer | RForm | RGrid |
  RGroup | RHandle | RHeading | RHelpTag | RImage | RIncrementor | RLayoutItem |
  RLevelIndicator | RLink | RList | RListBox | RLog | RMain | RMarquee | RMatte | RMath |
  RMenu | RMenuButton | RMenuItem | RNavigation | RNote | ROption | ROutline | RPage |
  RParagraph | RPopover | RProgressBar | RRadioButton | RRadioGroup | RRegion |
  RRelevanceIndicator | RRow | RRuler | RRulerMarker | RScrollArea | RScrollBar | RSearch |
  RSeparator | RSheet | RSlider | RSplitter | RStaticText | RStatus | RSwitch | RTab |
  RTabList | RTabPanel | RTable | RTextField | RTerm | RTimeField | RTimer | RToolbar |
  RTooltip | RTreeItem | RWebArea | RWindow | RUnknown

primrec role_as_str :: "role \<Rightarrow> string" where
  "role_as_str RAlert = ''alert''"
| "role_as_str RAlertDialog = ''alertdialog''"
| "role_as_str RApplication = ''application''"
| "role_as_str RArticle = ''article''"
| "role_as_str RBanner = ''banner''"
| "role_as_str RBrowser = ''browser''"
| "role_as_str RButton = ''button''"
| "role_as_str RCell = ''cell''"
| "role_as_str RCheckbox = ''checkbox''"
| "role_as_str RColorWell = ''colorwell''"
| "role_as_str RColumn = ''column''"
| "role_as_str RComboBox = ''combobox''"
| "role_as_str RComplementary = ''complementary''"
| "role_as_str RContentInfo = ''contentinfo''"
| "role_as_str RDateField = ''datefield''"
| "role_as_str RDefinition = ''definition''"
| "role_as_str RDialog = ''dialog''"
| "role_as_str RDisclosure = ''disclosure''"
| "role_as_str RDockItem = ''dockitem''"
| "role_as_str RDocument = ''document''"
| "role_as_str RDrawer = ''drawer''"
| "role_as_str RForm = ''form''"
| "role_as_str RGrid = ''grid''"
| "role_as_str RGroup = ''group''"
| "role_as_str RHandle = ''handle''"
| "role_as_str RHeading = ''heading''"
| "role_as_str RHelpTag = ''helptag''"
| "role_as_str RImage = ''image''"
| "role_as_str RIncrementor = ''incrementor''"
| "role_as_str RLayoutItem = ''layoutitem''"
| "role_as_str RLevelIndicator = ''levelindicator''"
| "role_as_str RLink = ''link''"
| "role_as_str RList = ''list''"
| "role_as_str RListBox = ''listbox''"
| "role_as_str RLog = ''log''"
| "role_as_str RMain = ''main''"
| "role_as_str RMarquee = ''marquee''"
| "role_as_str RMatte = ''matte''"
| "role_as_str RMath = ''math''"
| "role_as_str RMenu = ''menu''"
| "role_as_str RMenuButton = ''menubutton''"
| "role_as_str RMenuItem = ''menuitem''"
| "role_as_str RNavigation = ''navigation''"
| "role_as_str RNote = ''note''"
| "role_as_str ROption = ''option''"
| "role_as_str ROutline = ''outline''"
| "role_as_str RPage = ''page''"
| "role_as_str RParagraph = ''paragraph''"
| "role_as_str RPopover = ''popover''"
| "role_as_str RProgressBar = ''progressbar''"
| "role_as_str RRadioButton = ''radiobutton''"
| "role_as_str RRadioGroup = ''radiogroup''"
| "role_as_str RRegion = ''region''"
| "role_as_str RRelevanceIndicator = ''relevanceindicator''"
| "role_as_str RRow = ''row''"
| "role_as_str RRuler = ''ruler''"
| "role_as_str RRulerMarker = ''rulermarker''"
| "role_as_str RScrollArea = ''scrollarea''"
| "role_as_str RScrollBar = ''scrollbar''"
| "role_as_str RSearch = ''search''"
| "role_as_str RSeparator = ''separator''"
| "role_as_str RSheet = ''sheet''"
| "role_as_str RSlider = ''slider''"
| "role_as_str RSplitter = ''splitter''"
| "role_as_str RStaticText = ''statictext''"
| "role_as_str RStatus = ''status''"
| "role_as_str RSwitch = ''switch''"
| "role_as_str RTab = ''tab''"
| "role_as_str RTabList = ''tablist''"
| "role_as_str RTabPanel = ''tabpanel''"
| "role_as_str RTable = ''table''"
| "role_as_str RTextField = ''textfield''"
| "role_as_str RTerm = ''term''"
| "role_as_str RTimeField = ''timefield''"
| "role_as_str RTimer = ''timer''"
| "role_as_str RToolbar = ''toolbar''"
| "role_as_str RTooltip = ''tooltip''"
| "role_as_str RTreeItem = ''treeitem''"
| "role_as_str RWebArea = ''webarea''"
| "role_as_str RWindow = ''window''"
| "role_as_str RUnknown = ''unknown''"

text \<open>The arms of \<open>Role::from_token\<close>, in their order.\<close>

definition role_table :: "(string \<times> role) list" where
  "role_table =
     [(''alert'', RAlert), (''alertdialog'', RAlertDialog), (''application'', RApplication),
      (''article'', RArticle), (''banner'', RBanner), (''browser'', RBrowser),
      (''button'', RButton), (''cell'', RCell), (''checkbox'', RCheckbox),
      (''colorwell'', RColorWell), (''column'', RColumn), (''combobox'', RComboBox),
      (''complementary'', RComplementary), (''contentinfo'', RContentInfo),
      (''datefield'', RDateField), (''definition'', RDefinition), (''dialog'', RDialog),
      (''disclosure'', RDisclosure), (''dockitem'', RDockItem), (''document'', RDocument),
      (''drawer'', RDrawer), (''form'', RForm), (''grid'', RGrid), (''group'', RGroup),
      (''handle'', RHandle), (''heading'', RHeading), (''helptag'', RHelpTag),
      (''image'', RImage), (''incrementor'', RIncrementor), (''layoutitem'', RLayoutItem),
      (''levelindicator'', RLevelIndicator), (''link'', RLink), (''list'', RList),
      (''listbox'', RListBox), (''log'', RLog), (''main'', RMain), (''marquee'', RMarquee),
      (''matte'', RMatte), (''math'', RMath), (''menu'', RMenu), (''menubutton'', RMenuButton),
      (''menuitem'', RMenuItem), (''navigation'', RNavigation), (''note'', RNote),
      (''option'', ROption), (''outline'', ROutline), (''page'', RPage),
      (''paragraph'', RParagraph), (''popover'', RPopover), (''progressbar'', RProgressBar),
      (''radiobutton'', RRadioButton), (''radiogroup'', RRadioGroup), (''region'', RRegion),
      (''relevanceindicator'', RRelevanceIndicator), (''row'', RRow), (''ruler'', RRuler),
      (''rulermarker'', RRulerMarker), (''scrollarea'', RScrollArea),
      (''scrollbar'', RScrollBar), (''search'', RSearch), (''separator'', RSeparator),
      (''sheet'', RSheet), (''slider'', RSlider), (''splitter'', RSplitter),
      (''statictext'', RStaticText), (''status'', RStatus), (''switch'', RSwitch),
      (''tab'', RTab), (''tablist'', RTabList), (''tabpanel'', RTabPanel), (''table'', RTable),
      (''textfield'', RTextField), (''term'', RTerm), (''timefield'', RTimeField),
      (''timer'', RTimer), (''toolbar'', RToolbar), (''tooltip'', RTooltip),
      (''treeitem'', RTreeItem), (''webarea'', RWebArea), (''window'', RWindow)]"

definition from_token :: "string \<Rightarrow> role" where
  "from_token s =
     (case map_of role_table (to_ascii_lowercase (trim s)) of Some r \<Rightarrow> r | None \<Rightarrow> RUnknown)"

definition role_is_interactive :: "role \<Rightarrow> bool" where
  "role_is_interactive r \<longleftrightarrow>
     r \<in> {RButton, RCell, RCheckbox, RColorWell, RComboBox, RDockItem, RIncrementor, RLink,
        RListBox, RMenuButton, RMenuItem, ROption, RRadioButton, RSlider, RSwitch, RTab,
        RTextField, RTreeItem}"

definition is_transparent_wrapper :: "role \<Rightarrow> bool" where
  "is_transparent_wrapper r \<longleftrightarrow> r = RGroup"

definition is_canonical :: "string \<Rightarrow> bool" where
  "is_canonical s \<longleftrightarrow>
     (let n = to_ascii_lowercase (trim s) in n = ''unknown'' \<or> from_token n \<noteq> RUnknown)"

section \<open>Role classes and role queries\<close>

definition INTERACTIVE_ROLES :: "string list" where
  "INTERACTIVE_ROLES =
     [''button'', ''cell'', ''checkbox'', ''colorwell'', ''combobox'', ''dockitem'',
      ''incrementor'', ''link'', ''listbox'', ''menubutton'', ''menuitem'', ''option'',
      ''radiobutton'', ''slider'', ''switch'', ''tab'', ''textfield'', ''treeitem'']"

definition role_query_alias :: "string \<Rightarrow> role option" where
  "role_query_alias = map_of
     [(''gridcell'', RCell), (''img'', RImage), (''radio'', RRadioButton),
      (''searchbox'', RTextField), (''searchfield'', RTextField), (''textarea'', RTextField),
      (''textbox'', RTextField), (''spinbutton'', RIncrementor), (''togglebutton'', RButton),
      (''tree'', ROutline)]"

definition normalize_role_query :: "string \<Rightarrow> string" where
  "normalize_role_query s =
     (let n = to_ascii_lowercase (trim s)
      in role_as_str (case role_query_alias n of Some r \<Rightarrow> r | None \<Rightarrow> from_token n))"

definition is_valid_role_query :: "string \<Rightarrow> bool" where
  "is_valid_role_query s \<longleftrightarrow>
     (let n = to_ascii_lowercase (trim s)
      in role_query_alias n \<noteq> None \<or> (n \<noteq> ''unknown'' \<and> is_canonical n))"

definition is_interactive_role :: "string \<Rightarrow> bool" where
  "is_interactive_role s \<longleftrightarrow> role_is_interactive (from_token s)"

definition is_canonical_role :: "string \<Rightarrow> bool" where
  "is_canonical_role s \<longleftrightarrow> is_canonical s"

definition is_toggleable_role :: "string \<Rightarrow> bool" where
  "is_toggleable_role s \<longleftrightarrow> from_token s \<in> {RCheckbox, RSwitch, RRadioButton}"

definition is_expandable_role :: "string \<Rightarrow> bool" where
  "is_expandable_role s \<longleftrightarrow> from_token s \<in> {RComboBox, RMenuButton, RTreeItem, RDisclosure}"

definition is_mutable_value_role :: "string \<Rightarrow> bool" where
  "is_mutable_value_role s \<longleftrightarrow> from_token s \<in>
     {RComboBox, RCheckbox, RHandle, RIncrementor, RListBox, RRadioButton, RScrollBar, RSlider,
      RSwitch, RTextField}"

section \<open>The names are read back\<close>

lemma role_as_str_plain [simp]: "plain_lower (role_as_str r)"
  by (cases r) (simp_all add: plain_lower_def)

definition known_roles :: "role list" where
  "known_roles =
     [RAlert, RAlertDialog, RApplication, RArticle, RBanner, RBrowser, RButton, RCell,
      RCheckbox, RColorWell, RColumn, RComboBox, RComplementary, RContentInfo, RDateField,
      RDefinition, RDialog, RDisclosure, RDockItem, RDocument, RDrawer, RForm, RGrid, RGroup,
      RHandle, RHeading, RHelpTag, RImage, RIncrementor, RLayoutItem, RLevelIndicator, RLink,
      RList, RListBox, RLog, RMain, RMarquee, RMatte, RMath, RMenu, RMenuButton, RMenuItem,
      RNavigation, RNote, ROption, ROutline, RPage, RParagraph, RPopover, RProgressBar,
      RRadioButton, RRadioGroup, RRegion, RRelevanceIndicator, RRow, RRuler, RRulerMarker,
      RScrollArea, RScrollBar, RSearch, RSeparator, RSheet, RSlider, RSplitter, RStaticText,
      RStatus, RSwitch, RTab, RTabList, RTabPanel, RTable, RTextField, RTerm, RTimeField,
      RTimer, RToolbar, RTooltip, RTreeItem, RWebArea, RWindow]"

lemma known_roles_complete: "r \<noteq> RUnknown \<Longrightarrow> r \<in> set known_roles"
  by (cases r) (simp_all add: known_roles_def)

lemma role_table_map: "role_table = map (\<lambda>r. (role_as_str r, r)) known_roles"
  by (simp add: role_table_def known_roles_def)

lemma role_table_as_str: "list_all (\<lambda>(t, r). t = role_as_str r) role_table"
  by (simp add: role_table_map list_all_iff)

lemma role_table_distinct: "distinct (map fst role_table)"
  by (simp add: role_table_def)

lemma role_table_total: "r \<noteq> RUnknown \<Longrightarrow> map_of role_table (role_as_str r) = Some r"
  by (rule map_of_is_SomeI [OF role_table_distinct])
    (auto simp: role_table_map dest: known_roles_complete)

lemma role_table_unknown: "map_of role_table ''unknown'' = None"
  by (simp add: role_table_def)

lemma from_token_as_str [simp]: "from_token (role_as_str r) = r"
proof (cases "r = RUnknown")
  case True
  then show ?thesis
    using role_as_str_plain [of RUnknown]
    by (simp add: from_token_def trim_plain lower_plain role_table_unknown)
next
  case False
  then show ?thesis
    by (simp add: from_token_def trim_plain lower_plain role_table_total)
qed

interpretation role_reader: token_reader role_as_str "\<lambda>s. Some (from_token s)"
  by unfold_locales simp

lemma from_token_normal: "from_token s = r \<Longrightarrow> r \<noteq> RUnknown \<Longrightarrow> to_ascii_lowercase (trim s) = role_as_str r"
  using role_table_as_str
  by (auto simp: from_token_def list_all_iff dest!: map_of_SomeD split: option.splits)

lemma role_as_str_inj: "role_as_str r = role_as_str q \<longleftrightarrow> r = q"
  by (rule role_reader.to_token_inject)

lemma is_canonical_as_str [simp]: "is_canonical (role_as_str r)"
proof (cases "r = RUnknown")
  case False
  then show ?thesis by (simp add: is_canonical_def Let_def trim_plain lower_plain)
next
  case True
  have "to_ascii_lowercase (trim (role_as_str RUnknown)) = role_as_str RUnknown"
    by (simp only: trim_plain lower_plain role_as_str_plain)
  then show ?thesis by (simp add: is_canonical_def True)
qed

section \<open>Role queries\<close>

lemma role_query_alias_as_str: "role_query_alias (role_as_str r) = None"
  by (cases r) (simp_all add: role_query_alias_def)

lemma role_query_alias_known: "role_query_alias s = Some r \<Longrightarrow> r \<noteq> RUnknown"
  by (auto simp: role_query_alias_def split: if_splits)

lemma from_token_lower_trim: "from_token (to_ascii_lowercase (trim s)) = from_token s"
  by (simp add: from_token_def trim_lower_trim)

text \<open>
  Every role is read back from its name.  A role query is valid exactly when it normalises to
  a name other than \<open>unknown\<close>; the result is the name of a role and normalising it again changes
  nothing.
\<close>

theorem role_query_normal_form:
  "from_token (role_as_str r) = r \<and>
   (is_valid_role_query s \<longleftrightarrow> normalize_role_query s \<noteq> ''unknown'') \<and>
   is_canonical (normalize_role_query s) \<and>
   normalize_role_query (normalize_role_query s) = normalize_role_query s"
proof -
  let ?n = "to_ascii_lowercase (trim s)"
  have unk: "role_as_str q = ''unknown'' \<longleftrightarrow> q = RUnknown" for q
    using role_as_str_inj [of q RUnknown] by simp
  have un: "from_token ''unknown'' = RUnknown" using from_token_as_str [of RUnknown] by simp
  have "is_valid_role_query s \<longleftrightarrow> role_query_alias ?n \<noteq> None \<or> from_token s \<noteq> RUnknown"
    using un by (auto simp: is_valid_role_query_def is_canonical_def Let_def trim_lower_trim
        from_token_lower_trim)
      (metis from_token_lower_trim un)
  then have "is_valid_role_query s \<longleftrightarrow> normalize_role_query s \<noteq> ''unknown''"
    using role_query_alias_known
    by (auto simp: normalize_role_query_def Let_def unk from_token_lower_trim simp del: role_as_str.simps split: option.splits)
  moreover obtain q where "normalize_role_query s = role_as_str q" by (simp add: normalize_role_query_def Let_def)
  moreover have "normalize_role_query (role_as_str q) = role_as_str q" for q
    by (simp add: normalize_role_query_def Let_def trim_plain lower_plain role_query_alias_as_str del: role_as_str.simps)
  ultimately show ?thesis by (simp del: role_as_str.simps)
qed

end
