(* ===== verification/Policy.thy ===== *)
theory Policy
  imports Prelude
begin

text \<open>
  The interaction policy of a request (\<open>interaction_policy.rs\<close>) and the precondition core has to
  establish before a headed action (\<open>headed_requirement.rs\<close>).  Policies are ordered by what
  they permit; \<open>join\<close> is the least upper bound.
\<close>

record interaction_policy =
  allow_focus_steal :: bool
  allow_cursor_move :: bool

definition headless :: interaction_policy where
  "headless = \<lparr>allow_focus_steal = False, allow_cursor_move = False\<rparr>"

definition focus_fallback :: interaction_policy where
  "focus_fallback = \<lparr>allow_focus_steal = True, allow_cursor_move = False\<rparr>"

definition headed :: interaction_policy where
  "headed = \<lparr>allow_focus_steal = True, allow_cursor_move = True\<rparr>"

definition is_headed :: "interaction_policy \<Rightarrow> bool" where
  "is_headed p \<longleftrightarrow> allow_focus_steal p \<and> allow_cursor_move p"

definition join_policy :: "interaction_policy \<Rightarrow> interaction_policy \<Rightarrow> interaction_policy" where
  "join_policy p q =
     \<lparr>allow_focus_steal = allow_focus_steal p \<or> allow_focus_steal q,
      allow_cursor_move = allow_cursor_move p \<or> allow_cursor_move q\<rparr>"

datatype headed_requirement = ReqNone | FocusedWindow | FocusedWindowAndCursor

fun requires_focus :: "headed_requirement \<Rightarrow> bool" where
  "requires_focus ReqNone = False"
| "requires_focus FocusedWindow = True"
| "requires_focus FocusedWindowAndCursor = True"

fun requires_cursor :: "headed_requirement \<Rightarrow> bool" where
  "requires_cursor FocusedWindowAndCursor = True"
| "requires_cursor FocusedWindow = False"
| "requires_cursor ReqNone = False"

definition policy_le :: "interaction_policy \<Rightarrow> interaction_policy \<Rightarrow> bool" where
  "policy_le p q \<longleftrightarrow>
     (allow_focus_steal p \<longrightarrow> allow_focus_steal q) \<and> (allow_cursor_move p \<longrightarrow> allow_cursor_move q)"

text \<open>The interface of a join: an upper bound that is least for the order.\<close>

locale bounded_join =
  fixes le :: "'a \<Rightarrow> 'a \<Rightarrow> bool" and join :: "'a \<Rightarrow> 'a \<Rightarrow> 'a" and bot :: 'a
  assumes le_refl: "le x x"
    and le_trans: "le x y \<Longrightarrow> le y z \<Longrightarrow> le x z"
    and le_antisym: "le x y \<Longrightarrow> le y x \<Longrightarrow> x = y"
    and join_upper: "le x (join x y)" "le y (join x y)"
    and join_least: "le x z \<Longrightarrow> le y z \<Longrightarrow> le (join x y) z"
    and bot_least: "le bot x"
begin

lemma join_commute: "join x y = join y x"
  by (intro le_antisym join_least join_upper)

lemma join_idem: "join x x = x"
  by (intro le_antisym join_least join_upper le_refl)

lemma join_assoc: "join (join x y) z = join x (join y z)"
  by (meson le_antisym join_least join_upper le_trans)

lemma join_bot: "join bot x = x" "join x bot = x"
  by (auto intro!: le_antisym join_least join_upper le_refl bot_least)

lemma le_iff_join: "le x y \<longleftrightarrow> join x y = y"
  by (metis join_least join_upper le_antisym le_refl)

end

interpretation policy: bounded_join policy_le join_policy headless
  by unfold_locales (auto simp: policy_le_def join_policy_def headless_def)

lemma is_headed_iff: "is_headed p \<longleftrightarrow> p = headed"
  by (cases p) (auto simp: is_headed_def headed_def)

lemma is_headed_named [simp]: "is_headed headed" "\<not> is_headed headless" "\<not> is_headed focus_fallback"
  by (simp_all add: is_headed_def headed_def headless_def focus_fallback_def)

lemma requires_cursor_focus: "requires_cursor r \<Longrightarrow> requires_focus r"
  by (cases r) auto

section \<open>Properties\<close>

text \<open>
  Joining two interaction policies permits exactly what one of them permits: the join is
  allowed by a policy exactly when both are, and it is associative, commutative and idempotent
  with the headless policy as its unit.
\<close>

theorem join_policy_least_upper_bound:
  "(policy_le (join_policy p q) r \<longleftrightarrow> policy_le p r \<and> policy_le q r) \<and>
   join_policy (join_policy p q) r = join_policy p (join_policy q r) \<and>
   join_policy p q = join_policy q p \<and> join_policy p p = p \<and>
   join_policy headless p = p \<and> join_policy headed p = headed"
proof (intro conjI)
  show "policy_le (join_policy p q) r \<longleftrightarrow> policy_le p r \<and> policy_le q r"
    using policy.join_upper policy.join_least policy.le_trans by blast
  show "join_policy headed p = headed" by (simp add: join_policy_def headed_def)
qed (rule policy.join_assoc policy.join_commute policy.join_idem policy.join_bot)+

end
