(* ===== verification/Errors.thy ===== *)
theory Errors
  imports Json Policy
begin

text \<open>
  The error model of \<open>crates/core\<close>: the error codes and their wire names
  (\<open>error_code.rs\<close>), what an error says about delivery and about retrying
  (\<open>delivery_semantics.rs\<close>, \<open>delivery_disposition.rs\<close>, \<open>retry_disposition.rs\<close>,
  \<open>retryability.rs\<close>), the adapter error with its builders (\<open>adapter_error.rs\<close>) and the
  application error that wraps it (\<open>app_error.rs\<close>).
\<close>

section \<open>Codes\<close>

datatype error_code =
    PermDenied | ElementNotFound | AppNotFound | ActionFailed | ActionNotSupported | StaleRef
  | AmbiguousTarget | WindowNotFound | PlatformNotSupported | Timeout | InvalidArgs
  | NotificationNotFound | SnapshotNotFound | PolicyDenied | AppUnresponsive | Internal

fun error_code_as_str :: "error_code \<Rightarrow> string" where
  "error_code_as_str PermDenied = ''PERM_DENIED''"
| "error_code_as_str ElementNotFound = ''ELEMENT_NOT_FOUND''"
| "error_code_as_str AppNotFound = ''APP_NOT_FOUND''"
| "error_code_as_str ActionFailed = ''ACTION_FAILED''"
| "error_code_as_str ActionNotSupported = ''ACTION_NOT_SUPPORTED''"
| "error_code_as_str StaleRef = ''STALE_REF''"
| "error_code_as_str AmbiguousTarget = ''AMBIGUOUS_TARGET''"
| "error_code_as_str WindowNotFound = ''WINDOW_NOT_FOUND''"
| "error_code_as_str PlatformNotSupported = ''PLATFORM_NOT_SUPPORTED''"
| "error_code_as_str Timeout = ''TIMEOUT''"
| "error_code_as_str InvalidArgs = ''INVALID_ARGS''"
| "error_code_as_str NotificationNotFound = ''NOTIFICATION_NOT_FOUND''"
| "error_code_as_str SnapshotNotFound = ''SNAPSHOT_NOT_FOUND''"
| "error_code_as_str PolicyDenied = ''POLICY_DENIED''"
| "error_code_as_str AppUnresponsive = ''APP_UNRESPONSIVE''"
| "error_code_as_str Internal = ''INTERNAL''"

section \<open>Delivery and retry\<close>

datatype delivery_disposition =
    DispUnknown | DispNotDelivered | DispDeliveryUncertain | DispDeliveredUnverified
  | DispDeliveredVerified

datatype retry_disposition = RetryUnknown | RetrySafe | RetryUnsafe

datatype delivery_semantics =
    SemUnknown | NotDelivered | DeliveryUncertain | DeliveredUnverified | DeliveredVerified

fun delivery :: "delivery_semantics \<Rightarrow> delivery_disposition" where
  "delivery SemUnknown = DispUnknown"
| "delivery NotDelivered = DispNotDelivered"
| "delivery DeliveryUncertain = DispDeliveryUncertain"
| "delivery DeliveredUnverified = DispDeliveredUnverified"
| "delivery DeliveredVerified = DispDeliveredVerified"

fun retry :: "delivery_semantics \<Rightarrow> retry_disposition" where
  "retry NotDelivered = RetrySafe"
| "retry DeliveryUncertain = RetryUnsafe"
| "retry DeliveredUnverified = RetryUnsafe"
| "retry DeliveredVerified = RetryUnsafe"
| "retry SemUnknown = RetryUnknown"

text \<open>The \<open>serde(rename_all = "snake_case")\<close> names of the two dispositions.\<close>

fun delivery_token :: "delivery_disposition \<Rightarrow> string" where
  "delivery_token DispUnknown = ''unknown''"
| "delivery_token DispNotDelivered = ''not_delivered''"
| "delivery_token DispDeliveryUncertain = ''delivery_uncertain''"
| "delivery_token DispDeliveredUnverified = ''delivered_unverified''"
| "delivery_token DispDeliveredVerified = ''delivered_verified''"

definition delivery_of_token :: "string \<Rightarrow> delivery_disposition option" where
  "delivery_of_token = map_of
     [(''unknown'', DispUnknown), (''not_delivered'', DispNotDelivered),
      (''delivery_uncertain'', DispDeliveryUncertain),
      (''delivered_unverified'', DispDeliveredUnverified),
      (''delivered_verified'', DispDeliveredVerified)]"

fun retry_token :: "retry_disposition \<Rightarrow> string" where
  "retry_token RetryUnknown = ''unknown''"
| "retry_token RetrySafe = ''safe''"
| "retry_token RetryUnsafe = ''unsafe''"

definition retry_of_token :: "string \<Rightarrow> retry_disposition option" where
  "retry_of_token = map_of
     [(''unknown'', RetryUnknown), (''safe'', RetrySafe), (''unsafe'', RetryUnsafe)]"

interpretation delivery_codec: token_codec delivery_token delivery_of_token
  unfolding delivery_of_token_def
proof (rule map_of_codec, goal_cases)
  case (1 x)
  then show ?case by (cases x) simp_all
qed simp

interpretation retry_codec: token_codec retry_token retry_of_token
  unfolding retry_of_token_def
proof (rule map_of_codec, goal_cases)
  case (1 x)
  then show ?case by (cases x) simp_all
qed simp

datatype decode_error = MissingField string | BadVariant | InconsistentPair

definition serialize_semantics :: "delivery_semantics \<Rightarrow> json" where
  "serialize_semantics s =
     JObj [(''delivery'', JStr (delivery_token (delivery s))),
           (''retry'', JStr (retry_token (retry s)))]"

fun semantics_of_delivery :: "delivery_disposition \<Rightarrow> delivery_semantics" where
  "semantics_of_delivery DispUnknown = SemUnknown"
| "semantics_of_delivery DispNotDelivered = NotDelivered"
| "semantics_of_delivery DispDeliveryUncertain = DeliveryUncertain"
| "semantics_of_delivery DispDeliveredUnverified = DeliveredUnverified"
| "semantics_of_delivery DispDeliveredVerified = DeliveredVerified"

definition read_token :: "(string \<Rightarrow> 'a option) \<Rightarrow> json \<Rightarrow> decode_error + 'a" where
  "read_token f j = ok_or (Option.bind (json_as_str j) f) BadVariant"

definition deserialize_semantics :: "json \<Rightarrow> decode_error + delivery_semantics" where
  "deserialize_semantics j =
     res_bind (ok_or (json_get ''delivery'' j) (MissingField ''delivery'')) (\<lambda>dj.
     res_bind (ok_or (json_get ''retry'' j) (MissingField ''retry'')) (\<lambda>rj.
     res_bind (read_token delivery_of_token dj) (\<lambda>d.
     res_bind (read_token retry_of_token rj) (\<lambda>r.
       let s = semantics_of_delivery d
       in if retry s \<noteq> r then Inl InconsistentPair else Inr s))))"

lemma semantics_of_delivery_delivery [simp]: "semantics_of_delivery (delivery s) = s"
  by (cases s) simp_all

lemma delivery_semantics_of_delivery [simp]: "delivery (semantics_of_delivery d) = d"
  by (cases d) simp_all

lemma read_token_Inr: "read_token f j = Inr x \<longleftrightarrow> (\<exists>s. j = JStr s \<and> f s = Some x)"
  by (cases j) (auto simp: read_token_def)

lemma deserialize_Inr_iff:
  "deserialize_semantics j = Inr s \<longleftrightarrow>
     json_get ''delivery'' j = Some (JStr (delivery_token (delivery s))) \<and>
     json_get ''retry'' j = Some (JStr (retry_token (retry s)))"
  by (auto simp: deserialize_semantics_def read_token_Inr Let_def
      delivery_codec.of_token_iff retry_codec.of_token_iff intro!: exI [of _ "delivery s"])

section \<open>Retryability\<close>

datatype retryability = Unspecified | Retryable | NonRetryable

definition retryability_from_details :: "json \<Rightarrow> retryability" where
  "retryability_from_details d =
     (case Option.bind (json_get ''retryable'' d) json_as_bool of
        Some True \<Rightarrow> Retryable
      | Some False \<Rightarrow> NonRetryable
      | None \<Rightarrow> Unspecified)"

section \<open>Adapter errors\<close>

record adapter_error =
  err_code :: error_code
  err_message :: string
  err_suggestion :: "string option"
  err_platform_detail :: "string option"
  err_details :: "json option"
  err_disposition :: delivery_semantics
  err_retryability :: retryability

definition new_error :: "error_code \<Rightarrow> string \<Rightarrow> adapter_error" where
  "new_error c m =
     \<lparr>err_code = c, err_message = m, err_suggestion = None, err_platform_detail = None,
      err_details = None, err_disposition = SemUnknown, err_retryability = Unspecified\<rparr>"

definition with_suggestion :: "string \<Rightarrow> adapter_error \<Rightarrow> adapter_error" where
  "with_suggestion s e = e\<lparr>err_suggestion := Some s\<rparr>"

definition with_platform_detail :: "string \<Rightarrow> adapter_error \<Rightarrow> adapter_error" where
  "with_platform_detail s e = e\<lparr>err_platform_detail := Some s\<rparr>"

definition with_details :: "json \<Rightarrow> adapter_error \<Rightarrow> adapter_error" where
  "with_details d e =
     (let r = retryability_from_details d;
          e' = (if r \<noteq> Unspecified then e\<lparr>err_retryability := r\<rparr> else e)
      in e'\<lparr>err_details := Some d\<rparr>)"

definition with_disposition :: "delivery_semantics \<Rightarrow> adapter_error \<Rightarrow> adapter_error" where
  "with_disposition s e = e\<lparr>err_disposition := s\<rparr>"

definition is_explicitly_retryable :: "adapter_error \<Rightarrow> bool" where
  "is_explicitly_retryable e \<longleftrightarrow> err_retryability e = Retryable"

definition is_retryable_resolution_failure :: "adapter_error \<Rightarrow> bool" where
  "is_retryable_resolution_failure e \<longleftrightarrow>
     err_code e \<in> {StaleRef, AmbiguousTarget, Timeout, AppUnresponsive} \<and>
     is_explicitly_retryable e"

definition permits_retry_by_default :: "adapter_error \<Rightarrow> bool" where
  "permits_retry_by_default e \<longleftrightarrow> err_retryability e \<noteq> NonRetryable"

text \<open>The texts of the suggestions, one constant each, so that proofs never unfold them.\<close>

definition sug_stale_ref :: string where
  "sug_stale_ref = ''Re-run a snapshot to obtain fresh refs, then retry with the new ref (CLI: snapshot [--skeleton]; FFI: ad_snapshot then ad_execute_by_ref with the returned snapshot_id)''"
definition sug_ambiguous :: string where
  "sug_ambiguous = ''Re-run a snapshot to refresh refs, then retry with a more specific ref''"
definition sug_not_supported :: string where
  "sug_not_supported = ''Use a platform/build that advertises this capability or choose a supported command''"
definition sug_element_not_found :: string where
  "sug_element_not_found = ''Re-run a snapshot to obtain fresh refs, then retry with the new ref''"
definition sug_timeout :: string where
  "sug_timeout = ''The target application may be busy or unresponsive''"
definition sug_app_unresponsive :: string where
  "sug_app_unresponsive = ''Wait for the app to recover or force-quit it before retrying automation''"
definition sug_permission :: string where
  "sug_permission = ''Open System Settings > Privacy & Security > Accessibility and add the app that launches agent-desktop''"
definition sug_snapshot_not_found :: string where
  "sug_snapshot_not_found = ''Re-run a snapshot and retry with the returned snapshot_id (CLI: snapshot, then pass --snapshot <id>; FFI: ad_snapshot then supply snapshot_id to ad_execute_by_ref)''"
definition sug_policy_denied :: string where
  "sug_policy_denied = ''Use an explicit mouse/focus command if physical interaction is intended''"
definition sug_policy_cursor :: string where
  "sug_policy_cursor = ''Enable cursor movement in the interaction policy to permit cursor-driven actions (CLI: --headed; FFI: set allow_cursor_move in the policy), or use an explicit mouse command if physical input is intended''"
definition sug_policy_headless :: string where
  "sug_policy_headless = ''Headless mode allows only accessibility-backed actions; enable physical interaction in the policy (CLI: --headed) only if cursor/focus movement is intended, otherwise refresh the snapshot or target an element with the needed semantic action''"

definition stale_ref_error :: "string \<Rightarrow> adapter_error" where
  "stale_ref_error r =
     with_disposition NotDelivered (with_suggestion sug_stale_ref
       (new_error StaleRef (r @ '' not found in current RefMap'')))"

definition ambiguous_target_error :: "string \<Rightarrow> adapter_error" where
  "ambiguous_target_error m =
     with_disposition NotDelivered (with_suggestion sug_ambiguous (new_error AmbiguousTarget m))"

definition not_supported_error :: "string \<Rightarrow> adapter_error" where
  "not_supported_error m =
     with_disposition NotDelivered (with_suggestion sug_not_supported
       (new_error PlatformNotSupported (m @ '' is not supported on this platform'')))"

definition element_not_found_error :: "string \<Rightarrow> adapter_error" where
  "element_not_found_error r =
     with_disposition NotDelivered (with_suggestion sug_element_not_found
       (new_error ElementNotFound (''Element '' @ r @ '' could not be resolved'')))"

definition timeout_error_msg :: "string \<Rightarrow> adapter_error" where
  "timeout_error_msg m = with_suggestion sug_timeout (new_error Timeout m)"

definition app_unresponsive_error :: "string \<Rightarrow> adapter_error" where
  "app_unresponsive_error app =
     with_disposition NotDelivered (with_suggestion sug_app_unresponsive
       (new_error AppUnresponsive (''Application '' @ quoted app @ '' is not responding'')))"

definition internal_error :: "string \<Rightarrow> adapter_error" where
  "internal_error m = new_error Internal m"

definition permission_denied_error :: adapter_error where
  "permission_denied_error =
     with_disposition NotDelivered (with_suggestion sug_permission
       (new_error PermDenied ''Accessibility permission not granted''))"

definition snapshot_not_found_error :: "string \<Rightarrow> adapter_error" where
  "snapshot_not_found_error i =
     with_disposition NotDelivered (with_suggestion sug_snapshot_not_found
       (new_error SnapshotNotFound (''Snapshot '' @ quoted i @ '' not found'')))"

definition policy_denied_error :: "string \<Rightarrow> adapter_error" where
  "policy_denied_error m =
     with_disposition NotDelivered (with_suggestion sug_policy_denied (new_error PolicyDenied m))"

definition policy_denied_suggestion :: "interaction_policy \<Rightarrow> string" where
  "policy_denied_suggestion p =
     (if allow_focus_steal p \<and> \<not> allow_cursor_move p then sug_policy_cursor
      else if \<not> allow_focus_steal p \<and> \<not> allow_cursor_move p then sug_policy_headless
      else sug_policy_denied)"

definition policy_denied_for_policy :: "string \<Rightarrow> interaction_policy \<Rightarrow> adapter_error" where
  "policy_denied_for_policy m p =
     with_disposition NotDelivered (with_suggestion (policy_denied_suggestion p)
       (new_error PolicyDenied m))"

definition renderer_activation_required_error :: "string \<Rightarrow> adapter_error" where
  "renderer_activation_required_error m =
     with_disposition NotDelivered
       (with_details (JObj [(''renderer_accessibility_activation_required'', JBool True)])
         (new_error ActionNotSupported m))"

definition requires_renderer_activation :: "adapter_error \<Rightarrow> bool" where
  "requires_renderer_activation e \<longleftrightarrow>
     Option.bind (Option.bind (err_details e)
       (json_get ''renderer_accessibility_activation_required'')) json_as_bool = Some True"

section \<open>Application errors\<close>

datatype app_error = AppAdapter adapter_error | AppIo string | AppJson string | AppInternal string

fun app_error_code :: "app_error \<Rightarrow> string" where
  "app_error_code (AppAdapter e) = error_code_as_str (err_code e)"
| "app_error_code (AppIo _) = ''INTERNAL''"
| "app_error_code (AppJson _) = ''INTERNAL''"
| "app_error_code (AppInternal _) = ''INTERNAL''"

fun app_error_suggestion :: "app_error \<Rightarrow> string option" where
  "app_error_suggestion (AppAdapter e) = err_suggestion e"
| "app_error_suggestion _ = None"

text \<open>The \<open>Display\<close> text of an application error.\<close>

fun app_error_text :: "app_error \<Rightarrow> string" where
  "app_error_text (AppAdapter e) = err_message e"
| "app_error_text (AppIo s) = ''IO error: '' @ s"
| "app_error_text (AppJson s) = ''JSON error: '' @ s"
| "app_error_text (AppInternal s) = s"

definition app_stale_ref :: "string \<Rightarrow> app_error" where
  "app_stale_ref r = AppAdapter (stale_ref_error r)"

definition invalid_input :: "string \<Rightarrow> app_error" where
  "invalid_input m = AppAdapter (with_disposition NotDelivered (new_error InvalidArgs m))"

definition invalid_input_with_suggestion :: "string \<Rightarrow> string \<Rightarrow> app_error" where
  "invalid_input_with_suggestion m s =
     AppAdapter (with_disposition NotDelivered (with_suggestion s (new_error InvalidArgs m)))"

section \<open>What the builders keep\<close>

lemmas error_builders =
  new_error_def with_suggestion_def with_platform_detail_def with_disposition_def

lemma with_details_fields [simp]:
  "err_code (with_details d e) = err_code e"
  "err_message (with_details d e) = err_message e"
  "err_disposition (with_details d e) = err_disposition e"
  "err_suggestion (with_details d e) = err_suggestion e"
  "err_details (with_details d e) = Some d"
  by (simp_all add: with_details_def Let_def)

lemma with_details_retryability [simp]:
  "err_retryability (with_details d e) =
     (if retryability_from_details d = Unspecified then err_retryability e
      else retryability_from_details d)"
  by (simp add: with_details_def Let_def)

lemma with_disposition_fields [simp]:
  "err_code (with_disposition s e) = err_code e"
  "err_message (with_disposition s e) = err_message e"
  "err_disposition (with_disposition s e) = s"
  "err_details (with_disposition s e) = err_details e"
  "err_retryability (with_disposition s e) = err_retryability e"
  by (simp_all add: with_disposition_def)

lemma with_suggestion_fields [simp]:
  "err_code (with_suggestion t e) = err_code e"
  "err_disposition (with_suggestion t e) = err_disposition e"
  "err_details (with_suggestion t e) = err_details e"
  "err_retryability (with_suggestion t e) = err_retryability e"
  "err_suggestion (with_suggestion t e) = Some t"
  by (simp_all add: with_suggestion_def)

lemma new_error_fields [simp]:
  "err_code (new_error c m) = c" "err_message (new_error c m) = m"
  "err_disposition (new_error c m) = SemUnknown" "err_details (new_error c m) = None"
  "err_retryability (new_error c m) = Unspecified" "err_suggestion (new_error c m) = None"
  by (simp_all add: new_error_def)

lemmas error_constructors =
  stale_ref_error_def ambiguous_target_error_def not_supported_error_def
  element_not_found_error_def app_unresponsive_error_def permission_denied_error_def
  snapshot_not_found_error_def policy_denied_error_def policy_denied_for_policy_def
  renderer_activation_required_error_def timeout_error_msg_def internal_error_def

lemma error_code_as_str_inj: "error_code_as_str c = error_code_as_str d \<longleftrightarrow> c = d"
  by (cases c; cases d) simp_all

section \<open>Properties\<close>

text \<open>
  The delivery semantics of an error is read back from what is written, and nothing else is
  accepted: decoding gives a semantics exactly when the two fields hold its own pair of names.
\<close>

theorem delivery_semantics_codec:
  "deserialize_semantics (serialize_semantics s) = Inr s \<and>
   (deserialize_semantics j = Inr s \<longleftrightarrow>
      json_get ''delivery'' j = Some (JStr (delivery_token (delivery s))) \<and>
      json_get ''retry'' j = Some (JStr (retry_token (retry s))))"
  by (simp add: deserialize_Inr_iff) (simp add: serialize_semantics_def)

end
