(* ===== verification/Geometry.thy ===== *)
theory Geometry
  imports F64 Errors
begin

text \<open>
  Rectangles and points of the screen (\<open>rect.rs\<close>, \<open>point.rs\<close>) and the geometry the
  actionability checks compute from them.  The hash of a rectangle runs the \<open>FxHasher\<close> of the
  \<open>rustc-hash\<close> crate over its four coordinates in hundredths; the hasher is code of another
  crate and is the parameter \<open>fx\<close>, a function of the integers fed to it.
\<close>

type_synonym fx = "int list \<Rightarrow> u64"

text \<open>A concrete hasher, for statements applied to concrete data.\<close>

definition sum_hash :: fx where
  "sum_hash xs = word_of_int (sum_list xs)"

record rect =
  rect_x :: f64
  rect_y :: f64
  rect_width :: f64
  rect_height :: f64

record point =
  point_x :: f64
  point_y :: f64

definition MAX_GEOMETRY_MAGNITUDE :: f64 where
  "MAX_GEOMETRY_MAGNITUDE = Fin 10000000"

definition coordinate_ok :: "f64 \<Rightarrow> bool" where
  "coordinate_ok v \<longleftrightarrow> is_finite v \<and> f64_le (f64_abs v) MAX_GEOMETRY_MAGNITUDE"

definition dimension_ok :: "f64 \<Rightarrow> bool" where
  "dimension_ok v \<longleftrightarrow> is_finite v \<and> f64_le (Fin 0) v \<and> f64_le v MAX_GEOMETRY_MAGNITUDE"

definition rect_validate :: "rect \<Rightarrow> adapter_error + rect" where
  "rect_validate r =
     (let coordinates_valid = coordinate_ok (rect_x r) \<and> coordinate_ok (rect_y r);
          size_valid = dimension_ok (rect_width r) \<and> dimension_ok (rect_height r)
      in if coordinates_valid \<and> size_valid then Inr r
         else Inl (new_error InvalidArgs
           ''Rectangle must contain finite bounded coordinates and non-negative bounded dimensions''))"

definition canonical_coordinate :: "f64 \<Rightarrow> int" where
  "canonical_coordinate v = f64_as_i64 (f64_round (f64_mul v (Fin 100)))"

definition bounds_hash :: "fx \<Rightarrow> rect \<Rightarrow> u64 option" where
  "bounds_hash fx r =
     (case rect_validate r of
        Inl _ \<Rightarrow> None
      | Inr _ \<Rightarrow> Some (fx (map canonical_coordinate
          [rect_x r, rect_y r, rect_width r, rect_height r])))"

definition point_validate :: "point \<Rightarrow> adapter_error + unit" where
  "point_validate p =
     (if coordinate_ok (point_x p) \<and> coordinate_ok (point_y p) then Inr ()
      else Inl (new_error InvalidArgs
        ''Point coordinates must be finite and within platform geometry bounds''))"

section \<open>Derived geometry\<close>

definition bounds_are_visible :: "rect option \<Rightarrow> bool" where
  "bounds_are_visible b =
     is_some_and b (\<lambda>r. is_ok (rect_validate r) \<and> f64_lt (Fin 0) (rect_width r) \<and>
       f64_lt (Fin 0) (rect_height r))"

definition center_point :: "rect \<Rightarrow> point option" where
  "center_point r =
     (case rect_validate r of
        Inl _ \<Rightarrow> None
      | Inr b \<Rightarrow>
          if f64_lt (Fin 0) (rect_width b) \<and> f64_lt (Fin 0) (rect_height b)
          then Some \<lparr>point_x = f64_add (rect_x b) (f64_half (rect_width b)),
                     point_y = f64_add (rect_y b) (f64_half (rect_height b))\<rparr>
          else None)"

text \<open>\<open>candidate_points\<close>: the centre and the four quarter points, probed in this order.\<close>

definition fraction_point :: "rect \<Rightarrow> rat \<Rightarrow> rat \<Rightarrow> point" where
  "fraction_point r x y =
     \<lparr>point_x = f64_add (rect_x r) (f64_mul (rect_width r) (Fin x)),
      point_y = f64_add (rect_y r) (f64_mul (rect_height r) (Fin y))\<rparr>"

definition candidate_points :: "rect \<Rightarrow> point list" where
  "candidate_points r =
     [fraction_point r (1 / 2) (1 / 2), fraction_point r (1 / 4) (1 / 4),
      fraction_point r (3 / 4) (1 / 4), fraction_point r (1 / 4) (3 / 4),
      fraction_point r (3 / 4) (3 / 4)]"

definition GEOMETRY_TOLERANCE :: f64 where
  "GEOMETRY_TOLERANCE = Fin (1 / 2)"

definition geometry_matches :: "rect \<Rightarrow> rect \<Rightarrow> bool" where
  "geometry_matches a b =
     list_all (\<lambda>(l, r). f64_le (f64_abs (f64_sub l r)) GEOMETRY_TOLERANCE)
       [(rect_x a, rect_x b), (rect_y a, rect_y b), (rect_width a, rect_width b),
        (rect_height a, rect_height b)]"

section \<open>Lemmas\<close>

definition wf_rect :: "rect \<Rightarrow> bool" where
  "wf_rect r \<longleftrightarrow> wf_f64 (rect_x r) \<and> wf_f64 (rect_y r) \<and> wf_f64 (rect_width r) \<and> wf_f64 (rect_height r)"

lemma coordinate_ok_Fin: "coordinate_ok v \<longleftrightarrow> (\<exists>q. v = Fin q \<and> \<bar>q\<bar> \<le> 10000000)"
  by (cases v) (auto simp: coordinate_ok_def MAX_GEOMETRY_MAGNITUDE_def)

lemma dimension_ok_Fin: "dimension_ok v \<longleftrightarrow> (\<exists>q. v = Fin q \<and> 0 \<le> q \<and> q \<le> 10000000)"
  by (cases v) (auto simp: dimension_ok_def MAX_GEOMETRY_MAGNITUDE_def)

lemma rect_validate_Inr_iff:
  "rect_validate r = Inr r' \<longleftrightarrow>
     r' = r \<and> coordinate_ok (rect_x r) \<and> coordinate_ok (rect_y r) \<and>
     dimension_ok (rect_width r) \<and> dimension_ok (rect_height r)"
  by (auto simp: rect_validate_def Let_def)

lemma rect_validate_ok_iff:
  "is_ok (rect_validate r) \<longleftrightarrow>
     coordinate_ok (rect_x r) \<and> coordinate_ok (rect_y r) \<and>
     dimension_ok (rect_width r) \<and> dimension_ok (rect_height r)"
  by (auto simp: is_ok_iff rect_validate_Inr_iff)

lemma bounds_hash_Some_iff:
  "(\<exists>h. bounds_hash fx r = Some h) \<longleftrightarrow> is_ok (rect_validate r)"
  by (cases "rect_validate r") (auto simp: bounds_hash_def)

lemma bounds_hash_None_iff: "bounds_hash fx r = None \<longleftrightarrow> \<not> is_ok (rect_validate r)"
  using bounds_hash_Some_iff [of fx r] by (cases "bounds_hash fx r") auto

lemma center_point_Some_iff:
  "(\<exists>p. center_point r = Some p) \<longleftrightarrow> bounds_are_visible (Some r)"
proof (cases "rect_validate r")
  case (Inl e)
  then show ?thesis by (simp add: center_point_def bounds_are_visible_def)
next
  case (Inr b)
  then have "b = r" by (simp add: rect_validate_Inr_iff)
  with Inr show ?thesis by (auto simp: center_point_def bounds_are_visible_def)
qed

text \<open>
  A fraction of a rectangle's extent, added to its origin in floating point, stays between the
  origin and the far edge: rounding is monotone and the extent is representable.
\<close>

lemma fraction_offset_between:
  assumes x: "wf_f64 (Fin x)" and w: "wf_f64 (Fin w)" "0 \<le> w" and f: "0 \<le> f" "f \<le> 1"
  shows "f64_le (Fin x) (f64_add (Fin x) (f64_mul (Fin w) (Fin f)))"
    and "f64_le (f64_add (Fin x) (f64_mul (Fin w) (Fin f))) (f64_add (Fin x) (Fin w))"
proof -
  have "round53 (w * f) \<le> round53 w" "round53 0 \<le> round53 (w * f)"
    using w(2) f by (intro round53_mono; simp add: mult_left_le)+
  then have m: "0 \<le> round53 (w * f)" "round53 (w * f) \<le> w" using w(1) by simp_all
  then have v: "f64_mul (Fin w) (Fin f) = Fin (round53 (w * f))"
    using w(1) by (auto simp: f64_of_rat_def Let_def)
  show "f64_le (Fin x) (f64_add (Fin x) (f64_mul (Fin w) (Fin f)))"
    using f64_of_rat_mono [of x "x + round53 (w * f)"] f64_of_rat_exact [OF x] m unfolding v by simp
  show "f64_le (f64_add (Fin x) (f64_mul (Fin w) (Fin f))) (f64_add (Fin x) (Fin w))"
    using m unfolding v by (simp add: f64_of_rat_mono)
qed

lemma fraction_point_inside:
  assumes "rect_validate r = Inr r'" "wf_rect r" "0 \<le> fx" "fx \<le> 1" "0 \<le> fy" "fy \<le> 1"
  shows "f64_le (rect_x r) (point_x (fraction_point r fx fy))"
    and "f64_le (point_x (fraction_point r fx fy)) (f64_add (rect_x r) (rect_width r))"
    and "f64_le (rect_y r) (point_y (fraction_point r fx fy))"
    and "f64_le (point_y (fraction_point r fx fy)) (f64_add (rect_y r) (rect_height r))"
proof -
  obtain x y w h where
    "rect_x r = Fin x" "rect_y r = Fin y" "rect_width r = Fin w" "rect_height r = Fin h" "0 \<le> w" "0 \<le> h"
    using assms(1) by (auto simp: rect_validate_Inr_iff coordinate_ok_Fin dimension_ok_Fin)
  then show "f64_le (rect_x r) (point_x (fraction_point r fx fy))"
    and "f64_le (point_x (fraction_point r fx fy)) (f64_add (rect_x r) (rect_width r))"
    and "f64_le (rect_y r) (point_y (fraction_point r fx fy))"
    and "f64_le (point_y (fraction_point r fx fy)) (f64_add (rect_y r) (rect_height r))"
    using assms(2-) fraction_offset_between [of x w fx] fraction_offset_between [of y h fy]
    by (auto simp: wf_rect_def fraction_point_def simp del: f64_mul.simps f64_add.simps wf_f64.simps)
qed

lemma f64_abs_sub_commute: "f64_abs (f64_sub a b) = f64_abs (f64_sub b a)"
proof (cases "\<exists>p q. a = Fin p \<and> b = Fin q")
  case True
  then obtain p q where "a = Fin p" "b = Fin q" by blast
  then show ?thesis using f64_abs_of_rat_minus [of "q - p"] by (simp add: f64_sub_def)
qed (cases a; cases b; auto simp: f64_sub_def)

lemma geometry_matches_sym: "geometry_matches a b = geometry_matches b a"
  by (simp add: geometry_matches_def f64_abs_sub_commute)

lemma geometry_matches_refl:
  assumes "rect_validate r = Inr r'"
  shows "geometry_matches r r"
  using assms
  by (auto simp: rect_validate_Inr_iff coordinate_ok_Fin dimension_ok_Fin geometry_matches_def
      f64_sub_def GEOMETRY_TOLERANCE_def)

section \<open>Properties\<close>

text \<open>
  Every point probed for a hit lies inside a valid rectangle: between its origin and its far
  edges, in the floating-point arithmetic of the code.
\<close>

theorem candidate_points_inside:
  assumes "is_ok (rect_validate r)" "wf_rect r"
  shows "list_all (\<lambda>p.
      f64_le (rect_x r) (point_x p) \<and> f64_le (point_x p) (f64_add (rect_x r) (rect_width r)) \<and>
      f64_le (rect_y r) (point_y p) \<and> f64_le (point_y p) (f64_add (rect_y r) (rect_height r)))
    (candidate_points r)"
proof -
  from assms(1) obtain r' where r: "rect_validate r = Inr r'" by (auto simp: is_ok_iff)
  note inside = fraction_point_inside [OF r assms(2)]
  show ?thesis by (simp add: candidate_points_def inside)
qed

theorem candidate_points_inside_witness:
  "list_all (\<lambda>p. f64_le (Fin 4) (point_x p) \<and> f64_le (point_x p) (f64_add (Fin 4) (Fin 16)))
     (candidate_points \<lparr>rect_x = Fin 4, rect_y = Fin (- 8), rect_width = Fin 16, rect_height = Fin 1\<rparr>)"
proof -
  let ?r = "\<lparr>rect_x = Fin 4, rect_y = Fin (- 8), rect_width = Fin 16, rect_height = Fin 1\<rparr>"
  have "is_ok (rect_validate ?r)"
    by (simp add: rect_validate_ok_iff coordinate_ok_Fin dimension_ok_Fin)
  moreover have "wf_rect ?r"
    using wf_power [of 2] wf_power [of 3] wf_power [of 4] wf_power [of 0]
    by (simp add: wf_rect_def del: wf_f64.simps)
  ultimately have "list_all (\<lambda>p.
      f64_le (rect_x ?r) (point_x p) \<and> f64_le (point_x p) (f64_add (rect_x ?r) (rect_width ?r)) \<and>
      f64_le (rect_y ?r) (point_y p) \<and> f64_le (point_y p) (f64_add (rect_y ?r) (rect_height ?r)))
    (candidate_points ?r)" by (rule candidate_points_inside)
  then show ?thesis by (auto elim!: list.pred_mono_strong)
qed

end
