(* ===== verification/Actions.thy ===== *)
theory Actions
  imports Geometry Policy
begin

text \<open>
  What a caller can ask for: the actions and their requirements (\<open>action.rs\<close>), the request that
  carries one (\<open>action_request.rs\<close>), the platform-neutral capability names
  (\<open>capability.rs\<close>), the state tokens of an element (\<open>state.rs\<close>, \<open>element_state.rs\<close>), and
  the process and surface vocabularies (\<open>process_identity.rs\<close>, \<open>process_state.rs\<close>,
  \<open>snapshot_surface.rs\<close>).
\<close>

section \<open>Actions\<close>

datatype modifier = Meta | Ctrl | Alt | Shift
datatype direction = DirUp | DirDown | DirLeft | DirRight

record key_combo =
  combo_key :: string
  combo_modifiers :: "modifier list"

record drag_params =
  drag_from :: point
  drag_to :: point
  drag_duration_ms :: "u64 option"
  drag_drop_delay_ms :: "u64 option"

datatype action =
    Click | DoubleClick | RightClick | TripleClick
  | SetValue string | SetFocus | Expand | Collapse | Select string | Toggle | Check | Uncheck
  | Scroll direction u32 | ScrollTo
  | PressKey key_combo | KeyDown key_combo | KeyUp key_combo
  | TypeText string | Clear | Hover | Drag drag_params

fun action_headed_requirement :: "action \<Rightarrow> headed_requirement" where
  "action_headed_requirement Click = FocusedWindowAndCursor"
| "action_headed_requirement DoubleClick = FocusedWindowAndCursor"
| "action_headed_requirement RightClick = FocusedWindowAndCursor"
| "action_headed_requirement TripleClick = FocusedWindowAndCursor"
| "action_headed_requirement (Scroll _ _) = FocusedWindowAndCursor"
| "action_headed_requirement Hover = FocusedWindowAndCursor"
| "action_headed_requirement (Drag _) = FocusedWindowAndCursor"
| "action_headed_requirement (SetValue _) = FocusedWindow"
| "action_headed_requirement SetFocus = FocusedWindow"
| "action_headed_requirement Expand = FocusedWindow"
| "action_headed_requirement Collapse = FocusedWindow"
| "action_headed_requirement (Select _) = FocusedWindow"
| "action_headed_requirement Toggle = FocusedWindow"
| "action_headed_requirement Check = FocusedWindow"
| "action_headed_requirement Uncheck = FocusedWindow"
| "action_headed_requirement ScrollTo = FocusedWindow"
| "action_headed_requirement (PressKey _) = FocusedWindow"
| "action_headed_requirement (KeyDown _) = FocusedWindow"
| "action_headed_requirement (KeyUp _) = FocusedWindow"
| "action_headed_requirement (TypeText _) = FocusedWindow"
| "action_headed_requirement Clear = FocusedWindow"

fun action_name :: "action \<Rightarrow> string" where
  "action_name Click = ''click''"
| "action_name DoubleClick = ''double-click''"
| "action_name RightClick = ''right-click''"
| "action_name TripleClick = ''triple-click''"
| "action_name (SetValue _) = ''set-value''"
| "action_name SetFocus = ''focus''"
| "action_name Expand = ''expand''"
| "action_name Collapse = ''collapse''"
| "action_name (Select _) = ''select''"
| "action_name Toggle = ''toggle''"
| "action_name Check = ''check''"
| "action_name Uncheck = ''uncheck''"
| "action_name (Scroll _ _) = ''scroll''"
| "action_name ScrollTo = ''scroll-to''"
| "action_name (PressKey _) = ''press''"
| "action_name (KeyDown _) = ''key-down''"
| "action_name (KeyUp _) = ''key-up''"
| "action_name (TypeText _) = ''type''"
| "action_name Clear = ''clear''"
| "action_name Hover = ''hover''"
| "action_name (Drag _) = ''drag''"

fun writes_element_value :: "action \<Rightarrow> bool" where
  "writes_element_value (SetValue _) = True"
| "writes_element_value Clear = True"
| "writes_element_value (TypeText _) = True"
| "writes_element_value _ = False"

definition requires_state_readback :: "action \<Rightarrow> bool" where
  "requires_state_readback a \<longleftrightarrow>
     writes_element_value a \<or> a \<in> {Check, Uncheck, Toggle, Expand, Collapse}"

fun requires_cursor_policy :: "action \<Rightarrow> bool" where
  "requires_cursor_policy Hover = True"
| "requires_cursor_policy (Drag _) = True"
| "requires_cursor_policy _ = False"

fun requires_hit_test :: "action \<Rightarrow> bool" where
  "requires_hit_test Click = True"
| "requires_hit_test DoubleClick = True"
| "requires_hit_test RightClick = True"
| "requires_hit_test TripleClick = True"
| "requires_hit_test Hover = True"
| "requires_hit_test (Drag _) = True"
| "requires_hit_test _ = False"

fun may_raise_surface :: "action \<Rightarrow> bool" where
  "may_raise_surface Click = True"
| "may_raise_surface DoubleClick = True"
| "may_raise_surface RightClick = True"
| "may_raise_surface TripleClick = True"
| "may_raise_surface Expand = True"
| "may_raise_surface (Select _) = True"
| "may_raise_surface (PressKey _) = True"
| "may_raise_surface _ = False"

fun requires_scroll_into_view :: "action \<Rightarrow> bool" where
  "requires_scroll_into_view Click = True"
| "requires_scroll_into_view DoubleClick = True"
| "requires_scroll_into_view RightClick = True"
| "requires_scroll_into_view TripleClick = True"
| "requires_scroll_into_view (SetValue _) = True"
| "requires_scroll_into_view Expand = True"
| "requires_scroll_into_view Collapse = True"
| "requires_scroll_into_view (Select _) = True"
| "requires_scroll_into_view Toggle = True"
| "requires_scroll_into_view Check = True"
| "requires_scroll_into_view Uncheck = True"
| "requires_scroll_into_view (TypeText _) = True"
| "requires_scroll_into_view Clear = True"
| "requires_scroll_into_view Hover = True"
| "requires_scroll_into_view (Drag _) = True"
| "requires_scroll_into_view (Scroll _ _) = True"
| "requires_scroll_into_view _ = False"

fun may_use_focus_fallback :: "action \<Rightarrow> bool" where
  "may_use_focus_fallback (TypeText _) = True"
| "may_use_focus_fallback (PressKey _) = True"
| "may_use_focus_fallback _ = False"

fun base_interaction_policy :: "action \<Rightarrow> interaction_policy" where
  "base_interaction_policy (PressKey _) = focus_fallback"
| "base_interaction_policy _ = headless"

section \<open>Processes and surfaces\<close>

type_synonym process_id = u32

record process_identity =
  identity_pid :: process_id
  identity_instance :: string

datatype process_state = Running | Exited "int option" | Crashed int | Unresponsive

fun process_state_label :: "process_state \<Rightarrow> string" where
  "process_state_label Running = ''running''"
| "process_state_label (Exited _) = ''exited''"
| "process_state_label (Crashed _) = ''crashed''"
| "process_state_label Unresponsive = ''unresponsive''"

datatype snapshot_surface =
    SurfWindow | SurfFocused | SurfMenu | SurfMenubar | SurfSheet | SurfPopover | SurfAlert
  | SurfDesktop | SurfTaskbar | SurfSystemTray | SurfQuickSettings | SurfNotificationCenter
  | SurfToolbar | SurfDock | SurfSpotlight | SurfMenuBarExtras | SurfSystemTrayOverflow
  | SurfStartMenu | SurfActionCenter

fun surface_as_str :: "snapshot_surface \<Rightarrow> string" where
  "surface_as_str SurfWindow = ''window''"
| "surface_as_str SurfFocused = ''focused''"
| "surface_as_str SurfMenu = ''menu''"
| "surface_as_str SurfMenubar = ''menubar''"
| "surface_as_str SurfSheet = ''sheet''"
| "surface_as_str SurfPopover = ''popover''"
| "surface_as_str SurfAlert = ''alert''"
| "surface_as_str SurfDesktop = ''desktop''"
| "surface_as_str SurfTaskbar = ''taskbar''"
| "surface_as_str SurfSystemTray = ''system_tray''"
| "surface_as_str SurfQuickSettings = ''quick_settings''"
| "surface_as_str SurfNotificationCenter = ''notification_center''"
| "surface_as_str SurfToolbar = ''toolbar''"
| "surface_as_str SurfDock = ''dock''"
| "surface_as_str SurfSpotlight = ''spotlight''"
| "surface_as_str SurfMenuBarExtras = ''menu_bar_extras''"
| "surface_as_str SurfSystemTrayOverflow = ''system_tray_overflow''"
| "surface_as_str SurfStartMenu = ''start_menu''"
| "surface_as_str SurfActionCenter = ''action_center''"

section \<open>Requests\<close>

record action_request =
  req_action :: action
  req_policy :: interaction_policy
  req_timeout_ms :: "u64 option"
  req_verified_point :: "point option"
  req_expected_process :: "process_identity option"

definition request_with :: "interaction_policy \<Rightarrow> action \<Rightarrow> action_request" where
  "request_with p a =
     \<lparr>req_action = a, req_policy = p, req_timeout_ms = None, req_verified_point = None,
      req_expected_process = None\<rparr>"

definition headless_request :: "action \<Rightarrow> action_request" where
  "headless_request a = request_with headless a"

definition focus_fallback_request :: "action \<Rightarrow> action_request" where
  "focus_fallback_request a = request_with focus_fallback a"

definition headed_request :: "action \<Rightarrow> action_request" where
  "headed_request a = request_with headed a"

definition request_headed_requirement :: "action_request \<Rightarrow> headed_requirement" where
  "request_headed_requirement r =
     (if is_headed (req_policy r) then action_headed_requirement (req_action r) else ReqNone)"

definition with_timeout_ms :: "u64 option \<Rightarrow> action_request \<Rightarrow> action_request" where
  "with_timeout_ms t r = r\<lparr>req_timeout_ms := t\<rparr>"

definition with_verified_point :: "point option \<Rightarrow> action_request \<Rightarrow> action_request" where
  "with_verified_point p r = r\<lparr>req_verified_point := p\<rparr>"

definition with_expected_process :: "process_identity \<Rightarrow> action_request \<Rightarrow> action_request" where
  "with_expected_process p r = r\<lparr>req_expected_process := Some p\<rparr>"

section \<open>Capabilities\<close>

definition CLICK :: string where "CLICK = ''Click''"
definition RIGHT_CLICK :: string where "RIGHT_CLICK = ''RightClick''"
definition SET_VALUE :: string where "SET_VALUE = ''SetValue''"
definition SET_FOCUS :: string where "SET_FOCUS = ''SetFocus''"
definition EXPAND :: string where "EXPAND = ''Expand''"
definition COLLAPSE :: string where "COLLAPSE = ''Collapse''"
definition SELECT :: string where "SELECT = ''Select''"
definition TOGGLE :: string where "TOGGLE = ''Toggle''"
definition SCROLL :: string where "SCROLL = ''Scroll''"
definition SCROLL_TO :: string where "SCROLL_TO = ''ScrollTo''"
definition PRESS_KEY :: string where "PRESS_KEY = ''PressKey''"
definition KEY_DOWN :: string where "KEY_DOWN = ''KeyDown''"
definition KEY_UP :: string where "KEY_UP = ''KeyUp''"
definition TYPE_TEXT :: string where "TYPE_TEXT = ''TypeText''"
definition HOVER :: string where "HOVER = ''Hover''"
definition DRAG :: string where "DRAG = ''Drag''"
definition CHECK :: string where "CHECK = ''Check''"
definition UNCHECK :: string where "UNCHECK = ''Uncheck''"

lemmas capability_names =
  CLICK_def RIGHT_CLICK_def SET_VALUE_def SET_FOCUS_def EXPAND_def COLLAPSE_def SELECT_def
  TOGGLE_def SCROLL_def SCROLL_TO_def PRESS_KEY_def KEY_DOWN_def KEY_UP_def TYPE_TEXT_def
  HOVER_def DRAG_def CHECK_def UNCHECK_def

fun for_action :: "action \<Rightarrow> string list" where
  "for_action Click = [CLICK]"
| "for_action DoubleClick = [CLICK]"
| "for_action TripleClick = [CLICK]"
| "for_action RightClick = [RIGHT_CLICK]"
| "for_action (SetValue _) = [SET_VALUE]"
| "for_action Clear = [SET_VALUE]"
| "for_action SetFocus = [SET_FOCUS]"
| "for_action Expand = [EXPAND]"
| "for_action Collapse = [COLLAPSE]"
| "for_action (Select _) = [SELECT, CLICK]"
| "for_action Toggle = [TOGGLE, CLICK]"
| "for_action Check = [TOGGLE, CLICK]"
| "for_action Uncheck = [TOGGLE, CLICK]"
| "for_action (Scroll _ _) = [SCROLL]"
| "for_action ScrollTo = [SCROLL_TO]"
| "for_action (PressKey _) = [PRESS_KEY]"
| "for_action (KeyDown _) = [KEY_DOWN]"
| "for_action (KeyUp _) = [KEY_UP]"
| "for_action (TypeText _) = [TYPE_TEXT]"
| "for_action Hover = [HOVER]"
| "for_action (Drag _) = [DRAG]"

definition contains_capability :: "string list \<Rightarrow> string \<Rightarrow> bool" where
  "contains_capability actions c \<longleftrightarrow> list_ex (\<lambda>a. a = c) actions"

definition contains_any :: "string list \<Rightarrow> string list \<Rightarrow> bool" where
  "contains_any actions cs \<longleftrightarrow> list_ex (contains_capability actions) cs"

definition supports_direct_semantic_pointer_delivery :: "action \<Rightarrow> string list \<Rightarrow> bool" where
  "supports_direct_semantic_pointer_delivery a actions =
     (case a of
        Click \<Rightarrow> contains_capability actions CLICK
      | RightClick \<Rightarrow> contains_capability actions RIGHT_CLICK
      | _ \<Rightarrow> False)"

section \<open>Element states\<close>

definition DISABLED :: string where "DISABLED = ''disabled''"
definition HIDDEN :: string where "HIDDEN = ''hidden''"
definition OFFSCREEN :: string where "OFFSCREEN = ''offscreen''"

definition STATE_VOCABULARY :: "string list" where
  "STATE_VOCABULARY =
     [''focused'', DISABLED, ''secure'', ''expanded'', ''checked'', ''selected'', HIDDEN, ''busy'',
      ''modal'', ''required'', ''indeterminate'', ''pressed'', ''readonly'', OFFSCREEN,
      ''invalid'', ''multiselectable'', ''haspopup'']"

definition has_state :: "string list \<Rightarrow> string \<Rightarrow> bool" where
  "has_state states token \<longleftrightarrow> list_ex (\<lambda>s. s = token) states"

definition states_in_vocabulary :: "string list \<Rightarrow> bool" where
  "states_in_vocabulary states \<longleftrightarrow> list_all (\<lambda>s. s \<in> set STATE_VOCABULARY) states"

definition is_visible :: "rect option \<Rightarrow> string list \<Rightarrow> bool" where
  "is_visible b states \<longleftrightarrow>
     bounds_are_visible b \<and> \<not> has_state states HIDDEN \<and> \<not> has_state states OFFSCREEN"

record visibility_evidence =
  vis_bounds :: "rect option"
  vis_states :: "string list"
  vis_bounds_from_live :: bool
  vis_states_from_live :: bool

definition visibility_applicable :: "visibility_evidence \<Rightarrow> bool" where
  "visibility_applicable v \<longleftrightarrow> vis_bounds_from_live v \<and> vis_states_from_live v"

definition visibility_result :: "visibility_evidence \<Rightarrow> bool" where
  "visibility_result v \<longleftrightarrow>
     (if \<not> visibility_applicable v then False else is_visible (vis_bounds v) (vis_states v))"

record element_state =
  st_role :: string
  st_states :: "string list"
  st_value :: "string option"
  st_enabled :: "bool option"
  st_hidden :: "bool option"
  st_offscreen :: "bool option"

section \<open>Lemmas\<close>

lemma contains_capability_iff [simp]: "contains_capability as c \<longleftrightarrow> c \<in> set as"
  by (auto simp: contains_capability_def list_ex_iff)

lemma contains_any_iff [simp]: "contains_any as cs \<longleftrightarrow> set as \<inter> set cs \<noteq> {}"
  by (auto simp: contains_any_def list_ex_iff)

lemma has_state_iff [simp]: "has_state ss t \<longleftrightarrow> t \<in> set ss"
  by (auto simp: has_state_def list_ex_iff)

lemma direct_delivery_capability:
  "supports_direct_semantic_pointer_delivery a as \<Longrightarrow> set as \<inter> set (for_action a) \<noteq> {}"
  by (auto simp: supports_direct_semantic_pointer_delivery_def split: action.splits)

lemma cursor_policy_hit_test: "requires_cursor_policy a \<Longrightarrow> requires_hit_test a"
  by (cases a) auto

lemma hit_test_needs_cursor:
  "requires_hit_test a \<Longrightarrow> action_headed_requirement a = FocusedWindowAndCursor"
  by (cases a) auto

lemma base_policy_not_headed [simp]: "\<not> is_headed (base_interaction_policy a)"
  by (cases a) auto

lemma request_fields [simp]:
  "req_action (request_with p a) = a" "req_policy (request_with p a) = p"
  "req_timeout_ms (request_with p a) = None" "req_verified_point (request_with p a) = None"
  "req_expected_process (request_with p a) = None"
  by (simp_all add: request_with_def)

end
