(* ===== verification/Stores.thy ===== *)
theory Stores
  imports Prelude
begin

text \<open>
  The interface between a store that hands out fresh keys and the code that fills it: the ref
  map on one side, the tree walk that allocates refs on the other.  \<open>alloc_all\<close> allocates a list
  of entries and stops at the first error.
\<close>

fun alloc_all :: "('m \<Rightarrow> 'e \<Rightarrow> 'err + 'k \<times> 'm) \<Rightarrow> 'm \<Rightarrow> 'e list \<Rightarrow> 'err + 'k list \<times> 'm" where
  "alloc_all alloc m [] = Inr ([], m)"
| "alloc_all alloc m (e # es) =
     res_bind (alloc m e) (\<lambda>(k, m').
     res_bind (alloc_all alloc m' es) (\<lambda>(ks, m''). Inr (k # ks, m'')))"

lemma alloc_all_append:
  "alloc_all alloc m (es @ fs) =
     res_bind (alloc_all alloc m es) (\<lambda>(ks, m').
     res_bind (alloc_all alloc m' fs) (\<lambda>(ls, m''). Inr (ks @ ls, m'')))"
proof (induction es arbitrary: m)
  case Nil
  then show ?case by (cases "alloc_all alloc m fs") auto
next
  case (Cons e es)
  show ?case
  proof (cases "alloc m e")
    case (Inr p)
    obtain k m' where p: "p = (k, m')" by (cases p)
    then show ?thesis using Inr
      by (cases "alloc_all alloc m' es"; cases "alloc_all alloc (snd (projr (alloc_all alloc m' es))) fs")
        (auto simp: Cons.IH)
  qed simp
qed

lemma alloc_all_length: "alloc_all alloc m es = Inr (ks, m') \<Longrightarrow> length ks = length es"
  by (induction es arbitrary: m ks m') auto

locale fresh_store =
  fixes alloc :: "'m \<Rightarrow> 'e \<Rightarrow> 'err + 'k \<times> 'm"
    and lookup :: "'m \<Rightarrow> 'k \<Rightarrow> 'e option"
    and inv :: "'m \<Rightarrow> bool"
    and ok :: "'e \<Rightarrow> bool"
  assumes alloc_fresh: "inv m \<Longrightarrow> alloc m e = Inr (k, m') \<Longrightarrow> lookup m k = None"
    and alloc_lookup: "inv m \<Longrightarrow> alloc m e = Inr (k, m') \<Longrightarrow> lookup m' = (lookup m)(k \<mapsto> e)"
    and alloc_inv: "inv m \<Longrightarrow> ok e \<Longrightarrow> alloc m e = Inr (k, m') \<Longrightarrow> inv m'"
begin

lemma alloc_all_inv:
  "alloc_all alloc m es = Inr (ks, m') \<Longrightarrow> inv m \<Longrightarrow> list_all ok es \<Longrightarrow> inv m'"
  by (induction es arbitrary: m ks) (auto dest: alloc_inv)

lemma alloc_all_keeps:
  "alloc_all alloc m es = Inr (ks, m') \<Longrightarrow> inv m \<Longrightarrow> list_all ok es \<Longrightarrow>
     lookup m k = Some e \<Longrightarrow> lookup m' k = Some e"
proof (induction es arbitrary: m ks)
  case (Cons d es)
  then obtain k1 m1 ks1 where a: "alloc m d = Inr (k1, m1)" "alloc_all alloc m1 es = Inr (ks1, m')"
    by auto
  with Cons.prems have "lookup m1 k = Some e" "inv m1"
    using alloc_fresh [of m d k1 m1] alloc_lookup [of m d k1 m1] alloc_inv [of m d k1 m1] by auto
  with a Cons show ?case by simp
qed simp

lemma alloc_all_fresh:
  "alloc_all alloc m es = Inr (ks, m') \<Longrightarrow> inv m \<Longrightarrow> list_all ok es \<Longrightarrow>
     distinct ks \<and> (\<forall>k \<in> set ks. lookup m k = None) \<and> list_all2 (\<lambda>k e. lookup m' k = Some e) ks es"
proof (induction es arbitrary: m ks)
  case (Cons d es)
  then obtain k1 m1 ks1 where a: "alloc m d = Inr (k1, m1)" "alloc_all alloc m1 es = Inr (ks1, m')"
    and ks: "ks = k1 # ks1" by auto
  have m1: "inv m1" "lookup m k1 = None" "lookup m1 = (lookup m)(k1 \<mapsto> d)"
    using a Cons.prems by (auto dest: alloc_fresh alloc_lookup alloc_inv)
  with Cons.IH [OF a(2)] Cons.prems have IH: "distinct ks1" "\<forall>k \<in> set ks1. lookup m1 k = None"
    "list_all2 (\<lambda>k e. lookup m' k = Some e) ks1 es" by auto
  have "lookup m' k1 = Some d" using alloc_all_keeps [OF a(2), of k1 d] m1 Cons.prems by simp
  moreover have "k1 \<notin> set ks1" using IH(2) m1(3) by auto
  moreover have "\<forall>k \<in> set ks1. lookup m k = None" using IH(2) m1(3) by (auto split: if_splits)
  ultimately show ?case using IH m1 by (simp add: ks)
qed simp

lemma alloc_all_lookup:
  "alloc_all alloc m es = Inr (ks, m') \<Longrightarrow> inv m \<Longrightarrow> list_all ok es \<Longrightarrow>
     lookup m' = lookup m ++ map_of (zip ks es)"
proof (induction es arbitrary: m ks)
  case (Cons d es)
  then obtain k1 m1 ks1 where a: "alloc m d = Inr (k1, m1)" "alloc_all alloc m1 es = Inr (ks1, m')"
    and ks: "ks = k1 # ks1" by auto
  have m1: "inv m1" "lookup m1 = (lookup m)(k1 \<mapsto> d)"
    using a Cons.prems by (auto dest: alloc_lookup alloc_inv)
  with Cons a have "lookup m' = lookup m1 ++ map_of (zip ks1 es)" by simp
  moreover have "k1 \<notin> set ks1" using alloc_all_fresh [OF a(2)] m1 Cons.prems by auto
  ultimately show ?case
    by (auto simp: ks m1 map_add_def fun_eq_iff split: option.splits dest!: map_of_SomeD set_zip_leftD)
qed (simp add: fun_eq_iff)

end

end
