(* ===== verification/Refs.thy ===== *)
theory Refs
  imports Roles Actions Stores
begin

text \<open>
  Refs and the map that stores them: the stored entry (\<open>ref_entry.rs\<close> and the parts it is made
  of), its validation (\<open>refs_validate.rs\<close>), the tokens that name a ref
  (\<open>ref_token.rs\<close>), snapshot ids and the ref map itself (\<open>refs.rs\<close>).

  The \<open>HashMap\<close> of a ref map is an association list with distinct keys; the order of the list
  stands for the iteration order, on which nothing depends but which of several defects
  \<open>validate\<close> reports.  The counter is a \<open>u32\<close>.
\<close>

section \<open>Entries\<close>

datatype identifier_kind =
  AxIdentifier | AxDomIdentifier | AutomationId | RuntimeId | AtspiObjectPath | KindUnknown

record element_identifier =
  ident_kind :: identifier_kind
  ident_value :: string

record ref_process =
  rp_pid :: process_id
  rp_instance :: "string option"

record ref_identity =
  id_retained_object :: "string option"
  id_role :: string
  id_name :: "string option"
  id_value :: "string option"
  id_description :: "string option"
  id_native_id :: "element_identifier option"

record ref_geometry =
  geo_bounds :: "rect option"
  geo_bounds_hash :: "u64 option"

record ref_capabilities =
  cap_states :: "string list"
  cap_available_actions :: "string list"

record ref_source =
  src_app :: "string option"
  src_window_id :: "string option"
  src_window_title :: "string option"
  src_window_bounds_hash :: "u64 option"
  src_surface :: snapshot_surface

record ref_scope =
  scope_root_ref :: "string option"
  scope_path_is_absolute :: bool
  scope_path :: "nat list"

record ref_entry =
  process :: ref_process
  identity :: ref_identity
  geometry :: ref_geometry
  capabilities :: ref_capabilities
  source :: ref_source
  scope :: ref_scope

definition MAX_FIELD_BYTES :: nat where "MAX_FIELD_BYTES = 65536"
definition MAX_PATH_DEPTH :: nat where "MAX_PATH_DEPTH = 256"

text \<open>The checks of \<open>validate_ref_entry\<close>, each with its message, in the order of the code.\<close>

definition process_ok :: "ref_entry \<Rightarrow> bool" where
  "process_ok e \<longleftrightarrow>
     \<not> (rp_pid (process e) = 0 \<or> is_none_or (rp_instance (process e)) (\<lambda>s. s = []))"

definition role_ok :: "string \<Rightarrow> bool" where
  "role_ok r \<longleftrightarrow> \<not> (\<not> is_canonical r \<or> r = ''unknown'')"

definition text_fields :: "ref_entry \<Rightarrow> string option list" where
  "text_fields e =
     [id_name (identity e), id_value (identity e), id_description (identity e),
      src_app (source e), src_window_id (source e), src_window_title (source e),
      rp_instance (process e)]"

definition fields_ok :: "ref_entry \<Rightarrow> bool" where
  "fields_ok e \<longleftrightarrow>
     list_all (\<lambda>f. is_none_or f (\<lambda>s. \<not> length s > MAX_FIELD_BYTES)) (text_fields e)"

definition identifier_ok :: "ref_entry \<Rightarrow> bool" where
  "identifier_ok e \<longleftrightarrow>
     is_none_or (id_native_id (identity e)) (\<lambda>i.
       \<not> (is_blank (ident_value i) \<or> length (ident_value i) > MAX_FIELD_BYTES \<or>
          ident_kind i = KindUnknown))"

definition path_ok :: "ref_entry \<Rightarrow> bool" where
  "path_ok e \<longleftrightarrow> \<not> length (scope_path (scope e)) > MAX_PATH_DEPTH"

definition evidence_ok :: "ref_entry \<Rightarrow> bool" where
  "evidence_ok e \<longleftrightarrow>
     \<not> (length (cap_states (capabilities e)) > 256 \<or>
        length (cap_available_actions (capabilities e)) > 256 \<or>
        list_ex (\<lambda>v. length v > 256)
          (cap_states (capabilities e) @ cap_available_actions (capabilities e)))"

definition validate_geometry :: "fx \<Rightarrow> ref_entry \<Rightarrow> app_error + unit" where
  "validate_geometry fx e =
     (case geo_bounds (geometry e) of
        None \<Rightarrow> Inr ()
      | Some b \<Rightarrow>
          res_bind (res_map_err AppAdapter (rect_validate b)) (\<lambda>_.
            if geo_bounds_hash (geometry e) \<noteq> bounds_hash fx b
            then Inl (invalid_input ''RefEntry bounds hash does not match its geometry'')
            else Inr ()))"

definition validate_ref_entry :: "fx \<Rightarrow> ref_entry \<Rightarrow> app_error + unit" where
  "validate_ref_entry fx e =
     (if \<not> process_ok e then
        Inl (invalid_input ''RefEntry requires a positive pid and process instance'')
      else if \<not> role_ok (id_role (identity e)) then
        Inl (invalid_input ''RefEntry contains an invalid role'')
      else if \<not> fields_ok e then
        Inl (invalid_input ''RefEntry string evidence exceeds the field limit'')
      else if \<not> identifier_ok e then
        Inl (invalid_input ''RefEntry contains invalid typed identifier evidence'')
      else if \<not> path_ok e then Inl (invalid_input ''RefEntry path is too deep'')
      else res_bind (validate_geometry fx e) (\<lambda>_.
        if \<not> evidence_ok e then
          Inl (invalid_input ''RefEntry state or action evidence exceeds its limit'')
        else Inr ()))"

definition valid_entry :: "fx \<Rightarrow> ref_entry \<Rightarrow> bool" where
  "valid_entry fx e \<longleftrightarrow> validate_ref_entry fx e = Inr ()"

section \<open>Tokens\<close>

definition validate_snapshot_id :: "string \<Rightarrow> app_error + unit" where
  "validate_snapshot_id s =
     (if length s \<le> 64 \<and> length s \<ge> 3 \<and>
         list_all (\<lambda>c. is_ascii_alphanumeric c \<or> c = CHR ''-'' \<or> c = CHR ''_'') s
      then Inr ()
      else Inl (invalid_input
        (''Invalid snapshot_id '' @ quoted s @ '': use the value returned by snapshot'')))"

definition qualify_ref_id :: "string \<Rightarrow> string \<Rightarrow> string" where
  "qualify_ref_id sid r = ''@'' @ sid @ '':'' @ unwrap_or (strip_prefix ''@'' r) r"

definition is_local_ref :: "string \<Rightarrow> bool" where
  "is_local_ref r \<longleftrightarrow>
     is_some_and (strip_prefix ''@e'' r) (\<lambda>digits.
       digits \<noteq> [] \<and> length digits \<le> 10 \<and> list_all is_ascii_digit digits \<and>
       is_some_and (parse_u32 digits) (\<lambda>n. n > 0))"

definition invalid_ref :: "string \<Rightarrow> app_error" where
  "invalid_ref r =
     invalid_input (''Invalid ref_id '' @ quoted r @
       '': expected @<snapshot_id>:e<N> or legacy @e<N> with an explicit snapshot'')"

definition resolve_ref_target :: "string \<Rightarrow> string option \<Rightarrow> app_error + string \<times> string" where
  "resolve_ref_target r explicit =
     (if is_local_ref r then
        res_bind (ok_or explicit (invalid_input_with_suggestion
          ''Bare refs require an explicit snapshot_id''
          ''Use the snapshot-qualified ref returned by snapshot, or pass --snapshot with a legacy @eN ref.''))
        (\<lambda>sid. res_bind (validate_snapshot_id sid) (\<lambda>_. Inr (sid, r)))
      else
        (case strip_prefix ''@'' r of
           None \<Rightarrow> Inl (invalid_ref r)
         | Some without_at \<Rightarrow>
             (case rsplit_once '':e'' without_at of
                None \<Rightarrow> Inl (invalid_ref r)
              | Some (sid, number) \<Rightarrow>
                  res_bind (validate_snapshot_id sid) (\<lambda>_.
                    let local = ''@e'' @ number
                    in if \<not> is_local_ref local then Inl (invalid_ref r)
                       else if is_some_and explicit (\<lambda>x. x \<noteq> sid) then
                         Inl (invalid_input_with_suggestion
                           ''Ref snapshot does not match the explicit snapshot_id''
                           ''Use the snapshot_id embedded in the ref, or pass a ref from the requested snapshot.'')
                       else Inr (sid, local)))))"

definition validate_ref_token :: "string \<Rightarrow> app_error + unit" where
  "validate_ref_token r =
     (if is_local_ref r then Inr ()
      else res_bind (resolve_ref_target r None) (\<lambda>_. Inr ()))"

section \<open>Snapshot ids\<close>

text \<open>
  \<open>base36\<close> writes the digits of a \<open>u64\<close> backwards into a buffer of 13 zeros and keeps at least
  four of them.  The digits of the value are \<open>base36_digits\<close>; \<open>base36_digits_length\<close> below shows
  that 13 places are enough, so that the index never runs below the buffer.
\<close>

definition DIGITS36 :: string where "DIGITS36 = ''0123456789abcdefghijklmnopqrstuvwxyz''"

fun base36_digits :: "nat \<Rightarrow> string" where
  "base36_digits v = (if v = 0 then [] else base36_digits (v div 36) @ [DIGITS36 ! (v mod 36)])"

declare base36_digits.simps [simp del]

definition base36 :: "u64 \<Rightarrow> string" where
  "base36 v =
     (let ds = (if v = 0 then [CHR ''0''] else base36_digits (unat v))
      in replicate (4 - length ds) (CHR ''0'') @ ds)"

text \<open>The id made of a mixed 64-bit value (a randomly seeded hash of time, pid and counter).\<close>

definition snapshot_id_of :: "u64 \<Rightarrow> string" where
  "snapshot_id_of mixed = ''s'' @ base36 mixed"

section \<open>The ref map\<close>

record ref_map =
  inner :: "(string \<times> ref_entry) list"
  counter :: u32

definition refmap_new :: ref_map where
  "refmap_new = \<lparr>inner = [], counter = 0\<rparr>"

definition ref_name :: "nat \<Rightarrow> string" where
  "ref_name n = ''@e'' @ show_nat n"

definition ref_key :: "u32 \<Rightarrow> string" where
  "ref_key c = ref_name (unat c)"

definition refmap_get :: "ref_map \<Rightarrow> string \<Rightarrow> ref_entry option" where
  "refmap_get m r = map_of (inner m) r"

definition refmap_len :: "ref_map \<Rightarrow> nat" where
  "refmap_len m = length (inner m)"

definition refmap_is_empty :: "ref_map \<Rightarrow> bool" where
  "refmap_is_empty m \<longleftrightarrow> inner m = []"

definition u32_checked_add :: "u32 \<Rightarrow> u32 \<Rightarrow> u32 option" where
  "u32_checked_add a b = (if unat a + unat b \<le> u32_max then Some (a + b) else None)"

definition allocate_validated :: "ref_map \<Rightarrow> ref_entry \<Rightarrow> app_error + string \<times> ref_map" where
  "allocate_validated m e =
     res_bind (ok_or (u32_checked_add (counter m) 1)
       (invalid_input ''RefMap exhausted its identifier space'')) (\<lambda>c.
     let r = ref_key c in Inr (r, m\<lparr>inner := alist_insert r e (inner m), counter := c\<rparr>))"

definition try_allocate :: "fx \<Rightarrow> ref_map \<Rightarrow> ref_entry \<Rightarrow> app_error + string \<times> ref_map" where
  "try_allocate fx m e = res_bind (validate_ref_entry fx e) (\<lambda>_. allocate_validated m e)"

datatype ref_allocation = Allocated string | SkippedInvalidRole | SkippedInvalidEntry

definition try_allocate_observed :: "fx \<Rightarrow> ref_map \<Rightarrow> ref_entry \<Rightarrow> app_error + ref_allocation \<times> ref_map" where
  "try_allocate_observed fx m e =
     (if \<not> is_canonical (id_role (identity e)) \<or> id_role (identity e) = ''unknown''
      then Inr (SkippedInvalidRole, m)
      else if \<not> is_ok (validate_ref_entry fx e) then Inr (SkippedInvalidEntry, m)
      else res_bind (allocate_validated m e) (\<lambda>(r, m'). Inr (Allocated r, m')))"

definition retained_object_tokens :: "ref_map \<Rightarrow> string list" where
  "retained_object_tokens m =
     List.map_filter (\<lambda>(_, e). id_retained_object (identity e)) (inner m)"

text \<open>\<open>remove_by_root_ref\<close>: which entries go when the refs below the ref \<open>rid\<close> are replaced.\<close>

definition owned_by :: "string \<Rightarrow> ref_entry \<Rightarrow> bool" where
  "owned_by rid e \<longleftrightarrow> scope_root_ref (scope e) = Some rid"

definition descendant_of :: "ref_entry \<Rightarrow> ref_entry \<Rightarrow> bool" where
  "descendant_of parent e \<longleftrightarrow>
     process e = process parent \<and> source e = source parent \<and>
     (scope_root_ref (scope parent) = None \<or> scope_path_is_absolute (scope parent)) \<and>
     (scope_root_ref (scope e) = None \<or> scope_path_is_absolute (scope e)) \<and>
     take (length (scope_path (scope parent))) (scope_path (scope e)) = scope_path (scope parent) \<and>
     (length (scope_path (scope e)) > length (scope_path (scope parent)) \<or>
      scope_root_ref (scope e) \<noteq> None)"

definition remove_by_root_ref :: "string \<Rightarrow> ref_map \<Rightarrow> ref_map" where
  "remove_by_root_ref rid m =
     (let root_entry = refmap_get m rid
      in m\<lparr>inner := filter (\<lambda>(r, e). if r = rid then True
           else \<not> owned_by rid e \<and> \<not> is_some_and root_entry (\<lambda>p. descendant_of p e)) (inner m)\<rparr>)"

text \<open>\<open>validate\<close>: the loop over the entries carries the largest number seen.\<close>

definition ref_key_number :: "string \<Rightarrow> nat option" where
  "ref_key_number r =
     option_filter (\<lambda>n. n > 0) (Option.bind (strip_prefix ''@e'' r) parse_u32)"

fun validate_entries :: "fx \<Rightarrow> nat \<Rightarrow> (string \<times> ref_entry) list \<Rightarrow> app_error + nat" where
  "validate_entries fx max_id [] = Inr max_id"
| "validate_entries fx max_id ((r, e) # rest) =
     res_bind (ok_or (ref_key_number r) (invalid_input ''RefMap contains an invalid ref key'')) (\<lambda>n.
       if ref_name n \<noteq> r then
         Inl (invalid_input ''RefMap contains a non-canonical ref key'')
       else res_bind (validate_ref_entry fx e) (\<lambda>_. validate_entries fx (max max_id n) rest))"

definition refmap_validate :: "fx \<Rightarrow> ref_map \<Rightarrow> app_error + unit" where
  "refmap_validate fx m =
     res_bind (validate_entries fx 0 (inner m)) (\<lambda>max_id.
       if unat (counter m) < max_id \<or> unat (counter m) = u32_max then
         Inl (invalid_input ''RefMap counter is inconsistent with its allocated refs'')
       else Inr ())"

definition MAX_REFMAP_BYTES :: nat where "MAX_REFMAP_BYTES = 1048576"

definition sug_refmap_size :: string where
  "sug_refmap_size = ''Narrow the observation: snapshot with --skeleton, --max-depth, or --root @ref, or use find with a tighter query or --limit''"

text \<open>\<open>to_json\<close> is \<open>serde_json::to_string\<close>, which can fail.\<close>

definition serialize_with_size_check ::
  "fx \<Rightarrow> (ref_map \<Rightarrow> string + string) \<Rightarrow> ref_map \<Rightarrow> app_error + string" where
  "serialize_with_size_check fx to_json m =
     res_bind (refmap_validate fx m) (\<lambda>_.
     res_bind (res_map_err AppJson (to_json m)) (\<lambda>json.
       if length json > MAX_REFMAP_BYTES then
         Inl (AppAdapter (with_suggestion sug_refmap_size
           (internal_error ''RefMap exceeds 1MB size limit on write'')))
       else Inr json))"

section \<open>Keys and entries\<close>

lemma ref_name_inj [simp]: "ref_name m = ref_name n \<longleftrightarrow> m = n"
  by (simp add: ref_name_def show_nat_inj)

lemma ref_key_inj [simp]: "ref_key a = ref_key b \<longleftrightarrow> a = b"
  by (simp add: ref_key_def word_unat_eq_iff)

lemma unat_u32_max: "unat (c :: u32) \<le> u32_max"
  using unsigned_less [where 'a = nat and w = c] by simp

lemma ref_key_number_key [simp]: "ref_key_number (ref_name n) = (if 0 < n \<and> n \<le> u32_max then Some n else None)"
  by (simp add: ref_name_def ref_key_number_def parse_show_u32 del: append_Cons append_Nil)

lemma u32_checked_add_1: "u32_checked_add c 1 = Some d \<longleftrightarrow> unat c < u32_max \<and> unat d = unat c + 1"
proof -
  have "unat (c + 1) = unat c + 1" if "unat c + 1 \<le> u32_max"
    using that by (simp add: unat_word_ariths)
  moreover have "d = c + 1" if "unat d = unat c + 1" "unat c + 1 \<le> u32_max"
    using that calculation by (metis word_unat_eq_iff)
  ultimately show ?thesis by (auto simp: u32_checked_add_def)
qed

lemma valid_entry_iff:
  "valid_entry fx e \<longleftrightarrow>
     process_ok e \<and> role_ok (id_role (identity e)) \<and> fields_ok e \<and> identifier_ok e \<and> path_ok e \<and>
     evidence_ok e \<and>
     is_none_or (geo_bounds (geometry e)) (\<lambda>b. is_ok (rect_validate b) \<and>
       geo_bounds_hash (geometry e) = bounds_hash fx b)"
  by (auto simp: valid_entry_def validate_ref_entry_def validate_geometry_def is_ok_iff
      split: option.splits if_splits)

lemma valid_entry_is_ok: "valid_entry fx e \<longleftrightarrow> is_ok (validate_ref_entry fx e)"
  by (simp add: valid_entry_def is_ok_iff)

section \<open>The invariant of the map\<close>

text \<open>
  Every key is \<open>@eN\<close> for a positive \<open>N\<close> that the counter has passed, no key occurs twice, and
  every stored entry is valid.
\<close>

definition issued_key :: "u32 \<Rightarrow> string \<Rightarrow> bool" where
  "issued_key c r \<longleftrightarrow> (\<exists>n. 0 < n \<and> n \<le> unat c \<and> r = ref_name n)"

definition refmap_inv :: "fx \<Rightarrow> ref_map \<Rightarrow> bool" where
  "refmap_inv fx m \<longleftrightarrow>
     distinct (map fst (inner m)) \<and>
     (\<forall>(r, e) \<in> set (inner m). issued_key (counter m) r \<and> valid_entry fx e)"

lemma set_alist_insert:
  "x \<in> set (alist_insert k v kvs) \<Longrightarrow> x = (k, v) \<or> x \<in> set kvs"
  by (induction kvs) (auto split: if_splits)

lemma keys_alist_insert: "fst ` set (alist_insert k v kvs) = insert k (fst ` set kvs)"
  by (simp add: dom_map_of_conv_image_fst [symmetric])

lemma distinct_alist_insert:
  "distinct (map fst kvs) \<Longrightarrow> distinct (map fst (alist_insert k v kvs))"
  by (induction kvs) (auto simp: keys_alist_insert)

lemma refmap_inv_new: "refmap_inv fx refmap_new"
  by (simp add: refmap_inv_def refmap_new_def)

lemma refmap_get_issued: "refmap_inv fx m \<Longrightarrow> refmap_get m r = Some e \<Longrightarrow> issued_key (counter m) r \<and> valid_entry fx e"
  by (auto simp: refmap_inv_def refmap_get_def dest: map_of_SomeD)

lemma allocate_validated_Inr:
  "allocate_validated m e = Inr (r, m') \<longleftrightarrow>
     unat (counter m) < u32_max \<and> unat (counter m') = unat (counter m) + 1 \<and> r = ref_key (counter m') \<and>
     m' = m\<lparr>inner := alist_insert r e (inner m), counter := counter m'\<rparr>"
  by (auto simp: allocate_validated_def u32_checked_add_1 Let_def)

lemma fresh_key_not_issued: "unat c < unat d \<Longrightarrow> \<not> issued_key c (ref_key d)"
  by (auto simp: issued_key_def ref_key_def)

lemma issued_key_mono: "issued_key c r \<Longrightarrow> unat c \<le> unat d \<Longrightarrow> issued_key d r"
  by (auto simp: issued_key_def)

lemma issued_ref_key: "0 < unat c \<Longrightarrow> issued_key c (ref_key c)"
  by (auto simp: issued_key_def ref_key_def)

lemma allocate_fresh:
  assumes "refmap_inv fx m" "allocate_validated m e = Inr (r, m')"
  shows "refmap_get m r = None"
proof (rule ccontr)
  assume "refmap_get m r \<noteq> None"
  then have "issued_key (counter m) r" using assms(1) by (auto dest: refmap_get_issued)
  with assms(2) show False by (auto simp: allocate_validated_Inr fresh_key_not_issued)
qed

lemma allocate_lookup:
  assumes "allocate_validated m e = Inr (r, m')"
  shows "refmap_get m' = (refmap_get m)(r \<mapsto> e)"
proof -
  from assms have "inner m' = alist_insert r e (inner m)"
    unfolding allocate_validated_Inr by (metis ref_map.select_convs(1) ref_map.surjective ref_map.update_convs)
  then show ?thesis by (simp add: refmap_get_def fun_eq_iff)
qed

lemma allocate_counter: "allocate_validated m e = Inr (r, m') \<Longrightarrow> unat (counter m') = unat (counter m) + 1"
  by (simp add: allocate_validated_Inr)

lemma allocate_key: "allocate_validated m e = Inr (r, m') \<Longrightarrow> r = ref_key (counter m')"
  by (simp add: allocate_validated_Inr)

lemma allocate_inner:
  "allocate_validated m e = Inr (r, m') \<Longrightarrow> inner m' = alist_insert r e (inner m)"
  by (auto simp: allocate_validated_def Let_def)

lemma allocate_inv:
  assumes "refmap_inv fx m" "valid_entry fx e" "allocate_validated m e = Inr (r, m')"
  shows "refmap_inv fx m'"
proof -
  note c = allocate_counter [OF assms(3)] and k = allocate_key [OF assms(3)] and i = allocate_inner [OF assms(3)]
  have "issued_key (counter m') r" using c k by (simp add: issued_ref_key)
  moreover have "issued_key (counter m') q" if "(q, d) \<in> set (inner m)" for q d
    using that assms(1) c by (auto simp: refmap_inv_def intro: issued_key_mono)
  ultimately show ?thesis
    using assms(1,2) by (auto simp: refmap_inv_def i distinct_alist_insert dest!: set_alist_insert)
qed

interpretation refmap_store: fresh_store allocate_validated refmap_get "refmap_inv fx" "valid_entry fx" for fx
  by unfold_locales (auto intro: allocate_fresh allocate_inv simp: allocate_lookup)

section \<open>Removal\<close>

text \<open>
  What it means to lie below an element.  The path of an entry leads from the window, or, when it was
  found below a ref and its path is relative, from that ref; only paths from the window can be
  compared.  An entry with the very path of the parent is another element only when a drill-down
  found it.
\<close>

definition window_path :: "ref_entry \<Rightarrow> nat list option" where
  "window_path e =
     (case scope_root_ref (scope e) of
        None \<Rightarrow> Some (scope_path (scope e))
      | Some _ \<Rightarrow> if scope_path_is_absolute (scope e) then Some (scope_path (scope e)) else None)"

definition lies_below :: "ref_entry \<Rightarrow> ref_entry \<Rightarrow> bool" where
  "lies_below p e \<longleftrightarrow>
     rp_pid (process e) = rp_pid (process p) \<and> rp_instance (process e) = rp_instance (process p) \<and>
     src_app (source e) = src_app (source p) \<and> src_window_id (source e) = src_window_id (source p) \<and>
     src_window_title (source e) = src_window_title (source p) \<and>
     src_window_bounds_hash (source e) = src_window_bounds_hash (source p) \<and>
     src_surface (source e) = src_surface (source p) \<and>
     (\<exists>above below. window_path p = Some above \<and> window_path e = Some (above @ below) \<and>
        (below = [] \<longrightarrow> scope_root_ref (scope e) \<noteq> None))"

definition removed_by :: "ref_map \<Rightarrow> string \<Rightarrow> string \<Rightarrow> ref_entry \<Rightarrow> bool" where
  "removed_by m rid r e \<longleftrightarrow>
     r \<noteq> rid \<and> (scope_root_ref (scope e) = Some rid \<or> (\<exists>p. refmap_get m rid = Some p \<and> lies_below p e))"

lemma window_path_Some:
  "window_path e = Some p \<longleftrightarrow>
     (scope_root_ref (scope e) = None \<or> scope_path_is_absolute (scope e)) \<and> scope_path (scope e) = p"
  by (auto simp: window_path_def split: option.splits)

lemma descendant_lies_below: "descendant_of p e \<longleftrightarrow> lies_below p e"
proof -
  have t: "take (length a) b = a \<and> (length b > length a \<or> Q) \<longleftrightarrow> (\<exists>c. b = a @ c \<and> (c = [] \<longrightarrow> Q))"
    for a b :: "nat list" and Q
  proof
    assume l: "take (length a) b = a \<and> (length b > length a \<or> Q)"
    then have "b = a @ drop (length a) b" by (metis append_take_drop_id)
    moreover have "drop (length a) b = [] \<longrightarrow> Q" using l by auto
    ultimately show "\<exists>c. b = a @ c \<and> (c = [] \<longrightarrow> Q)" by blast
  qed auto
  show ?thesis
    unfolding descendant_of_def lies_below_def window_path_Some
    by (cases "process p"; cases "process e"; cases "source p"; cases "source e") (use t in auto)
qed

lemma remove_inner:
  "inner (remove_by_root_ref rid m) = filter (\<lambda>(r, e). \<not> removed_by m rid r e) (inner m)"
  by (auto simp: remove_by_root_ref_def removed_by_def owned_by_def is_some_and_iff descendant_lies_below Let_def
      intro!: filter_cong)

lemma remove_counter [simp]: "counter (remove_by_root_ref rid m) = counter m"
  by (simp add: remove_by_root_ref_def Let_def)

lemma remove_inv: "refmap_inv fx m \<Longrightarrow> refmap_inv fx (remove_by_root_ref rid m)"
  by (auto simp: refmap_inv_def remove_inner intro!: distinct_map_filter)

lemma map_of_filter_distinct:
  "distinct (map fst kvs) \<Longrightarrow>
     map_of (filter (\<lambda>(k, v). P k v) kvs) k = option_filter (P k) (map_of kvs k)"
  by (induction kvs) (auto simp: map_of_eq_None_iff split: option.splits)

lemma remove_lookup:
  "refmap_inv fx m \<Longrightarrow>
     refmap_get (remove_by_root_ref rid m) r = option_filter (\<lambda>e. \<not> removed_by m rid r e) (refmap_get m r)"
  by (simp add: refmap_get_def [of _ r] remove_inner refmap_inv_def map_of_filter_distinct)

lemma remove_keeps_root: "refmap_inv fx m \<Longrightarrow> refmap_get (remove_by_root_ref rid m) rid = refmap_get m rid"
  by (cases "refmap_get m rid") (auto simp: remove_lookup removed_by_def)

section \<open>Validation of a map\<close>

lemma ref_key_canonical:
  "ref_key_number r = Some n \<and> ref_name n = r \<longleftrightarrow> 0 < n \<and> n \<le> u32_max \<and> r = ref_name n"
  by (auto split: if_splits)

lemma validate_entries_Inr:
  "validate_entries fx k kvs = Inr n \<longleftrightarrow>
     (\<forall>p \<in> set kvs. valid_entry fx (snd p) \<and> (\<exists>i. 0 < i \<and> i \<le> u32_max \<and> fst p = ref_name i)) \<and>
     n = fold (\<lambda>p a. max a (the (ref_key_number (fst p)))) kvs k"
proof (induction kvs arbitrary: k)
  case (Cons p kvs)
  obtain r e where p: "p = (r, e)" by (cases p)
  show ?case
  proof (cases "\<exists>i. 0 < i \<and> i \<le> u32_max \<and> r = ref_name i")
    case True
    then obtain i where "0 < i" "i \<le> u32_max" "r = ref_name i" by blast
    then show ?thesis by (auto simp: p Cons.IH valid_entry_def)
  next
    case False
    then have "\<And>i. ref_key_number r = Some i \<Longrightarrow> ref_name i \<noteq> r" by (metis ref_key_canonical)
    with False show ?thesis by (auto simp: p ok_or_def split: option.splits)
  qed
qed auto

lemma fold_max_le:
  "fold (\<lambda>x a. max a (f x)) xs k \<le> (b :: nat) \<longleftrightarrow> k \<le> b \<and> (\<forall>x \<in> set xs. f x \<le> b)"
  by (induction xs arbitrary: k) auto

lemma validate_entries_le:
  assumes "validate_entries fx 0 kvs = Inr n"
  shows "n \<le> unat c \<longleftrightarrow> (\<forall>p \<in> set kvs. issued_key c (fst p))"
proof -
  from assms have n: "n = fold (\<lambda>p a. max a (the (ref_key_number (fst p)))) kvs 0"
    and keys: "\<And>p. p \<in> set kvs \<Longrightarrow> \<exists>i. 0 < i \<and> i \<le> u32_max \<and> fst p = ref_name i"
    by (auto simp: validate_entries_Inr)
  have "the (ref_key_number (fst p)) \<le> unat c \<longleftrightarrow> issued_key c (fst p)" if "p \<in> set kvs" for p
    using keys [OF that] by (auto simp: issued_key_def)
  then show ?thesis unfolding n fold_max_le by simp
qed

lemma refmap_validate_iff:
  "refmap_validate fx m = Inr () \<longleftrightarrow>
     (\<forall>p \<in> set (inner m). issued_key (counter m) (fst p) \<and> valid_entry fx (snd p)) \<and>
     unat (counter m) \<noteq> u32_max"
proof (cases "validate_entries fx 0 (inner m)")
  case (Inl err)
  have "\<not> (\<forall>p \<in> set (inner m). issued_key (counter m) (fst p) \<and> valid_entry fx (snd p))"
  proof
    assume a: "\<forall>p \<in> set (inner m). issued_key (counter m) (fst p) \<and> valid_entry fx (snd p)"
    have "\<exists>i. 0 < i \<and> i \<le> u32_max \<and> fst p = ref_name i" if "p \<in> set (inner m)" for p
      using a that unat_u32_max [of "counter m"] by (fastforce simp: issued_key_def)
    with a have "\<exists>n. validate_entries fx 0 (inner m) = Inr n" by (auto simp: validate_entries_Inr)
    with Inl show False by simp
  qed
  with Inl show ?thesis by (simp add: refmap_validate_def)
next
  case (Inr n)
  then have "\<forall>p \<in> set (inner m). valid_entry fx (snd p)" by (auto simp: validate_entries_Inr)
  with validate_entries_le [OF Inr, of "counter m"] show ?thesis
    by (auto simp: refmap_validate_def Inr not_less)
qed

lemma refmap_validate_inv:
  "distinct (map fst (inner m)) \<Longrightarrow>
     refmap_validate fx m = Inr () \<longleftrightarrow> refmap_inv fx m \<and> unat (counter m) \<noteq> u32_max"
  by (auto simp: refmap_validate_iff refmap_inv_def)

section \<open>Histories of a map\<close>

text \<open>The operations a snapshot's map sees over its life, and the runs made of them.\<close>

datatype refmap_op = OpAllocate ref_entry | OpObserve ref_entry | OpRemove string

fun refmap_step :: "fx \<Rightarrow> ref_map \<Rightarrow> refmap_op \<Rightarrow> ref_map" where
  "refmap_step fx m (OpAllocate e) =
     (case try_allocate fx m e of Inl _ \<Rightarrow> m | Inr (_, m') \<Rightarrow> m')"
| "refmap_step fx m (OpObserve e) =
     (case try_allocate_observed fx m e of Inl _ \<Rightarrow> m | Inr (_, m') \<Rightarrow> m')"
| "refmap_step fx m (OpRemove r) = remove_by_root_ref r m"

definition refmap_run :: "fx \<Rightarrow> ref_map \<Rightarrow> refmap_op list \<Rightarrow> ref_map" where
  "refmap_run fx m ops = foldl (refmap_step fx) m ops"

lemma try_allocate_Inr:
  "try_allocate fx m e = Inr (r, m') \<longleftrightarrow> valid_entry fx e \<and> allocate_validated m e = Inr (r, m')"
  by (auto simp: try_allocate_def valid_entry_def)

lemma try_allocate_observed_cases:
  assumes "try_allocate_observed fx m e = Inr (a, m')"
  obtains "m' = m" "\<not> valid_entry fx e" "a \<in> {SkippedInvalidRole, SkippedInvalidEntry}"
  | r where "valid_entry fx e" "a = Allocated r" "allocate_validated m e = Inr (r, m')"
  using assms
  by (auto simp: try_allocate_observed_def valid_entry_is_ok [symmetric] valid_entry_iff role_ok_def
      split: if_splits)

lemma refmap_step_grows:
  "refmap_step fx m op = m \<or> (\<exists>rid. refmap_step fx m op = remove_by_root_ref rid m) \<or>
     (\<exists>e r. valid_entry fx e \<and> allocate_validated m e = Inr (r, refmap_step fx m op))"
proof (cases op)
  case (OpAllocate e)
  then show ?thesis by (auto simp: try_allocate_Inr split: sum.splits)
next
  case (OpObserve e)
  show ?thesis
  proof (cases "try_allocate_observed fx m e")
    case (Inr p)
    then obtain a m' where o: "try_allocate_observed fx m e = Inr (a, m')" by (cases p) auto
    then show ?thesis by (cases rule: try_allocate_observed_cases) (auto simp: OpObserve o)
  qed (simp add: OpObserve)
qed auto

lemma refmap_step_inv: "refmap_inv fx m \<Longrightarrow> refmap_inv fx (refmap_step fx m op)"
  using refmap_step_grows [of fx m op] by (auto intro: allocate_inv remove_inv)

lemma refmap_step_counter: "unat (counter m) \<le> unat (counter (refmap_step fx m op))"
  using refmap_step_grows [of fx m op] by (auto dest: allocate_counter)

lemma refmap_step_stable:
  assumes "refmap_inv fx m" "issued_key (counter m) r" "refmap_get (refmap_step fx m op) r = Some e"
  shows "refmap_get m r = Some e"
  using refmap_step_grows [of fx m op]
proof (elim disjE exE conjE)
  fix rid assume "refmap_step fx m op = remove_by_root_ref rid m"
  with assms show ?thesis by (auto simp: remove_lookup option_filter_Some_iff)
next
  fix d q assume a: "allocate_validated m d = Inr (q, refmap_step fx m op)"
  then have "q \<noteq> r" using assms(2) allocate_counter [OF a] allocate_key [OF a]
    by (auto simp: fresh_key_not_issued)
  with assms(3) show ?thesis by (simp add: allocate_lookup [OF a])
qed (use assms in simp)

lemma refmap_run_inv: "refmap_inv fx m \<Longrightarrow> refmap_inv fx (refmap_run fx m ops)"
  by (induction ops arbitrary: m) (auto simp: refmap_run_def refmap_step_inv)

lemma refmap_run_stable:
  "refmap_inv fx m \<Longrightarrow> issued_key (counter m) r \<Longrightarrow> refmap_get (refmap_run fx m ops) r = Some e \<Longrightarrow>
     refmap_get m r = Some e"
proof (induction ops arbitrary: m)
  case (Cons op ops)
  let ?m = "refmap_step fx m op"
  have "issued_key (counter ?m) r" using Cons.prems(2) refmap_step_counter by (rule issued_key_mono)
  with Cons have "refmap_get ?m r = Some e" by (simp add: refmap_run_def refmap_step_inv)
  with Cons.prems show ?case by (blast intro: refmap_step_stable)
qed (simp add: refmap_run_def)

section \<open>Tokens are read back\<close>

lemma validate_snapshot_id_Inr:
  "validate_snapshot_id s = Inr () \<longleftrightarrow>
     3 \<le> length s \<and> length s \<le> 64 \<and>
     list_all (\<lambda>c. is_ascii_alphanumeric c \<or> c = CHR ''-'' \<or> c = CHR ''_'') s"
  by (auto simp: validate_snapshot_id_def)

lemma valid_snapshot_id_no_colon: "validate_snapshot_id s = Inr () \<Longrightarrow> CHR '':'' \<notin> set s"
  by (auto simp: validate_snapshot_id_Inr list_all_iff is_ascii_alphanumeric_def Let_def)

lemma is_local_ref_iff:
  "is_local_ref r \<longleftrightarrow>
     (\<exists>d. r = ''@e'' @ d \<and> d \<noteq> [] \<and> length d \<le> 10 \<and> list_all is_ascii_digit d \<and>
        (\<exists>n. parse_u32 d = Some n \<and> 0 < n))"
  by (auto simp: is_local_ref_def is_some_and_iff strip_prefix_Some_iff)

lemma local_ref_name: "0 < n \<Longrightarrow> n \<le> u32_max \<Longrightarrow> is_local_ref (ref_name n)"
proof -
  assume n: "0 < n" "n \<le> u32_max"
  then have "length (show_nat n) \<le> 10" by (intro show_nat_length) auto
  with n show ?thesis
    unfolding is_local_ref_iff ref_name_def by (auto simp: show_nat_digits parse_show_u32)
qed

lemma rsplit_once_unique:
  assumes "rsplit_once d s \<noteq> None" "\<And>a b a' b'. s = a @ d @ b \<Longrightarrow> s = a' @ d @ b' \<Longrightarrow> a = a'"
    and "s = x @ d @ y"
  shows "rsplit_once d s = Some (x, y)"
proof -
  obtain a b where ab: "rsplit_once d s = Some (a, b)" using assms(1) by (cases "rsplit_once d s") auto
  then have "s = a @ d @ b" by (rule rsplit_once_Some)
  with assms(2,3) have "a = x" by blast
  with \<open>s = a @ d @ b\<close> assms(3) ab show ?thesis by simp
qed

lemma split_at_colon:
  "CHR '':'' \<notin> set a \<Longrightarrow> CHR '':'' \<notin> set b \<Longrightarrow> a @ '':'' @ b = a' @ '':'' @ b' \<Longrightarrow> a = a' \<and> b = b'"
  by (induction a arbitrary: a') (auto simp: Cons_eq_append_conv append_eq_Cons_conv)

lemma digits_no_colon: "list_all is_ascii_digit d \<Longrightarrow> CHR '':'' \<notin> set d"
  by (auto simp: list_all_iff is_ascii_digit_def Let_def)

lemma rsplit_qualified:
  assumes "CHR '':'' \<notin> set sid" "list_all is_ascii_digit d"
  shows "rsplit_once '':e'' (sid @ '':e'' @ d) = Some (sid, d)"
proof (rule rsplit_once_unique)
  have "rsplit_once '':e'' (sid @ '':e'' @ d) = None \<Longrightarrow> False"
    using rsplit_once_None [of "'':e''" "sid @ '':e'' @ d" sid d] by simp
  then show "rsplit_once '':e'' (sid @ '':e'' @ d) \<noteq> None" by blast
next
  fix a b a' b'
  have "CHR '':'' \<notin> set (CHR ''e'' # d)" using digits_no_colon [OF assms(2)] by simp
  note u = split_at_colon [OF assms(1) this]
  assume "sid @ '':e'' @ d = a @ '':e'' @ b" "sid @ '':e'' @ d = a' @ '':e'' @ b'"
  then show "a = a'" using u [of a "CHR ''e'' # b"] u [of a' "CHR ''e'' # b'"] by simp
qed simp

lemma is_local_ref_at: "is_local_ref r \<Longrightarrow> qualify_ref_id sid r = ''@'' @ sid @ '':e'' @ drop 2 r"
  by (auto simp: is_local_ref_iff qualify_ref_id_def strip_prefix_def)

lemma qualified_not_local: "validate_snapshot_id sid = Inr () \<Longrightarrow> \<not> is_local_ref (''@'' @ sid @ '':e'' @ d)"
proof
  assume v: "validate_snapshot_id sid = Inr ()" and "is_local_ref (''@'' @ sid @ '':e'' @ d)"
  then obtain x where x: "''@'' @ sid @ '':e'' @ d = ''@e'' @ x" "list_all is_ascii_digit x"
    by (auto simp: is_local_ref_iff)
  have "sid \<noteq> []" using v by (auto simp: validate_snapshot_id_Inr)
  then have "CHR '':'' \<in> set x" using x(1) by (cases sid) auto
  with x(2) show False by (simp add: digits_no_colon)
qed

lemma resolve_qualified:
  assumes "validate_snapshot_id sid = Inr ()" "is_local_ref r" "explicit = None \<or> explicit = Some sid"
  shows "resolve_ref_target (qualify_ref_id sid r) explicit = Inr (sid, r)"
proof -
  from assms(2) obtain d where r: "r = ''@e'' @ d" and d: "list_all is_ascii_digit d"
    by (auto simp: is_local_ref_iff)
  have q: "qualify_ref_id sid r = ''@'' @ sid @ '':e'' @ d" using is_local_ref_at [OF assms(2)] by (simp add: r)
  have s: "strip_prefix ''@'' (''@'' @ sid @ '':e'' @ d) = Some (sid @ '':e'' @ d)" by (rule strip_prefix_append)
  have "rsplit_once '':e'' (sid @ '':e'' @ d) = Some (sid, d)"
    using valid_snapshot_id_no_colon [OF assms(1)] d by (rule rsplit_qualified)
  moreover have "\<not> is_local_ref (''@'' @ sid @ '':e'' @ d)" using assms(1) by (rule qualified_not_local)
  moreover have "is_local_ref (''@e'' @ d)" using assms(2) r by simp
  ultimately show ?thesis
    using assms unfolding q resolve_ref_target_def
    by (auto simp: s r simp del: append_Cons append_Nil)
qed

lemma resolve_sound:
  assumes "resolve_ref_target t explicit = Inr (sid, r)"
  shows "validate_snapshot_id sid = Inr () \<and> is_local_ref r \<and>
    (t = r \<and> explicit = Some sid \<or> t = qualify_ref_id sid r \<and> (explicit = None \<or> explicit = Some sid))"
proof (cases "is_local_ref t")
  case True
  with assms show ?thesis by (auto simp: resolve_ref_target_def)
next
  case False
  with assms obtain w d where t: "strip_prefix ''@'' t = Some w" "rsplit_once '':e'' w = Some (sid, d)"
    and v: "validate_snapshot_id sid = Inr ()" and r: "r = ''@e'' @ d" "is_local_ref r"
    and x: "explicit = None \<or> explicit = Some sid"
    by (cases explicit) (auto simp: resolve_ref_target_def Let_def split: option.splits if_splits)
  from t have "t = ''@'' @ sid @ '':e'' @ d"
    by (auto simp: strip_prefix_Some_iff dest!: rsplit_once_Some)
  also have "\<dots> = qualify_ref_id sid r" using is_local_ref_at [OF r(2)] r(1) by simp
  finally show ?thesis using v r x by simp
qed

section \<open>Snapshot ids are valid and faithful\<close>

lemma digits36_nth: "i < 36 \<Longrightarrow> is_ascii_alphanumeric (DIGITS36 ! i)"
proof -
  have "length DIGITS36 = 36" "list_all is_ascii_alphanumeric DIGITS36"
    by (simp_all add: DIGITS36_def is_ascii_alphanumeric_def)
  then show "i < 36 \<Longrightarrow> is_ascii_alphanumeric (DIGITS36 ! i)" by (simp add: list_all_length)
qed

lemma base36_digits_alnum: "list_all is_ascii_alphanumeric (base36_digits v)"
  by (induction v rule: base36_digits.induct) (subst base36_digits.simps, auto simp: digits36_nth)

lemma base36_digits_length: "v < 36 ^ k \<Longrightarrow> length (base36_digits v) \<le> k"
proof (induction v arbitrary: k rule: base36_digits.induct)
  case (1 v)
  show ?case
  proof (cases "v = 0")
    case True
    then show ?thesis by (subst base36_digits.simps) simp
  next
    case False
    with 1 obtain j where k: "k = Suc j" by (cases k) auto
    then have "v div 36 < 36 ^ j" using 1 by (simp add: less_mult_imp_div_less mult.commute)
    with False k 1 show ?thesis by (subst base36_digits.simps) simp
  qed
qed

definition value36 :: "string \<Rightarrow> nat" where
  "value36 s = foldl (\<lambda>v c. 36 * v + (LEAST i. i < 36 \<and> DIGITS36 ! i = c)) 0 s"

lemma digits36_least: "i < 36 \<Longrightarrow> (LEAST j. j < 36 \<and> DIGITS36 ! j = DIGITS36 ! i) = i"
proof -
  have "distinct DIGITS36" "length DIGITS36 = 36" by (simp_all add: DIGITS36_def)
  then show "i < 36 \<Longrightarrow> (LEAST j. j < 36 \<and> DIGITS36 ! j = DIGITS36 ! i) = i"
    by (intro Least_equality) (auto simp: nth_eq_iff_index_eq)
qed

lemma value36_digits: "value36 (base36_digits v) = v"
proof (induction v rule: base36_digits.induct)
  case (1 v)
  then show ?case by (subst base36_digits.simps) (auto simp: value36_def digits36_least)
qed

lemma value36_pad: "value36 (replicate n (CHR ''0'') @ s) = value36 s"
proof -
  have "foldl (\<lambda>v c. 36 * v + (LEAST i. i < 36 \<and> DIGITS36 ! i = c)) 0 (replicate n (CHR ''0'')) = (0 :: nat)"
    using digits36_least [of 0] by (induction n) (auto simp: DIGITS36_def)
  then show ?thesis by (simp add: value36_def)
qed

lemma base36_value: "value36 (base36 v) = unat v"
proof -
  have "value36 [CHR ''0''] = 0" using value36_pad [of 1 "[]"] by (simp add: value36_def)
  then show ?thesis by (simp add: base36_def Let_def value36_pad value36_digits)
qed

lemma base36_shape: "4 \<le> length (base36 v) \<and> length (base36 v) \<le> 13 \<and> list_all is_ascii_alphanumeric (base36 v)"
proof -
  have "unat v < 36 ^ 13" using unsigned_less [where 'a = nat and w = v] by simp
  then have "length (base36_digits (unat v)) \<le> 13" by (rule base36_digits_length)
  moreover have "is_ascii_alphanumeric (CHR ''0'')" by (simp add: is_ascii_alphanumeric_def)
  ultimately show ?thesis
    using base36_digits_alnum [of "unat v"] by (auto simp: base36_def Let_def list_all_iff)
qed

section \<open>A concrete entry\<close>

text \<open>A button of a running application, used where a statement is applied to a concrete map.\<close>

definition sample_entry :: "string list \<Rightarrow> nat list \<Rightarrow> string option \<Rightarrow> ref_entry" where
  "sample_entry actions p rid =
     \<lparr>process = \<lparr>rp_pid = 42, rp_instance = Some ''gen-1''\<rparr>,
      identity = \<lparr>id_retained_object = None, id_role = role_as_str RButton, id_name = Some ''OK'',
        id_value = None, id_description = None, id_native_id = None\<rparr>,
      geometry = \<lparr>geo_bounds = None, geo_bounds_hash = None\<rparr>,
      capabilities = \<lparr>cap_states = [], cap_available_actions = actions\<rparr>,
      source = \<lparr>src_app = Some ''Finder'', src_window_id = Some ''w1'', src_window_title = None,
        src_window_bounds_hash = None, src_surface = SurfWindow\<rparr>,
      scope = \<lparr>scope_root_ref = rid, scope_path_is_absolute = False, scope_path = p\<rparr>\<rparr>"

lemma sample_entry_valid [simp]:
  assumes "length p \<le> 256"
  shows "valid_entry fx (sample_entry [] p rid)"
proof -
  have "role_as_str RButton \<noteq> ''unknown''" by simp
  then show ?thesis using assms
    by (simp add: valid_entry_iff sample_entry_def process_ok_def role_ok_def fields_ok_def
        text_fields_def MAX_FIELD_BYTES_def identifier_ok_def path_ok_def MAX_PATH_DEPTH_def
        evidence_ok_def del: role_as_str.simps)
qed

lemma allocate_first:
  "unat (counter m) < 100 \<Longrightarrow>
     allocate_validated m e = Inr (ref_name (unat (counter m) + 1),
       m\<lparr>inner := alist_insert (ref_name (unat (counter m) + 1)) e (inner m), counter := counter m + 1\<rparr>)"
  by (simp add: allocate_validated_def u32_checked_add_def ref_key_def unat_word_ariths Let_def)

section \<open>Properties\<close>

text \<open>
  C26. A token resolves to a snapshot id and a local ref exactly when both are valid and the token
  is the local ref with the id given separately, or the local ref qualified by that id with no
  other id given: a printed ref is read back as what it was made of, and nothing else resolves.
\<close>

theorem resolve_ref_target_exact:
  "resolve_ref_target t explicit = Inr (sid, r) \<longleftrightarrow>
     validate_snapshot_id sid = Inr () \<and> is_local_ref r \<and>
     (t = r \<and> explicit = Some sid \<or>
      t = qualify_ref_id sid r \<and> (explicit = None \<or> explicit = Some sid))"
  using resolve_sound [of t explicit sid r] resolve_qualified [of sid r explicit]
  by (auto simp: resolve_ref_target_def)

text \<open>
  Every 64-bit mixture gives a snapshot id that passes validation, and different mixtures give
  different ids.
\<close>

theorem snapshot_ids_valid_and_distinct:
  "validate_snapshot_id (snapshot_id_of v) = Inr () \<and> (snapshot_id_of v = snapshot_id_of w \<longleftrightarrow> v = w)"
proof
  show "validate_snapshot_id (snapshot_id_of v) = Inr ()"
    using base36_shape [of v]
    by (auto simp: validate_snapshot_id_Inr snapshot_id_of_def is_ascii_alphanumeric_def list_all_iff Let_def)
  show "snapshot_id_of v = snapshot_id_of w \<longleftrightarrow> v = w"
    by (metis append_Cons append_Nil base36_value list.inject snapshot_id_of_def word_unat_eq_iff)
qed

text \<open>
  C35. A map is accepted by \<open>validate\<close> exactly when every key is a canonical \<open>@eN\<close> the counter has
  passed, every entry is valid and the counter is not at its last value.
\<close>

theorem refmap_validate_exact:
  "refmap_validate fx m = Inr () \<longleftrightarrow>
     list_all (\<lambda>(r, e). issued_key (counter m) r \<and> valid_entry fx e) (inner m) \<and>
     unat (counter m) \<noteq> u32_max"
  by (auto simp: refmap_validate_iff list_all_iff)

text \<open>
  C29. Over any history of allocations, observations and removals that starts from an empty map,
  a ref that once denoted an entry never denotes another one later: it still denotes the same
  entry or nothing.
\<close>

theorem ref_never_reused:
  assumes "refmap_get (refmap_run fx refmap_new ops) r = Some e"
  shows "refmap_get (refmap_run fx refmap_new (ops @ later)) r \<in> {Some e, None}"
proof -
  let ?m = "refmap_run fx refmap_new ops"
  have inv: "refmap_inv fx ?m" by (intro refmap_run_inv refmap_inv_new)
  have "refmap_run fx refmap_new (ops @ later) = refmap_run fx ?m later" by (simp add: refmap_run_def)
  then show ?thesis
    using refmap_run_stable [OF inv, of r later] refmap_get_issued [OF inv assms] assms
    by (cases "refmap_get (refmap_run fx ?m later) r") auto
qed

theorem ref_never_reused_witness:
  "refmap_get (refmap_run sum_hash refmap_new ([OpAllocate (sample_entry [] [] None)] @
     [OpRemove ''@e9'', OpAllocate (sample_entry [] [1] None)])) (ref_name 1)
   \<in> {Some (sample_entry [] [] None), None}"
proof (rule ref_never_reused)
  show "refmap_get (refmap_run sum_hash refmap_new [OpAllocate (sample_entry [] [] None)]) (ref_name 1)
      = Some (sample_entry [] [] None)"
    using allocate_first [of refmap_new "sample_entry [] [] None"]
    by (simp add: refmap_run_def try_allocate_def refmap_new_def refmap_get_def
        sample_entry_valid [unfolded valid_entry_def])
qed

text \<open>
  C33. Replacing the refs below a root keeps the map well formed, keeps the root's own entry, and
  removes exactly the other entries that were found below the root or whose path from the window
  runs through it, in the same window and surface of the same process instance; every other ref
  keeps its entry, the numbers that were given out stay taken, and doing it twice changes nothing.
\<close>

theorem remove_by_root_ref_exact:
  assumes "refmap_inv fx m"
  shows "refmap_inv fx (remove_by_root_ref rid m) \<and>
    refmap_get (remove_by_root_ref rid m) r =
      (case refmap_get m r of
         None \<Rightarrow> None
       | Some e \<Rightarrow>
           if r \<noteq> rid \<and>
              (scope_root_ref (scope e) = Some rid \<or> (\<exists>p. refmap_get m rid = Some p \<and> lies_below p e))
           then None else Some e) \<and>
    counter (remove_by_root_ref rid m) = counter m \<and>
    remove_by_root_ref rid (remove_by_root_ref rid m) = remove_by_root_ref rid m"
proof -
  have root: "refmap_get (remove_by_root_ref rid m) rid = refmap_get m rid" using assms by (rule remove_keeps_root)
  have "inner (remove_by_root_ref rid (remove_by_root_ref rid m)) = inner (remove_by_root_ref rid m)"
    by (auto simp: remove_inner [of rid "remove_by_root_ref rid m"] remove_inner [of rid m] removed_by_def root
        filter_filter intro!: filter_cong)
  then show ?thesis
    using assms by (auto simp: remove_inv remove_lookup removed_by_def option_filter_def split: option.splits)
qed

theorem remove_by_root_ref_witness:
  "refmap_get (remove_by_root_ref ''@e1''
      \<lparr>inner = [(''@e1'', sample_entry [] [0] None), (''@e2'', sample_entry [] [0, 3] None),
               (''@e3'', sample_entry [] [1] None)], counter = 3\<rparr>) ''@e2'' = None"
proof -
  let ?m = "\<lparr>inner = [(''@e1'', sample_entry [] [0] None), (''@e2'', sample_entry [] [0, 3] None),
               (''@e3'', sample_entry [] [1] None)], counter = 3\<rparr>"
  have names: "''@e1'' = ref_name 1" "''@e2'' = ref_name 2" "''@e3'' = ref_name 3"
    by code_simp+
  have "refmap_inv sum_hash ?m"
    unfolding names by (simp add: refmap_inv_def issued_key_def)
  from remove_by_root_ref_exact [OF this, of "''@e1''" "''@e2''"] show ?thesis
    by (simp add: refmap_get_def lies_below_def window_path_def sample_entry_def)
qed

end
