(* ===== verification/RefAlloc.thy ===== *)
theory RefAlloc
  imports Refs
begin

text \<open>
  Ref allocation over an observed tree (\<open>ref_alloc.rs\<close> with its configuration records, \<open>node.rs\<close>,
  \<open>node_identity.rs\<close>, \<open>node_presentation.rs\<close>, and the tree qualification of \<open>ref_token.rs\<close>):
  which nodes receive a ref, the skeleton anchors, the pruning and collapsing of the printed tree,
  and the raw-tree variant without refs.  The map is threaded through the walk; an error of the
  map ends the walk.
\<close>

section \<open>Trees\<close>

record node_identity =
  nid_retained_object :: "string option"
  nid_name :: "string option"
  nid_value :: "string option"
  nid_description :: "string option"
  nid_native_id :: "element_identifier option"

record node_presentation =
  np_hint :: "string option"
  np_states :: "string list"
  np_available_actions :: "string list"
  np_bounds :: "rect option"

datatype node =
  Node (node_ref_id: "string option") (node_role: string) (node_id: node_identity)
    (node_pres: node_presentation) (node_children_count: "u32 option") (node_truncated: bool)
    (node_children: "node list")

record ref_alloc_options =
  opt_include_bounds :: bool
  opt_interactive_only :: bool
  opt_compact :: bool

record ref_alloc_source =
  ras_pid :: process_id
  ras_app :: "string option"
  ras_window_id :: "string option"
  ras_window_title :: "string option"
  ras_window_bounds_hash :: "u64 option"
  ras_process_instance :: "string option"
  ras_surface :: snapshot_surface

record ref_alloc_scope =
  root_ref_id :: "string option"
  path_prefix :: "nat list"

record ref_alloc_config =
  cfg_options :: ref_alloc_options
  cfg_source :: ref_alloc_source
  cfg_scope :: ref_alloc_scope

section \<open>Which nodes are addressable\<close>

definition meaningful_string :: "string option \<Rightarrow> string option" where
  "meaningful_string v = option_filter (\<lambda>t. t \<noteq> []) v"

definition ref_entry_from_node ::
  "fx \<Rightarrow> node \<Rightarrow> ref_alloc_source \<Rightarrow> string option \<Rightarrow> nat list \<Rightarrow> ref_entry" where
  "ref_entry_from_node fx n src root_ref p =
     (let bounds = option_filter (\<lambda>b. is_ok (rect_validate b)) (np_bounds (node_pres n))
      in \<lparr>process = \<lparr>rp_pid = ras_pid src, rp_instance = ras_process_instance src\<rparr>,
          identity =
            \<lparr>id_retained_object = nid_retained_object (node_id n), id_role = node_role n,
             id_name = meaningful_string (nid_name (node_id n)),
             id_value = meaningful_string (nid_value (node_id n)),
             id_description = meaningful_string (nid_description (node_id n)),
             id_native_id = option_filter (\<lambda>i. \<not> is_blank (ident_value i)) (nid_native_id (node_id n))\<rparr>,
          geometry = \<lparr>geo_bounds = bounds, geo_bounds_hash = Option.bind bounds (bounds_hash fx)\<rparr>,
          capabilities =
            \<lparr>cap_states = np_states (node_pres n), cap_available_actions = np_available_actions (node_pres n)\<rparr>,
          source =
            \<lparr>src_app = ras_app src, src_window_id = ras_window_id src, src_window_title = ras_window_title src,
             src_window_bounds_hash = ras_window_bounds_hash src, src_surface = ras_surface src\<rparr>,
          scope = \<lparr>scope_root_ref = root_ref, scope_path_is_absolute = False, scope_path = p\<rparr>\<rparr>)"

definition UBIQUITOUS_AFFORDANCES :: "string list" where
  "UBIQUITOUS_AFFORDANCES = [SET_FOCUS, RIGHT_CLICK, SCROLL_TO]"

definition advertises_primary_action :: "string list \<Rightarrow> bool" where
  "advertises_primary_action actions \<longleftrightarrow> list_ex (\<lambda>a. a \<notin> set UBIQUITOUS_AFFORDANCES) actions"

definition is_ref_able_role_actions :: "string \<Rightarrow> string list \<Rightarrow> bool" where
  "is_ref_able_role_actions role actions \<longleftrightarrow>
     role \<in> set INTERACTIVE_ROLES \<or> advertises_primary_action actions"

definition is_ref_able :: "node \<Rightarrow> bool" where
  "is_ref_able n \<longleftrightarrow> is_ref_able_role_actions (node_role n) (np_available_actions (node_pres n))"

definition is_collapsible :: "node \<Rightarrow> bool" where
  "is_collapsible n \<longleftrightarrow>
     is_transparent_wrapper (from_token (node_role n)) \<and> node_ref_id n = None \<and>
     is_none_or (nid_name (node_id n)) is_blank \<and> is_none_or (nid_value (node_id n)) is_blank \<and>
     is_none_or (nid_description (node_id n)) is_blank \<and> nid_native_id (node_id n) = None \<and>
     is_none_or (np_hint (node_pres n)) is_blank \<and> np_states (node_pres n) = [] \<and>
     np_available_actions (node_pres n) = [] \<and> np_bounds (node_pres n) = None \<and>
     node_children_count n = None \<and> length (node_children n) = 1"

definition strip_bounds :: "bool \<Rightarrow> node_presentation \<Rightarrow> node_presentation" where
  "strip_bounds keep p = (if keep then p else p\<lparr>np_bounds := None\<rparr>)"

text \<open>What the printed tree keeps of a walked child: nothing, the child, or its only child.\<close>

definition keep_raw_child :: "bool \<Rightarrow> bool \<Rightarrow> node \<Rightarrow> node list" where
  "keep_raw_child collapsible interactive_only c =
     (if collapsible then (case node_children c of [] \<Rightarrow> [] | d # _ \<Rightarrow> [d])
      else if interactive_only \<and> \<not> is_ref_able c \<and> node_children c = [] \<and> node_children_count c = None
      then [] else [c])"

fun transform_tree :: "bool \<Rightarrow> bool \<Rightarrow> bool \<Rightarrow> node \<Rightarrow> node" where
  "transform_tree bounds interactive cmpct (Node r role i p cc t cs) =
     Node r role i (strip_bounds bounds p) cc t
       (concat (map (\<lambda>c. keep_raw_child (cmpct \<and> is_collapsible c) interactive
          (transform_tree bounds interactive cmpct c)) cs))"

section \<open>Skeleton anchors\<close>

definition can_receive_observed_ref :: "node \<Rightarrow> bool" where
  "can_receive_observed_ref n \<longleftrightarrow> is_canonical (node_role n) \<and> node_role n \<noteq> ''unknown''"

definition has_meaningful_text :: "string option \<Rightarrow> bool" where
  "has_meaningful_text v = is_some_and v (\<lambda>t. \<not> is_blank t)"

definition is_resolvable_skeleton_anchor :: "fx \<Rightarrow> node \<Rightarrow> bool" where
  "is_resolvable_skeleton_anchor fx n \<longleftrightarrow>
     can_receive_observed_ref n \<and>
     (has_meaningful_text (nid_name (node_id n)) \<or> has_meaningful_text (nid_description (node_id n)) \<or>
      is_some_and (nid_native_id (node_id n)) (\<lambda>i. ident_kind i \<noteq> KindUnknown \<and> \<not> is_blank (ident_value i)) \<or>
      Option.bind (np_bounds (node_pres n)) (bounds_hash fx) \<noteq> None)"

fun plan_skeleton_anchors :: "fx \<Rightarrow> node \<Rightarrow> nat list \<Rightarrow> nat list set \<Rightarrow> bool \<times> nat list set"
  and plan_children :: "fx \<Rightarrow> node list \<Rightarrow> nat \<Rightarrow> nat list \<Rightarrow> bool \<Rightarrow> nat list set \<Rightarrow> bool \<times> nat list set"
where
  "plan_skeleton_anchors fx (Node r role i p cc t cs) path anchors =
     (let n = Node r role i p cc t cs;
          (uncovered, anchors') = plan_children fx cs 0 path (cc \<noteq> None) anchors
      in if \<not> uncovered then (False, anchors')
         else if can_receive_observed_ref n \<and> is_ref_able n then (False, anchors')
         else if path \<noteq> [] \<and> is_resolvable_skeleton_anchor fx n then (False, insert path anchors')
         else (True, anchors'))"
| "plan_children fx [] k path uncovered anchors = (uncovered, anchors)"
| "plan_children fx (c # cs) k path uncovered anchors =
     (let (u, anchors') = plan_skeleton_anchors fx c (path @ [k]) anchors
      in plan_children fx cs (Suc k) path (uncovered \<or> u) anchors')"

section \<open>The allocating walk\<close>

definition allocate_observed_ref :: "fx \<Rightarrow> ref_map \<Rightarrow> ref_entry \<Rightarrow> app_error + string option \<times> ref_map" where
  "allocate_observed_ref fx m e =
     res_bind (try_allocate_observed fx m e) (\<lambda>(a, m').
       Inr (case a of Allocated r \<Rightarrow> Some r | _ \<Rightarrow> None, m'))"

definition drop_bounds :: "bool \<Rightarrow> ref_entry \<Rightarrow> ref_entry" where
  "drop_bounds keep e = (if keep then e else e\<lparr>geometry := (geometry e)\<lparr>geo_bounds := None\<rparr>\<rparr>)"

definition action_entry :: "fx \<Rightarrow> ref_alloc_config \<Rightarrow> nat list \<Rightarrow> node \<Rightarrow> ref_entry" where
  "action_entry fx cfg path n =
     (let e = ref_entry_from_node fx n (cfg_source cfg) (root_ref_id (cfg_scope cfg)) path;
          e' = e\<lparr>scope := (scope e)\<lparr>scope_path_is_absolute := (root_ref_id (cfg_scope cfg) \<noteq> None)\<rparr>\<rparr>
      in drop_bounds (opt_include_bounds (cfg_options cfg)) e')"

definition anchor_entry :: "fx \<Rightarrow> ref_alloc_config \<Rightarrow> nat list \<Rightarrow> node \<Rightarrow> ref_entry" where
  "anchor_entry fx cfg path n =
     (let e = ref_entry_from_node fx n (cfg_source cfg) None path;
          e' = e\<lparr>capabilities := (capabilities e)\<lparr>cap_available_actions := []\<rparr>\<rparr>
      in drop_bounds (opt_include_bounds (cfg_options cfg)) e')"

text \<open>The head of the walk: the ref of the node itself.\<close>

definition allocate_node_ref ::
  "fx \<Rightarrow> ref_alloc_config \<Rightarrow> nat list set \<Rightarrow> nat list \<Rightarrow> node \<Rightarrow> ref_map \<Rightarrow> app_error + string option \<times> ref_map"
where
  "allocate_node_ref fx cfg anchors path n m =
     (if is_ref_able n then allocate_observed_ref fx m (action_entry fx cfg path n)
      else if path \<in> anchors then allocate_observed_ref fx m (anchor_entry fx cfg path n)
      else Inr (node_ref_id n, m))"

definition keep_child :: "bool \<Rightarrow> bool \<Rightarrow> node \<Rightarrow> node list" where
  "keep_child collapsible interactive_only c =
     (if collapsible then (case node_children c of [] \<Rightarrow> [] | d # _ \<Rightarrow> [d])
      else if interactive_only \<and> node_ref_id c = None \<and> \<not> is_ref_able c \<and>
              node_children c = [] \<and> node_children_count c = None
      then [] else [c])"

fun allocate_refs_at_path ::
  "fx \<Rightarrow> ref_alloc_config \<Rightarrow> nat list set \<Rightarrow> nat list \<Rightarrow> node \<Rightarrow> ref_map \<Rightarrow> app_error + node \<times> ref_map"
  and allocate_children ::
  "fx \<Rightarrow> ref_alloc_config \<Rightarrow> nat list set \<Rightarrow> nat list \<Rightarrow> nat \<Rightarrow> node list \<Rightarrow> ref_map \<Rightarrow>
     app_error + node list \<times> ref_map"
where
  "allocate_refs_at_path fx cfg anchors path (Node r role i p cc t cs) m =
     res_bind (allocate_node_ref fx cfg anchors path (Node r role i p cc t cs) m) (\<lambda>(r', m').
     res_bind (allocate_children fx cfg anchors path 0 cs m') (\<lambda>(cs', m'').
     Inr (Node r' role i (strip_bounds (opt_include_bounds (cfg_options cfg)) p) cc t cs', m'')))"
| "allocate_children fx cfg anchors path k [] m = Inr ([], m)"
| "allocate_children fx cfg anchors path k (c # cs) m =
     res_bind (allocate_refs_at_path fx cfg anchors (path @ [k]) c m) (\<lambda>(c', m').
     res_bind (allocate_children fx cfg anchors path (Suc k) cs m') (\<lambda>(cs', m'').
     Inr (keep_child (opt_compact (cfg_options cfg) \<and> is_collapsible c)
            (opt_interactive_only (cfg_options cfg)) c' @ cs', m'')))"

definition skeleton_anchors :: "fx \<Rightarrow> ref_alloc_config \<Rightarrow> node \<Rightarrow> nat list set" where
  "skeleton_anchors fx cfg n =
     (if root_ref_id (cfg_scope cfg) = None then snd (plan_skeleton_anchors fx n [] {}) else {})"

definition allocate_refs :: "fx \<Rightarrow> node \<Rightarrow> ref_map \<Rightarrow> ref_alloc_config \<Rightarrow> app_error + node \<times> ref_map" where
  "allocate_refs fx n m cfg =
     allocate_refs_at_path fx cfg (skeleton_anchors fx cfg n) (path_prefix (cfg_scope cfg)) n m"

section \<open>Qualifying a tree\<close>

fun qualify_tree_refs :: "string \<Rightarrow> node \<Rightarrow> node" where
  "qualify_tree_refs sid (Node r role i p cc t cs) =
     Node (map_option (qualify_ref_id sid) r) role i p cc t (map (qualify_tree_refs sid) cs)"

fun count_nodes :: "node \<Rightarrow> nat" where
  "count_nodes (Node r role i p cc t cs) = 1 + sum_list (map count_nodes cs)"

section \<open>The refs of a tree\<close>

text \<open>Preorder list of the refs a tree shows, and the tree without them.\<close>

fun tree_refs :: "node \<Rightarrow> string list" where
  "tree_refs (Node r role i p cc t cs) =
     (case r of None \<Rightarrow> [] | Some x \<Rightarrow> [x]) @ concat (map tree_refs cs)"

fun erase_refs :: "node \<Rightarrow> node" where
  "erase_refs (Node r role i p cc t cs) = Node None role i p cc t (map erase_refs cs)"

text \<open>
  The entries a walk stores, in preorder: the specification of its effect on the map.
\<close>

definition node_entries :: "fx \<Rightarrow> ref_alloc_config \<Rightarrow> nat list set \<Rightarrow> nat list \<Rightarrow> node \<Rightarrow> ref_entry list" where
  "node_entries fx cfg anchors path n =
     filter (valid_entry fx)
       (if is_ref_able n then [action_entry fx cfg path n]
        else if path \<in> anchors then [anchor_entry fx cfg path n] else [])"

fun planned_entries :: "fx \<Rightarrow> ref_alloc_config \<Rightarrow> nat list set \<Rightarrow> nat list \<Rightarrow> node \<Rightarrow> ref_entry list"
  and planned_children :: "fx \<Rightarrow> ref_alloc_config \<Rightarrow> nat list set \<Rightarrow> nat list \<Rightarrow> nat \<Rightarrow> node list \<Rightarrow> ref_entry list"
where
  "planned_entries fx cfg anchors path (Node r role i p cc t cs) =
     node_entries fx cfg anchors path (Node r role i p cc t cs) @ planned_children fx cfg anchors path 0 cs"
| "planned_children fx cfg anchors path k [] = []"
| "planned_children fx cfg anchors path k (c # cs) =
     planned_entries fx cfg anchors (path @ [k]) c @ planned_children fx cfg anchors path (Suc k) cs"

section \<open>Sub-nodes and skeleton boundaries\<close>

fun subnode :: "node \<Rightarrow> nat list \<Rightarrow> node option" where
  "subnode n [] = Some n"
| "subnode n (k # s) = (if k < length (node_children n) then subnode (node_children n ! k) s else None)"

text \<open>Some descendant, or the node itself, was cut short by the skeleton depth.\<close>

fun has_boundary :: "node \<Rightarrow> bool" where
  "has_boundary (Node r role i p cc t cs) \<longleftrightarrow> cc \<noteq> None \<or> list_ex has_boundary cs"

definition anchor_node :: "fx \<Rightarrow> node \<Rightarrow> bool" where
  "anchor_node fx n \<longleftrightarrow> is_resolvable_skeleton_anchor fx n \<and> has_boundary n"

definition anchors_sound :: "fx \<Rightarrow> nat list set \<Rightarrow> nat list \<Rightarrow> node \<Rightarrow> bool" where
  "anchors_sound fx anchors path n \<longleftrightarrow>
     (\<forall>s c. subnode n s = Some c \<longrightarrow> path @ s \<in> anchors \<longrightarrow> anchor_node fx c)"

lemma anchors_sound_child:
  "anchors_sound fx anchors path (Node r role i p cc t cs) \<Longrightarrow> k < length cs \<Longrightarrow>
     anchors_sound fx anchors (path @ [k]) (cs ! k)"
  unfolding anchors_sound_def
proof (intro allI impI)
  fix s c
  assume a: "\<forall>s c. subnode (Node r role i p cc t cs) s = Some c \<longrightarrow> path @ s \<in> anchors \<longrightarrow> anchor_node fx c"
    and k: "k < length cs" "subnode (cs ! k) s = Some c" "(path @ [k]) @ s \<in> anchors"
  have "subnode (Node r role i p cc t cs) (k # s) = Some c" using k by simp
  with a k(3) show "anchor_node fx c" by fastforce
qed

lemma anchors_sound_here: "anchors_sound fx anchors path n \<Longrightarrow> path \<in> anchors \<Longrightarrow> anchor_node fx n"
  unfolding anchors_sound_def by (metis append_Nil2 subnode.simps(1))

lemma plan_sound:
  "plan_skeleton_anchors fx n path anchors = (u, anchors') \<Longrightarrow>
     (u \<longrightarrow> has_boundary n) \<and>
     (\<forall>q \<in> anchors'. q \<in> anchors \<or> (\<exists>s c. q = path @ s \<and> subnode n s = Some c \<and> anchor_node fx c))"
  "plan_children fx cs k path u0 anchors = (u, anchors') \<Longrightarrow>
     (u \<longrightarrow> u0 \<or> list_ex has_boundary cs) \<and>
     (\<forall>q \<in> anchors'. q \<in> anchors \<or>
        (\<exists>j s c. j < length cs \<and> q = path @ (k + j) # s \<and> subnode (cs ! j) s = Some c \<and> anchor_node fx c))"
proof (induction fx n path anchors and fx cs k path u0 anchors arbitrary: u anchors' and u anchors'
    rule: plan_skeleton_anchors_plan_children.induct)
  case (1 fx r role i p cc t cs path anchors)
  let ?n = "Node r role i p cc t cs"
  obtain v B where pc: "plan_children fx cs 0 path (cc \<noteq> None) anchors = (v, B)" by fastforce
  from "1.IH" [OF refl pc] have b: "v \<longrightarrow> has_boundary ?n"
    and q: "\<And>q. q \<in> B \<Longrightarrow> q \<in> anchors \<or>
       (\<exists>j s c. j < length cs \<and> q = path @ j # s \<and> subnode (cs ! j) s = Some c \<and> anchor_node fx c)"
    by auto
  have q': "q \<in> anchors \<or> (\<exists>s c. q = path @ s \<and> subnode ?n s = Some c \<and> anchor_node fx c)" if "q \<in> B" for q
    using q [OF that]
  proof
    assume "\<exists>j s c. j < length cs \<and> q = path @ j # s \<and> subnode (cs ! j) s = Some c \<and> anchor_node fx c"
    then obtain j s c where "j < length cs" "q = path @ j # s" "subnode (cs ! j) s = Some c" "anchor_node fx c"
      by blast
    then show ?thesis by (intro disjI2 exI [of _ "j # s"] exI [of _ c]) simp
  qed simp
  have here: "\<exists>s c. path = path @ s \<and> subnode ?n s = Some c \<and> anchor_node fx c"
    if "anchor_node fx ?n" using that by (intro exI [of _ "[]"]) simp
  have step: "plan_skeleton_anchors fx ?n path anchors =
     (if \<not> v then (False, B)
      else if can_receive_observed_ref ?n \<and> is_ref_able ?n then (False, B)
      else if path \<noteq> [] \<and> is_resolvable_skeleton_anchor fx ?n then (False, insert path B)
      else (True, B))"
    by (simp only: plan_skeleton_anchors.simps Let_def pc prod.case)
  show ?case
    using "1.prems" b q' here unfolding step
    by (auto simp: anchor_node_def simp del: has_boundary.simps split: if_splits)
next
  case (2 fx k path uncovered anchors)
  then show ?case by simp
next
  case (3 fx c cs k path uncovered anchors)
  obtain v B where pc: "plan_skeleton_anchors fx c (path @ [k]) anchors = (v, B)" by fastforce
  with 3 have rest: "plan_children fx cs (Suc k) path (uncovered \<or> v) B = (u, anchors')" by simp
  note c = "3.IH"(1) [OF pc]
  note cs = "3.IH"(2) [OF pc [symmetric] refl rest]
  show ?case
  proof
    show "u \<longrightarrow> uncovered \<or> list_ex has_boundary (c # cs)" using c cs by auto
    show "\<forall>q \<in> anchors'. q \<in> anchors \<or> (\<exists>j s d. j < length (c # cs) \<and> q = path @ (k + j) # s \<and>
        subnode ((c # cs) ! j) s = Some d \<and> anchor_node fx d)"
    proof
      fix q assume "q \<in> anchors'"
      with cs consider "q \<in> B"
        | j s d where "j < length cs" "q = path @ (Suc k + j) # s" "subnode (cs ! j) s = Some d" "anchor_node fx d"
        by blast
      then show "q \<in> anchors \<or> (\<exists>j s d. j < length (c # cs) \<and> q = path @ (k + j) # s \<and>
        subnode ((c # cs) ! j) s = Some d \<and> anchor_node fx d)"
      proof cases
        case 1
        with c have "q \<in> anchors \<or> (\<exists>s d. q = (path @ [k]) @ s \<and> subnode c s = Some d \<and> anchor_node fx d)"
          by blast
        then show ?thesis
        proof
          assume "\<exists>s d. q = (path @ [k]) @ s \<and> subnode c s = Some d \<and> anchor_node fx d"
          then obtain s d where "q = (path @ [k]) @ s" "subnode c s = Some d" "anchor_node fx d" by blast
          then show ?thesis by (intro disjI2 exI [of _ 0] exI [of _ s] exI [of _ d]) simp
        qed simp
      next
        case 2
        then show ?thesis by (intro disjI2 exI [of _ "Suc j"] exI [of _ s] exI [of _ d]) simp
      qed
    qed
  qed
qed

lemma skeleton_anchors_sound:
  assumes "path_prefix (cfg_scope cfg) = [] \<or> root_ref_id (cfg_scope cfg) \<noteq> None"
  shows "anchors_sound fx (skeleton_anchors fx cfg n) (path_prefix (cfg_scope cfg)) n"
proof (cases "root_ref_id (cfg_scope cfg) = None")
  case True
  obtain u A where "plan_skeleton_anchors fx n [] {} = (u, A)" by fastforce
  with plan_sound(1) [OF this] True assms show ?thesis
    by (auto simp: skeleton_anchors_def anchors_sound_def)
qed (auto simp: skeleton_anchors_def anchors_sound_def)

section \<open>Collapsible nodes hold no ref\<close>

lemma interactive_not_group:
  assumes "r \<in> set INTERACTIVE_ROLES"
  shows "from_token r \<noteq> RGroup"
proof -
  let ?qs = "[RButton, RCell, RCheckbox, RColorWell, RComboBox,
      RDockItem, RIncrementor, RLink, RListBox, RMenuButton, RMenuItem, ROption, RRadioButton,
      RSlider, RSwitch, RTab, RTextField, RTreeItem]"
  have eq: "INTERACTIVE_ROLES = map role_as_str ?qs"
    by (simp add: INTERACTIVE_ROLES_def)
  have "r \<in> role_as_str ` set ?qs" using assms unfolding eq set_map .
  then obtain q where q: "q \<in> set ?qs" "r = role_as_str q" by (elim imageE)
  then have "from_token r = q" by (simp only: from_token_as_str)
  with q(1) show ?thesis by auto
qed

lemma collapsible_not_ref_able: "is_collapsible n \<Longrightarrow> \<not> is_ref_able n"
  by (auto simp: is_collapsible_def is_transparent_wrapper_def is_ref_able_def is_ref_able_role_actions_def
      advertises_primary_action_def dest: interactive_not_group)

lemma blank_not_meaningful: "is_none_or v is_blank \<longleftrightarrow> \<not> has_meaningful_text v"
  by (cases v) (auto simp: has_meaningful_text_def)

lemma collapsible_not_anchor: "is_collapsible n \<Longrightarrow> \<not> anchor_node fx n"
  by (auto simp: is_collapsible_def anchor_node_def is_resolvable_skeleton_anchor_def blank_not_meaningful)

section \<open>The walk allocates its planned entries\<close>

definition first_ref :: "string list \<times> ref_map \<Rightarrow> app_error + string option \<times> ref_map" where
  "first_ref = (\<lambda>(ks, m). Inr (case ks of [] \<Rightarrow> None | k # _ \<Rightarrow> Some k, m))"

definition shown_refs :: "node \<times> ref_map \<Rightarrow> app_error + string list \<times> ref_map" where
  "shown_refs = (\<lambda>(n, m). Inr (tree_refs n, m))"

definition shown_refs_all :: "node list \<times> ref_map \<Rightarrow> app_error + string list \<times> ref_map" where
  "shown_refs_all = (\<lambda>(ns, m). Inr (concat (map tree_refs ns), m))"

lemma valid_entry_role:
  "valid_entry fx e \<Longrightarrow> is_canonical (id_role (identity e)) \<and> id_role (identity e) \<noteq> ''unknown''"
  by (simp add: valid_entry_iff role_ok_def)

lemma allocate_observed_ref_eq:
  "allocate_observed_ref fx m e =
     res_bind (alloc_all allocate_validated m (filter (valid_entry fx) [e])) first_ref"
proof (cases "valid_entry fx e")
  case True
  note r = valid_entry_role [OF True]
  from True have ok: "is_ok (validate_ref_entry fx e)" by (simp add: valid_entry_def)
  show ?thesis
  proof (cases "allocate_validated m e")
    case (Inr p)
    then show ?thesis using True r ok
      by (cases p) (simp add: allocate_observed_ref_def try_allocate_observed_def first_ref_def)
  qed (use True r ok in \<open>simp add: allocate_observed_ref_def try_allocate_observed_def\<close>)
next
  case False
  then show ?thesis
    by (simp add: allocate_observed_ref_def try_allocate_observed_def first_ref_def valid_entry_is_ok)
qed

lemma allocate_node_ref_eq:
  "node_ref_id n = None \<Longrightarrow>
     allocate_node_ref fx cfg A path n m =
       res_bind (alloc_all allocate_validated m (node_entries fx cfg A path n)) first_ref"
  by (simp add: allocate_node_ref_def node_entries_def allocate_observed_ref_eq first_ref_def
      del: filter.simps)

lemma node_entries_length: "length (node_entries fx cfg A path n) \<le> 1"
  by (simp add: node_entries_def)

lemma node_entries_collapsible:
  "is_collapsible n \<Longrightarrow> anchors_sound fx A path n \<Longrightarrow> node_entries fx cfg A path n = []"
  by (auto simp: node_entries_def collapsible_not_ref_able dest: anchors_sound_here collapsible_not_anchor)

lemma keep_child_at_most_one: "length (keep_child b i c) \<le> 1"
  by (simp add: keep_child_def split: list.split)

lemma allocate_children_length:
  "allocate_children fx cfg A path k cs m = Inr (cs', m') \<Longrightarrow> length cs' \<le> length cs"
proof (induction cs arbitrary: k m cs' m')
  case (Cons c cs)
  then obtain c' m1 ds where "allocate_children fx cfg A path (Suc k) cs m1 = Inr (ds, m')"
    and cs': "cs' = keep_child (opt_compact (cfg_options cfg) \<and> is_collapsible c)
            (opt_interactive_only (cfg_options cfg)) c' @ ds" by auto
  with Cons.IH have "length ds \<le> length cs" by blast
  then show ?case using keep_child_at_most_one [of "opt_compact (cfg_options cfg) \<and> is_collapsible c"
      "opt_interactive_only (cfg_options cfg)" c'] by (simp add: cs')
qed simp

lemma allocated_node:
  assumes "allocate_refs_at_path fx cfg A path n m = Inr (n', m')"
  shows "node_role n' = node_role n \<and> node_id n' = node_id n \<and>
    np_available_actions (node_pres n') = np_available_actions (node_pres n) \<and>
    node_children_count n' = node_children_count n \<and> node_truncated n' = node_truncated n \<and>
    length (node_children n') \<le> length (node_children n)"
  using assms by (cases n) (auto simp: strip_bounds_def dest: allocate_children_length)

lemma keep_child_refs:
  assumes "b \<Longrightarrow> node_ref_id c = None \<and> length (node_children c) \<le> 1"
  shows "concat (map tree_refs (keep_child b i c)) = tree_refs c"
  using assms by (cases c) (auto simp: keep_child_def split: list.splits)

lemma walk_refines:
  "tree_refs n = [] \<Longrightarrow> anchors_sound fx A path n \<Longrightarrow>
     res_bind (allocate_refs_at_path fx cfg A path n m) shown_refs =
       alloc_all allocate_validated m (planned_entries fx cfg A path n)"
  "concat (map tree_refs cs) = [] \<Longrightarrow>
     (\<And>j. j < length cs \<Longrightarrow> anchors_sound fx A (path @ [k + j]) (cs ! j)) \<Longrightarrow>
     res_bind (allocate_children fx cfg A path k cs m) shown_refs_all =
       alloc_all allocate_validated m (planned_children fx cfg A path k cs)"
proof (induction fx cfg A path n m and fx cfg A path k cs m rule: allocate_refs_at_path_allocate_children.induct)
  case (1 fx cfg A path r role i p cc t cs m)
  let ?n = "Node r role i p cc t cs"
  have r: "r = None" and cs: "concat (map tree_refs cs) = []" using "1.prems"(1) by (auto split: option.splits)
  show ?case
  proof (cases "alloc_all allocate_validated m (node_entries fx cfg A path ?n)")
    case (Inl e)
    then show ?thesis using r by (simp add: allocate_node_ref_eq alloc_all_append)
  next
    case (Inr q)
    obtain ks m1 where q: "q = (ks, m1)" by (cases q)
    define r' where "r' = (case ks of [] \<Rightarrow> None | k # _ \<Rightarrow> Some k)"
    have "length ks \<le> 1"
      using alloc_all_length [OF Inr [unfolded q]] node_entries_length [of fx cfg A path ?n] by simp
    then have ks: "(case r' of None \<Rightarrow> [] | Some x \<Rightarrow> [x]) = ks" by (cases ks) (auto simp: r'_def)
    have head: "allocate_node_ref fx cfg A path ?n m = Inr (r', m1)"
      using Inr q r by (simp add: allocate_node_ref_eq first_ref_def r'_def)
    have rest: "alloc_all allocate_validated m1 (planned_children fx cfg A path 0 cs) =
        res_bind (allocate_children fx cfg A path 0 cs m1) shown_refs_all"
      using "1.IH" [OF cs] anchors_sound_child [OF "1.prems"(2)] by simp
    show ?thesis
      by (cases "allocate_children fx cfg A path 0 cs m1")
        (simp_all add: head alloc_all_append Inr q rest ks shown_refs_def shown_refs_all_def split: prod.splits)
  qed
next
  case (2 fx cfg A path k m)
  then show ?case by (simp add: shown_refs_all_def)
next
  case (3 fx cfg A path k c cs m)
  have c: "tree_refs c = []" and cs: "concat (map tree_refs cs) = []" using "3.prems"(1) by auto
  have sc: "anchors_sound fx A (path @ [k]) c" using "3.prems"(2) [of 0] by simp
  have scs: "anchors_sound fx A (path @ [Suc k + j]) (cs ! j)" if "j < length cs" for j
    using "3.prems"(2) [of "Suc j"] that by simp
  note IH1 = "3.IH"(1) [OF c sc]
  show ?case
  proof (cases "allocate_refs_at_path fx cfg A (path @ [k]) c m")
    case (Inl e)
    then show ?thesis using IH1 [symmetric] by (simp add: alloc_all_append)
  next
    case (Inr q)
    obtain c' m1 where q: "q = (c', m1)" by (cases q)
    note IH2 = "3.IH"(2) [OF cs scs]
    let ?b = "opt_compact (cfg_options cfg) \<and> is_collapsible c"
    have "concat (map tree_refs (keep_child ?b (opt_interactive_only (cfg_options cfg)) c')) = tree_refs c'"
    proof (rule keep_child_refs)
      assume b: ?b
      then have "node_entries fx cfg A (path @ [k]) c = []" using sc by (simp add: node_entries_collapsible)
      moreover have "node_ref_id c = None" using c by (cases c) (auto split: option.splits)
      ultimately have "allocate_node_ref fx cfg A (path @ [k]) c m = Inr (None, m)"
        by (simp add: allocate_node_ref_eq first_ref_def)
      then have "node_ref_id c' = None" using Inr q by (cases c) auto
      moreover have "length (node_children c') \<le> 1"
        using allocated_node [OF Inr [unfolded q]] b by (simp add: is_collapsible_def)
      ultimately show "node_ref_id c' = None \<and> length (node_children c') \<le> 1" by simp
    qed
    note kept = this
    have hd: "alloc_all allocate_validated m (planned_entries fx cfg A (path @ [k]) c) = Inr (tree_refs c', m1)"
      using IH1 [symmetric] by (simp add: Inr q shown_refs_def)
    show ?thesis
      by (cases "allocate_children fx cfg A path (Suc k) cs m1")
        (simp_all add: alloc_all_append Inr q hd IH2 [symmetric] kept shown_refs_all_def split: prod.splits)
  qed
qed


section \<open>The printed tree without its refs\<close>

lemma erase_refs_fields [simp]:
  "node_role (erase_refs n) = node_role n" "node_id (erase_refs n) = node_id n"
  "node_pres (erase_refs n) = node_pres n" "node_children_count (erase_refs n) = node_children_count n"
  "node_children (erase_refs n) = map erase_refs (node_children n)"
  by (cases n; simp)+

lemma is_ref_able_erase [simp]: "is_ref_able (erase_refs n) = is_ref_able n"
  by (simp add: is_ref_able_def)

lemma transform_children:
  "node_children (transform_tree b i c n) =
     concat (map (\<lambda>d. keep_raw_child (c \<and> is_collapsible d) i (transform_tree b i c d)) (node_children n))"
  "node_children_count (transform_tree b i c n) = node_children_count n"
  by (cases n; simp)+

lemma boundary_kept:
  "has_boundary n \<Longrightarrow> node_children_count n \<noteq> None \<or> node_children (transform_tree b i c n) \<noteq> []"
proof (induction n rule: has_boundary.induct)
  case (1 r role id p cc t cs)
  show ?case
  proof (cases cc)
    case None
    with "1.prems" obtain d where d: "d \<in> set cs" "has_boundary d" by (auto simp: list_ex_iff)
    from "1.IH" [OF d] have "keep_raw_child (c \<and> is_collapsible d) i (transform_tree b i c d) \<noteq> []"
      by (auto simp: keep_raw_child_def transform_children(2) is_collapsible_def split: list.splits)
    with d(1) show ?thesis by auto
  qed simp
qed

lemma transform_role_actions:
  "is_ref_able (transform_tree b i c n) = is_ref_able n"
  by (cases n) (simp add: is_ref_able_def strip_bounds_def)

lemma keep_child_erase:
  assumes "node_ref_id c' \<noteq> None \<longrightarrow> is_ref_able c' \<or> node_children_count c' \<noteq> None \<or> node_children c' \<noteq> []"
  shows "map erase_refs (keep_child b i c') = keep_raw_child b i (erase_refs c')"
  using assms by (auto simp: keep_child_def keep_raw_child_def split: list.splits)

lemma walk_erases:
  assumes "opts = cfg_options cfg"
  shows "allocate_refs_at_path fx cfg A path n m = Inr (n', m') \<Longrightarrow> tree_refs n = [] \<Longrightarrow>
     anchors_sound fx A path n \<Longrightarrow>
     erase_refs n' = transform_tree (opt_include_bounds opts) (opt_interactive_only opts) (opt_compact opts) n \<and>
     (node_ref_id n' \<noteq> None \<longrightarrow> is_ref_able n \<or> has_boundary n)"
  "allocate_children fx cfg A path k cs m = Inr (cs', m') \<Longrightarrow> concat (map tree_refs cs) = [] \<Longrightarrow>
     (\<And>j. j < length cs \<Longrightarrow> anchors_sound fx A (path @ [k + j]) (cs ! j)) \<Longrightarrow>
     map erase_refs cs' = concat (map (\<lambda>c. keep_raw_child (opt_compact opts \<and> is_collapsible c)
       (opt_interactive_only opts)
       (transform_tree (opt_include_bounds opts) (opt_interactive_only opts) (opt_compact opts) c)) cs)"
  using assms
proof (induction fx cfg A path n m and fx cfg A path k cs m arbitrary: n' m' and cs' m'
    rule: allocate_refs_at_path_allocate_children.induct)
  case (1 fx cfg A path r role i p cc t cs m)
  let ?n = "Node r role i p cc t cs"
  have r: "r = None" and cs: "concat (map tree_refs cs) = []" using "1.prems"(2) by (auto split: option.splits)
  from "1.prems"(1) obtain r' m1 cs' where head: "allocate_node_ref fx cfg A path ?n m = Inr (r', m1)"
    and rest: "allocate_children fx cfg A path 0 cs m1 = Inr (cs', m')"
    and n': "n' = Node r' role i (strip_bounds (opt_include_bounds (cfg_options cfg)) p) cc t cs'" by auto
  note IH = "1.IH" [OF rest cs _ "1.prems"(4)]
  have "r' \<noteq> None \<longrightarrow> is_ref_able ?n \<or> path \<in> A"
    using head r by (auto simp: allocate_node_ref_def split: if_splits)
  moreover have "path \<in> A \<longrightarrow> has_boundary ?n"
    using anchors_sound_here [OF "1.prems"(3)] by (simp add: anchor_node_def del: has_boundary.simps)
  ultimately show ?case
    using IH anchors_sound_child [OF "1.prems"(3)] "1.prems"(4) r by (auto simp: n' simp del: has_boundary.simps)
next
  case (2 fx cfg A path k m)
  then show ?case by simp
next
  case (3 fx cfg A path k c cs m)
  have c: "tree_refs c = []" and cs: "concat (map tree_refs cs) = []" using "3.prems"(2) by auto
  have sc: "anchors_sound fx A (path @ [k]) c" using "3.prems"(3) [of 0] by simp
  have scs: "anchors_sound fx A (path @ [Suc k + j]) (cs ! j)" if "j < length cs" for j
    using "3.prems"(3) [of "Suc j"] that by simp
  let ?t = "transform_tree (opt_include_bounds opts) (opt_interactive_only opts) (opt_compact opts)"
  let ?b = "opt_compact opts \<and> is_collapsible c"
  from "3.prems"(1,4) obtain c' m1 ds where hd: "allocate_refs_at_path fx cfg A (path @ [k]) c m = Inr (c', m1)"
    and tl: "allocate_children fx cfg A path (Suc k) cs m1 = Inr (ds, m')"
    and cs': "cs' = keep_child ?b (opt_interactive_only opts) c' @ ds" by auto
  note IH1 = "3.IH"(1) [OF hd c sc "3.prems"(4)]
  note IH2 = "3.IH"(2) [OF tl cs scs "3.prems"(4)]
  have e: "erase_refs c' = ?t c" using IH1 by simp
  have "is_ref_able c' = is_ref_able c" "node_children_count c' = node_children_count c"
    using allocated_node [OF hd] by (simp_all add: is_ref_able_def)
  moreover have "node_children c' = [] \<longleftrightarrow> node_children (?t c) = []"
    using arg_cong [OF e, of node_children] by (metis erase_refs_fields(5) map_is_Nil_conv)
  ultimately have "node_ref_id c' \<noteq> None \<longrightarrow> is_ref_able c' \<or> node_children_count c' \<noteq> None \<or> node_children c' \<noteq> []"
    using IH1 boundary_kept [of c "opt_include_bounds opts" "opt_interactive_only opts" "opt_compact opts"] by auto
  then have "map erase_refs (keep_child ?b (opt_interactive_only opts) c') = keep_raw_child ?b (opt_interactive_only opts) (?t c)"
    unfolding e [symmetric] by (rule keep_child_erase)
  then show ?case using IH2 by (simp add: cs')
qed


section \<open>The planned entries are valid and the walk starts soundly\<close>

lemma planned_valid:
  "list_all (valid_entry fx) (planned_entries fx cfg A path n)"
  "list_all (valid_entry fx) (planned_children fx cfg A path k cs)"
  by (induction fx cfg A path n and fx cfg A path k cs rule: planned_entries_planned_children.induct)
    (auto simp: node_entries_def list_all_iff)

definition rooted :: "ref_alloc_config \<Rightarrow> bool" where
  "rooted cfg \<longleftrightarrow> path_prefix (cfg_scope cfg) = [] \<or> root_ref_id (cfg_scope cfg) \<noteq> None"

definition tree_entries :: "fx \<Rightarrow> ref_alloc_config \<Rightarrow> node \<Rightarrow> ref_entry list" where
  "tree_entries fx cfg n = planned_entries fx cfg (skeleton_anchors fx cfg n) (path_prefix (cfg_scope cfg)) n"

lemma allocate_refs_refines:
  "tree_refs n = [] \<Longrightarrow> rooted cfg \<Longrightarrow>
     res_bind (allocate_refs fx n m cfg) shown_refs = alloc_all allocate_validated m (tree_entries fx cfg n)"
  unfolding allocate_refs_def tree_entries_def rooted_def
  by (intro walk_refines(1) skeleton_anchors_sound)

lemma allocate_refs_alloc_all:
  "tree_refs n = [] \<Longrightarrow> rooted cfg \<Longrightarrow> allocate_refs fx n m cfg = Inr (n', m') \<Longrightarrow>
     alloc_all allocate_validated m (tree_entries fx cfg n) = Inr (tree_refs n', m')"
  using allocate_refs_refines [of n cfg fx m] by (simp add: shown_refs_def)

lemma tree_refs_qualify: "tree_refs (qualify_tree_refs sid n) = map (qualify_ref_id sid) (tree_refs n)"
  by (induction n rule: tree_refs.induct) (auto simp: map_concat comp_def split: option.splits cong: map_cong)

lemma issued_local: "issued_key c r \<Longrightarrow> is_local_ref r"
  using unat_u32_max [of c] by (auto simp: issued_key_def intro!: local_ref_name)

section \<open>Concrete trees\<close>

definition sample_identity :: node_identity where
  "sample_identity = \<lparr>nid_retained_object = None, nid_name = None, nid_value = None,
     nid_description = None, nid_native_id = None\<rparr>"

definition sample_pres :: node_presentation where
  "sample_pres = \<lparr>np_hint = None, np_states = [], np_available_actions = [], np_bounds = None\<rparr>"

definition sample_config :: ref_alloc_config where
  "sample_config =
     \<lparr>cfg_options = \<lparr>opt_include_bounds = False, opt_interactive_only = True, opt_compact = True\<rparr>,
      cfg_source = \<lparr>ras_pid = 42, ras_app = None, ras_window_id = None, ras_window_title = None,
        ras_window_bounds_hash = None, ras_process_instance = Some ''gen-1'', ras_surface = SurfWindow\<rparr>,
      cfg_scope = \<lparr>root_ref_id = None, path_prefix = []\<rparr>\<rparr>"

text \<open>A window that holds a group around a button, and a group cut short by the depth limit.\<close>

definition sample_tree :: node where
  "sample_tree =
     Node None ''window'' sample_identity sample_pres None False
       [Node None ''group'' sample_identity sample_pres None False
          [Node None ''button'' sample_identity sample_pres None False []],
        Node None ''group'' (sample_identity\<lparr>nid_name := Some ''side''\<rparr>) sample_pres (Some 7) False []]"

definition sample_entries :: "ref_entry list" where
  "sample_entries =
     [action_entry sum_hash sample_config [0, 0]
        (Node None ''button'' sample_identity sample_pres None False []),
      anchor_entry sum_hash sample_config [1]
        (Node None ''group'' (sample_identity\<lparr>nid_name := Some ''side''\<rparr>) sample_pres (Some 7) False [])]"

lemma sample_roles: "is_canonical ''button''" "is_canonical ''group''" "is_canonical ''window''"
  using is_canonical_as_str [of RButton] is_canonical_as_str [of RGroup] is_canonical_as_str [of RWindow]
  by simp_all

lemma sample_transparent: "is_transparent_wrapper (from_token ''group'')"
  using from_token_as_str [of RGroup] by (simp add: is_transparent_wrapper_def)

lemma sample_side: "\<not> is_blank ''side''"
  by (simp add: is_blank_def trim_plain plain_lower_def)

lemma sample_anchors: "skeleton_anchors sum_hash sample_config sample_tree = {[1]}"
  by (simp add: skeleton_anchors_def sample_config_def sample_tree_def sample_identity_def sample_pres_def
     is_ref_able_def is_ref_able_role_actions_def INTERACTIVE_ROLES_def advertises_primary_action_def
     can_receive_observed_ref_def is_resolvable_skeleton_anchor_def sample_roles has_meaningful_text_def
     sample_side)

lemma sample_entries_valid: "list_all (valid_entry sum_hash) sample_entries"
  by (simp add: sample_entries_def action_entry_def anchor_entry_def ref_entry_from_node_def drop_bounds_def
      sample_config_def sample_identity_def sample_pres_def Let_def meaningful_string_def
      valid_entry_iff process_ok_def role_ok_def fields_ok_def sample_roles
        text_fields_def MAX_FIELD_BYTES_def identifier_ok_def path_ok_def MAX_PATH_DEPTH_def evidence_ok_def)

lemma sample_planned: "tree_entries sum_hash sample_config sample_tree = sample_entries"
proof -
  have "path_prefix (cfg_scope sample_config) = []" by (simp add: sample_config_def)
  then show ?thesis
    using sample_entries_valid unfolding tree_entries_def sample_anchors
    by (simp add: sample_entries_def sample_tree_def node_entries_def is_ref_able_def is_ref_able_role_actions_def
        INTERACTIVE_ROLES_def advertises_primary_action_def sample_pres_def)
qed

definition sample_result :: "string list \<times> ref_map" where
  "sample_result =
     ([ref_name 1, ref_name 2],
      \<lparr>inner = zip [ref_name 1, ref_name 2] sample_entries, counter = 2\<rparr>)"

lemma sample_alloc:
  "alloc_all allocate_validated refmap_new (tree_entries sum_hash sample_config sample_tree) = Inr sample_result"
  unfolding sample_planned
  by (simp add: sample_entries_def allocate_first refmap_new_def sample_result_def)

lemma sample_hypotheses:
  "tree_refs sample_tree = []" "rooted sample_config" "validate_snapshot_id ''s0001'' = Inr ()"
  by (simp_all add: sample_tree_def rooted_def sample_config_def validate_snapshot_id_def is_ascii_alphanumeric_def)

lemma sample_walk:
  obtains n' where "allocate_refs sum_hash sample_tree refmap_new sample_config = Inr (n', snd sample_result)"
    and "tree_refs n' = [ref_name 1, ref_name 2]"
  using allocate_refs_refines [OF sample_hypotheses(1,2), of sum_hash refmap_new]
  by (cases "allocate_refs sum_hash sample_tree refmap_new sample_config")
    (auto simp: sample_alloc shown_refs_def sample_result_def)

section \<open>Properties\<close>

text \<open>
  C27. Allocating refs over an observed tree does to the map exactly what allocating the planned
  entries one after the other in preorder does: same error, or same final map, and the refs the
  printed tree shows in preorder are the refs handed out, none lost by pruning or collapsing.
\<close>

theorem allocate_refs_refines_plan:
  assumes "tree_refs n = []" "rooted cfg"
  shows "res_bind (allocate_refs fx n m cfg) (\<lambda>(n', m'). Inr (tree_refs n', m')) =
    alloc_all allocate_validated m (tree_entries fx cfg n)"
  using allocate_refs_refines [OF assms] by (simp add: shown_refs_def)

theorem allocate_refs_refines_plan_witness:
  "res_bind (allocate_refs sum_hash sample_tree refmap_new sample_config) (\<lambda>(n', m'). Inr (tree_refs n', m')) =
     Inr sample_result"
  using allocate_refs_refines_plan [OF sample_hypotheses(1,2), of sum_hash refmap_new] by (simp add: sample_alloc)

lemma pruned_leaf:
  assumes "node_children leaf = []"
  shows "node_children (transform_tree b True cmpct (Node r role i p cc t [leaf])) = [] \<longleftrightarrow>
    node_children_count leaf = None \<and> node_role leaf \<notin> set INTERACTIVE_ROLES \<and>
    set (np_available_actions (node_pres leaf)) \<subseteq> {''SetFocus'', ''RightClick'', ''ScrollTo''}"
  using assms
  by (cases leaf) (auto simp: keep_raw_child_def is_collapsible_def is_ref_able_def is_ref_able_role_actions_def
      advertises_primary_action_def UBIQUITOUS_AFFORDANCES_def SET_FOCUS_def RIGHT_CLICK_def SCROLL_TO_def
      strip_bounds_def list_ex_iff)

text \<open>
  C34. Apart from the refs, the printed tree is the tree that the variant without refs produces
  with the same options: whatever holds a ref is never pruned, and nothing else differs.  This is what
  the code does and not what its comment says: there the variant without refs prunes a leaf by its role
  alone, unlike the other; in fact both also keep a leaf of any role that offers an action beyond
  focusing, opening a context menu and scrolling into view.
\<close>

theorem allocate_refs_erases_to_transform:
  assumes "tree_refs n = []" "rooted cfg" "allocate_refs fx n m cfg = Inr (n', m')"
  shows "erase_refs n' =
    transform_tree (opt_include_bounds (cfg_options cfg)) (opt_interactive_only (cfg_options cfg))
      (opt_compact (cfg_options cfg)) n \<and>
    (\<forall>leaf. node_children leaf = [] \<longrightarrow>
       (node_children (transform_tree b True cmpct (Node r role i p cc t [leaf])) = [] \<longleftrightarrow>
          node_children_count leaf = None \<and> node_role leaf \<notin> set INTERACTIVE_ROLES \<and>
          set (np_available_actions (node_pres leaf)) \<subseteq> {''SetFocus'', ''RightClick'', ''ScrollTo''}))"
proof
  show "erase_refs n' = transform_tree (opt_include_bounds (cfg_options cfg)) (opt_interactive_only (cfg_options cfg))
      (opt_compact (cfg_options cfg)) n"
    using assms walk_erases(1) [OF refl, of fx cfg] skeleton_anchors_sound [of cfg fx n]
    by (simp add: allocate_refs_def rooted_def)
qed (use pruned_leaf in blast)

theorem allocate_refs_erases_witness:
  "\<exists>n' m'. allocate_refs sum_hash sample_tree refmap_new sample_config = Inr (n', m') \<and>
     tree_refs n' = [ref_name 1, ref_name 2] \<and> erase_refs n' = transform_tree False True True sample_tree"
proof -
  obtain n' where n': "allocate_refs sum_hash sample_tree refmap_new sample_config = Inr (n', snd sample_result)"
    "tree_refs n' = [ref_name 1, ref_name 2]" by (rule sample_walk)
  from allocate_refs_erases_to_transform [OF sample_hypotheses(1,2) n'(1)]
  have "erase_refs n' = transform_tree False True True sample_tree" by (simp add: sample_config_def)
  with n' show ?thesis by blast
qed

text \<open>
  C28. Read back through the map, the qualified refs of a printed tree denote, in preorder, exactly
  the entries planned for it: every token resolves under its own snapshot to a local ref that
  was free before and now holds its entry, and the map stays well formed and keeps every
  earlier ref.
\<close>

theorem printed_refs_resolve:
  assumes "refmap_inv fx m" "tree_refs n = []" "rooted cfg"
    and "allocate_refs fx n m cfg = Inr (n', m')" "validate_snapshot_id sid = Inr ()"
  shows "refmap_inv fx m' \<and> (\<forall>r e. refmap_get m r = Some e \<longrightarrow> refmap_get m' r = Some e) \<and>
    list_all2 (\<lambda>t e. \<exists>r. resolve_ref_target t None = Inr (sid, r) \<and>
        refmap_get m r = None \<and> refmap_get m' r = Some e)
      (tree_refs (qualify_tree_refs sid n')) (tree_entries fx cfg n)"
proof -
  note al = allocate_refs_alloc_all [OF assms(2-4)]
  have v: "list_all (valid_entry fx) (tree_entries fx cfg n)" by (simp add: tree_entries_def planned_valid)
  note inv = refmap_store.alloc_all_inv [OF al assms(1) v]
  note fresh = refmap_store.alloc_all_fresh [OF al assms(1) v]
  have "resolve_ref_target (qualify_ref_id sid r) None = Inr (sid, r)" if "refmap_get m' r = Some e" for r e
    using refmap_get_issued [OF inv that] assms(5) by (intro resolve_qualified) (auto dest: issued_local)
  then show ?thesis
    using inv fresh refmap_store.alloc_all_keeps [OF al assms(1) v]
    by (auto simp: tree_refs_qualify list_all2_conv_all_nth)
qed


theorem printed_refs_resolve_witness:
  "\<exists>n' m'. allocate_refs sum_hash sample_tree refmap_new sample_config = Inr (n', m') \<and>
     list_all2 (\<lambda>t e. \<exists>r. resolve_ref_target t None = Inr (''s0001'', r) \<and>
         refmap_get refmap_new r = None \<and> refmap_get m' r = Some e)
       (tree_refs (qualify_tree_refs ''s0001'' n')) sample_entries"
proof -
  obtain n' where n': "allocate_refs sum_hash sample_tree refmap_new sample_config = Inr (n', snd sample_result)"
    by (rule sample_walk)
  from printed_refs_resolve [OF refmap_inv_new sample_hypotheses(1,2) n' sample_hypotheses(3)] n'
  show ?thesis by (auto simp: sample_planned)
qed

end
