(* ===== verification/RefIdentity.thy ===== *)
theory RefIdentity
  imports Refs
begin

text \<open>
  Whether a live element still is the one a ref was allocated for (\<open>ref_identity.rs\<close>): the
  three-valued evidence a live read yields (\<open>live_locator/locator_field.rs\<close>,
  \<open>live_locator/identifier_evidence.rs\<close>, \<open>live_identity.rs\<close>) and the verdict, which prefers the
  retained object, then the typed identifier, then the stable texts.  The value of a role whose
  value changes by use (a text field, a slider) is not identity.
\<close>

section \<open>Evidence\<close>

datatype 'a locator_field = Known 'a | Absent | FieldUnknown

fun known :: "'a locator_field \<Rightarrow> 'a option" where
  "known (Known v) = Some v"
| "known _ = None"

fun field_is_unknown :: "'a locator_field \<Rightarrow> bool" where
  "field_is_unknown FieldUnknown = True"
| "field_is_unknown _ = False"

definition field_meaningful_string :: "string locator_field \<Rightarrow> string option" where
  "field_meaningful_string f = option_filter (\<lambda>v. v \<noteq> []) (known f)"

record identifier_evidence =
  ev_identifiers :: "element_identifier list"
  ev_preferred :: "nat option"
  ev_complete :: bool
  ev_retained_object :: "string option"

text \<open>\<open>position\<close>: the first index at which an identifier occurs.\<close>

fun position_of :: "'a \<Rightarrow> 'a list \<Rightarrow> nat option" where
  "position_of x [] = None"
| "position_of x (y # ys) = (if y = x then Some 0 else map_option Suc (position_of x ys))"

text \<open>The loop of \<open>typed\<close>: blank identifiers go, duplicates go, the preferred index follows.\<close>

fun typed_loop ::
  "nat option \<Rightarrow> nat \<Rightarrow> element_identifier list \<Rightarrow> element_identifier list \<Rightarrow> nat option \<Rightarrow>
     element_identifier list \<times> nat option"
where
  "typed_loop preferred k [] normalized np = (normalized, np)"
| "typed_loop preferred k (i # is) normalized np =
     (if is_blank (ident_value i) then typed_loop preferred (Suc k) is normalized np
      else
        let p = position_of i normalized;
            np' = (if preferred = Some k then Some (unwrap_or p (length normalized)) else np);
            normalized' = (if p = None then normalized @ [i] else normalized)
        in typed_loop preferred (Suc k) is normalized' np')"

definition evidence_typed :: "element_identifier list \<Rightarrow> nat option \<Rightarrow> bool \<Rightarrow> identifier_evidence" where
  "evidence_typed is preferred whole =
     (let (normalized, np) = typed_loop preferred 0 is [] None
      in \<lparr>ev_identifiers = normalized, ev_preferred = np, ev_complete = whole,
          ev_retained_object = None\<rparr>)"

definition evidence_new :: "string list \<Rightarrow> nat option \<Rightarrow> bool \<Rightarrow> identifier_evidence" where
  "evidence_new vs preferred whole =
     evidence_typed (map (\<lambda>v. \<lparr>ident_kind = KindUnknown, ident_value = v\<rparr>) vs) preferred whole"

definition with_retained_object :: "string \<Rightarrow> identifier_evidence \<Rightarrow> identifier_evidence" where
  "with_retained_object t ev = ev\<lparr>ev_retained_object := Some t\<rparr>"

definition evidence_absent :: identifier_evidence where
  "evidence_absent = evidence_new [] None True"

definition evidence_unknown :: identifier_evidence where
  "evidence_unknown = evidence_new [] None False"

definition list_get :: "'a list \<Rightarrow> nat \<Rightarrow> 'a option" where
  "list_get xs k = (if k < length xs then Some (xs ! k) else None)"

definition preferred_identifier :: "identifier_evidence \<Rightarrow> element_identifier option" where
  "preferred_identifier ev = Option.bind (ev_preferred ev) (list_get (ev_identifiers ev))"

definition preferred_value :: "identifier_evidence \<Rightarrow> string option" where
  "preferred_value ev =
     map_option ident_value (Option.bind (ev_preferred ev) (list_get (ev_identifiers ev)))"

record live_identity =
  li_name :: "string locator_field"
  li_description :: "string locator_field"
  li_identifiers :: identifier_evidence

record live_element =
  le_identity :: live_identity
  le_state :: element_state
  le_states_complete :: bool
  le_bounds :: "rect option"
  le_available_actions :: "string list"

section \<open>Numbers in texts\<close>

text \<open>
  \<open>str::parse::<f64>\<close>: an optional sign, then \<open>inf\<close>, \<open>infinity\<close> or \<open>nan\<close> in any case, or digits
  with an optional point and at least one digit in all, and an optional exponent.  The value is
  the exact decimal, rounded once.
\<close>

definition split_sign :: "string \<Rightarrow> bool \<times> string" where
  "split_sign s =
     (case s of
        [] \<Rightarrow> (False, [])
      | c # r \<Rightarrow> if c = CHR ''-'' then (True, r) else if c = CHR ''+'' then (False, r) else (False, s))"

definition parse_exponent :: "string \<Rightarrow> int option" where
  "parse_exponent s =
     (case s of
        [] \<Rightarrow> Some 0
      | c # r \<Rightarrow>
          if c = CHR ''e'' \<or> c = CHR ''E'' then
            let (neg, ds) = split_sign r
            in if ds \<noteq> [] \<and> list_all is_ascii_digit ds
               then Some (if neg then - int (digits_value ds) else int (digits_value ds)) else None
          else None)"

definition parse_decimal :: "string \<Rightarrow> rat option" where
  "parse_decimal s =
     (let whole = takeWhile is_ascii_digit s;
          rest = dropWhile is_ascii_digit s;
          (fraction, tail) =
            (case rest of
               [] \<Rightarrow> ([], [])
             | c # r \<Rightarrow>
                 if c = CHR ''.'' then (takeWhile is_ascii_digit r, dropWhile is_ascii_digit r)
                 else ([], rest))
      in if whole = [] \<and> fraction = [] then None
         else map_option (\<lambda>e. of_nat (digits_value (whole @ fraction)) * 10 powi (e - int (length fraction)))
           (parse_exponent tail))"

definition parse_f64 :: "string \<Rightarrow> f64 option" where
  "parse_f64 s =
     (let (neg, body) = split_sign s; word = to_ascii_lowercase body
      in if word = ''inf'' \<or> word = ''infinity'' then Some (F64_Inf neg)
         else if word = ''nan'' then Some F64_NaN
         else map_option (\<lambda>q. f64_of_rat (if neg then - q else q)) (parse_decimal body))"

definition numeric_text :: "string option \<Rightarrow> f64 option" where
  "numeric_text v = option_filter is_finite (Option.bind v parse_f64)"

section \<open>Stable texts\<close>

definition meaningful_text :: "string option \<Rightarrow> string option" where
  "meaningful_text v = option_filter (\<lambda>t. \<not> is_blank t) v"

definition value_matches_name :: "string option \<Rightarrow> string \<Rightarrow> bool" where
  "value_matches_name v n \<longleftrightarrow>
     v = Some n \<or>
     (case (numeric_text v, numeric_text (Some n)) of
        (Some a, Some b) \<Rightarrow> f64_eq a b
      | _ \<Rightarrow> False)"

definition stable_name :: "string \<Rightarrow> string option \<Rightarrow> string option \<Rightarrow> string option" where
  "stable_name role name val =
     (case meaningful_text name of
        None \<Rightarrow> None
      | Some n \<Rightarrow>
          if is_mutable_value_role role \<and> value_matches_name (meaningful_text val) n then None
          else Some n)"

definition stable_value :: "string \<Rightarrow> string option \<Rightarrow> string option" where
  "stable_value role val = (if is_mutable_value_role role then None else meaningful_text val)"

definition meaningful_field :: "string locator_field \<Rightarrow> string locator_field" where
  "meaningful_field f =
     (case f of
        Known v \<Rightarrow> (case meaningful_text (Some v) of Some t \<Rightarrow> Known t | None \<Rightarrow> Absent)
      | Absent \<Rightarrow> Absent
      | FieldUnknown \<Rightarrow> FieldUnknown)"

definition stable_name_field ::
  "string \<Rightarrow> string locator_field \<Rightarrow> string locator_field \<Rightarrow> string locator_field" where
  "stable_name_field role name val =
     (let name = meaningful_field name
      in if \<not> is_mutable_value_role role then name
         else
           (case name of
              Known n \<Rightarrow>
                (case meaningful_field val of
                   Known v \<Rightarrow> if value_matches_name (Some v) n then Absent else Known n
                 | Absent \<Rightarrow> Known n
                 | FieldUnknown \<Rightarrow> FieldUnknown)
            | _ \<Rightarrow> name))"

definition stable_value_field :: "string \<Rightarrow> string locator_field \<Rightarrow> string locator_field" where
  "stable_value_field role val =
     (if is_mutable_value_role role then Absent else meaningful_field val)"

definition has_stable_text_identity :: "ref_entry \<Rightarrow> bool" where
  "has_stable_text_identity e \<longleftrightarrow>
     stable_name (id_role (identity e)) (id_name (identity e)) (id_value (identity e)) \<noteq> None \<or>
     stable_value (id_role (identity e)) (id_value (identity e)) \<noteq> None \<or>
     meaningful_text (id_description (identity e)) \<noteq> None"

definition has_meaningful_identity :: "ref_entry \<Rightarrow> bool" where
  "has_meaningful_identity e \<longleftrightarrow>
     (if id_retained_object (identity e) \<noteq> None then True
      else is_some_and (id_native_id (identity e)) (\<lambda>i. meaningful_text (Some (ident_value i)) \<noteq> None) \<or>
           has_stable_text_identity e)"

section \<open>Verdicts\<close>

datatype identity_match = Match | NoMatch | MatchUnknown

definition equality_match :: "string \<Rightarrow> string \<Rightarrow> identity_match" where
  "equality_match expected actual = (if actual = expected then Match else NoMatch)"

definition match_primary_identity ::
  "string \<Rightarrow> string locator_field \<Rightarrow> string locator_field \<Rightarrow> identity_match" where
  "match_primary_identity expected primary fallback =
     (case primary of
        Known actual \<Rightarrow> equality_match expected actual
      | FieldUnknown \<Rightarrow> MatchUnknown
      | Absent \<Rightarrow>
          (case fallback of
             Known actual \<Rightarrow> equality_match expected actual
           | FieldUnknown \<Rightarrow> MatchUnknown
           | Absent \<Rightarrow> NoMatch))"

definition empty_identity_match :: "string locator_field list \<Rightarrow> identity_match" where
  "empty_identity_match fs =
     (if list_ex field_is_unknown fs then MatchUnknown
      else if list_ex (\<lambda>f. known f \<noteq> None) fs then NoMatch else MatchUnknown)"

definition stable_text_match ::
  "ref_entry \<Rightarrow> string locator_field \<Rightarrow> string locator_field \<Rightarrow> string locator_field \<Rightarrow> identity_match" where
  "stable_text_match e name val desc =
     (let role = id_role (identity e);
          expected_name = stable_name role (id_name (identity e)) (id_value (identity e));
          expected_value = stable_value role (id_value (identity e));
          expected_description = meaningful_text (id_description (identity e));
          actual_name = stable_name_field role name val;
          actual_value = stable_value_field role val;
          actual_description = meaningful_field desc
      in case expected_name of
           Some x \<Rightarrow> match_primary_identity x actual_name actual_value
         | None \<Rightarrow>
             (case expected_value of
                Some x \<Rightarrow> match_primary_identity x actual_value actual_name
              | None \<Rightarrow>
                  (case expected_description of
                     Some x \<Rightarrow> match_primary_identity x actual_description actual_name
                   | None \<Rightarrow>
                       if is_mutable_value_role role then MatchUnknown
                       else empty_identity_match [actual_name, actual_value, actual_description])))"

definition identity_match ::
  "ref_entry \<Rightarrow> string locator_field \<Rightarrow> string locator_field \<Rightarrow> string locator_field \<Rightarrow>
     identifier_evidence \<Rightarrow> identity_match" where
  "identity_match e name val desc ids =
     (case id_retained_object (identity e) of
        Some expected \<Rightarrow>
          (case (meaningful_text (Some expected), ev_retained_object ids) of
             (Some x, Some actual) \<Rightarrow> equality_match x actual
           | _ \<Rightarrow> MatchUnknown)
      | None \<Rightarrow>
          (case id_native_id (identity e) of
             Some expected \<Rightarrow>
               (case meaningful_text (Some (ident_value expected)) of
                  None \<Rightarrow> MatchUnknown
                | Some v \<Rightarrow>
                    if list_ex (\<lambda>a. ident_kind a = ident_kind expected \<and> ident_value a = v)
                         (ev_identifiers ids)
                    then Match
                    else if \<not> ev_complete ids then MatchUnknown else NoMatch)
           | None \<Rightarrow> stable_text_match e name val desc))"

section \<open>Typed evidence is normalised\<close>

lemma position_of_None: "position_of x xs = None \<longleftrightarrow> x \<notin> set xs"
  by (induction xs) auto

lemma position_of_Some: "position_of x xs = Some k \<Longrightarrow> k < length xs \<and> xs ! k = x"
  by (induction xs arbitrary: k) (auto split: if_splits)

definition loop_preferred ::
  "nat option \<Rightarrow> nat \<Rightarrow> element_identifier list \<Rightarrow> element_identifier option \<Rightarrow> element_identifier option" where
  "loop_preferred preferred k is old =
     (case preferred of
        Some j \<Rightarrow> if k \<le> j \<and> j < k + length is \<and> \<not> is_blank (ident_value (is ! (j - k)))
                  then Some (is ! (j - k)) else old
      | None \<Rightarrow> old)"

lemma loop_preferred_Cons:
  "loop_preferred preferred k (i # is) old =
     loop_preferred preferred (Suc k) is
       (if preferred = Some k \<and> \<not> is_blank (ident_value i) then Some i else old)"
  by (auto simp: loop_preferred_def nth_Cons' Suc_le_eq split: option.splits)

lemma list_get_append: "list_get xs k = Some x \<Longrightarrow> list_get (xs @ ys) k = Some x"
  by (auto simp: list_get_def nth_append split: if_splits)

lemma typed_loop_spec:
  assumes "typed_loop preferred k is normalized np = (ns, q)" "distinct normalized"
    and "is_none_or np (\<lambda>j. j < length normalized)"
  shows "distinct ns \<and> set ns = set normalized \<union> {i \<in> set is. \<not> is_blank (ident_value i)} \<and>
    Option.bind q (list_get ns) = loop_preferred preferred k is (Option.bind np (list_get normalized)) \<and>
    (\<forall>j x. list_get normalized j = Some x \<longrightarrow> list_get ns j = Some x)"
  using assms
proof (induction preferred k "is" normalized np arbitrary: ns q rule: typed_loop.induct)
  case (1 preferred k normalized np)
  then show ?case by (auto simp: loop_preferred_def split: option.splits)
next
  case (2 preferred k i "is" normalized np)
  show ?case
  proof (cases "is_blank (ident_value i)")
    case True
    with 2 show ?thesis by (simp add: loop_preferred_Cons) blast
  next
    case False
    define p where "p = position_of i normalized"
    define np' where "np' = (if preferred = Some k then Some (unwrap_or p (length normalized)) else np)"
    define nz where "nz = (if p = None then normalized @ [i] else normalized)"
    have d: "distinct nz" using "2.prems"(2) by (simp add: nz_def p_def position_of_None)
    have keep: "list_get nz j = Some x" if "list_get normalized j = Some x" for j x
      using that by (simp add: nz_def list_get_append)
    have i: "list_get nz (unwrap_or p (length normalized)) = Some i"
      using position_of_Some [of i normalized] by (cases p) (auto simp: nz_def p_def list_get_def)
    then have b: "is_none_or np' (\<lambda>j. j < length nz)"
      using "2.prems"(3) by (cases np) (auto simp: np'_def nz_def list_get_def split: if_splits)
    have bind: "Option.bind np' (list_get nz) =
        (if preferred = Some k then Some i else Option.bind np (list_get normalized))"
    proof (cases "preferred = Some k")
      case False
      then show ?thesis using "2.prems"(3) keep
        by (cases np) (auto simp: np'_def list_get_def nz_def nth_append)
    qed (simp add: np'_def i)
    have run: "typed_loop preferred (Suc k) is nz np' = (ns, q)"
      using "2.prems"(1) unfolding np'_def nz_def p_def
      by (simp only: typed_loop.simps Let_def False if_False)
    note IH = "2.IH"(2) [OF False refl refl refl, folded p_def, folded nz_def np'_def, OF run d b]
    have "set nz = insert i (set normalized)" by (auto simp: nz_def p_def position_of_None)
    then show ?thesis using IH keep False
      by (auto simp: loop_preferred_Cons bind)
  qed
qed

section \<open>Own evidence and growing evidence\<close>

text \<open>What a complete read of an unchanged text yields, and how a field may become better known.\<close>

definition field_of :: "string option \<Rightarrow> string locator_field" where
  "field_of v = (case v of None \<Rightarrow> Absent | Some s \<Rightarrow> Known s)"

definition field_le :: "'a locator_field \<Rightarrow> 'a locator_field \<Rightarrow> bool" where
  "field_le a b \<longleftrightarrow> a = FieldUnknown \<or> a = b"

definition evidence_le :: "identifier_evidence \<Rightarrow> identifier_evidence \<Rightarrow> bool" where
  "evidence_le a b \<longleftrightarrow>
     (ev_retained_object a = None \<or> ev_retained_object a = ev_retained_object b) \<and>
     set (ev_identifiers a) \<subseteq> set (ev_identifiers b) \<and>
     (ev_complete a \<longrightarrow> ev_complete b \<and> set (ev_identifiers a) = set (ev_identifiers b))"

lemma field_of_simps [simp]: "field_of None = Absent" "field_of (Some v) = Known v"
  by (simp_all add: field_of_def)

lemma meaningful_field_of: "meaningful_field (field_of v) = field_of (meaningful_text v)"
  by (cases v) (auto simp: meaningful_field_def field_of_def meaningful_text_def)

lemma stable_name_field_of: "stable_name_field role (field_of n) (field_of v) = field_of (stable_name role n v)"
proof (cases "meaningful_text n")
  case None
  then show ?thesis
    by (simp add: stable_name_field_def stable_name_def meaningful_field_of Let_def)
next
  case (Some t)
  have "value_matches_name None t = False" by (simp add: value_matches_name_def numeric_text_def)
  then show ?thesis using Some
    by (cases "meaningful_text v")
      (auto simp: stable_name_field_def stable_name_def meaningful_field_of Let_def)
qed

lemma stable_value_field_of: "stable_value_field role (field_of v) = field_of (stable_value role v)"
  by (simp add: stable_value_field_def stable_value_def meaningful_field_of)

lemma match_primary_field_of: "match_primary_identity x (Known x) f = Match"
  by (simp add: match_primary_identity_def equality_match_def)

lemma stable_text_self:
  assumes "has_stable_text_identity e"
  shows "stable_text_match e (field_of (id_name (identity e))) (field_of (id_value (identity e)))
    (field_of (id_description (identity e))) = Match"
  using assms
  unfolding stable_text_match_def stable_name_field_of stable_value_field_of meaningful_field_of Let_def
  by (auto simp: has_stable_text_identity_def match_primary_field_of split: option.splits)

lemma field_le_meaningful: "field_le a b \<Longrightarrow> field_le (meaningful_field a) (meaningful_field b)"
  by (auto simp: field_le_def meaningful_field_def)

lemma field_le_stable_value: "field_le a b \<Longrightarrow> field_le (stable_value_field r a) (stable_value_field r b)"
  by (simp add: stable_value_field_def field_le_meaningful) (simp add: field_le_def)

lemma field_le_stable_name:
  "field_le a b \<Longrightarrow> field_le c d \<Longrightarrow> field_le (stable_name_field r a c) (stable_name_field r b d)"
  using field_le_meaningful [of a b] field_le_meaningful [of c d]
  by (auto simp: stable_name_field_def Let_def field_le_def split: locator_field.splits)

lemma match_primary_stable:
  "field_le a b \<Longrightarrow> field_le c d \<Longrightarrow> match_primary_identity x a c = v \<Longrightarrow> v \<noteq> MatchUnknown \<Longrightarrow>
     match_primary_identity x b d = v"
  by (auto simp: match_primary_identity_def field_le_def split: locator_field.splits)

lemma empty_match_stable:
  "list_all2 field_le as bs \<Longrightarrow> empty_identity_match as = v \<Longrightarrow> v \<noteq> MatchUnknown \<Longrightarrow>
     empty_identity_match bs = v"
proof -
  assume l: "list_all2 field_le as bs" and v: "empty_identity_match as = v" "v \<noteq> MatchUnknown"
  then have "\<not> list_ex field_is_unknown as" by (auto simp: empty_identity_match_def split: if_splits)
  with l have "as = bs"
    by (induction rule: list_all2_induct) (auto simp: field_le_def)
  with v show ?thesis by simp
qed

lemma stable_text_stable:
  assumes "field_le n n'" "field_le v v'" "field_le d d'"
    and "stable_text_match e n v d = r" "r \<noteq> MatchUnknown"
  shows "stable_text_match e n' v' d' = r"
proof -
  let ?role = "id_role (identity e)"
  note le = field_le_stable_name [OF assms(1,2), of ?role] field_le_stable_value [OF assms(2), of ?role]
    field_le_meaningful [OF assms(3)]
  show ?thesis
    using assms(4,5) le match_primary_stable empty_match_stable
      [of "[stable_name_field ?role n v, stable_value_field ?role v, meaningful_field d]"
          "[stable_name_field ?role n' v', stable_value_field ?role v', meaningful_field d']" r]
    by (auto simp: stable_text_match_def Let_def split: option.splits if_splits)
qed

section \<open>Properties\<close>

text \<open>
  Normalised identifier evidence holds each non-blank identifier that was reported
  exactly once and nothing else, and the preferred identifier is the one the reader pointed at,
  however many blanks and duplicates were removed before it; pointing at a blank prefers none.
\<close>

theorem evidence_typed_normal:
  "distinct (ev_identifiers (evidence_typed is preferred whole)) \<and>
   set (ev_identifiers (evidence_typed is preferred whole)) = {i \<in> set is. \<not> is_blank (ident_value i)} \<and>
   preferred_identifier (evidence_typed is preferred whole) =
     option_filter (\<lambda>i. \<not> is_blank (ident_value i)) (Option.bind preferred (list_get is)) \<and>
   ev_complete (evidence_typed is preferred whole) = whole \<and>
   ev_retained_object (evidence_typed is preferred whole) = None"
proof -
  obtain ns q where run: "typed_loop preferred 0 is [] None = (ns, q)" by fastforce
  have "loop_preferred preferred 0 is None =
      option_filter (\<lambda>i. \<not> is_blank (ident_value i)) (Option.bind preferred (list_get is))"
    by (auto simp: loop_preferred_def list_get_def option_filter_def split: option.splits)
  then show ?thesis
    using typed_loop_spec [OF run] by (simp add: evidence_typed_def run preferred_identifier_def)
qed

text \<open>
  C40. A live element that shows the texts and the identifiers of a stored entry is recognised:
  when the entry has a meaningful identity, the verdict on its own evidence is a match, whatever
  else the element reports and whether or not the identifier read was complete.
\<close>

theorem unchanged_element_matches:
  assumes "has_meaningful_identity e"
    and "is_none_or (id_retained_object (identity e))
           (\<lambda>t. \<not> is_blank t \<and> ev_retained_object ids = Some t)"
    and "is_none_or (id_native_id (identity e))
           (\<lambda>i. \<not> is_blank (ident_value i) \<and> i \<in> set (ev_identifiers ids))"
  shows "identity_match e (field_of (id_name (identity e))) (field_of (id_value (identity e)))
    (field_of (id_description (identity e))) ids = Match"
  using assms stable_text_self [of e]
  by (auto simp: identity_match_def has_meaningful_identity_def meaningful_text_def equality_match_def
      list_ex_iff split: option.splits)

theorem unchanged_element_matches_witness:
  "identity_match (sample_entry [] [0] None) (Known ''OK'') Absent Absent evidence_unknown = Match"
proof -
  have "\<not> is_mutable_value_role (role_as_str RButton)" by (simp add: is_mutable_value_role_def del: role_as_str.simps)
  moreover have "\<not> is_blank ''OK''"
  proof -
    have "strip_any ws_tokens ''OK'' = None" "strip_any (map rev ws_tokens) (rev ''OK'') = None" by code_simp+
    then show ?thesis by (simp add: is_blank_def trim_def trim_start_def trim_end_def strip_all_fix)
  qed
  ultimately have "has_meaningful_identity (sample_entry [] [0] None)"
    by (simp add: has_meaningful_identity_def has_stable_text_identity_def sample_entry_def
        stable_name_def meaningful_text_def del: role_as_str.simps)
  from unchanged_element_matches [OF this, of evidence_unknown] show ?thesis
    by (simp add: sample_entry_def)
qed

text \<open>
  C39. A verdict is never withdrawn by reading more: when some evidence already decides that the
  element is, or is not, the stored one, then the same decision follows from any evidence that
  fills in unknown fields and completes the identifiers.
\<close>

theorem identity_verdict_stable:
  assumes "field_le n n'" "field_le v v'" "field_le d d'" "evidence_le ids ids'"
    and "identity_match e n v d ids \<noteq> MatchUnknown"
  shows "identity_match e n' v' d' ids' = identity_match e n v d ids"
  using assms(5) assms(4) stable_text_stable [OF assms(1-3), of e]
  by (auto simp: identity_match_def evidence_le_def list_ex_iff split: option.splits if_splits)

theorem identity_verdict_stable_witness:
  "identity_match (sample_entry [] [0] None) (Known ''Go'') (Known ''1'') Absent evidence_absent =
   identity_match (sample_entry [] [0] None) (Known ''Go'') FieldUnknown FieldUnknown evidence_unknown"
proof (rule identity_verdict_stable)
  have "\<not> is_blank ''OK''" "\<not> is_blank ''Go''"
  proof -
    have "strip_any ws_tokens ''OK'' = None" "strip_any (map rev ws_tokens) (rev ''OK'') = None"
      "strip_any ws_tokens ''Go'' = None" "strip_any (map rev ws_tokens) (rev ''Go'') = None" by code_simp+
    then show "\<not> is_blank ''OK''" "\<not> is_blank ''Go''"
      by (simp_all add: is_blank_def trim_def trim_start_def trim_end_def strip_all_fix)
  qed
  moreover have "\<not> is_mutable_value_role (role_as_str RButton)"
    by (simp add: is_mutable_value_role_def del: role_as_str.simps)
  ultimately show "identity_match (sample_entry [] [0] None) (Known ''Go'') FieldUnknown FieldUnknown evidence_unknown
      \<noteq> MatchUnknown"
    by (simp add: identity_match_def sample_entry_def stable_text_match_def stable_name_def
        stable_name_field_def meaningful_text_def meaningful_field_def match_primary_identity_def
        equality_match_def Let_def del: role_as_str.simps)
qed (simp_all add: field_le_def evidence_le_def evidence_absent_def evidence_unknown_def evidence_new_def
    evidence_typed_def)

end
