(* ===== verification/ActionResults.thy ===== *)
theory ActionResults
  imports RefIdentity
begin

text \<open>
  What an executed action reports (\<open>action_result.rs\<close>, \<open>action_step.rs\<close>,
  \<open>action_step_outcome.rs\<close>, \<open>step_mechanism.rs\<close>, \<open>surface_info.rs\<close>), its JSON form, and the
  comparison of a value read back with the value written (\<open>value_matches.rs\<close>).
\<close>

section \<open>Steps and results\<close>

datatype action_step_outcome = Attempted | Skipped | Succeeded

datatype step_mechanism = SemanticApi | PhysicalSynthetic

record action_step =
  step_label :: string
  step_outcome :: action_step_outcome
  step_mechanism_of :: "step_mechanism option"
  step_verified :: "bool option"

definition step_with :: "action_step_outcome \<Rightarrow> string \<Rightarrow> action_step" where
  "step_with out l =
     \<lparr>step_label = l, step_outcome = out, step_mechanism_of = None, step_verified = None\<rparr>"

definition step_attempted :: "string \<Rightarrow> action_step" where
  "step_attempted l = step_with Attempted l"

definition step_skipped :: "string \<Rightarrow> action_step" where
  "step_skipped l = step_with Skipped l"

definition step_succeeded :: "string \<Rightarrow> action_step" where
  "step_succeeded l = step_with Succeeded l"

definition step_with_mechanism :: "step_mechanism \<Rightarrow> action_step \<Rightarrow> action_step" where
  "step_with_mechanism m s = s\<lparr>step_mechanism_of := Some m\<rparr>"

definition step_with_verified :: "bool \<Rightarrow> action_step \<Rightarrow> action_step" where
  "step_with_verified b s = s\<lparr>step_verified := Some b\<rparr>"

record surface_info =
  surf_id :: string
  surf_kind :: string
  surf_title :: "string option"
  surf_item_count :: "nat option"

record action_result =
  res_action :: string
  res_post_state :: "element_state option"
  res_steps :: "action_step list"
  res_surfaces :: "surface_info list"
  res_details :: "json option"
  res_disposition :: delivery_semantics

definition default_action_disposition :: delivery_semantics where
  "default_action_disposition = DeliveredUnverified"

definition bare_result :: "string \<Rightarrow> delivery_semantics \<Rightarrow> action_result" where
  "bare_result a s =
     \<lparr>res_action = a, res_post_state = None, res_steps = [], res_surfaces = [], res_details = None,
      res_disposition = s\<rparr>"

definition satisfied_without_delivery :: "string \<Rightarrow> action_result" where
  "satisfied_without_delivery a = bare_result a NotDelivered"

definition delivered_unverified_result :: "string \<Rightarrow> action_result" where
  "delivered_unverified_result a = bare_result a default_action_disposition"

definition with_state :: "element_state \<Rightarrow> action_result \<Rightarrow> action_result" where
  "with_state s r = r\<lparr>res_post_state := Some s\<rparr>"

definition with_steps :: "action_step list \<Rightarrow> action_result \<Rightarrow> action_result" where
  "with_steps ss r = r\<lparr>res_steps := ss\<rparr>"

definition result_with_details :: "json \<Rightarrow> action_result \<Rightarrow> action_result" where
  "result_with_details d r = r\<lparr>res_details := Some d\<rparr>"

definition with_verified_delivery :: "action_result \<Rightarrow> action_result" where
  "with_verified_delivery r =
     (if res_disposition r = DeliveredUnverified then r\<lparr>res_disposition := DeliveredVerified\<rparr> else r)"

definition with_unverified_delivery :: "action_result \<Rightarrow> action_result" where
  "with_unverified_delivery r =
     (if res_disposition r = DeliveredVerified then r\<lparr>res_disposition := DeliveredUnverified\<rparr> else r)"

text \<open>The loop of \<open>delivery_summary\<close> over the steps.\<close>

fun summary_loop :: "action_step list \<Rightarrow> bool \<Rightarrow> bool option \<Rightarrow> bool \<times> bool option" where
  "summary_loop [] delivered verification = (delivered, verification)"
| "summary_loop (s # ss) delivered verification =
     (if step_outcome s = Succeeded then
        summary_loop ss True
          (case step_verified s of
             None \<Rightarrow> verification
           | Some v \<Rightarrow> Some (unwrap_or verification True \<and> v))
      else summary_loop ss delivered verification)"

definition delivery_summary :: "action_step list \<Rightarrow> bool \<times> bool" where
  "delivery_summary ss =
     (let (delivered, verification) = summary_loop ss False None
      in (delivered, unwrap_or verification False))"

definition from_execution :: "action \<Rightarrow> action_step list \<Rightarrow> action_result" where
  "from_execution a steps =
     (let (delivered, verified) = delivery_summary steps
      in if \<not> delivered then with_steps steps (satisfied_without_delivery (action_name a))
         else
           let r = with_steps steps (delivered_unverified_result (action_name a))
           in if verified then
                let r = with_verified_delivery r
                in if writes_element_value a then
                     result_with_details
                       (JObj [(''verification_scope'', JStr ''element_value''),
                              (''application_commit'', JStr ''not_verified'')]) r
                   else r
              else r)"

definition deserialize_action_disposition :: "json \<Rightarrow> decode_error + delivery_semantics" where
  "deserialize_action_disposition j =
     res_bind (deserialize_semantics j) (\<lambda>d.
       if d = NotDelivered \<or> d = DeliveredUnverified \<or> d = DeliveredVerified then Inr d
       else Inl BadVariant)"

section \<open>JSON forms\<close>

text \<open>
  The derived serialisations: fields in order, a skipped field left out, a float that is not
  finite as \<open>null\<close>.
\<close>

definition json_f64 :: "f64 \<Rightarrow> json" where
  "json_f64 v = (if is_finite v then JFloat v else JNull)"

definition rect_json :: "rect \<Rightarrow> json" where
  "rect_json r =
     JObj [(''x'', json_f64 (rect_x r)), (''y'', json_f64 (rect_y r)),
           (''width'', json_f64 (rect_width r)), (''height'', json_f64 (rect_height r))]"

definition point_json :: "point \<Rightarrow> json" where
  "point_json p = JObj [(''x'', json_f64 (point_x p)), (''y'', json_f64 (point_y p))]"

definition opt_field :: "string \<Rightarrow> ('a \<Rightarrow> json) \<Rightarrow> 'a option \<Rightarrow> (string \<times> json) list" where
  "opt_field k f v = (case v of None \<Rightarrow> [] | Some x \<Rightarrow> [(k, f x)])"

definition list_field :: "string \<Rightarrow> ('a \<Rightarrow> json) \<Rightarrow> 'a list \<Rightarrow> (string \<times> json) list" where
  "list_field k f xs = (if xs = [] then [] else [(k, JArr (map f xs))])"

definition element_state_json :: "element_state \<Rightarrow> json" where
  "element_state_json s =
     JObj ([(''role'', JStr (st_role s))] @ list_field ''states'' JStr (st_states s) @
       opt_field ''value'' JStr (st_value s) @ opt_field ''enabled'' JBool (st_enabled s) @
       opt_field ''hidden'' JBool (st_hidden s) @ opt_field ''offscreen'' JBool (st_offscreen s))"

fun step_outcome_token :: "action_step_outcome \<Rightarrow> string" where
  "step_outcome_token Attempted = ''attempted''"
| "step_outcome_token Skipped = ''skipped''"
| "step_outcome_token Succeeded = ''succeeded''"

fun step_mechanism_token :: "step_mechanism \<Rightarrow> string" where
  "step_mechanism_token SemanticApi = ''semantic_api''"
| "step_mechanism_token PhysicalSynthetic = ''physical_synthetic''"

definition action_step_json :: "action_step \<Rightarrow> json" where
  "action_step_json s =
     JObj ([(''label'', JStr (step_label s)), (''outcome'', JStr (step_outcome_token (step_outcome s)))] @
       opt_field ''mechanism'' (\<lambda>m. JStr (step_mechanism_token m)) (step_mechanism_of s) @
       opt_field ''verified'' JBool (step_verified s))"

definition surface_info_json :: "surface_info \<Rightarrow> json" where
  "surface_info_json s =
     JObj ([(''id'', JStr (surf_id s)), (''type'', JStr (surf_kind s))] @
       opt_field ''title'' JStr (surf_title s) @
       opt_field ''item_count'' (\<lambda>n. JInt (int n)) (surf_item_count s))"

definition action_result_json :: "action_result \<Rightarrow> json" where
  "action_result_json r =
     JObj ([(''action'', JStr (res_action r))] @
       opt_field ''post_state'' element_state_json (res_post_state r) @
       list_field ''steps'' action_step_json (res_steps r) @
       list_field ''surfaces'' surface_info_json (res_surfaces r) @
       opt_field ''details'' id (res_details r) @
       [(''disposition'', serialize_semantics (res_disposition r))])"

section \<open>Comparing a value read back\<close>

text \<open>\<open>str::parse::<i128>\<close>: an optional sign, then digits, within the range of the type.\<close>

definition parse_i128 :: "string \<Rightarrow> int option" where
  "parse_i128 s =
     (let (neg, ds) = split_sign s; v = (if neg then - int (digits_value ds) else int (digits_value ds))
      in if ds \<noteq> [] \<and> list_all is_ascii_digit ds \<and> - (2 ^ 127) \<le> v \<and> v < 2 ^ 127 then Some v else None)"

definition f64_max :: "f64 \<Rightarrow> f64 \<Rightarrow> f64" where
  "f64_max a b = (if a = F64_NaN then b else if b = F64_NaN then a else if f64_le a b then b else a)"

definition value_matches :: "string \<Rightarrow> string \<Rightarrow> string option \<Rightarrow> bool" where
  "value_matches role expected observed =
     (case observed of
        None \<Rightarrow> False
      | Some obs \<Rightarrow>
          if expected = obs then True
          else if role \<notin> {''slider'', ''incrementor'', ''scrollbar'', ''handle''} then False
          else
            (case (parse_i128 expected, parse_i128 obs) of
               (Some a, Some b) \<Rightarrow> a = b
             | _ \<Rightarrow>
                 (case (parse_f64 expected, parse_f64 obs) of
                    (Some a, Some b) \<Rightarrow>
                      is_finite a \<and> is_finite b \<and>
                      f64_lt (f64_max (f64_abs a) (f64_abs b)) (Fin 9007199254740992) \<and>
                      f64_le (f64_abs (f64_sub a b)) (f64_of_rat (1 / 1000000))
                  | _ \<Rightarrow> False)))"

section \<open>Lemmas\<close>

lemma summary_loop_spec:
  "summary_loop ss d v =
     (d \<or> list_ex (\<lambda>s. step_outcome s = Succeeded) ss,
      if \<exists>s \<in> set ss. step_outcome s = Succeeded \<and> step_verified s \<noteq> None
      then Some (unwrap_or v True \<and> (\<forall>s \<in> set ss. step_outcome s = Succeeded \<longrightarrow> step_verified s \<noteq> Some False))
      else v)"
proof (induction ss arbitrary: d v)
  case (Cons s ss)
  show ?case
    by (cases "step_verified s"; cases v) (auto simp: Cons.IH)
qed simp

lemma delivery_summary_spec:
  "delivery_summary ss =
     (list_ex (\<lambda>s. step_outcome s = Succeeded) ss,
      list_ex (\<lambda>s. step_outcome s = Succeeded \<and> step_verified s \<noteq> None) ss \<and>
      list_all (\<lambda>s. \<not> (step_outcome s = Succeeded \<and> step_verified s = Some False)) ss)"
  by (auto simp: delivery_summary_def summary_loop_spec list_ex_iff list_all_iff)

section \<open>Properties\<close>

text \<open>
  The disposition of an executed action is read off its steps: nothing was delivered exactly
  when no step succeeded; delivery is verified exactly when some successful step was verified and
  none was refuted; and what is written for it is accepted and read back by the decoder of results.
\<close>

theorem from_execution_disposition:
  "res_disposition (from_execution a ss) =
     (if \<not> list_ex (\<lambda>s. step_outcome s = Succeeded) ss then NotDelivered
      else if list_ex (\<lambda>s. step_outcome s = Succeeded \<and> step_verified s \<noteq> None) ss \<and>
              list_all (\<lambda>s. \<not> (step_outcome s = Succeeded \<and> step_verified s = Some False)) ss
      then DeliveredVerified else DeliveredUnverified) \<and>
   res_steps (from_execution a ss) = ss \<and> res_action (from_execution a ss) = action_name a \<and>
   deserialize_action_disposition (serialize_semantics (res_disposition (from_execution a ss))) =
     Inr (res_disposition (from_execution a ss))"
proof -
  have "deserialize_semantics (serialize_semantics s) = Inr s" for s
    by (simp add: deserialize_Inr_iff) (simp add: serialize_semantics_def)
  then show ?thesis
    by (auto simp: from_execution_def delivery_summary_spec deserialize_action_disposition_def
        with_steps_def satisfied_without_delivery_def delivered_unverified_result_def bare_result_def
        default_action_disposition_def with_verified_delivery_def result_with_details_def Let_def)
qed

text \<open>
  Reading a value back never accepts a different text for a role that is not numeric, never
  accepts a missing value, and for the numeric roles tells any two whole numbers apart, however
  large.
\<close>

theorem value_matches_exact:
  "\<not> value_matches role expected None \<and> value_matches role s (Some s) \<and>
   (value_matches ''textfield'' expected (Some s) \<longleftrightarrow> expected = s) \<and>
   (parse_i128 expected = None \<or> parse_i128 s = None \<or> expected = s \<or>
    (value_matches role expected (Some s) \<longleftrightarrow>
       role \<in> {''slider'', ''incrementor'', ''scrollbar'', ''handle''} \<and> parse_i128 expected = parse_i128 s))"
  by (cases "parse_i128 expected"; cases "parse_i128 s") (auto simp: value_matches_def)

end
