(* ===== verification/Deadlines.thy ===== *)
theory Deadlines
  imports Errors
begin

text \<open>
  Time budgets: \<open>wait_budget.rs\<close> (the bound on a requested timeout) and \<open>deadline.rs\<close>
  (deadlines, the deadline inherited from the enclosing scope, and the scopes themselves).
  Instants and durations are nanoseconds.  \<open>Instant::now()\<close> is the argument \<open>now\<close>; the
  thread-local \<open>INHERITED_DEADLINE\<close> is the argument \<open>inh\<close>.
\<close>

section \<open>Budgets\<close>

definition ns_per_ms :: nat where "ns_per_ms = 1000000"

definition MAX_WAIT_TIMEOUT_MS :: nat where "MAX_WAIT_TIMEOUT_MS = 24 * 60 * 60 * 1000"

definition DEFAULT_OPERATION_TIMEOUT_MS :: u64 where "DEFAULT_OPERATION_TIMEOUT_MS = 5000"

definition wait_timeout_duration :: "u64 \<Rightarrow> adapter_error + nat" where
  "wait_timeout_duration t =
     (if unat t > MAX_WAIT_TIMEOUT_MS then
        Inl (with_details
               (JObj [(''timeout_ms'', JInt (uint t)), (''max_timeout_ms'', JInt (int MAX_WAIT_TIMEOUT_MS))])
             (with_suggestion
               (''Choose a timeout between 0 and '' @ show_nat MAX_WAIT_TIMEOUT_MS @ '' milliseconds'')
             (new_error InvalidArgs
               (''Timeout exceeds the '' @ show_nat MAX_WAIT_TIMEOUT_MS @ ''ms maximum''))))
      else Inr (unat t * ns_per_ms))"

text \<open>The largest instant: \<open>i64\<close> seconds and a fraction.\<close>

definition instant_max :: nat where "instant_max = 2 ^ 63 * 1000000000 - 1"

definition instant_checked_add :: "nat \<Rightarrow> nat \<Rightarrow> nat option" where
  "instant_checked_add i d = (if i + d \<le> instant_max then Some (i + d) else None)"

section \<open>Deadlines\<close>

record deadline =
  started_at :: nat
  expires_at :: nat
  dl_timeout_ms :: u64
  dl_capped :: bool

definition min_expiry :: "deadline \<Rightarrow> deadline \<Rightarrow> deadline" where
  "min_expiry d other =
     d\<lparr>dl_capped := dl_capped d \<or> expires_at other < expires_at d,
       expires_at := min (expires_at d) (expires_at other)\<rparr>"

definition bound_by :: "deadline option \<Rightarrow> deadline \<Rightarrow> deadline" where
  "bound_by inh d = (case inh of None \<Rightarrow> d | Some parent \<Rightarrow> min_expiry d parent)"

text \<open>The common part of \<open>detached_after\<close> and \<open>at\<close>.\<close>

definition detached_at :: "nat \<Rightarrow> u64 \<Rightarrow> adapter_error + deadline" where
  "detached_at start t =
     res_bind (wait_timeout_duration t) (\<lambda>duration.
     res_bind (ok_or (instant_checked_add start duration)
       (with_details (JObj [(''timeout_ms'', JInt (uint t))])
         (new_error InvalidArgs ''Timeout cannot be represented safely''))) (\<lambda>expires.
     Inr \<lparr>started_at = start, expires_at = expires, dl_timeout_ms = t, dl_capped = False\<rparr>))"

definition detached_after :: "nat \<Rightarrow> u64 \<Rightarrow> adapter_error + deadline" where
  "detached_after now t = detached_at now t"

definition deadline_at :: "deadline option \<Rightarrow> nat \<Rightarrow> u64 \<Rightarrow> adapter_error + deadline" where
  "deadline_at inh start t = res_bind (detached_at start t) (\<lambda>d. Inr (bound_by inh d))"

definition deadline_after :: "deadline option \<Rightarrow> nat \<Rightarrow> u64 \<Rightarrow> adapter_error + deadline" where
  "deadline_after inh now t = res_bind (detached_after now t) (\<lambda>d. Inr (bound_by inh d))"

definition deadline_standard :: "deadline option \<Rightarrow> nat \<Rightarrow> adapter_error + deadline" where
  "deadline_standard inh now = deadline_after inh now DEFAULT_OPERATION_TIMEOUT_MS"

definition round_up_ms :: "nat \<Rightarrow> nat" where
  "round_up_ms ns = (if ns mod ns_per_ms = 0 then ns div ns_per_ms else ns div ns_per_ms + 1)"

definition deadline_from_duration :: "deadline option \<Rightarrow> nat \<Rightarrow> nat \<Rightarrow> adapter_error + deadline" where
  "deadline_from_duration inh now d =
     (if round_up_ms d \<le> u64_max then deadline_after inh now (word_of_nat (round_up_ms d))
      else Inl (new_error InvalidArgs ''Timeout is too large''))"

definition remaining :: "nat \<Rightarrow> deadline \<Rightarrow> nat" where
  "remaining now d = expires_at d - now"

definition is_expired :: "nat \<Rightarrow> deadline \<Rightarrow> bool" where
  "is_expired now d \<longleftrightarrow> remaining now d = 0"

definition elapsed :: "nat \<Rightarrow> deadline \<Rightarrow> nat" where
  "elapsed now d = now - started_at d"

definition deadline_timeout_error :: "nat \<Rightarrow> deadline \<Rightarrow> adapter_error" where
  "deadline_timeout_error now d =
     with_details
       (JObj [(''kind'', JStr ''deadline''), (''timeout_ms'', JInt (uint (dl_timeout_ms d))),
              (''elapsed_ms'', JInt (int (elapsed now d div ns_per_ms)))])
       (timeout_error_msg ''Operation exceeded its deadline'')"

definition remaining_slice :: "nat \<Rightarrow> nat \<Rightarrow> deadline \<Rightarrow> adapter_error + nat" where
  "remaining_slice now maximum d =
     (if remaining now d = 0 then Inl (deadline_timeout_error now d)
      else Inr (min (remaining now d) maximum))"

definition deadline_capped :: "nat \<Rightarrow> nat \<Rightarrow> deadline \<Rightarrow> deadline" where
  "deadline_capped now maximum d =
     (let e = (case instant_checked_add now maximum of
                 None \<Rightarrow> expires_at d | Some limit \<Rightarrow> min (expires_at d) limit)
      in d\<lparr>dl_capped := dl_capped d \<or> e < expires_at d, expires_at := e\<rparr>)"

definition extended_by :: "deadline option \<Rightarrow> nat \<Rightarrow> deadline \<Rightarrow> deadline" where
  "extended_by inh pause d =
     bound_by inh
       (d\<lparr>expires_at := unwrap_or (instant_checked_add (expires_at d) pause) (expires_at d)\<rparr>)"

definition remaining_ms :: "nat \<Rightarrow> deadline \<Rightarrow> nat" where
  "remaining_ms now d = min (round_up_ms (remaining now d)) u64_max"

section \<open>Scopes\<close>

text \<open>
  \<open>enter_scope\<close> returns the new inherited deadline and the one the scope guard holds; dropping
  the guard puts the latter back.
\<close>

definition enter_scope :: "deadline option \<Rightarrow> deadline option \<Rightarrow> deadline option \<times> deadline option" where
  "enter_scope inh d =
     ((case (inh, d) of
         (Some parent, Some child) \<Rightarrow> Some (min_expiry child parent)
       | (Some parent, None) \<Rightarrow> Some parent
       | (None, child) \<Rightarrow> child), inh)"

definition drop_scope :: "deadline option \<times> deadline option \<Rightarrow> deadline option" where
  "drop_scope s = snd s"

text \<open>Entering scopes one inside the other.\<close>

fun nested_scopes :: "deadline option \<Rightarrow> deadline option list \<Rightarrow> deadline option" where
  "nested_scopes inh [] = inh"
| "nested_scopes inh (d # ds) = nested_scopes (fst (enter_scope inh d)) ds"

section \<open>Lemmas\<close>

lemma min_expiry_fields [simp]:
  "expires_at (min_expiry d p) = min (expires_at d) (expires_at p)"
  "started_at (min_expiry d p) = started_at d"
  "dl_timeout_ms (min_expiry d p) = dl_timeout_ms d"
  "dl_capped (min_expiry d p) \<longleftrightarrow> dl_capped d \<or> expires_at p < expires_at d"
  by (simp_all add: min_expiry_def)

lemma bound_by_fields [simp]:
  "started_at (bound_by inh d) = started_at d"
  "dl_timeout_ms (bound_by inh d) = dl_timeout_ms d"
  "expires_at (bound_by inh d) \<le> expires_at d"
  by (simp_all add: bound_by_def split: option.splits)

lemma bound_by_parent [simp]: "expires_at (bound_by (Some p) d) \<le> expires_at p"
  by (simp add: bound_by_def)

lemma is_expired_iff: "is_expired now d \<longleftrightarrow> expires_at d \<le> now"
  by (simp add: is_expired_def remaining_def)

lemma is_expired_mono: "is_expired now d \<Longrightarrow> now \<le> later \<Longrightarrow> is_expired later d"
  by (simp add: is_expired_iff)

lemma detached_at_Inr:
  "detached_at start t = Inr d \<longleftrightarrow>
     unat t \<le> MAX_WAIT_TIMEOUT_MS \<and> start + unat t * ns_per_ms \<le> instant_max \<and>
     d = \<lparr>started_at = start, expires_at = start + unat t * ns_per_ms, dl_timeout_ms = t,
          dl_capped = False\<rparr>"
  by (auto simp: detached_at_def wait_timeout_duration_def instant_checked_add_def)

lemma round_up_ms_bounds: "ns \<le> round_up_ms ns * ns_per_ms" "round_up_ms ns * ns_per_ms < ns + ns_per_ms"
proof -
  define q where "q = ns div ns_per_ms"
  define r where "r = ns mod ns_per_ms"
  have e: "q * ns_per_ms + r = ns" unfolding q_def r_def by (rule div_mult_mod_eq)
  have r: "r < ns_per_ms" by (simp add: r_def ns_per_ms_def)
  have u: "round_up_ms ns = (if r = 0 then q else q + 1)" by (simp add: round_up_ms_def q_def r_def)
  show "ns \<le> round_up_ms ns * ns_per_ms" "round_up_ms ns * ns_per_ms < ns + ns_per_ms"
    using e r unfolding u by (auto simp: add_mult_distrib)
qed

lemma extended_by_parent: "expires_at (extended_by (Some p) pause d) \<le> expires_at p"
  by (simp add: extended_by_def)

lemma enter_scope_expiry:
  "fst (enter_scope inh d) = None \<longleftrightarrow> inh = None \<and> d = None"
  "fst (enter_scope inh d) = Some e \<Longrightarrow> expires_at e =
     (case (inh, d) of (Some p, Some c) \<Rightarrow> min (expires_at c) (expires_at p)
      | (Some p, None) \<Rightarrow> expires_at p | (None, Some c) \<Rightarrow> expires_at c | (None, None) \<Rightarrow> 0)"
  by (auto simp: enter_scope_def split: option.splits)

lemma drop_enter_scope [simp]: "drop_scope (enter_scope inh d) = inh"
  by (simp add: drop_scope_def enter_scope_def)

lemma nested_scopes_expiry:
  "nested_scopes inh ds = Some e \<Longrightarrow>
     (\<forall>p. inh = Some p \<or> Some p \<in> set ds \<longrightarrow> expires_at e \<le> expires_at p) \<and>
     (\<exists>p. (inh = Some p \<or> Some p \<in> set ds) \<and> expires_at e = expires_at p)"
proof (induction inh ds rule: nested_scopes.induct)
  case (1 inh)
  then show ?case by auto
next
  case (2 inh d ds)
  then have IH: "\<And>p. fst (enter_scope inh d) = Some p \<or> Some p \<in> set ds \<Longrightarrow> expires_at e \<le> expires_at p"
    and ex: "\<exists>p. (fst (enter_scope inh d) = Some p \<or> Some p \<in> set ds) \<and> expires_at e = expires_at p"
    by auto
  from IH have "expires_at e \<le> expires_at p" if "inh = Some p \<or> Some p \<in> set (d # ds)" for p
    using that IH [of "min_expiry (the d) (the inh)"]
    by (cases inh; cases d) (auto simp: enter_scope_def)
  moreover have "\<exists>p. (inh = Some p \<or> Some p \<in> set (d # ds)) \<and> expires_at e = expires_at p"
    using ex by (cases inh; cases d) (auto simp: enter_scope_def min_def split: if_splits)
  ultimately show ?case by blast
qed

section \<open>Properties\<close>

text \<open>
  However scopes are nested, the deadline in force is the earliest of the one inherited and
  the ones entered, so an inner scope can shorten but never lengthen what an outer one allows;
  leaving a scope restores what was in force before.
\<close>

theorem nested_scopes_earliest:
  "map_option expires_at (nested_scopes inh ds) =
     (let es = map expires_at (List.map_filter id (inh # ds))
      in if es = [] then None else Some (Min (set es))) \<and>
   drop_scope (enter_scope inh d) = inh"
proof (cases "nested_scopes inh ds")
  case None
  have "inh = None \<and> set ds \<subseteq> {None}" using None
    by (induction inh ds rule: nested_scopes.induct) (auto simp: enter_scope_expiry(1))
  then have "List.map_filter id (inh # ds) = []"
    by (auto simp: map_filter_def filter_empty_conv)
  with None show ?thesis by (simp add: Let_def)
next
  case (Some e)
  let ?es = "map expires_at (List.map_filter id (inh # ds))"
  have m: "x \<in> set ?es \<longleftrightarrow> (\<exists>p. (inh = Some p \<or> Some p \<in> set ds) \<and> x = expires_at p)" for x
    by (cases inh) (force simp: map_filter_def image_iff)+
  note n = nested_scopes_expiry [OF Some]
  have "Min (set ?es) = expires_at e"
    by (rule Min_eqI) (use n m in auto)
  moreover have "?es \<noteq> []" using n m [of "expires_at e"] by fastforce
  ultimately show ?thesis using Some by (simp add: Let_def)
qed

text \<open>
  An operation's deadline exists exactly for budgets of at most a day whose end is
  representable; its expiry is the start plus the budget or the inherited expiry, whichever is
  earlier, also after a pause has been added, and it is marked as capped exactly when the
  inherited one is earlier.
\<close>

theorem deadline_at_bounded:
  "(is_ok (deadline_at inh start t) \<longleftrightarrow>
      unat t \<le> MAX_WAIT_TIMEOUT_MS \<and> start + unat t * ns_per_ms \<le> instant_max) \<and>
   (case deadline_at inh start t of
      Inl e \<Rightarrow> err_code e = InvalidArgs
    | Inr d \<Rightarrow>
        started_at d = start \<and> dl_timeout_ms d = t \<and>
        expires_at d = (case inh of None \<Rightarrow> start + unat t * ns_per_ms
          | Some p \<Rightarrow> min (start + unat t * ns_per_ms) (expires_at p)) \<and>
        (dl_capped d \<longleftrightarrow> is_some_and inh (\<lambda>p. expires_at p < start + unat t * ns_per_ms)) \<and>
        is_none_or inh (\<lambda>p. expires_at (extended_by inh pause d) \<le> expires_at p))"
proof (cases "detached_at start t")
  case (Inl e)
  then have "err_code e = InvalidArgs"
    by (auto simp: detached_at_def wait_timeout_duration_def ok_or_def res_bind_Inl_iff split: if_splits option.splits)
  moreover have "\<not> (unat t \<le> MAX_WAIT_TIMEOUT_MS \<and> start + unat t * ns_per_ms \<le> instant_max)"
    using Inl detached_at_Inr by (metis Inr_Inl_False)
  ultimately show ?thesis using Inl by (simp add: deadline_at_def)
next
  case (Inr d)
  have "deadline_at inh start t = Inr (bound_by inh d)" by (simp add: deadline_at_def Inr)
  moreover have "unat t \<le> MAX_WAIT_TIMEOUT_MS \<and> start + unat t * ns_per_ms \<le> instant_max"
    and "d = \<lparr>started_at = start, expires_at = start + unat t * ns_per_ms, dl_timeout_ms = t, dl_capped = False\<rparr>"
    using Inr by (simp_all add: detached_at_Inr)
  ultimately show ?thesis
    by (cases inh) (auto simp: bound_by_def extended_by_parent)
qed

text \<open>
  The remaining milliseconds are zero exactly when the deadline has expired; otherwise they
  cover what remains and exceed it by less than a millisecond, up to the largest \<open>u64\<close>.
\<close>

theorem remaining_ms_exact:
  "(remaining_ms now d = 0 \<longleftrightarrow> is_expired now d) \<and>
   (remaining_ms now d = u64_max \<or>
      remaining now d \<le> remaining_ms now d * ns_per_ms \<and>
      remaining_ms now d * ns_per_ms < remaining now d + ns_per_ms)"
proof -
  note b = round_up_ms_bounds [of "remaining now d"]
  have "round_up_ms (remaining now d) = 0 \<longleftrightarrow> remaining now d = 0"
    using b by (cases "round_up_ms (remaining now d)") auto
  then show ?thesis using b by (auto simp: remaining_ms_def is_expired_def min_def)
qed

end
