(* ===== verification/Effects.thy ===== *)
theory Effects
  imports ActionResults Deadlines
begin

text \<open>
  Code that acts on the world: clock reads, sleeping, and the calls of the platform adapter trait
  (\<open>adapter/observation.rs\<close>, \<open>adapter/actions.rs\<close>, \<open>adapter/system.rs\<close>), the trace sink and the
  pieces of the crate that only present what happens (the cursor overlay, screenshots).  The
  platform behind the trait is a record of functions on an abstract world \<open>'w\<close>; an action on the
  world gives an error or a value and the world after it, or \<open>None\<close> when it does not return.
  Only a loop can fail to return.
\<close>

section \<open>Actions on the world\<close>

type_synonym ('w, 'e, 'a) act = "'w \<Rightarrow> (('e + 'a) \<times> 'w) option"

definition ret :: "'a \<Rightarrow> ('w, 'e, 'a) act" where
  "ret x w = Some (Inr x, w)"

definition fail_with :: "'e \<Rightarrow> ('w, 'e, 'a) act" where
  "fail_with e w = Some (Inl e, w)"

definition lift_res :: "'e + 'a \<Rightarrow> ('w, 'e, 'a) act" where
  "lift_res r w = Some (r, w)"

text \<open>\<open>abind m f\<close> is \<open>f(m?)\<close>: an error of \<open>m\<close> is returned at once.\<close>

definition abind :: "('w, 'e, 'a) act \<Rightarrow> ('a \<Rightarrow> ('w, 'e, 'b) act) \<Rightarrow> ('w, 'e, 'b) act" where
  "abind m f w =
     (case m w of
        None \<Rightarrow> None
      | Some (r, w') \<Rightarrow> (case r of Inl e \<Rightarrow> Some (Inl e, w') | Inr x \<Rightarrow> f x w'))"

text \<open>\<open>attempt m\<close> hands the result of \<open>m\<close> on as a value, for code that matches on it.\<close>

definition attempt :: "('w, 'e, 'a) act \<Rightarrow> ('w, 'f, 'e + 'a) act" where
  "attempt m w = (case m w of None \<Rightarrow> None | Some (r, w') \<Rightarrow> Some (Inr r, w'))"

definition amap_err :: "('e \<Rightarrow> 'f) \<Rightarrow> ('w, 'e, 'a) act \<Rightarrow> ('w, 'f, 'a) act" where
  "amap_err f m w = (case m w of None \<Rightarrow> None | Some (r, w') \<Rightarrow> Some (res_map_err f r, w'))"

text \<open>A call that always returns.\<close>

definition call :: "('w \<Rightarrow> ('e + 'a) \<times> 'w) \<Rightarrow> ('w, 'e, 'a) act" where
  "call f w = Some (f w)"

definition effect :: "('w \<Rightarrow> 'w) \<Rightarrow> ('w, 'e, unit) act" where
  "effect f w = Some (Inr (), f w)"

text \<open>
  \<open>loop\<close>: the body is run on the loop's state until it returns a value or an error.
\<close>

datatype ('s, 'a) flow = Continue 's | Done 'a

partial_function (option) loop :: "('s \<Rightarrow> ('w, 'e, ('s, 'a) flow) act) \<Rightarrow> 's \<Rightarrow> 'w \<Rightarrow> (('e + 'a) \<times> 'w) option" where
  "loop body s w =
     Option.bind (body s w) (\<lambda>p.
       (case fst p of
          Inl e \<Rightarrow> Some (Inl e, snd p)
        | Inr (Continue s') \<Rightarrow> loop body s' (snd p)
        | Inr (Done x) \<Rightarrow> Some (Inr x, snd p)))"

section \<open>The platform\<close>

type_synonym handle = nat

record lease =
  lease_deadline :: deadline
  contention_count :: u64

datatype hit_test_result =
    ReachesTarget | InterceptedBy "string option" "string option" "rect option" | HitUnknown

record window_state =
  is_focused :: bool
  accessible :: bool
  minimized :: "bool option"
  win_visible :: "bool option"

definition default_window_state :: window_state where
  "default_window_state = \<lparr>is_focused = False, accessible = True, minimized = None, win_visible = None\<rparr>"

record window_info =
  win_id :: string
  win_title :: string
  win_app :: string
  win_pid :: process_id
  win_instance :: "string option"
  win_bounds :: "rect option"
  win_state :: window_state

datatype app_presentation = Foreground | Background

record app_info =
  app_name :: string
  app_pid :: process_id
  app_bundle_id :: "string option"
  app_instance :: "string option"
  presentation_of :: "app_presentation option"

datatype window_op = Resize f64 f64 | MoveTo f64 f64 | Minimize | Maximize | Restore

datatype cursor_phase = Travel | PhaseEffect

datatype artifact_outcome = Captured string | ArtSkipped string

record 'w platform =
  pf_now :: "'w \<Rightarrow> nat \<times> 'w"
  pf_sleep :: "nat \<Rightarrow> 'w \<Rightarrow> 'w"
  pf_resolve_element_strict :: "ref_entry \<Rightarrow> deadline \<Rightarrow> 'w \<Rightarrow> (adapter_error + handle) \<times> 'w"
  pf_get_live_element :: "handle \<Rightarrow> deadline \<Rightarrow> 'w \<Rightarrow> (adapter_error + live_element) \<times> 'w"
  pf_get_element_bounds :: "handle \<Rightarrow> deadline \<Rightarrow> 'w \<Rightarrow> (adapter_error + rect option) \<times> 'w"
  pf_get_text_selection :: "handle \<Rightarrow> deadline \<Rightarrow> 'w \<Rightarrow> (adapter_error + (nat \<times> nat) option) \<times> 'w"
  pf_hit_test :: "handle \<Rightarrow> point \<Rightarrow> deadline \<Rightarrow> 'w \<Rightarrow> (adapter_error + hit_test_result) \<times> 'w"
  pf_list_surfaces :: "process_identity \<Rightarrow> deadline \<Rightarrow> 'w \<Rightarrow> (adapter_error + surface_info list) \<times> 'w"
  pf_list_apps :: "deadline \<Rightarrow> 'w \<Rightarrow> (adapter_error + app_info list) \<times> 'w"
  pf_process_state :: "process_identity \<Rightarrow> deadline \<Rightarrow> 'w \<Rightarrow> (adapter_error + process_state) \<times> 'w"
  pf_resolve_window_strict :: "window_info \<Rightarrow> deadline \<Rightarrow> 'w \<Rightarrow> (adapter_error + window_info) \<times> 'w"
  pf_acquire_interaction_lease :: "deadline \<Rightarrow> 'w \<Rightarrow> (adapter_error + lease) \<times> 'w"
  pf_drop_lease :: "lease \<Rightarrow> 'w \<Rightarrow> 'w"
  pf_focus_window :: "window_info \<Rightarrow> lease \<Rightarrow> 'w \<Rightarrow> (adapter_error + unit) \<times> 'w"
  pf_scroll_into_view :: "handle \<Rightarrow> lease \<Rightarrow> 'w \<Rightarrow> (adapter_error + unit) \<times> 'w"
  pf_execute_action :: "handle \<Rightarrow> action_request \<Rightarrow> lease \<Rightarrow> 'w \<Rightarrow> (adapter_error + action_result) \<times> 'w"
  pf_trace :: "string \<Rightarrow> json \<Rightarrow> 'w \<Rightarrow> (app_error + unit) \<times> 'w"
  pf_cursor_travel :: "point \<Rightarrow> lease \<Rightarrow> 'w \<Rightarrow> 'w"
  pf_cursor_submit :: "point \<Rightarrow> rect option \<Rightarrow> bool \<Rightarrow> cursor_phase \<Rightarrow> 'w \<Rightarrow> 'w"
  pf_capture_screenshot :: "ref_entry \<Rightarrow> string \<Rightarrow> deadline \<Rightarrow> 'w \<Rightarrow> artifact_outcome \<times> 'w"
  pf_emit_artifacts :: "string \<Rightarrow> artifact_outcome \<Rightarrow> artifact_outcome \<Rightarrow> 'w \<Rightarrow> 'w"

definition get_now :: "'w platform \<Rightarrow> ('w, 'e, nat) act" where
  "get_now pf = call (\<lambda>w. let (t, w') = pf_now pf w in (Inr t, w'))"

definition check_expired :: "'w platform \<Rightarrow> deadline \<Rightarrow> ('w, 'e, bool) act" where
  "check_expired pf d = abind (get_now pf) (\<lambda>t. ret (is_expired t d))"

definition make_timeout_error :: "'w platform \<Rightarrow> deadline \<Rightarrow> ('w, 'e, adapter_error) act" where
  "make_timeout_error pf d = abind (get_now pf) (\<lambda>t. ret (deadline_timeout_error t d))"

text \<open>\<open>remaining_slice\<close> reads the clock once, and again for the error.\<close>

definition take_slice :: "'w platform \<Rightarrow> nat \<Rightarrow> deadline \<Rightarrow> ('w, adapter_error, nat) act" where
  "take_slice pf maximum d =
     abind (get_now pf) (\<lambda>t.
       if remaining t d = 0 then abind (make_timeout_error pf d) fail_with
       else ret (min (remaining t d) maximum))"

definition cap_deadline :: "'w platform \<Rightarrow> nat \<Rightarrow> deadline \<Rightarrow> ('w, 'e, deadline) act" where
  "cap_deadline pf maximum d = abind (get_now pf) (\<lambda>t. ret (deadline_capped t maximum d))"

definition sleep_for :: "'w platform \<Rightarrow> nat \<Rightarrow> ('w, 'e, unit) act" where
  "sleep_for pf d = effect (pf_sleep pf d)"

definition trace :: "'w platform \<Rightarrow> string \<Rightarrow> json \<Rightarrow> ('w, app_error, unit) act" where
  "trace pf ev payload = call (pf_trace pf ev payload)"

text \<open>A trace call whose result is ignored.\<close>

definition trace_quietly :: "'w platform \<Rightarrow> string \<Rightarrow> json \<Rightarrow> ('w, 'e, unit) act" where
  "trace_quietly pf ev payload = abind (attempt (trace pf ev payload)) (\<lambda>_. ret ())"

section \<open>Reasoning about actions\<close>

lemma act_simps [simp]:
  "ret x w = Some (Inr x, w)" "fail_with e w = Some (Inl e, w)" "lift_res r w = Some (r, w)"
  "call f w = Some (f w)" "effect g w = Some (Inr (), g w)"
  by (simp_all add: ret_def fail_with_def lift_res_def call_def effect_def)

lemma abind_Some_iff:
  "abind m f w = Some (r, w') \<longleftrightarrow>
     (\<exists>e. m w = Some (Inl e, w') \<and> r = Inl e) \<or> (\<exists>x w1. m w = Some (Inr x, w1) \<and> f x w1 = Some (r, w'))"
  by (auto simp: abind_def split: option.splits prod.splits sum.splits)

lemma attempt_Some_iff:
  "attempt m w = Some (r, w') \<longleftrightarrow> (\<exists>x. m w = Some (x, w') \<and> r = Inr x)"
  by (auto simp: attempt_def split: option.splits prod.splits)

lemma amap_err_Some_iff:
  "amap_err f m w = Some (r, w') \<longleftrightarrow> (\<exists>x. m w = Some (x, w') \<and> r = res_map_err f x)"
  by (auto simp: amap_err_def split: option.splits prod.splits)

text \<open>
  \<open>hoare P m Q\<close>: whenever \<open>m\<close> returns from a world with \<open>P\<close>, the result and the world after it
  satisfy \<open>Q\<close>.  \<open>hoare_total P m Q\<close> says moreover that it returns.
\<close>

definition hoare :: "('w \<Rightarrow> bool) \<Rightarrow> ('w, 'e, 'a) act \<Rightarrow> ('e + 'a \<Rightarrow> 'w \<Rightarrow> bool) \<Rightarrow> bool" where
  "hoare P m Q \<longleftrightarrow> (\<forall>w r w'. P w \<longrightarrow> m w = Some (r, w') \<longrightarrow> Q r w')"

definition hoare_total :: "('w \<Rightarrow> bool) \<Rightarrow> ('w, 'e, 'a) act \<Rightarrow> ('e + 'a \<Rightarrow> 'w \<Rightarrow> bool) \<Rightarrow> bool" where
  "hoare_total P m Q \<longleftrightarrow> (\<forall>w. P w \<longrightarrow> (\<exists>r w'. m w = Some (r, w') \<and> Q r w'))"

named_theorems hoare_rules \<open>rules for partial correctness\<close>
named_theorems total_rules \<open>rules for total correctness\<close>

lemma hoareD: "hoare P m Q \<Longrightarrow> P w \<Longrightarrow> m w = Some (r, w') \<Longrightarrow> Q r w'"
  by (simp add: hoare_def)

lemma hoare_weaken: "hoare P' m Q' \<Longrightarrow> (\<And>w. P w \<Longrightarrow> P' w) \<Longrightarrow> (\<And>r w. Q' r w \<Longrightarrow> Q r w) \<Longrightarrow> hoare P m Q"
  unfolding hoare_def by blast

lemma hoare_ret [hoare_rules]: "(\<And>w. P w \<Longrightarrow> Q (Inr x) w) \<Longrightarrow> hoare P (ret x) Q"
  by (simp add: hoare_def)

lemma hoare_fail [hoare_rules]: "(\<And>w. P w \<Longrightarrow> Q (Inl e) w) \<Longrightarrow> hoare P (fail_with e) Q"
  by (simp add: hoare_def)

lemma hoare_lift [hoare_rules]: "(\<And>w. P w \<Longrightarrow> Q r w) \<Longrightarrow> hoare P (lift_res r) Q"
  by (simp add: hoare_def)

lemma hoare_effect [hoare_rules]: "(\<And>w. P w \<Longrightarrow> Q (Inr ()) (f w)) \<Longrightarrow> hoare P (effect f) Q"
  by (simp add: hoare_def)

lemma hoare_bind:
  assumes "hoare P m (\<lambda>r w. case r of Inl e \<Rightarrow> Q (Inl e) w | Inr x \<Rightarrow> R x w)"
    and "\<And>x. hoare (R x) (f x) Q"
  shows "hoare P (abind m f) Q"
  unfolding hoare_def
proof (intro allI impI)
  fix w r w' assume p: "P w" and b: "abind m f w = Some (r, w')"
  from b consider e where "m w = Some (Inl e, w')" "r = Inl e"
    | x w1 where "m w = Some (Inr x, w1)" "f x w1 = Some (r, w')"
    unfolding abind_Some_iff by blast
  then show "Q r w'"
  proof cases
    case 1
    then show ?thesis using hoareD [OF assms(1) p] by force
  next
    case 2
    then have "R x w1" using hoareD [OF assms(1) p] by force
    then show ?thesis using hoareD [OF assms(2)] 2(2) by blast
  qed
qed

lemma hoare_attempt: "hoare P m (\<lambda>r w. Q (Inr r) w) \<Longrightarrow> hoare P (attempt m) Q"
  by (auto simp: hoare_def attempt_Some_iff)

lemma hoare_map_err: "hoare P m (\<lambda>r w. Q (res_map_err f r) w) \<Longrightarrow> hoare P (amap_err f m) Q"
  by (auto simp: hoare_def amap_err_Some_iff)

lemma hoare_total_partial: "hoare_total P m Q \<Longrightarrow> hoare P m Q"
  by (force simp: hoare_def hoare_total_def)

lemma hoare_totalD: "hoare_total P m Q \<Longrightarrow> P w \<Longrightarrow> \<exists>r w'. m w = Some (r, w') \<and> Q r w'"
  by (simp add: hoare_total_def)

lemma total_weaken: "hoare_total P' m Q' \<Longrightarrow> (\<And>w. P w \<Longrightarrow> P' w) \<Longrightarrow> (\<And>r w. Q' r w \<Longrightarrow> Q r w) \<Longrightarrow> hoare_total P m Q"
  unfolding hoare_total_def by blast

lemma total_ret: "(\<And>w. P w \<Longrightarrow> Q (Inr x) w) \<Longrightarrow> hoare_total P (ret x) Q"
  by (simp add: hoare_total_def)

lemma total_fail: "(\<And>w. P w \<Longrightarrow> Q (Inl e) w) \<Longrightarrow> hoare_total P (fail_with e) Q"
  by (simp add: hoare_total_def)

lemma total_bind:
  assumes "hoare_total P m (\<lambda>r w. case r of Inl e \<Rightarrow> Q (Inl e) w | Inr x \<Rightarrow> R x w)"
    and "\<And>x. hoare_total (R x) (f x) Q"
  shows "hoare_total P (abind m f) Q"
  unfolding hoare_total_def
proof (intro allI impI)
  fix w assume "P w"
  then obtain r w1 where m: "m w = Some (r, w1)"
    and q: "case r of Inl e \<Rightarrow> Q (Inl e) w1 | Inr x \<Rightarrow> R x w1" using hoare_totalD [OF assms(1)] by blast
  show "\<exists>r w'. abind m f w = Some (r, w') \<and> Q r w'"
  proof (cases r)
    case (Inl e)
    then show ?thesis using m q by (auto simp: abind_Some_iff)
  next
    case (Inr x)
    then obtain r' w' where "f x w1 = Some (r', w')" "Q r' w'" using q hoare_totalD [OF assms(2)] by fastforce
    then show ?thesis using m Inr by (auto simp: abind_Some_iff)
  qed
qed

section \<open>Loops\<close>

lemma loop_unfold:
  "loop body s w =
     (case body s w of
        None \<Rightarrow> None
      | Some (Inl e, w') \<Rightarrow> Some (Inl e, w')
      | Some (Inr (Continue s'), w') \<Rightarrow> loop body s' w'
      | Some (Inr (Done x), w') \<Rightarrow> Some (Inr x, w'))"
  by (subst loop.simps) (auto split: option.splits prod.splits sum.splits flow.splits)

text \<open>The loop keeps what its body keeps.\<close>

lemma loop_invariant:
  "loop body s w = Some p \<Longrightarrow>
     (\<And>s. hoare (I s) (body s)
        (\<lambda>r w. case r of Inl e \<Rightarrow> Q (Inl e) w | Inr (Continue s') \<Rightarrow> I s' w | Inr (Done x) \<Rightarrow> Q (Inr x) w)) \<Longrightarrow>
     I s w \<Longrightarrow> Q (fst p) (snd p)"
proof (induction body s w p rule: loop.raw_induct [rotated, consumes 1, case_names step])
  case (step loop body s w p)
  from step(2) obtain r w1 where b: "body s w = Some (r, w1)" by (auto simp: bind_eq_Some_conv)
  note q = hoareD [OF step(3) step(4) b]
  show ?case
    using step(2) step(1) [OF _ step(3)] b q
    by (auto simp: bind_eq_Some_conv split: sum.splits flow.splits)
qed

lemma hoare_loop:
  assumes "\<And>s. hoare (I s) (body s)
      (\<lambda>r w. case r of Inl e \<Rightarrow> Q (Inl e) w | Inr (Continue s') \<Rightarrow> I s' w | Inr (Done x) \<Rightarrow> Q (Inr x) w)"
  shows "hoare (I s) (loop body s) Q"
  unfolding hoare_def using loop_invariant [OF _ assms] by fastforce

text \<open>A loop returns when every round that continues lowers a natural number.\<close>

lemma total_loop:
  fixes \<mu> :: "'s \<Rightarrow> 'w \<Rightarrow> nat"
  assumes body: "\<And>s n. hoare_total (\<lambda>w. I s w \<and> \<mu> s w = n) (body s)
      (\<lambda>r w. case r of Inl e \<Rightarrow> Q (Inl e) w | Inr (Continue s') \<Rightarrow> I s' w \<and> \<mu> s' w < n | Inr (Done x) \<Rightarrow> Q (Inr x) w)"
  shows "hoare_total (I s) (loop body s) Q"
proof -
  have "\<exists>r w'. loop body s w = Some (r, w') \<and> Q r w'" if "I s w" for s w
    using that
  proof (induction "\<mu> s w" arbitrary: s w rule: less_induct)
    case less
    from hoare_totalD [OF body, of s "w" "\<mu> s w"] less(2) obtain r w1 where b: "body s w = Some (r, w1)"
      and q: "case r of Inl e \<Rightarrow> Q (Inl e) w1
        | Inr (Continue s') \<Rightarrow> I s' w1 \<and> \<mu> s' w1 < \<mu> s w | Inr (Done x) \<Rightarrow> Q (Inr x) w1"
      by blast
    show ?case
      using b q less(1) by (subst loop_unfold) (auto split: sum.splits flow.splits)
  qed
  then show ?thesis by (simp add: hoare_total_def)
qed

end
