(* ===== verification/Actionability.thy ===== *)
theory Actionability
  imports Effects
begin

text \<open>
  Whether an action may be dispatched to a live element (the directory \<open>actionability/\<close>): what an
  action requires, one check per requirement (the gates), the hit test on candidate points, the
  report the checks make, the error raised when a check blocks, and the live check that first
  makes sure the element still is the one the ref was allocated for.
\<close>

section \<open>Checks\<close>

datatype actionability_status = Pass | Fail | StatusUnknown

record occluder =
  occ_role :: "string option"
  occ_name :: "string option"
  occ_bounds :: "rect option"

record hit_test_evidence =
  ht_attempted :: nat
  ht_unknown :: nat
  ht_occluded :: nat

record stability_evidence =
  se_samples :: u32
  se_span_ms :: u64

record actionability_check =
  chk_name :: string
  chk_status :: actionability_status
  chk_reason :: "string option"
  chk_occluder :: "occluder option"
  chk_terminal_code :: "error_code option"
  chk_hit_test :: "hit_test_evidence option"
  chk_stability :: "stability_evidence option"

definition check_of :: "string \<Rightarrow> actionability_status \<Rightarrow> string option \<Rightarrow> actionability_check" where
  "check_of n s r =
     \<lparr>chk_name = n, chk_status = s, chk_reason = r, chk_occluder = None, chk_terminal_code = None,
      chk_hit_test = None, chk_stability = None\<rparr>"

definition pass :: "string \<Rightarrow> actionability_check" where
  "pass n = check_of n Pass None"

definition failed :: "string \<Rightarrow> string \<Rightarrow> actionability_check" where
  "failed n r = check_of n Fail (Some r)"

definition fail_terminal :: "string \<Rightarrow> string \<Rightarrow> error_code \<Rightarrow> actionability_check" where
  "fail_terminal n r c = (check_of n Fail (Some r))\<lparr>chk_terminal_code := Some c\<rparr>"

definition unknown :: "string \<Rightarrow> string \<Rightarrow> actionability_check" where
  "unknown n r = check_of n StatusUnknown (Some r)"

definition occluded :: "string option \<Rightarrow> string option \<Rightarrow> rect option \<Rightarrow> actionability_check" where
  "occluded role name b =
     (check_of ''receives_events'' Fail
        (Some (case role of None \<Rightarrow> ''occluded by another element'' | Some r \<Rightarrow> ''occluded by '' @ r)))
     \<lparr>chk_occluder := Some \<lparr>occ_role = role, occ_name = name, occ_bounds = b\<rparr>\<rparr>"

section \<open>Requirements\<close>

datatype pointer_delivery = NotApplicable | Semantic | Physical

record actionability_requirements =
  rq_visible :: bool
  rq_stable :: bool
  rq_enabled :: bool
  rq_editable :: bool
  rq_receives_events :: bool

definition requirements :: "bool \<Rightarrow> bool \<Rightarrow> bool \<Rightarrow> bool \<Rightarrow> bool \<Rightarrow> actionability_requirements" where
  "requirements v s e ed r =
     \<lparr>rq_visible = v, rq_stable = s, rq_enabled = e, rq_editable = ed, rq_receives_events = r\<rparr>"

fun requirements_for_action :: "action \<Rightarrow> actionability_requirements" where
  "requirements_for_action Click = requirements True True True False True"
| "requirements_for_action DoubleClick = requirements True True True False True"
| "requirements_for_action RightClick = requirements True True True False True"
| "requirements_for_action TripleClick = requirements True True True False True"
| "requirements_for_action Hover = requirements True True False False True"
| "requirements_for_action (Drag _) = requirements True True False False True"
| "requirements_for_action (SetValue _) = requirements True False True True False"
| "requirements_for_action (TypeText _) = requirements True False True True False"
| "requirements_for_action Clear = requirements True False True True False"
| "requirements_for_action (Select _) = requirements True False True False False"
| "requirements_for_action Expand = requirements True True True False False"
| "requirements_for_action Collapse = requirements True True True False False"
| "requirements_for_action Toggle = requirements True True True False False"
| "requirements_for_action Check = requirements True True True False False"
| "requirements_for_action Uncheck = requirements True True True False False"
| "requirements_for_action (Scroll _ _) = requirements True True True False False"
| "requirements_for_action ScrollTo = requirements False True False False False"
| "requirements_for_action SetFocus = requirements False False False False False"
| "requirements_for_action (PressKey _) = requirements False False False False False"
| "requirements_for_action (KeyDown _) = requirements False False False False False"
| "requirements_for_action (KeyUp _) = requirements False False False False False"

definition pointer_delivery_for ::
  "actionability_requirements \<Rightarrow> action \<Rightarrow> string list \<Rightarrow> interaction_policy \<Rightarrow> pointer_delivery" where
  "pointer_delivery_for rq a available p =
     (if \<not> rq_receives_events rq then NotApplicable
      else if is_headed p \<and> requires_cursor (action_headed_requirement a) then Physical
      else if supports_direct_semantic_pointer_delivery a available then Semantic
      else Physical)"

definition requires_geometry :: "actionability_requirements \<Rightarrow> action_request \<Rightarrow> string list \<Rightarrow> bool" where
  "requires_geometry rq req available =
     (if req_policy req \<noteq> headless then True
      else
        let direct_pointer = supports_direct_semantic_pointer_delivery (req_action req) available;
            direct_text = rq_editable rq \<and> contains_any available (for_action (req_action req))
        in \<not> (direct_pointer \<or> direct_text))"

definition rq_requires_stability :: "actionability_requirements \<Rightarrow> pointer_delivery \<Rightarrow> bool" where
  "rq_requires_stability rq pd \<longleftrightarrow> rq_stable rq \<and> pd \<noteq> Semantic"

definition requires_stability :: "action \<Rightarrow> bool" where
  "requires_stability a \<longleftrightarrow> rq_stable (requirements_for_action a)"

section \<open>Gates\<close>

record actionability_evidence =
  ae_state :: element_state
  ae_states_complete :: bool
  ae_bounds :: "rect option"
  ae_available_actions :: "string list"

definition flag_gate :: "bool option \<Rightarrow> bool \<Rightarrow> bool \<Rightarrow> string \<Rightarrow> string \<Rightarrow> string \<Rightarrow> actionability_check option" where
  "flag_gate flag whole present yes missing token =
     (case flag of
        Some True \<Rightarrow> Some (failed ''visible'' yes)
      | Some False \<Rightarrow> None
      | None \<Rightarrow>
          if \<not> whole then Some (unknown ''visible'' missing)
          else if present then Some (failed ''visible'' token)
          else None)"

definition visibility :: "actionability_evidence \<Rightarrow> bool \<Rightarrow> actionability_check" where
  "visibility ev needs_geometry =
     (case flag_gate (st_hidden (ae_state ev)) (ae_states_complete ev)
             (has_state (st_states (ae_state ev)) HIDDEN)
             ''live hidden state is true'' ''live hidden state unavailable''
             ''canonical hidden state is present'' of
        Some c \<Rightarrow> c
      | None \<Rightarrow>
          (case flag_gate (st_offscreen (ae_state ev)) (ae_states_complete ev)
                  (has_state (st_states (ae_state ev)) OFFSCREEN)
                  ''live offscreen state is true'' ''live offscreen state unavailable''
                  ''canonical offscreen state is present'' of
             Some c \<Rightarrow> c
           | None \<Rightarrow>
               if \<not> needs_geometry \<and> st_offscreen (ae_state ev) = None \<and> ae_bounds ev \<noteq> None
               then pass ''visible''
               else
                 (case ae_bounds ev of
                    None \<Rightarrow> unknown ''visible'' ''bounds unavailable''
                  | Some b \<Rightarrow>
                      if \<not> bounds_are_visible (Some b) then failed ''visible'' ''bounds are zero-sized''
                      else pass ''visible'')))"

record stability_expectation =
  sx_bounds_hash :: "u64 option"
  sx_bounds :: "rect option"
  sx_strict :: bool
  sx_samples :: u32
  sx_span_ms :: u64

definition permissive :: "u64 option \<Rightarrow> stability_expectation" where
  "permissive h = \<lparr>sx_bounds_hash = h, sx_bounds = None, sx_strict = False, sx_samples = 1, sx_span_ms = 0\<rparr>"

definition strict_bounds :: "fx \<Rightarrow> rect option \<Rightarrow> u32 \<Rightarrow> u64 \<Rightarrow> stability_expectation" where
  "strict_bounds fx b samples ms =
     \<lparr>sx_bounds_hash = Option.bind b (bounds_hash fx), sx_bounds = b, sx_strict = True,
      sx_samples = samples, sx_span_ms = ms\<rparr>"

definition strict_hash :: "u64 option \<Rightarrow> stability_expectation" where
  "strict_hash h = \<lparr>sx_bounds_hash = h, sx_bounds = None, sx_strict = True, sx_samples = 1, sx_span_ms = 0\<rparr>"

definition stability :: "fx \<Rightarrow> stability_expectation \<Rightarrow> rect option \<Rightarrow> actionability_check" where
  "stability fx sx bounds =
     (let evidence = \<lparr>se_samples = sx_samples sx, se_span_ms = sx_span_ms sx\<rparr>;
          check =
            (case bounds of
               None \<Rightarrow> unknown ''stable'' ''live bounds unavailable''
             | Some b \<Rightarrow>
                 if sx_strict sx then
                   (case sx_bounds sx of
                      Some expected \<Rightarrow>
                        if geometry_matches expected b then pass ''stable''
                        else failed ''stable'' ''bounds changed after the stability window''
                    | None \<Rightarrow>
                        (case sx_bounds_hash sx of
                           Some h \<Rightarrow>
                             if bounds_hash fx b = Some h then pass ''stable''
                             else failed ''stable'' ''bounds changed since the previous observation''
                         | None \<Rightarrow> failed ''stable'' ''waiting for stable live bounds observations''))
                 else
                   (case sx_bounds_hash sx of
                      None \<Rightarrow> unknown ''stable'' ''snapshot bounds hash unavailable''
                    | Some expected \<Rightarrow>
                        (case bounds_hash fx b of
                           None \<Rightarrow> unknown ''stable'' ''live bounds are invalid''
                         | Some h \<Rightarrow>
                             if h = expected then pass ''stable''
                             else unknown ''stable'' ''bounds changed since snapshot'')))
      in check\<lparr>chk_stability := Some evidence\<rparr>)"

definition enabled :: "actionability_evidence \<Rightarrow> actionability_check" where
  "enabled ev =
     (case st_enabled (ae_state ev) of
        Some True \<Rightarrow> pass ''enabled''
      | Some False \<Rightarrow> failed ''enabled'' ''live enabled state is false''
      | None \<Rightarrow> unknown ''enabled'' ''live enabled state unavailable'')"

fun join_with :: "string \<Rightarrow> string list \<Rightarrow> string" where
  "join_with sep [] = []"
| "join_with sep [s] = s"
| "join_with sep (s # t # ss) = s @ sep @ join_with sep (t # ss)"

definition action_supported :: "actionability_evidence \<Rightarrow> action_request \<Rightarrow> actionability_check" where
  "action_supported ev req =
     (let a = req_action req; p = req_policy req
      in if requires_cursor_policy a then pass ''supported_action''
         else if a = ScrollTo then pass ''supported_action''
         else if a = Click \<or> a = RightClick then
           (if supports_direct_semantic_pointer_delivery a (ae_available_actions ev) then pass ''supported_action''
            else if allow_cursor_move p \<and> allow_focus_steal p then pass ''supported_action''
            else fail_terminal ''supported_action''
                   ''direct semantic delivery is unavailable and physical fallback is denied'' PolicyDenied)
         else if a = DoubleClick \<or> a = TripleClick then
           (if allow_cursor_move p \<and> allow_focus_steal p then pass ''supported_action''
            else fail_terminal ''supported_action''
                   ''semantic gesture is unavailable and physical fallback is denied'' PolicyDenied)
         else if contains_any (ae_available_actions ev) (for_action a) then pass ''supported_action''
         else if may_use_focus_fallback a \<and> allow_focus_steal p then pass ''supported_action''
         else if may_use_focus_fallback a then
           fail_terminal ''supported_action''
             ''semantic action is unavailable and focus fallback is denied'' PolicyDenied
         else fail_terminal ''supported_action''
                (join_with '' or '' (for_action a) @ '' is not available'') ActionNotSupported)"

definition policy_gate :: "action_request \<Rightarrow> actionability_check" where
  "policy_gate req =
     (if requires_cursor_policy (req_action req) \<and> \<not> allow_cursor_move (req_policy req)
      then fail_terminal ''policy'' ''action requires cursor movement but policy denies it'' PolicyDenied
      else pass ''policy'')"

definition editable :: "actionability_evidence \<Rightarrow> action \<Rightarrow> actionability_check" where
  "editable ev a =
     (if \<not> (case a of SetValue _ \<Rightarrow> True | TypeText _ \<Rightarrow> True | Clear \<Rightarrow> True | _ \<Rightarrow> False) then pass ''editable''
      else if st_role (ae_state ev) = ''textfield'' \<or> st_role (ae_state ev) = ''combobox'' then pass ''editable''
      else if contains_capability (ae_available_actions ev) SET_VALUE then pass ''editable''
      else fail_terminal ''editable'' (''role '' @ st_role (ae_state ev) @ '' is not editable'') ActionNotSupported)"

section \<open>Reports\<close>

record actionability_report =
  rp_actionable :: bool
  rp_checks :: "actionability_check list"
  rp_verified_point :: "point option"
  rp_presentation_point :: "point option"
  rp_presentation_bounds :: "rect option"
  rp_pointer_delivery :: pointer_delivery

definition is_blocking :: "actionability_check \<Rightarrow> bool" where
  "is_blocking c \<longleftrightarrow>
     chk_status c = Fail \<or>
     chk_status c = StatusUnknown \<and>
       (chk_name c \<noteq> ''receives_events'' \<or> is_some_and (chk_hit_test c) (\<lambda>h. ht_occluded h > 0))"

definition from_checks ::
  "actionability_check list \<Rightarrow> point option \<Rightarrow> point option \<Rightarrow> rect option \<Rightarrow> pointer_delivery \<Rightarrow>
     actionability_report" where
  "from_checks cs vp pp pb pd =
     \<lparr>rp_actionable = list_all (\<lambda>c. \<not> is_blocking c) cs, rp_checks = cs, rp_verified_point = vp,
      rp_presentation_point = pp, rp_presentation_bounds = pb, rp_pointer_delivery = pd\<rparr>"

definition terminal_code :: "actionability_report \<Rightarrow> error_code option" where
  "terminal_code r = Option.bind (find is_blocking (rp_checks r)) chk_terminal_code"

definition failure_reasons :: "actionability_report \<Rightarrow> string" where
  "failure_reasons r =
     join_with '', '' (map (\<lambda>c. chk_name c @ '' ('' @ unwrap_or (chk_reason c) ''failed'' @ '')'')
       (filter is_blocking (rp_checks r)))"

fun status_token :: "actionability_status \<Rightarrow> string" where
  "status_token Pass = ''pass''"
| "status_token Fail = ''fail''"
| "status_token StatusUnknown = ''unknown''"

definition occluder_json :: "occluder \<Rightarrow> json" where
  "occluder_json o' =
     JObj (opt_field ''role'' JStr (occ_role o') @ opt_field ''name'' JStr (occ_name o') @
       opt_field ''bounds'' rect_json (occ_bounds o'))"

definition hit_test_evidence_json :: "hit_test_evidence \<Rightarrow> json" where
  "hit_test_evidence_json h =
     JObj [(''attempted'', JInt (int (ht_attempted h))), (''unknown'', JInt (int (ht_unknown h))),
           (''occluded'', JInt (int (ht_occluded h)))]"

definition stability_evidence_json :: "stability_evidence \<Rightarrow> json" where
  "stability_evidence_json s =
     JObj [(''samples'', JInt (uint (se_samples s))), (''span_ms'', JInt (uint (se_span_ms s)))]"

definition check_json :: "actionability_check \<Rightarrow> json" where
  "check_json c =
     JObj ([(''check'', JStr (chk_name c)), (''status'', JStr (status_token (chk_status c)))] @
       opt_field ''reason'' JStr (chk_reason c) @ opt_field ''occluder'' occluder_json (chk_occluder c) @
       opt_field ''hit_test'' hit_test_evidence_json (chk_hit_test c) @
       opt_field ''stability'' stability_evidence_json (chk_stability c))"

definition report_json :: "actionability_report \<Rightarrow> json" where
  "report_json r =
     JObj ([(''actionable'', JBool (rp_actionable r)), (''checks'', JArr (map check_json (rp_checks r)))] @
       opt_field ''verified_point'' point_json (rp_verified_point r))"

section \<open>Hit testing\<close>

definition sug_actionable :: string where
  "sug_actionable = ''Wait for the target to become actionable, refresh the snapshot, or use an explicit physical/focus command if intended.''"

definition sug_cell :: string where
  "sug_cell = ''This cell is not directly editable. Activate it, take a fresh snapshot, and target the text editor if one appears; otherwise the application may accept only keyboard input (--headed).''"

definition sug_waiting :: string where
  "sug_waiting = ''Waiting will not help: this element cannot satisfy the action as targeted. Target an element that advertises the action (check available_actions in a fresh snapshot) or adjust the interaction policy (e.g. pass --headed).''"

text \<open>The loop over the candidate points, with the first occlusion seen and the counts.\<close>

definition conclude_hits :: "actionability_check option \<Rightarrow> hit_test_evidence \<Rightarrow> actionability_check" where
  "conclude_hits first ev =
     (let check =
        (if ht_unknown ev > 0 \<and> ht_occluded ev > 0 then
           (unwrap_or first
              (unknown ''receives_events'' ''hit test evidence mixed unknown and occluded outcomes''))
           \<lparr>chk_status := StatusUnknown,
            chk_reason := Some ''hit test evidence mixed unknown and occluded outcomes''\<rparr>
         else if ht_unknown ev > 0 then unknown ''receives_events'' ''hit test result inconclusive''
         else unwrap_or first (unknown ''receives_events'' ''hit test result inconclusive''))
      in check\<lparr>chk_hit_test := Some ev\<rparr>)"

fun probe_points ::
  "'w platform \<Rightarrow> handle \<Rightarrow> deadline \<Rightarrow> point list \<Rightarrow> actionability_check option \<Rightarrow> hit_test_evidence \<Rightarrow>
     ('w, adapter_error, actionability_check \<times> point option) act"
where
  "probe_points pf h d [] first ev = ret (conclude_hits first ev, None)"
| "probe_points pf h d (p # ps) first ev =
     (let ev1 = ev\<lparr>ht_attempted := ht_attempted ev + 1\<rparr>
      in abind (attempt (call (pf_hit_test pf h p d))) (\<lambda>r.
           case r of
             Inr ReachesTarget \<Rightarrow> ret ((pass ''receives_events'')\<lparr>chk_hit_test := Some ev1\<rparr>, Some p)
           | Inr (InterceptedBy role name b) \<Rightarrow>
               probe_points pf h d ps
                 (case first of None \<Rightarrow> Some (occluded role name b) | Some c \<Rightarrow> Some c)
                 (ev1\<lparr>ht_occluded := ht_occluded ev1 + 1\<rparr>)
           | Inr HitUnknown \<Rightarrow> probe_points pf h d ps first (ev1\<lparr>ht_unknown := ht_unknown ev1 + 1\<rparr>)
           | Inl e \<Rightarrow>
               if err_code e = PlatformNotSupported then
                 ret ((unknown ''receives_events'' ''hit testing is not supported'')
                        \<lparr>chk_hit_test := Some (ev1\<lparr>ht_unknown := ht_unknown ev1 + 1\<rparr>)\<rparr>, None)
               else fail_with e))"

definition receives_events_check ::
  "'w platform \<Rightarrow> rect option \<Rightarrow> handle \<Rightarrow> action_request \<Rightarrow> deadline \<Rightarrow>
     ('w, adapter_error, actionability_check \<times> point option) act" where
  "receives_events_check pf bounds h req d =
     (if \<not> requires_hit_test (req_action req) then ret (pass ''receives_events'', None)
      else
        case bounds of
          None \<Rightarrow> ret (unknown ''receives_events'' ''bounds unavailable'', None)
        | Some b \<Rightarrow>
            probe_points pf h d (candidate_points b) None
              \<lparr>ht_attempted = 0, ht_unknown = 0, ht_occluded = 0\<rparr>)"

definition not_actionable_error :: "error_code \<Rightarrow> json \<Rightarrow> string \<Rightarrow> actionability_report \<Rightarrow> adapter_error" where
  "not_actionable_error code details sug r =
     with_disposition NotDelivered (with_suggestion sug (with_details details
       (new_error code (''Target is not actionable: '' @ failure_reasons r))))"

definition require_receives_events ::
  "'w platform \<Rightarrow> handle \<Rightarrow> point \<Rightarrow> deadline \<Rightarrow> ('w, adapter_error, unit) act" where
  "require_receives_events pf h p d =
     abind (attempt (call (pf_hit_test pf h p d))) (\<lambda>r.
       case r of
         Inr ReachesTarget \<Rightarrow> ret ()
       | Inr HitUnknown \<Rightarrow> ret ()
       | Inl e \<Rightarrow> if err_code e = PlatformNotSupported then ret () else fail_with e
       | Inr (InterceptedBy role name b) \<Rightarrow>
           let rep = from_checks [occluded role name b] None None None Physical
           in fail_with (not_actionable_error ActionFailed (report_json rep) sug_actionable rep))"

section \<open>Evaluation\<close>

definition finish :: "fx \<Rightarrow> actionability_evidence \<Rightarrow> actionability_report \<Rightarrow> adapter_error + actionability_report" where
  "finish fx ev r =
     (if rp_actionable r then Inr r
      else
        let code = unwrap_or (terminal_code r) ActionFailed;
            sug =
              (if code = ActionFailed then sug_actionable
               else if st_role (ae_state ev) = ''cell'' \<and>
                       list_ex (\<lambda>c. chk_name c = ''editable'' \<and> chk_status c = Fail) (rp_checks r)
               then sug_cell else sug_waiting);
            details =
              (case Option.bind (ae_bounds ev) (bounds_hash fx) of
                 None \<Rightarrow> report_json r
               | Some h \<Rightarrow> json_insert ''observed_bounds_hash'' (JInt (uint h)) (report_json r))
        in Inl (not_actionable_error code details sug r))"

definition gate_checks ::
  "fx \<Rightarrow> stability_expectation \<Rightarrow> actionability_evidence \<Rightarrow> action_request \<Rightarrow> pointer_delivery \<Rightarrow>
     actionability_check list" where
  "gate_checks fx sx ev req pd =
     (let rq = requirements_for_action (req_action req)
      in (if rq_visible rq then [visibility ev (requires_geometry rq req (ae_available_actions ev))] else []) @
         (if rq_requires_stability rq pd then [stability fx sx (ae_bounds ev)] else []) @
         (if rq_enabled rq then [enabled ev] else []) @
         (if rq_editable rq then [editable ev (req_action req)] else []) @
         [action_supported ev req, policy_gate req])"

definition check_with_stability ::
  "fx \<Rightarrow> 'w platform \<Rightarrow> stability_expectation \<Rightarrow> actionability_evidence \<Rightarrow> action_request \<Rightarrow> handle option \<Rightarrow>
     deadline \<Rightarrow> ('w, adapter_error, actionability_report) act" where
  "check_with_stability fx pf sx ev req hit d =
     (let rq = requirements_for_action (req_action req);
          pd = pointer_delivery_for rq (req_action req) (ae_available_actions ev) (req_policy req);
          pp = Option.bind (ae_bounds ev) center_point;
          checks = gate_checks fx sx ev req pd
      in if list_ex (\<lambda>c. chk_status c \<noteq> Pass) checks
         then lift_res (finish fx ev (from_checks checks None pp (ae_bounds ev) pd))
         else if pd = Physical then
           (case hit of
              Some h \<Rightarrow>
                abind (receives_events_check pf (ae_bounds ev) h req d) (\<lambda>(c, vp).
                  lift_res (finish fx ev (from_checks (checks @ [c]) vp pp (ae_bounds ev) pd)))
            | None \<Rightarrow>
                lift_res (finish fx ev
                  (from_checks (checks @ [unknown ''receives_events'' ''live hit-test context unavailable''])
                     None pp (ae_bounds ev) pd)))
         else lift_res (finish fx ev (from_checks checks None pp (ae_bounds ev) pd)))"

section \<open>The live check\<close>

definition mark_pre_dispatch_resolution_failure :: "adapter_error \<Rightarrow> adapter_error" where
  "mark_pre_dispatch_resolution_failure e =
     (if err_disposition e = SemUnknown \<or> err_disposition e = NotDelivered
      then with_disposition NotDelivered e else e)"

definition sug_stale_live :: string where
  "sug_stale_live = ''Re-run a snapshot to obtain fresh refs, then retry with the new ref (CLI: snapshot; FFI: ad_snapshot then ad_execute_by_ref with the returned snapshot_id)''"

definition stale_live_element :: "string \<Rightarrow> adapter_error" where
  "stale_live_element m =
     with_disposition NotDelivered (with_details (JObj [(''retryable'', JBool True)])
       (with_suggestion sug_stale_live (new_error StaleRef m)))"

definition validate_live_identity :: "ref_entry \<Rightarrow> live_element \<Rightarrow> adapter_error + unit" where
  "validate_live_identity e live =
     (if st_role (le_state live) = ''unknown'' \<or> st_role (le_state live) \<noteq> id_role (identity e)
      then Inl (stale_live_element ''Resolved element changed role before dispatch'')
      else if \<not> has_meaningful_identity e then Inr ()
      else
        let val = (case st_value (le_state live) of Some v \<Rightarrow> Known v | None \<Rightarrow> Absent)
        in case identity_match e (li_name (le_identity live)) val (li_description (le_identity live))
                  (li_identifiers (le_identity live)) of
             Match \<Rightarrow> Inr ()
           | NoMatch \<Rightarrow> Inl (stale_live_element ''Resolved element changed identity before dispatch'')
           | MatchUnknown \<Rightarrow>
               Inl (with_details
                 (JObj [(''kind'', JStr ''live_identity_evidence''), (''complete'', JBool False),
                        (''retryable'', JBool True)])
                 (app_unresponsive_error (unwrap_or (src_app (source e)) ''target application''))))"

definition observe_live :: "ref_entry \<Rightarrow> adapter_error + live_element \<Rightarrow> adapter_error + actionability_evidence" where
  "observe_live e r =
     (case r of
        Inl err \<Rightarrow>
          if err_code err = PlatformNotSupported \<or> err_code err = ActionNotSupported then
            Inl (with_disposition NotDelivered
              (with_details (JObj [(''source_code'', JStr (error_code_as_str (err_code err)))])
                (new_error ActionNotSupported ''Live element evidence is required for actionability checks'')))
          else Inl err
      | Inr live \<Rightarrow>
          res_bind (validate_live_identity e live) (\<lambda>_.
            Inr \<lparr>ae_state = le_state live, ae_states_complete = le_states_complete live,
                 ae_bounds = le_bounds live, ae_available_actions = le_available_actions live\<rparr>))"

definition check_live_with_stability ::
  "fx \<Rightarrow> 'w platform \<Rightarrow> ref_entry \<Rightarrow> handle \<Rightarrow> deadline \<Rightarrow> action_request \<Rightarrow> stability_expectation \<Rightarrow>
     ('w, adapter_error, actionability_report) act" where
  "check_live_with_stability fx pf e h d req sx =
     abind (attempt (call (pf_get_live_element pf h d))) (\<lambda>live.
     abind (lift_res (res_map_err mark_pre_dispatch_resolution_failure (observe_live e live))) (\<lambda>ev.
     amap_err mark_pre_dispatch_resolution_failure
       (check_with_stability fx pf sx ev req (Some h) d)))"

end
