(* ===== verification/PostAction.thy ===== *)
theory PostAction
  imports Effects
begin

text \<open>
  Executing an action once and verifying what it did (\<open>post_action.rs\<close>): the action is handed to
  the platform exactly once; for actions with an observable effect the element is read back,
  waiting a moment for it to settle, and the result is upgraded, downgraded or turned into an
  error accordingly.  Texts are compared as sequences of UTF-16 units where an insertion is
  predicted; the decoding of UTF-8 into units and back is the standard library's.
\<close>

section \<open>Insertion\<close>

text \<open>
  \<open>encode_utf16\<close> and \<open>String::from_utf16\<close> on UTF-8 strings: code points are decoded, those
  above \<open>0xFFFF\<close> become a surrogate pair, and an unpaired surrogate is rejected.
\<close>

definition byte :: "char \<Rightarrow> nat" where
  "byte c = of_char c"

fun code_points :: "string \<Rightarrow> nat list" where
  "code_points [] = []"
| "code_points (a # b # c # d # r) =
     (if byte a < 0x80 then byte a # code_points (b # c # d # r)
      else if byte a < 0xE0 then ((byte a - 0xC0) * 0x40 + (byte b - 0x80)) # code_points (c # d # r)
      else if byte a < 0xF0 then
        ((byte a - 0xE0) * 0x1000 + (byte b - 0x80) * 0x40 + (byte c - 0x80)) # code_points (d # r)
      else
        ((byte a - 0xF0) * 0x40000 + (byte b - 0x80) * 0x1000 + (byte c - 0x80) * 0x40 + (byte d - 0x80))
          # code_points r)"
| "code_points [a] = [byte a]"
| "code_points [a, b] =
     (if byte a < 0x80 then byte a # code_points [b]
      else [(byte a - 0xC0) * 0x40 + (byte b - 0x80)])"
| "code_points [a, b, c] =
     (if byte a < 0x80 then byte a # code_points [b, c]
      else if byte a < 0xE0 then ((byte a - 0xC0) * 0x40 + (byte b - 0x80)) # code_points [c]
      else [(byte a - 0xE0) * 0x1000 + (byte b - 0x80) * 0x40 + (byte c - 0x80)])"

definition units_of :: "nat \<Rightarrow> nat list" where
  "units_of p =
     (if p < 0x10000 then [p]
      else [0xD800 + (p - 0x10000) div 0x400, 0xDC00 + (p - 0x10000) mod 0x400])"

definition encode_utf16 :: "string \<Rightarrow> nat list" where
  "encode_utf16 s = concat (map units_of (code_points s))"

definition utf8_of :: "nat \<Rightarrow> string" where
  "utf8_of p =
     map char_of
       (if p < 0x80 then [p]
        else if p < 0x800 then [0xC0 + p div 0x40, 0x80 + p mod 0x40]
        else if p < 0x10000 then [0xE0 + p div 0x1000, 0x80 + p div 0x40 mod 0x40, 0x80 + p mod 0x40]
        else [0xF0 + p div 0x40000, 0x80 + p div 0x1000 mod 0x40, 0x80 + p div 0x40 mod 0x40,
              0x80 + p mod 0x40])"

definition high_surrogate :: "nat \<Rightarrow> bool" where
  "high_surrogate u \<longleftrightarrow> 0xD800 \<le> u \<and> u < 0xDC00"

definition low_surrogate :: "nat \<Rightarrow> bool" where
  "low_surrogate u \<longleftrightarrow> 0xDC00 \<le> u \<and> u < 0xE000"

fun points_of_units :: "nat list \<Rightarrow> nat list option" where
  "points_of_units [] = Some []"
| "points_of_units [u] = (if high_surrogate u \<or> low_surrogate u then None else Some [u])"
| "points_of_units (u # v # us) =
     (if low_surrogate u then None
      else if high_surrogate u then
        (if low_surrogate v then
           map_option ((#) (0x10000 + (u - 0xD800) * 0x400 + (v - 0xDC00))) (points_of_units us)
         else None)
      else map_option ((#) u) (points_of_units (v # us)))"

definition from_utf16 :: "nat list \<Rightarrow> string option" where
  "from_utf16 us = map_option (\<lambda>ps. concat (map utf8_of ps)) (points_of_units us)"

definition expected_insertion :: "string \<Rightarrow> string \<Rightarrow> (nat \<times> nat) option \<Rightarrow> string option" where
  "expected_insertion before text selection =
     (case (case selection of Some r \<Rightarrow> Some r | None \<Rightarrow> if before = [] then Some (0, 0) else None) of
        None \<Rightarrow> None
      | Some (a, b) \<Rightarrow>
          let val = encode_utf16 before
          in if \<not> (a \<le> b \<and> b \<le> length val) then None
             else if from_utf16 (take a val) = None then None
             else if from_utf16 (drop b val) = None then None
             else from_utf16 (take a val @ encode_utf16 text @ drop b val))"

section \<open>Postconditions\<close>

definition CHECKED :: string where "CHECKED = ''checked''"
definition INDETERMINATE :: string where "INDETERMINATE = ''indeterminate''"
definition EXPANDED :: string where "EXPANDED = ''expanded''"
definition FOCUSED :: string where "FOCUSED = ''focused''"
definition SECURE :: string where "SECURE = ''secure''"

definition checked :: "live_element \<Rightarrow> bool option" where
  "checked el =
     (if \<not> le_states_complete el \<or> has_state (st_states (le_state el)) INDETERMINATE then None
      else Some (has_state (st_states (le_state el)) CHECKED))"

definition matches_postcondition ::
  "action \<Rightarrow> live_element option \<Rightarrow> string option \<Rightarrow> live_element \<Rightarrow> bool option" where
  "matches_postcondition a before expected_text observed =
     (let state = le_state observed
      in case a of
           SetValue expected \<Rightarrow> map_option (\<lambda>v. value_matches (st_role state) expected (Some v)) (st_value state)
         | Clear \<Rightarrow> map_option (\<lambda>v. v = []) (st_value state)
         | TypeText _ \<Rightarrow>
             (case (expected_text, st_value state) of
                (Some e, Some v) \<Rightarrow> Some (e = v)
              | _ \<Rightarrow> None)
         | Check \<Rightarrow> map_option (\<lambda>v. v = True) (checked observed)
         | Uncheck \<Rightarrow> map_option (\<lambda>v. v = False) (checked observed)
         | Toggle \<Rightarrow>
             (case (Option.bind before checked, checked observed) of
                (Some b, Some c) \<Rightarrow> Some (b \<noteq> c)
              | _ \<Rightarrow> None)
         | Expand \<Rightarrow>
             (if le_states_complete observed then Some (has_state (st_states state) EXPANDED = True) else None)
         | Collapse \<Rightarrow>
             (if le_states_complete observed then Some (has_state (st_states state) EXPANDED = False) else None)
         | _ \<Rightarrow> None)"

definition secure_value_is_redacted :: "action \<Rightarrow> live_element \<Rightarrow> bool" where
  "secure_value_is_redacted a observed \<longleftrightarrow>
     writes_element_value a \<and> st_value (le_state observed) = None \<and>
     has_state (st_states (le_state observed)) SECURE"

definition sug_type_text :: string where
  "sug_type_text = ''Some fields, often in Chromium and Electron apps, accept typed text without applying it. Read the field with 'get', then write the full intended value with 'set-value'.''"

definition sug_inspect :: string where
  "sug_inspect = ''Inspect the returned state before deciding whether another action is needed.''"

definition mismatch_error :: "action \<Rightarrow> adapter_error" where
  "mismatch_error a =
     (let e = new_error ActionFailed ''Post-action state does not match the requested change''
      in case a of TypeText _ \<Rightarrow> with_suggestion sug_type_text e | _ \<Rightarrow> e)"

definition details_object :: "json option \<Rightarrow> (string \<times> json) list" where
  "details_object d =
     (case d of
        Some (JObj kvs) \<Rightarrow> kvs
      | Some cause \<Rightarrow> [(''cause'', cause)]
      | None \<Rightarrow> [])"

definition verification_error :: "action_result \<Rightarrow> live_element option \<Rightarrow> adapter_error \<Rightarrow> adapter_error" where
  "verification_error r observed e =
     (let disposition = (if res_disposition r = NotDelivered then NotDelivered else DeliveredUnverified);
          details = JObj (details_object (err_details e));
          details = json_insert ''kind'' (JStr ''post_action_verification'') details;
          details = json_insert ''after_action'' (action_result_json r) details;
          details = (case observed of
                       Some o' \<Rightarrow> json_insert ''post_state'' (element_state_json (le_state o')) details
                     | None \<Rightarrow> details);
          e = e\<lparr>err_suggestion := (case err_suggestion e of None \<Rightarrow> Some sug_inspect | Some s \<Rightarrow> Some s)\<rparr>
      in with_details details (with_disposition disposition e))"

section \<open>Execution\<close>

definition SETTLE :: nat where "SETTLE = 50 * ns_per_ms"
definition SETTLE_BUDGET :: nat where "SETTLE_BUDGET = 400 * ns_per_ms"

definition opt_call :: "('w \<Rightarrow> ('e + 'a) \<times> 'w) \<Rightarrow> ('w, 'f, 'a option) act" where
  "opt_call f = abind (attempt (call f)) (\<lambda>r. ret (case r of Inl _ \<Rightarrow> None | Inr x \<Rightarrow> Some x))"

text \<open>What is read before the action: the element, and for typed text the text to expect.\<close>

definition read_before :: "'w platform \<Rightarrow> handle \<Rightarrow> deadline \<Rightarrow> action \<Rightarrow> ('w, adapter_error, live_element option) act" where
  "read_before pf h d a =
     (if (case a of TypeText _ \<Rightarrow> True | Toggle \<Rightarrow> True | _ \<Rightarrow> False)
      then opt_call (pf_get_live_element pf h d) else ret None)"

definition read_expected_text ::
  "'w platform \<Rightarrow> handle \<Rightarrow> deadline \<Rightarrow> action_request \<Rightarrow> live_element option \<Rightarrow>
     ('w, adapter_error, string option) act" where
  "read_expected_text pf h d req before =
     (case (req_action req, before) of
        (TypeText text, Some el) \<Rightarrow>
          (case st_value (le_state el) of
             None \<Rightarrow> ret None
           | Some v \<Rightarrow>
               let preserved = \<not> is_headed (req_policy req) \<or> has_state (st_states (le_state el)) FOCUSED
               in abind (if preserved then opt_call (pf_get_text_selection pf h d) else ret None) (\<lambda>sel.
                    ret (expected_insertion v text (Option.bind sel id))))
      | _ \<Rightarrow> ret None)"

text \<open>One round of the settling loop; its state is the last observation.\<close>

definition settle_round ::
  "'w platform \<Rightarrow> handle \<Rightarrow> deadline \<Rightarrow> deadline \<Rightarrow> bool \<Rightarrow> (live_element \<Rightarrow> bool option) \<Rightarrow>
     adapter_error + live_element \<Rightarrow> ('w, adapter_error, (adapter_error + live_element, adapter_error + live_element) flow) act" where
  "settle_round pf h d settle_deadline executed post observed =
     (if executed \<and> (case observed of Inl _ \<Rightarrow> False | Inr el \<Rightarrow> post el = Some False) then
        abind (get_now pf) (\<lambda>t.
          if remaining t settle_deadline > SETTLE then
            abind (sleep_for pf SETTLE) (\<lambda>_.
            abind (attempt (call (pf_get_live_element pf h d))) (\<lambda>o'. ret (Continue o')))
          else ret (Done observed))
      else ret (Done observed))"

definition enrich_execution_error ::
  "(live_element \<Rightarrow> bool option) \<Rightarrow> adapter_error + live_element \<Rightarrow> adapter_error \<Rightarrow> adapter_error" where
  "enrich_execution_error post observed e =
     (case observed of
        Inl _ \<Rightarrow> e
      | Inr el \<Rightarrow>
          let d = unwrap_or (err_details e) (JObj []);
              d = json_insert ''post_state'' (element_state_json (le_state el)) d;
              d = (case post el of
                     Some sat \<Rightarrow> json_insert ''postcondition_satisfied'' (JBool sat) d
                   | None \<Rightarrow> d)
          in e\<lparr>err_details := Some d\<rparr>)"

definition insert_all :: "(string \<times> json) list \<Rightarrow> json option \<Rightarrow> json option" where
  "insert_all kvs d = Some (fold (\<lambda>(k, v) j. json_insert k v j) kvs (unwrap_or d (JObj [])))"

definition verify_result ::
  "action \<Rightarrow> (live_element \<Rightarrow> bool option) \<Rightarrow> action_result \<Rightarrow> adapter_error + live_element \<Rightarrow>
     adapter_error + action_result" where
  "verify_result a post r observed =
     (case observed of
        Inl e \<Rightarrow> Inl (verification_error r None e)
      | Inr el \<Rightarrow>
          (case post el of
             None \<Rightarrow>
               let reason = (if secure_value_is_redacted a el then ''secure_field'' else ''insufficient_evidence'');
                   r = with_unverified_delivery (r\<lparr>res_post_state := Some (le_state el)\<rparr>)
               in Inr (r\<lparr>res_details := insert_all
                    [(''verification_scope'', JStr ''unavailable''), (''verification_reason'', JStr reason),
                     (''application_commit'', JStr ''not_verified'')] (res_details r)\<rparr>)
           | Some False \<Rightarrow> Inl (verification_error r (Some el) (mismatch_error a))
           | Some True \<Rightarrow>
               let r = with_verified_delivery (r\<lparr>res_post_state := Some (le_state el)\<rparr>)
               in Inr (r\<lparr>res_details := insert_all
                    ([(''verification_scope'', JStr ''element_state'')] @
                     (if writes_element_value a then
                        [(''verification_scope'', JStr ''element_value''),
                         (''application_commit'', JStr ''not_verified'')]
                      else [])) (res_details r)\<rparr>)))"

definition execute_verified_action ::
  "'w platform \<Rightarrow> handle \<Rightarrow> action_request \<Rightarrow> lease \<Rightarrow> ('w, adapter_error, action_result) act" where
  "execute_verified_action pf h req lease =
     (let a = req_action req; d = lease_deadline lease
      in if \<not> requires_state_readback a then call (pf_execute_action pf h req lease)
         else
           abind (read_before pf h d a) (\<lambda>before.
           abind (read_expected_text pf h d req before) (\<lambda>expected.
           abind (attempt (call (pf_execute_action pf h req lease))) (\<lambda>execution.
             if (case execution of Inl e \<Rightarrow> err_disposition e = NotDelivered | Inr _ \<Rightarrow> False)
             then lift_res execution
             else
               let post = matches_postcondition a before expected
               in abind (attempt (call (pf_get_live_element pf h d))) (\<lambda>observed.
                  abind (cap_deadline pf SETTLE_BUDGET d) (\<lambda>sd.
                  abind (loop (settle_round pf h d sd (is_ok execution) post) observed) (\<lambda>observed.
                    lift_res (case execution of
                      Inl e \<Rightarrow> Inl (enrich_execution_error post observed e)
                    | Inr r \<Rightarrow> verify_result a post r observed))))))))"

end
