(* ===== verification/RefAction.thy ===== *)
theory RefAction
  imports Actionability PostAction
begin

text \<open>
  Acting on a ref: resolving the stored entry to a live element within a deadline
  (\<open>ref_resolve_deadline.rs\<close>), the read-only polling loop that waits until the element is
  actionable (\<open>ref_action_poll.rs\<close>, \<open>ref_action_poll_state.rs\<close>, \<open>ref_action_wait_evidence.rs\<close>), the
  stability sampling and the dispatch under the interaction lease (\<open>ref_action.rs\<close>,
  \<open>actionability/stability_sampler.rs\<close>, \<open>ref_action_single.rs\<close>, \<open>headed_focus.rs\<close>), and the whole
  operation with its deadline and error enrichment (\<open>ref_action_wait.rs\<close>,
  \<open>ref_action_wait_support.rs\<close>).
\<close>

section \<open>Evidence read back from an error\<close>

text \<open>\<open>error_checks\<close>: the array of checks in an error's details, when there is one.\<close>

definition error_checks :: "adapter_error \<Rightarrow> json list option" where
  "error_checks e = Option.bind (Option.bind (err_details e) (json_get ''checks'')) json_as_array"

definition failed_check :: "adapter_error \<Rightarrow> string \<Rightarrow> bool" where
  "failed_check e name =
     is_some_and (error_checks e) (list_ex (\<lambda>c.
       Option.bind (json_get ''check'' c) json_as_str = Some name \<and>
       Option.bind (json_get ''status'' c) json_as_str = Some ''fail''))"

definition should_scroll_after_preflight :: "action_request \<Rightarrow> adapter_error \<Rightarrow> bool" where
  "should_scroll_after_preflight req e \<longleftrightarrow>
     requires_scroll_into_view (req_action req) \<and> failed_check e ''visible''"

definition only_stability_pending :: "adapter_error \<Rightarrow> bool" where
  "only_stability_pending e =
     is_some_and (error_checks e) (\<lambda>cs.
       list_ex (\<lambda>c. json_index c ''check'' = JStr ''stable'' \<and> json_index c ''status'' \<noteq> JStr ''pass'') cs \<and>
       list_all (\<lambda>c. json_index c ''check'' = JStr ''stable'' \<or> json_index c ''status'' = JStr ''pass'') cs)"

definition observed_bounds_hash :: "adapter_error \<Rightarrow> u64 option" where
  "observed_bounds_hash e =
     map_option word_of_nat
       (Option.bind (Option.bind (err_details e) (json_get ''observed_bounds_hash'')) json_as_u64)"

section \<open>Resolving within a deadline\<close>

definition POLL_INTERVAL :: nat where "POLL_INTERVAL = 100 * ns_per_ms"
definition RESOLVE_ATTEMPT :: nat where "RESOLVE_ATTEMPT = 750 * ns_per_ms"

datatype resolve_attempt_outcome = Resolved handle | ResolveFailed adapter_error | DeadlinePassed

definition mark_retryable :: "adapter_error \<Rightarrow> adapter_error" where
  "mark_retryable e =
     (let d = unwrap_or (err_details e) (JObj []);
          d = (if json_is_object d then json_insert ''retryable'' (JBool True) d
               else JObj [(''error_details'', d), (''retryable'', JBool True)])
      in with_details d (e\<lparr>err_details := None\<rparr>))"

definition classify_error :: "'w platform \<Rightarrow> deadline \<Rightarrow> adapter_error \<Rightarrow> ('w, 'e, resolve_attempt_outcome) act" where
  "classify_error pf d e =
     (if err_code e \<noteq> Timeout then ret (ResolveFailed e)
      else if \<not> permits_retry_by_default e \<or> retry (err_disposition e) = RetryUnsafe then ret (ResolveFailed e)
      else abind (check_expired pf d) (\<lambda>expired.
        ret (if expired then DeadlinePassed else ResolveFailed (mark_retryable e))))"

definition resolve_within_deadline :: "'w platform \<Rightarrow> ref_entry \<Rightarrow> deadline \<Rightarrow> ('w, 'e, resolve_attempt_outcome) act" where
  "resolve_within_deadline pf e d =
     abind (attempt (take_slice pf RESOLVE_ATTEMPT d)) (\<lambda>slice.
       case slice of
         Inl _ \<Rightarrow> ret DeadlinePassed
       | Inr _ \<Rightarrow>
           abind (cap_deadline pf RESOLVE_ATTEMPT d) (\<lambda>capped.
           abind (attempt (call (pf_resolve_element_strict pf e capped))) (\<lambda>r.
             case r of
               Inr h \<Rightarrow>
                 abind (check_expired pf d) (\<lambda>expired. ret (if expired then DeadlinePassed else Resolved h))
             | Inl err \<Rightarrow> classify_error pf d err)))"

section \<open>The state of the polling loop\<close>

record poll_state =
  last_report :: "json option"
  saw_ambiguity :: bool
  expected_bounds_hash :: "u64 option"
  resolve_attempts :: u64
  preflight_attempts :: u64
  live_read_incomplete_only :: "bool option"

definition poll_state_default :: poll_state where
  "poll_state_default =
     \<lparr>last_report = None, saw_ambiguity = False, expected_bounds_hash = None, resolve_attempts = 0,
      preflight_attempts = 0, live_read_incomplete_only = None\<rparr>"

definition saturating_inc :: "u64 \<Rightarrow> u64" where
  "saturating_inc n = (if unat n = u64_max then n else n + 1)"

definition poll_stability :: "poll_state \<Rightarrow> stability_expectation" where
  "poll_stability st = strict_hash (expected_bounds_hash st)"

definition is_live_read_incomplete :: "adapter_error \<Rightarrow> bool" where
  "is_live_read_incomplete e =
     is_some_and (err_details e) (\<lambda>d.
       Option.bind (json_get ''kind'' d) json_as_str = Some ''live_element_evidence'' \<and>
       Option.bind (json_get ''complete'' d) json_as_bool = Some False)"

definition record_preflight_error :: "adapter_error \<Rightarrow> poll_state \<Rightarrow> poll_state" where
  "record_preflight_error e st =
     (let st = st\<lparr>live_read_incomplete_only :=
                  Some (unwrap_or (live_read_incomplete_only st) True \<and> is_live_read_incomplete e)\<rparr>;
          st = (case observed_bounds_hash e of Some h \<Rightarrow> st\<lparr>expected_bounds_hash := Some h\<rparr> | None \<Rightarrow> st)
      in case err_details e of
           Some report \<Rightarrow>
             st\<lparr>last_report := Some (JObj [(''phase'', JStr ''preflight''), (''report'', report)])\<rparr>
         | None \<Rightarrow> st)"

definition record_resolve_error :: "adapter_error \<Rightarrow> poll_state \<Rightarrow> poll_state" where
  "record_resolve_error e st =
     st\<lparr>live_read_incomplete_only := Some False,
        last_report := Some (JObj [(''phase'', JStr ''resolve''), (''code'', JStr (error_code_as_str (err_code e))),
          (''message'', JStr (err_message e)), (''details'', json_opt id (err_details e))])\<rparr>"

definition only_live_read_incomplete :: "poll_state \<Rightarrow> bool" where
  "only_live_read_incomplete st \<longleftrightarrow> live_read_incomplete_only st = Some True"

text \<open>\<open>attach\<close>: put a field into the details, wrapping details that are no object.\<close>

definition attach :: "string \<Rightarrow> string \<Rightarrow> json \<Rightarrow> json option \<Rightarrow> json option" where
  "attach wrap k v d =
     (let d = unwrap_or d (JObj [])
      in Some (if json_is_object d then json_insert k v d else JObj [(wrap, d), (k, v)]))"

definition attach_transient_ambiguity :: "poll_state \<Rightarrow> action_result \<Rightarrow> action_result" where
  "attach_transient_ambiguity st r =
     (if \<not> saw_ambiguity st then r
      else r\<lparr>res_details := attach ''action_details'' ''transient_ambiguity'' (JBool True) (res_details r)\<rparr>)"

definition attach_wait_metrics :: "poll_state \<Rightarrow> lease \<Rightarrow> nat \<Rightarrow> action_result \<Rightarrow> action_result" where
  "attach_wait_metrics st l hold_ms r =
     r\<lparr>res_details := attach ''action_details'' ''auto_wait''
         (JObj [(''read_only_resolve_attempts'', JInt (uint (resolve_attempts st))),
                (''read_only_preflight_attempts'', JInt (uint (preflight_attempts st))),
                (''lease_contention_count'', JInt (uint (contention_count l))),
                (''lease_hold_ms'', JInt (int hold_ms))]) (res_details r)\<rparr>"

definition attach_error_metrics :: "poll_state \<Rightarrow> adapter_error \<Rightarrow> adapter_error" where
  "attach_error_metrics st e =
     e\<lparr>err_details := attach ''error_details'' ''auto_wait''
         (JObj [(''read_only_resolve_attempts'', JInt (uint (resolve_attempts st))),
                (''read_only_preflight_attempts'', JInt (uint (preflight_attempts st)))]) (err_details e)\<rparr>"

section \<open>The preflight\<close>

text \<open>What an operation on a ref carries along: \<open>RefActionWaitContext\<close> without the adapter.\<close>

record ref_target =
  rt_entry :: ref_entry
  rt_ref_id :: string

record actionability_preflight =
  pre_verified_point :: "point option"
  pre_presentation_point :: "point option"
  pre_presentation_bounds :: "rect option"
  pre_pointer_delivery :: pointer_delivery

definition trace_resolve_error :: "'w platform \<Rightarrow> string \<Rightarrow> adapter_error \<Rightarrow> ('w, 'e, unit) act" where
  "trace_resolve_error pf rid e =
     trace_quietly pf ''ref.resolve.error''
       (JObj [(''ref'', JStr rid), (''code'', JStr (error_code_as_str (err_code e))),
              (''message'', JStr (err_message e)), (''details'', json_opt id (err_details e))])"

definition trace_resolve_ok :: "'w platform \<Rightarrow> string \<Rightarrow> ('w, 'e, unit) act" where
  "trace_resolve_ok pf rid = trace_quietly pf ''ref.resolve.ok'' (JObj [(''ref'', JStr rid)])"

definition check_actionability_with_trace ::
  "fx \<Rightarrow> 'w platform \<Rightarrow> ref_target \<Rightarrow> handle \<Rightarrow> deadline \<Rightarrow> action_request \<Rightarrow> stability_expectation \<Rightarrow>
     ('w, app_error, actionability_preflight) act" where
  "check_actionability_with_trace fx pf tg h d req sx =
     (let head = [(''ref'', JStr (rt_ref_id tg)), (''action'', JStr (action_name (req_action req)))]
      in abind (trace pf ''actionability.check.start'' (JObj head)) (\<lambda>_.
         abind (attempt (check_live_with_stability fx pf (rt_entry tg) h d req sx)) (\<lambda>r.
           case r of
             Inl e \<Rightarrow>
               abind (trace_quietly pf ''actionability.check.error''
                 (JObj (head @ [(''code'', JStr (error_code_as_str (err_code e))),
                    (''message'', JStr (err_message e)), (''details'', json_opt id (err_details e))]))) (\<lambda>_.
               fail_with (AppAdapter e))
           | Inr report \<Rightarrow>
               abind (trace pf ''actionability.check.ok'' (JObj (head @ [(''report'', report_json report)]))) (\<lambda>_.
               ret \<lparr>pre_verified_point = rp_verified_point report,
                    pre_presentation_point = rp_presentation_point report,
                    pre_presentation_bounds = rp_presentation_bounds report,
                    pre_pointer_delivery = rp_pointer_delivery report\<rparr>))))"

definition into_adapter_error :: "app_error \<Rightarrow> adapter_error" where
  "into_adapter_error e = (case e of AppAdapter a \<Rightarrow> a | other \<Rightarrow> internal_error (app_error_text other))"

section \<open>The polling loop\<close>

definition STABILITY_POLL_INTERVAL :: nat where "STABILITY_POLL_INTERVAL = 16 * ns_per_ms"

definition is_permanent_error :: "error_code \<Rightarrow> bool" where
  "is_permanent_error c \<longleftrightarrow>
     c \<in> {PermDenied, AppNotFound, ActionNotSupported, InvalidArgs, PolicyDenied, Internal}"

definition is_permanent_actionability_error :: "error_code \<Rightarrow> bool" where
  "is_permanent_actionability_error c \<longleftrightarrow> is_permanent_error c \<or> c = StaleRef \<or> c = AmbiguousTarget"

text \<open>\<open>json_pointer2 j a b\<close> is \<open>j.pointer("/a/b")\<close>.\<close>

definition json_pointer2 :: "json \<Rightarrow> string \<Rightarrow> string \<Rightarrow> json option" where
  "json_pointer2 j a b = Option.bind (json_get a j) (json_get b)"

definition sug_resnapshot :: string where
  "sug_resnapshot = ''Re-snapshot the window and act on a fresh ref, or fall back to --headed coordinate input from the ref bounds.''"

definition live_read_incomplete :: "poll_state \<Rightarrow> deadline \<Rightarrow> nat \<Rightarrow> adapter_error" where
  "live_read_incomplete st d now =
     (let report = Option.bind (last_report st) (json_get ''report'');
          stats = Option.bind report (json_get ''query_stats'');
          stat = (\<lambda>a b. int (unwrap_or (Option.bind (Option.bind stats (\<lambda>s. json_pointer2 s a b)) json_as_u64) 0))
      in with_disposition NotDelivered (with_details
           (JObj [(''kind'', JStr ''live_read_incomplete''), (''retryable'', JBool False),
             (''timeout_ms'', JInt (uint (dl_timeout_ms d))),
             (''elapsed_ms'', JInt (int (elapsed now d div ns_per_ms))),
             (''native_read_failures'', JInt (stat ''reads'' ''native_read_failures'')),
             (''nodes_visited'', JInt (stat ''traversal'' ''nodes_visited'')),
             (''last_report'', json_opt id (last_report st))])
           (with_suggestion sug_resnapshot
             (new_error ActionFailed ''Live reads were incomplete before actionability could be determined''))))"

definition poll_timeout :: "poll_state \<Rightarrow> deadline \<Rightarrow> nat \<Rightarrow> adapter_error" where
  "poll_timeout st d now =
     (if only_live_read_incomplete st then live_read_incomplete st d now
      else
        let details = JObj [(''kind'', JStr ''actionability_timeout''),
              (''timeout_ms'', JInt (uint (dl_timeout_ms d))),
              (''elapsed_ms'', JInt (int (elapsed now d div ns_per_ms)))];
            details = (case last_report st of
                         Some r \<Rightarrow> json_insert ''last_report'' r details | None \<Rightarrow> details);
            details = (if saw_ambiguity st then json_insert ''transient_ambiguity'' (JBool True) details
                       else details)
        in with_disposition NotDelivered (with_details details
             (timeout_error_msg ''Target did not become actionable within the wait budget'')))"

definition fail_timeout :: "'w platform \<Rightarrow> poll_state \<Rightarrow> deadline \<Rightarrow> ('w, adapter_error, 'a) act" where
  "fail_timeout pf st d = abind (get_now pf) (\<lambda>t. fail_with (poll_timeout st d t))"

definition ensure_before_deadline :: "'w platform \<Rightarrow> deadline \<Rightarrow> poll_state \<Rightarrow> ('w, adapter_error, unit) act" where
  "ensure_before_deadline pf d st =
     abind (check_expired pf d) (\<lambda>expired. if expired then fail_timeout pf st d else ret ())"

definition sleep_until_next_poll :: "'w platform \<Rightarrow> deadline \<Rightarrow> nat \<Rightarrow> ('w, adapter_error, unit) act" where
  "sleep_until_next_poll pf d interval =
     abind (get_now pf) (\<lambda>t.
       if remaining t d \<noteq> 0 then sleep_for pf (min interval (remaining t d)) else ret ())"

definition handle_actionability_failure ::
  "'w platform \<Rightarrow> poll_state \<Rightarrow> adapter_error \<Rightarrow> deadline \<Rightarrow> ('w, adapter_error, poll_state) act" where
  "handle_actionability_failure pf st e d =
     (if is_permanent_actionability_error (err_code e) \<or> \<not> permits_retry_by_default e then fail_with e
      else
        let st' = record_preflight_error e st
        in abind (ensure_before_deadline pf d st') (\<lambda>_.
           abind (sleep_until_next_poll pf d
             (if failed_check e ''stable'' then STABILITY_POLL_INTERVAL else POLL_INTERVAL)) (\<lambda>_.
           ret st')))"

definition handle_resolve_failure ::
  "'w platform \<Rightarrow> ref_target \<Rightarrow> poll_state \<Rightarrow> adapter_error \<Rightarrow> deadline \<Rightarrow> ('w, adapter_error, poll_state) act" where
  "handle_resolve_failure pf tg st e d =
     (if \<not> is_retryable_resolution_failure e then
        abind (trace_resolve_error pf (rt_ref_id tg) e) (\<lambda>_. fail_with e)
      else
        let st' = record_resolve_error e
              (st\<lparr>saw_ambiguity := saw_ambiguity st \<or> err_code e = AmbiguousTarget\<rparr>)
        in abind (sleep_until_next_poll pf d POLL_INTERVAL) (\<lambda>_. ret st'))"

definition poll_round ::
  "fx \<Rightarrow> 'w platform \<Rightarrow> ref_target \<Rightarrow> action_request \<Rightarrow> deadline \<Rightarrow> poll_state \<Rightarrow>
     ('w, adapter_error, (poll_state, poll_state) flow) act" where
  "poll_round fx pf tg req d st =
     (let st1 = st\<lparr>resolve_attempts := saturating_inc (resolve_attempts st)\<rparr>
      in abind (resolve_within_deadline pf (rt_entry tg) d) (\<lambda>out.
         case out of
           DeadlinePassed \<Rightarrow> fail_timeout pf st1 d
         | ResolveFailed e \<Rightarrow>
             abind (handle_resolve_failure pf tg st1 (mark_pre_dispatch_resolution_failure e) d) (\<lambda>st'.
             ret (Continue st'))
         | Resolved h \<Rightarrow>
             abind (trace_resolve_ok pf (rt_ref_id tg)) (\<lambda>_.
             abind (ensure_before_deadline pf d st1) (\<lambda>_.
             let st2 = st1\<lparr>preflight_attempts := saturating_inc (preflight_attempts st1)\<rparr>
             in abind (attempt (check_actionability_with_trace fx pf tg h d req (poll_stability st2))) (\<lambda>r.
                case r of
                  Inl ae \<Rightarrow>
                    let e = into_adapter_error ae;
                        focus_pending = requires_focus (request_headed_requirement req) \<and>
                                        failed_check e ''receives_events''
                    in if \<not> focus_pending \<and> \<not> should_scroll_after_preflight req e
                       then abind (handle_actionability_failure pf st2 e d) (\<lambda>st'. ret (Continue st'))
                       else abind (ensure_before_deadline pf d st2) (\<lambda>_. ret (Done st2))
                | Inr _ \<Rightarrow> abind (ensure_before_deadline pf d st2) (\<lambda>_. ret (Done st2)))))))"

definition execute_poll_loop ::
  "fx \<Rightarrow> 'w platform \<Rightarrow> ref_target \<Rightarrow> action_request \<Rightarrow> deadline \<Rightarrow> ('w, adapter_error, poll_state) act" where
  "execute_poll_loop fx pf tg req d = loop (poll_round fx pf tg req d) poll_state_default"

section \<open>Stability sampling\<close>

definition STABILITY_SAMPLE_INTERVAL :: nat where "STABILITY_SAMPLE_INTERVAL = 17 * ns_per_ms"
definition MIN_STABILITY_SPAN :: nat where "MIN_STABILITY_SPAN = 34 * ns_per_ms"

record stability_sampler =
  previous :: "rect option"
  consecutive :: u32
  stable_since :: nat

definition sampler_new :: stability_sampler where
  "sampler_new = \<lparr>previous = None, consecutive = 0, stable_since = 0\<rparr>"

definition sampler_observe :: "rect option \<Rightarrow> nat \<Rightarrow> stability_sampler \<Rightarrow> bool \<times> stability_sampler" where
  "sampler_observe bounds tick s =
     (case bounds of
        None \<Rightarrow> (False, \<lparr>previous = None, consecutive = 0, stable_since = tick\<rparr>)
      | Some b \<Rightarrow>
          let s' = (if is_some_and (previous s) (\<lambda>p. geometry_matches p b)
                    then s\<lparr>consecutive := consecutive s + 1\<rparr>
                    else s\<lparr>consecutive := 1, stable_since := tick\<rparr>);
              s' = s'\<lparr>previous := Some b\<rparr>
          in (consecutive s' \<ge> 3 \<and> tick - stable_since s' \<ge> MIN_STABILITY_SPAN, s'))"

definition stable_span :: "nat \<Rightarrow> stability_sampler \<Rightarrow> nat" where
  "stable_span tick s = tick - stable_since s"

definition sample_round ::
  "fx \<Rightarrow> 'w platform \<Rightarrow> handle \<Rightarrow> deadline \<Rightarrow> nat \<Rightarrow> stability_sampler \<Rightarrow>
     ('w, app_error, (stability_sampler, stability_expectation) flow) act" where
  "sample_round fx pf h d started s =
     abind (amap_err AppAdapter (call (pf_get_element_bounds pf h d))) (\<lambda>bounds.
     abind (get_now pf) (\<lambda>t.
       let tick = t - started; (stable, s') = sampler_observe bounds tick s
       in if stable then
            ret (Done (strict_bounds fx (previous s') (consecutive s')
              (word_of_nat (min (stable_span tick s' div ns_per_ms) u64_max))))
          else
            abind (amap_err (\<lambda>e. AppAdapter (with_disposition NotDelivered e))
              (take_slice pf STABILITY_SAMPLE_INTERVAL d)) (\<lambda>slice.
            abind (sleep_for pf slice) (\<lambda>_. ret (Continue s')))))"

definition stable_preflight ::
  "fx \<Rightarrow> 'w platform \<Rightarrow> ref_target \<Rightarrow> handle \<Rightarrow> deadline \<Rightarrow> action_request \<Rightarrow>
     ('w, app_error, actionability_preflight) act" where
  "stable_preflight fx pf tg h d req =
     abind (attempt (check_actionability_with_trace fx pf tg h d req
              (permissive (geo_bounds_hash (geometry (rt_entry tg)))))) (\<lambda>r.
       let sample =
         abind (get_now pf) (\<lambda>started.
         abind (loop (sample_round fx pf h d started) sampler_new) (\<lambda>sx.
           check_actionability_with_trace fx pf tg h d req sx))
       in case r of
            Inr pre \<Rightarrow>
              if \<not> requires_stability (req_action req) \<or> pre_pointer_delivery pre = Semantic
              then ret pre else sample
          | Inl (AppAdapter e) \<Rightarrow> if only_stability_pending e then sample else fail_with (AppAdapter e)
          | Inl e \<Rightarrow> fail_with e)"

section \<open>Dispatch under the lease\<close>

definition after_scroll :: "adapter_error \<Rightarrow> adapter_error" where
  "after_scroll e =
     (let e = (if err_disposition e = NotDelivered \<or> err_disposition e = SemUnknown
               then e\<lparr>err_disposition := DeliveryUncertain\<rparr> else e)
      in e\<lparr>err_details := Some (json_insert ''preparatory_scroll'' (JStr ''may_have_changed_view'')
              (unwrap_or (err_details e) (JObj [])))\<rparr>)"

definition trace_error_with_disposition :: "app_error \<Rightarrow> delivery_semantics \<Rightarrow> app_error" where
  "trace_error_with_disposition e s = AppAdapter (with_disposition s (into_adapter_error e))"

definition destination :: "actionability_preflight \<Rightarrow> point option" where
  "destination pre =
     (if pre_pointer_delivery pre = Physical then pre_verified_point pre else pre_presentation_point pre)"

fun is_click :: "action \<Rightarrow> bool" where
  "is_click Click = True"
| "is_click DoubleClick = True"
| "is_click RightClick = True"
| "is_click TripleClick = True"
| "is_click _ = False"

definition confirms_delivery :: "delivery_semantics \<Rightarrow> bool" where
  "confirms_delivery s \<longleftrightarrow>
     delivery s \<in> {DispDeliveryUncertain, DispDeliveredUnverified, DispDeliveredVerified}"

definition before_dispatch :: "'w platform \<Rightarrow> actionability_preflight \<Rightarrow> lease \<Rightarrow> ('w, 'e, unit) act" where
  "before_dispatch pf pre l =
     (case destination pre of None \<Rightarrow> ret () | Some p \<Rightarrow> effect (pf_cursor_travel pf p l))"

definition after_dispatch ::
  "'w platform \<Rightarrow> actionability_preflight \<Rightarrow> action \<Rightarrow> adapter_error + action_result \<Rightarrow> ('w, 'e, unit) act" where
  "after_dispatch pf pre a r =
     (let disposition = (case r of Inr res \<Rightarrow> res_disposition res | Inl e \<Rightarrow> err_disposition e)
      in if \<not> confirms_delivery disposition then ret ()
         else case destination pre of
                None \<Rightarrow> ret ()
              | Some p \<Rightarrow> effect (pf_cursor_submit pf p (pre_presentation_bounds pre) (is_click a) PhaseEffect))"

definition settled_surfaces ::
  "'w platform \<Rightarrow> process_identity \<Rightarrow> deadline \<Rightarrow> ('w, 'e, surface_info list) act" where
  "settled_surfaces pf proc d =
     abind (attempt (call (pf_list_surfaces pf proc d))) (\<lambda>r.
       ret (case r of Inl _ \<Rightarrow> [] | Inr ss \<Rightarrow> ss))"

definition expected_process_of :: "ref_entry \<Rightarrow> adapter_error + process_identity" where
  "expected_process_of e =
     res_bind (ok_or (option_filter (\<lambda>i. i \<noteq> []) (rp_instance (process e)))
         (stale_ref_error ''target process instance is unavailable'')) (\<lambda>i.
       Inr \<lparr>identity_pid = rp_pid (process e), identity_instance = i\<rparr>)"

text \<open>Resolve and preflight, scrolling the target into view once when only its visibility fails.\<close>

definition resolve_and_preflight ::
  "fx \<Rightarrow> 'w platform \<Rightarrow> ref_target \<Rightarrow> deadline \<Rightarrow> action_request \<Rightarrow> lease \<Rightarrow>
     ('w, app_error, handle \<times> actionability_preflight) act" where
  "resolve_and_preflight fx pf tg d req l =
     abind (attempt (call (pf_resolve_element_strict pf (rt_entry tg) d))) (\<lambda>resolved.
       case resolved of
         Inl e \<Rightarrow>
           let e = mark_pre_dispatch_resolution_failure e
           in abind (trace_resolve_error pf (rt_ref_id tg) e) (\<lambda>_. fail_with (AppAdapter e))
       | Inr h \<Rightarrow>
           abind (trace_resolve_ok pf (rt_ref_id tg)) (\<lambda>_.
           abind (attempt (stable_preflight fx pf tg h d req)) (\<lambda>r.
             case r of
               Inr pre \<Rightarrow> ret (h, pre)
             | Inl ae \<Rightarrow>
                 let e = into_adapter_error ae
                 in if \<not> should_scroll_after_preflight req e then fail_with (AppAdapter e)
                    else
                      abind (attempt (call (pf_scroll_into_view pf h l))) (\<lambda>sr.
                        case sr of
                          Inl se \<Rightarrow>
                            abind (trace_quietly pf ''ref.scroll_into_view.error''
                              (JObj [(''ref'', JStr (rt_ref_id tg)), (''code'', JStr (error_code_as_str (err_code se))),
                                     (''message'', JStr (err_message se))])) (\<lambda>_.
                            fail_with (AppAdapter se))
                        | Inr _ \<Rightarrow>
                            abind (amap_err (\<lambda>e. AppAdapter (after_scroll e))
                              (call (pf_resolve_element_strict pf (rt_entry tg) d))) (\<lambda>h2.
                            abind (amap_err (\<lambda>ae. AppAdapter (after_scroll (into_adapter_error ae)))
                              (stable_preflight fx pf tg h2 d req)) (\<lambda>pre.
                            ret (h2, pre)))))))"

definition prepared_request :: "actionability_preflight \<Rightarrow> process_identity \<Rightarrow> action_request \<Rightarrow> action_request" where
  "prepared_request pre proc req =
     (let req = (if pre_pointer_delivery pre = Semantic then req\<lparr>req_policy := headless\<rparr> else req)
      in with_expected_process proc (with_verified_point (pre_verified_point pre) req))"

definition dispatch_resolved ::
  "fx \<Rightarrow> 'w platform \<Rightarrow> ref_target \<Rightarrow> deadline \<Rightarrow> action_request \<Rightarrow> lease \<Rightarrow> ('w, app_error, action_result) act" where
  "dispatch_resolved fx pf tg d req0 l =
     abind (lift_res (res_map_err AppAdapter (expected_process_of (rt_entry tg)))) (\<lambda>proc.
     abind (resolve_and_preflight fx pf tg d req0 l) (\<lambda>(h, pre).
     let req = prepared_request pre proc req0; a = req_action req;
         head = [(''ref'', JStr (rt_ref_id tg)), (''action'', JStr (action_name a))]
     in abind (trace pf ''action.dispatch.start'' (JObj head)) (\<lambda>_.
        abind (before_dispatch pf pre l) (\<lambda>_.
        abind (attempt (execute_verified_action pf h req l)) (\<lambda>r.
        abind (after_dispatch pf pre a r) (\<lambda>_.
        abind (lift_res (res_map_err AppAdapter r)) (\<lambda>res.
        abind (if may_raise_surface a
               then abind (settled_surfaces pf proc d) (\<lambda>ss. ret (res\<lparr>res_surfaces := ss\<rparr>))
               else ret res) (\<lambda>res.
        abind (amap_err (\<lambda>e. trace_error_with_disposition e DeliveredUnverified)
          (trace pf ''action.dispatch.ok'' (JObj (head @ [(''result'', action_result_json res)])))) (\<lambda>_.
        ret res)))))))))"

section \<open>The whole operation\<close>

definition required_text :: "string option \<Rightarrow> string \<Rightarrow> app_error + string" where
  "required_text v m =
     ok_or (option_filter (\<lambda>s. s \<noteq> []) v)
       (AppAdapter (with_details (JObj [(''physical_delivery_started'', JBool False)])
         (new_error ActionNotSupported m)))"

definition focus_exact_window :: "'w platform \<Rightarrow> window_info \<Rightarrow> lease \<Rightarrow> ('w, app_error, window_info) act" where
  "focus_exact_window pf expected l =
     abind (amap_err AppAdapter (call (pf_resolve_window_strict pf expected (lease_deadline l)))) (\<lambda>live.
       if win_id live \<noteq> win_id expected \<or> win_pid live \<noteq> win_pid expected \<or>
          win_instance live \<noteq> win_instance expected
       then fail_with (AppAdapter (stale_ref_error ''Headed target window belongs to a different process instance''))
       else
         abind (amap_err AppAdapter (call (pf_focus_window pf live l))) (\<lambda>_.
         abind (trace pf ''input.focus_window''
           (JObj [(''pid'', JInt (uint (win_pid live))), (''window_id'', JStr (win_id live)), (''ok'', JBool True)])) (\<lambda>_.
         ret live)))"

definition focus_entry_window :: "'w platform \<Rightarrow> ref_entry \<Rightarrow> lease \<Rightarrow> ('w, app_error, window_info) act" where
  "focus_entry_window pf e l =
     abind (lift_res (required_text (rp_instance (process e))
        ''Headed input requires target process-instance identity'')) (\<lambda>inst.
     abind (lift_res (required_text (src_window_id (source e))
        ''Headed input requires an exact source window id'')) (\<lambda>wid.
     focus_exact_window pf
       \<lparr>win_id = wid, win_title = unwrap_or (src_window_title (source e)) [],
        win_app = unwrap_or (src_app (source e)) [], win_pid = rp_pid (process e),
        win_instance = Some inst, win_bounds = None, win_state = default_window_state\<rparr> l))"

text \<open>What dispatching means to the wait: the code passes it as a function.\<close>

type_synonym 'w dispatcher =
  "ref_target \<Rightarrow> deadline \<Rightarrow> action_request \<Rightarrow> lease \<Rightarrow> ('w, app_error, action_result) act"

definition execute_single_shot ::
  "'w platform \<Rightarrow> ref_target \<Rightarrow> action_request \<Rightarrow> deadline \<Rightarrow> lease \<Rightarrow> 'w dispatcher \<Rightarrow>
     ('w, adapter_error, action_result) act" where
  "execute_single_shot pf tg req d l dispatch =
     abind (if requires_focus (request_headed_requirement req)
            then amap_err into_adapter_error
                   (abind (focus_entry_window pf (rt_entry tg) l) (\<lambda>_. ret ()))
            else ret ()) (\<lambda>_.
     amap_err into_adapter_error (dispatch tg d req l))"

definition TRACE_CAPTURE_BUDGET :: nat where "TRACE_CAPTURE_BUDGET = 1000 * ns_per_ms"
definition PRE_CAPTURE_DISPATCH_RESERVE :: nat where "PRE_CAPTURE_DISPATCH_RESERVE = 100 * ns_per_ms"

definition pre_trace_capture_deadline :: "'w platform \<Rightarrow> deadline \<Rightarrow> ('w, 'e, deadline option) act" where
  "pre_trace_capture_deadline pf parent =
     abind (get_now pf) (\<lambda>t.
       if remaining t parent \<le> PRE_CAPTURE_DISPATCH_RESERVE then ret None
       else abind (cap_deadline pf
              (min (remaining t parent - PRE_CAPTURE_DISPATCH_RESERVE) TRACE_CAPTURE_BUDGET) parent) (\<lambda>d.
            ret (Some d)))"

definition capture :: "'w platform \<Rightarrow> ref_entry \<Rightarrow> string \<Rightarrow> deadline \<Rightarrow> ('w, 'e, artifact_outcome) act" where
  "capture pf e phase d = call (\<lambda>w. let (a, w') = pf_capture_screenshot pf e phase d w in (Inr a, w'))"

definition capture_pre_artifact :: "'w platform \<Rightarrow> ref_entry \<Rightarrow> deadline \<Rightarrow> ('w, 'e, artifact_outcome) act" where
  "capture_pre_artifact pf e d =
     abind (pre_trace_capture_deadline pf d) (\<lambda>cd.
       case cd of
         None \<Rightarrow> ret (ArtSkipped ''dispatch_budget'')
       | Some d' \<Rightarrow> capture pf e ''pre'' d')"

definition finish_artifacts :: "'w platform \<Rightarrow> ref_target \<Rightarrow> deadline \<Rightarrow> artifact_outcome \<Rightarrow> ('w, 'e, unit) act" where
  "finish_artifacts pf tg d pre =
     abind (cap_deadline pf TRACE_CAPTURE_BUDGET d) (\<lambda>cd.
     abind (capture pf (rt_entry tg) ''post'' cd) (\<lambda>post.
     effect (pf_emit_artifacts pf (rt_ref_id tg) pre post)))"

definition waits :: "action_request \<Rightarrow> bool" where
  "waits req = is_some_and (req_timeout_ms req) (\<lambda>t. t > 0)"

definition operation_deadline :: "'w platform \<Rightarrow> deadline option \<Rightarrow> action_request \<Rightarrow> ('w, adapter_error, deadline) act" where
  "operation_deadline pf inh req =
     abind (get_now pf) (\<lambda>t.
       lift_res (case option_filter (\<lambda>ms. ms > 0) (req_timeout_ms req) of
                   None \<Rightarrow> deadline_standard inh t
                 | Some ms \<Rightarrow> deadline_after inh t ms))"

definition execute_with_deadline ::
  "fx \<Rightarrow> 'w platform \<Rightarrow> ref_target \<Rightarrow> action_request \<Rightarrow> deadline \<Rightarrow> 'w dispatcher \<Rightarrow>
     ('w, adapter_error, action_result \<times> lease \<times> artifact_outcome \<times> deadline \<times> nat) act" where
  "execute_with_deadline fx pf tg req d dispatch =
     abind (if waits req then execute_poll_loop fx pf tg req d else ret poll_state_default) (\<lambda>st.
     abind (capture_pre_artifact pf (rt_entry tg) d) (\<lambda>pre.
     abind (amap_err (attach_error_metrics st) (call (pf_acquire_interaction_lease pf d))) (\<lambda>l.
     abind (check_expired pf d) (\<lambda>expired.
       if expired then
         abind (make_timeout_error pf d) (\<lambda>e.
         abind (effect (pf_drop_lease pf l)) (\<lambda>_.
         fail_with (attach_error_metrics st e)))
       else
         abind (if waits req
                then abind (get_now pf) (\<lambda>t. ret (with_timeout_ms (Some (word_of_nat (remaining_ms t d))) req))
                else ret req) (\<lambda>req.
         abind (get_now pf) (\<lambda>lease_started.
         abind (attempt (execute_single_shot pf tg req d l dispatch)) (\<lambda>r.
           case r of
             Inl e \<Rightarrow>
               abind (effect (pf_drop_lease pf l)) (\<lambda>_.
               abind (finish_artifacts pf tg d pre) (\<lambda>_. fail_with e))
           | Inr res \<Rightarrow>
               abind (get_now pf) (\<lambda>t.
                 let hold = min ((t - lease_started) div ns_per_ms) u64_max;
                     res = attach_wait_metrics st l hold (attach_transient_ambiguity st res)
                 in ret (res, l, pre, d, lease_started)))))))))"

definition process_identity_matches :: "'w platform \<Rightarrow> ref_entry \<Rightarrow> deadline \<Rightarrow> ('w, 'e, bool) act" where
  "process_identity_matches pf e d =
     (case (option_filter (\<lambda>s. s \<noteq> []) (src_app (source e)), option_filter (\<lambda>s. s \<noteq> []) (rp_instance (process e))) of
        (Some name, Some inst) \<Rightarrow>
          abind (attempt (call (pf_list_apps pf d))) (\<lambda>r.
            ret (case r of
                   Inl _ \<Rightarrow> False
                 | Inr apps \<Rightarrow>
                     (case filter (\<lambda>a. app_pid a = rp_pid (process e)) apps of
                        [a] \<Rightarrow> app_name a = name \<and> app_instance a = Some inst
                      | _ \<Rightarrow> False)))
      | _ \<Rightarrow> ret False)"

definition attach_process_state_detail :: "adapter_error \<Rightarrow> process_state \<Rightarrow> adapter_error" where
  "attach_process_state_detail e st =
     (let label = JStr (process_state_label st); d = unwrap_or (err_details e) (JObj [])
      in with_details (if json_is_object d then json_insert ''process_state'' label d
                       else JObj [(''process_state'', label)]) e)"

definition enrich_with_process_state ::
  "'w platform \<Rightarrow> ref_entry \<Rightarrow> adapter_error \<Rightarrow> deadline \<Rightarrow> ('w, 'e, adapter_error) act" where
  "enrich_with_process_state pf en e d =
     (if err_code e \<noteq> StaleRef \<and> err_code e \<noteq> AppNotFound then ret e
      else case option_filter (\<lambda>s. s \<noteq> []) (rp_instance (process en)) of
             None \<Rightarrow> ret e
           | Some inst \<Rightarrow>
               abind (attempt (call (pf_process_state pf
                 \<lparr>identity_pid = rp_pid (process en), identity_instance = inst\<rparr> d))) (\<lambda>r.
                 case r of
                   Inl _ \<Rightarrow> ret e
                 | Inr st \<Rightarrow>
                     if st = Unresponsive then
                       abind (process_identity_matches pf en d) (\<lambda>same.
                         if \<not> same then ret e
                         else
                           let details = JObj (details_object (err_details e));
                               details = json_insert ''kind'' (JStr ''app_unresponsive'') details;
                               details = json_insert ''retryable'' (JBool False) details
                           in ret (with_disposition (err_disposition e) (with_details details
                                (app_unresponsive_error (unwrap_or (src_app (source en)) ''target application'')))))
                     else ret (attach_process_state_detail e st)))"

definition execute_with_auto_wait_and_lease ::
  "fx \<Rightarrow> 'w platform \<Rightarrow> deadline option \<Rightarrow> ref_target \<Rightarrow> action_request \<Rightarrow> 'w dispatcher \<Rightarrow>
     ('w, adapter_error, action_result \<times> lease \<times> artifact_outcome \<times> deadline \<times> nat) act" where
  "execute_with_auto_wait_and_lease fx pf inh tg req dispatch =
     abind (operation_deadline pf inh req) (\<lambda>d.
     abind (attempt (execute_with_deadline fx pf tg req d dispatch)) (\<lambda>r.
       case r of
         Inr x \<Rightarrow> ret x
       | Inl e \<Rightarrow>
           abind (check_expired pf d) (\<lambda>expired.
             if expired then fail_with e
             else abind (enrich_with_process_state pf (rt_entry tg) e d) fail_with)))"

definition execute_with_auto_wait ::
  "fx \<Rightarrow> 'w platform \<Rightarrow> deadline option \<Rightarrow> ref_target \<Rightarrow> action_request \<Rightarrow> 'w dispatcher \<Rightarrow>
     ('w, adapter_error, action_result) act" where
  "execute_with_auto_wait fx pf inh tg req dispatch =
     abind (execute_with_auto_wait_and_lease fx pf inh tg req dispatch) (\<lambda>(res, l, pre, d, lease_started).
     abind (effect (pf_drop_lease pf l)) (\<lambda>_.
     abind (finish_artifacts pf tg d pre) (\<lambda>_.
     ret res)))"

definition ref_label_from_entry :: "ref_entry \<Rightarrow> string" where
  "ref_label_from_entry e =
     (if scope_path (scope e) = [] then ''<'' @ id_role (identity e) @ ''>''
      else ''<'' @ id_role (identity e) @ ''/'' @ join_with ''/'' (map show_nat (scope_path (scope e))) @ ''>'')"

definition execute_entry ::
  "fx \<Rightarrow> 'w platform \<Rightarrow> deadline option \<Rightarrow> ref_entry \<Rightarrow> action_request \<Rightarrow> ('w, adapter_error, action_result) act" where
  "execute_entry fx pf inh e req =
     execute_with_auto_wait fx pf inh \<lparr>rt_entry = e, rt_ref_id = ref_label_from_entry e\<rparr> req
       (dispatch_resolved fx pf)"

end
