(* ===== verification/RefActionTime.thy ===== *)
theory RefActionTime
  imports RefAction
begin

text \<open>
  The waiting code returns.  \<open>timed tm pf\<close> is what the code relies on of the clock: \<open>tm\<close> is the
  time of a world, no call sets it back, reading the clock gives a time between the two ends of
  the call, and sleeping lasts at least as long as asked.  Each loop then lowers the time left
  before its deadline in every round that continues.
\<close>

section \<open>The clock\<close>

definition later :: "('w \<Rightarrow> nat) \<Rightarrow> ('w \<Rightarrow> 'a \<times> 'w) \<Rightarrow> bool" where
  "later tm f \<longleftrightarrow> (\<forall>w. tm w \<le> tm (snd (f w)))"

definition timed :: "('w \<Rightarrow> nat) \<Rightarrow> 'w platform \<Rightarrow> bool" where
  "timed tm pf \<longleftrightarrow>
     (\<forall>w. tm w \<le> fst (pf_now pf w) \<and> fst (pf_now pf w) \<le> tm (snd (pf_now pf w))) \<and>
     (\<forall>n w. tm w + n \<le> tm (pf_sleep pf n w)) \<and>
     (\<forall>e d. later tm (pf_resolve_element_strict pf e d)) \<and>
     (\<forall>h d. later tm (pf_get_live_element pf h d)) \<and>
     (\<forall>h d. later tm (pf_get_element_bounds pf h d)) \<and>
     (\<forall>h d. later tm (pf_get_text_selection pf h d)) \<and>
     (\<forall>h p d. later tm (pf_hit_test pf h p d)) \<and>
     (\<forall>p d. later tm (pf_list_surfaces pf p d)) \<and>
     (\<forall>d. later tm (pf_list_apps pf d)) \<and>
     (\<forall>p d. later tm (pf_process_state pf p d)) \<and>
     (\<forall>v d. later tm (pf_resolve_window_strict pf v d)) \<and>
     (\<forall>d. later tm (pf_acquire_interaction_lease pf d)) \<and>
     (\<forall>l w. tm w \<le> tm (pf_drop_lease pf l w)) \<and>
     (\<forall>v l. later tm (pf_focus_window pf v l)) \<and>
     (\<forall>h l. later tm (pf_scroll_into_view pf h l)) \<and>
     (\<forall>h r l. later tm (pf_execute_action pf h r l)) \<and>
     (\<forall>ev j. later tm (pf_trace pf ev j)) \<and>
     (\<forall>p l w. tm w \<le> tm (pf_cursor_travel pf p l w)) \<and>
     (\<forall>p b c f w. tm w \<le> tm (pf_cursor_submit pf p b c f w)) \<and>
     (\<forall>e f d. later tm (pf_capture_screenshot pf e f d)) \<and>
     (\<forall>r a b w. tm w \<le> tm (pf_emit_artifacts pf r a b w))"

text \<open>\<open>runs tm m R\<close>: the action returns, and \<open>R\<close> relates the times around it and its result.\<close>

definition runs :: "('w \<Rightarrow> nat) \<Rightarrow> ('w, 'e, 'a) act \<Rightarrow> (nat \<Rightarrow> 'e + 'a \<Rightarrow> nat \<Rightarrow> bool) \<Rightarrow> bool" where
  "runs tm m R \<longleftrightarrow> (\<forall>w. \<exists>r w'. m w = Some (r, w') \<and> tm w \<le> tm w' \<and> R (tm w) r (tm w'))"

abbreviation terminates :: "('w \<Rightarrow> nat) \<Rightarrow> ('w, 'e, 'a) act \<Rightarrow> bool" where
  "terminates tm m \<equiv> runs tm m (\<lambda>_ _ _. True)"

lemma Inr_res_map_err_iff [simp]: "Inr x = res_map_err f r \<longleftrightarrow> r = Inr x"
  by (cases r) auto

lemma abind_InrE:
  assumes "abind m f w = Some (Inr y, w')"
  obtains x w1 where "m w = Some (Inr x, w1)" "f x w1 = Some (Inr y, w')"
  using assms by (auto simp: abind_Some_iff)

named_theorems terminating \<open>actions that return\<close>

lemma runsD: "runs tm m R \<Longrightarrow> \<exists>r w'. m w = Some (r, w') \<and> tm w \<le> tm w' \<and> R (tm w) r (tm w')"
  by (simp add: runs_def)

lemma runs_weaken: "runs tm m R \<Longrightarrow> (\<And>s r t. s \<le> t \<Longrightarrow> R s r t \<Longrightarrow> S s r t) \<Longrightarrow> runs tm m S"
  unfolding runs_def by meson

lemma runs_terminates: "runs tm m R \<Longrightarrow> terminates tm m"
  by (rule runs_weaken) simp_all

lemma runs_bind:
  assumes "runs tm m R" "\<And>x. runs tm (f x) (S x)"
    and "\<And>s e t. R s (Inl e) t \<Longrightarrow> s \<le> t \<Longrightarrow> T s (Inl e) t"
    and "\<And>s x t r u. R s (Inr x) t \<Longrightarrow> s \<le> t \<Longrightarrow> t \<le> u \<Longrightarrow> S x t r u \<Longrightarrow> T s r u"
  shows "runs tm (abind m f) T"
  unfolding runs_def
proof
  fix w
  obtain r w1 where m: "m w = Some (r, w1)" "tm w \<le> tm w1" "R (tm w) r (tm w1)"
    using runsD [OF assms(1)] by blast
  show "\<exists>r w'. abind m f w = Some (r, w') \<and> tm w \<le> tm w' \<and> T (tm w) r (tm w')"
  proof (cases r)
    case (Inl e)
    then show ?thesis using m assms(3) by (auto simp: abind_Some_iff)
  next
    case (Inr x)
    obtain r2 w2 where f: "f x w1 = Some (r2, w2)" "tm w1 \<le> tm w2" "S x (tm w1) r2 (tm w2)"
      using runsD [OF assms(2)] by blast
    have "T (tm w) r2 (tm w2)" using assms(4) m f Inr by blast
    then show ?thesis using m f Inr by (intro exI [of _ r2] exI [of _ w2]) (auto simp: abind_Some_iff)
  qed
qed

lemma terminates_bind [terminating]: "terminates tm m \<Longrightarrow> (\<And>x. terminates tm (f x)) \<Longrightarrow> terminates tm (abind m f)"
  by (rule runs_bind) auto

lemma runs_attempt: "runs tm m (\<lambda>s r t. R s (Inr r) t) \<Longrightarrow> runs tm (attempt m) R"
  unfolding runs_def by (simp add: attempt_def) (metis (no_types, lifting) case_prod_conv option.simps(5))

lemma runs_map_err: "runs tm m (\<lambda>s r t. R s (res_map_err f r) t) \<Longrightarrow> runs tm (amap_err f m) R"
  unfolding runs_def by (simp add: amap_err_def) (metis (no_types, lifting) case_prod_conv option.simps(5))

lemma terminates_attempt [terminating]: "terminates tm m \<Longrightarrow> terminates tm (attempt m)"
  by (rule runs_attempt)

lemma terminates_map_err [terminating]: "terminates tm m \<Longrightarrow> terminates tm (amap_err f m)"
  by (rule runs_map_err)

lemma terminates_pure [terminating]:
  "terminates tm (ret x)" "terminates tm (fail_with e)" "terminates tm (lift_res r)"
  by (simp_all add: runs_def)

lemma runs_ret: "(\<And>t. R t (Inr x) t) \<Longrightarrow> runs tm (ret x) R"
  by (simp add: runs_def)

lemma terminates_call [terminating]: "later tm f \<Longrightarrow> terminates tm (call f)"
  by (simp add: runs_def later_def) (metis prod.collapse)

lemma terminates_effect [terminating]: "(\<And>w. tm w \<le> tm (f w)) \<Longrightarrow> terminates tm (effect f)"
  by (simp add: runs_def)

lemma timed_calls [terminating]:
  assumes "timed tm pf"
  shows "later tm (pf_resolve_element_strict pf e d)" "later tm (pf_get_live_element pf h d)"
    "later tm (pf_get_element_bounds pf h d)" "later tm (pf_get_text_selection pf h d)"
    "later tm (pf_hit_test pf h p d)" "later tm (pf_list_surfaces pf ip d)" "later tm (pf_list_apps pf d)"
    "later tm (pf_process_state pf ip d)" "later tm (pf_resolve_window_strict pf v d)"
    "later tm (pf_acquire_interaction_lease pf d)" "later tm (pf_focus_window pf v l)"
    "later tm (pf_scroll_into_view pf h l)" "later tm (pf_execute_action pf h rq l)"
    "later tm (pf_trace pf ev j)" "later tm (pf_capture_screenshot pf e s d)"
    "tm w \<le> tm (pf_drop_lease pf l w)" "tm w \<le> tm (pf_cursor_travel pf p l w)"
    "tm w \<le> tm (pf_cursor_submit pf p b c ph w)" "tm w \<le> tm (pf_emit_artifacts pf s a a' w)"
  using assms by (simp_all add: timed_def)

lemma runs_now: "timed tm pf \<Longrightarrow> runs tm (get_now pf) (\<lambda>s r t. case r of Inl _ \<Rightarrow> False | Inr x \<Rightarrow> s \<le> x \<and> x \<le> t)"
  by (simp add: runs_def get_now_def timed_def split_beta) (meson order_trans)

lemma terminates_now [terminating]: "timed tm pf \<Longrightarrow> terminates tm (get_now pf)"
  by (rule runs_terminates [OF runs_now])

lemma runs_sleep: "timed tm pf \<Longrightarrow> runs tm (sleep_for pf n) (\<lambda>s r t. s + n \<le> t \<and> r = Inr ())"
  by (simp add: runs_def sleep_for_def timed_def) (meson add_leD1)

lemma terminates_sleep [terminating]: "timed tm pf \<Longrightarrow> terminates tm (sleep_for pf n)"
  by (rule runs_terminates [OF runs_sleep])

text \<open>What is known when an action has returned.\<close>

lemma runs_mono: "terminates tm m \<Longrightarrow> m w = Some (r, w') \<Longrightarrow> tm w \<le> tm w'"
  using runsD [of tm m "\<lambda>_ _ _. True" w] by auto

lemma call_mono: "later tm f \<Longrightarrow> call f w = Some (r, w') \<Longrightarrow> tm w \<le> tm w'"
  by (auto simp: later_def) (metis snd_conv)

lemma now_bounds:
  "timed tm pf \<Longrightarrow> get_now pf w = Some (Inr t, w') \<Longrightarrow> tm w \<le> t \<and> t \<le> tm w'"
  by (auto simp: get_now_def timed_def split_beta)

lemma now_ok: "get_now pf w = Some (r, w') \<Longrightarrow> \<exists>t. r = Inr t"
  by (auto simp: get_now_def split_beta)

lemma sleep_bound: "timed tm pf \<Longrightarrow> sleep_for pf n w = Some (r, w') \<Longrightarrow> tm w + n \<le> tm w'"
  by (auto simp: sleep_for_def timed_def)

text \<open>A loop returns when every round that continues starts before a bound and moves towards it.\<close>

lemma terminates_loop:
  assumes "\<And>s. terminates tm (body s)"
    and "\<And>s w s' w'. body s w = Some (Inr (Continue s'), w') \<Longrightarrow> tm w < bound \<and> tm w < tm w'"
  shows "terminates tm (loop body s)"
proof -
  have "\<exists>r w'. loop body s w = Some (r, w') \<and> tm w \<le> tm w'" for s w
  proof (induction "bound - tm w" arbitrary: s w rule: less_induct)
    case less
    obtain r w1 where b: "body s w = Some (r, w1)" "tm w \<le> tm w1" using runsD [OF assms(1)] by blast
    show ?case
    proof (cases "\<exists>s'. r = Inr (Continue s')")
      case True
      then obtain s' where s': "r = Inr (Continue s')" by blast
      with assms(2) b have "bound - tm w1 < bound - tm w" by (simp add: diff_less_mono2)
      from less [OF this, of s'] show ?thesis using b s' by (subst loop_unfold) (auto intro: order_trans)
    next
      case False
      then show ?thesis using b by (subst loop_unfold) (auto split: sum.splits flow.splits)
    qed
  qed
  then show ?thesis by (simp add: runs_def)
qed

text \<open>Branching.\<close>

lemma terminates_if [terminating]: "terminates tm m \<Longrightarrow> terminates tm n \<Longrightarrow> terminates tm (if b then m else n)"
  by simp

lemma terminates_let [terminating]: "(\<And>x. terminates tm (f x)) \<Longrightarrow> terminates tm (Let x f)"
  by (simp add: Let_def)

lemma terminates_cases [terminating]:
  "(\<And>x. terminates tm (f x)) \<Longrightarrow> (\<And>y. terminates tm (g y)) \<Longrightarrow> terminates tm (case_sum f g r)"
  "terminates tm m \<Longrightarrow> (\<And>x. terminates tm (h x)) \<Longrightarrow> terminates tm (case_option m h v)"
  "(\<And>x y. terminates tm (k x y)) \<Longrightarrow> terminates tm (case_prod k z)"
  "terminates tm n \<Longrightarrow> (\<And>x. terminates tm (i x)) \<Longrightarrow> (\<And>c. terminates tm (j c)) \<Longrightarrow> terminates tm (case_resolve_attempt_outcome i j n out)"
  "terminates tm a \<Longrightarrow> (\<And>x y z. terminates tm (b x y z)) \<Longrightarrow> terminates tm c \<Longrightarrow> terminates tm (case_hit_test_result a b c hr)"
  by (simp_all split: sum.split option.split prod.split resolve_attempt_outcome.split
      hit_test_result.split)

section \<open>The small steps\<close>

lemma terminates_check_expired [terminating]: "timed tm pf \<Longrightarrow> terminates tm (check_expired pf d)"
  unfolding check_expired_def by (intro terminating)

lemma terminates_timeout_error [terminating]: "timed tm pf \<Longrightarrow> terminates tm (make_timeout_error pf d)"
  unfolding make_timeout_error_def by (intro terminating)

lemma terminates_cap [terminating]: "timed tm pf \<Longrightarrow> terminates tm (cap_deadline pf m d)"
  unfolding cap_deadline_def by (intro terminating)

lemma terminates_trace [terminating]: "timed tm pf \<Longrightarrow> terminates tm (trace pf ev j)"
  unfolding trace_def by (intro terminating)

lemma terminates_trace_quietly [terminating]: "timed tm pf \<Longrightarrow> terminates tm (trace_quietly pf ev j)"
  unfolding trace_quietly_def by (intro terminating)

lemma terminates_take_slice [terminating]: "timed tm pf \<Longrightarrow> terminates tm (take_slice pf m d)"
  unfolding take_slice_def by (intro terminating)

lemma take_slice_bounds:
  assumes "timed tm pf" "take_slice pf m d w = Some (Inr n, w')"
  shows "tm w < expires_at d \<and> (0 < m \<longrightarrow> 0 < n)"
  using assms
  by (auto simp: take_slice_def abind_Some_iff remaining_def dest!: now_bounds [OF assms(1)] split: if_splits)

lemma slice_after_deadline:
  assumes "timed tm pf" "\<not> tm w < expires_at d"
  shows "\<exists>e w'. take_slice pf m d w = Some (Inl e, w')"
proof -
  obtain r w' where t: "take_slice pf m d w = Some (r, w')"
    using runsD [OF terminates_take_slice [OF assms(1)]] by blast
  then show ?thesis using take_slice_bounds [OF assms(1)] assms(2) by (cases r) auto
qed

section \<open>Checks and reads\<close>

lemma terminates_probe [terminating]: "timed tm pf \<Longrightarrow> terminates tm (probe_points pf h d ps first ev)"
proof (induction ps arbitrary: first ev)
  case Nil
  show ?case unfolding probe_points.simps by (intro terminating)
next
  case (Cons p ps)
  show ?case unfolding probe_points.simps by (intro terminating Cons)
qed

lemma terminates_receives_events [terminating]:
  "timed tm pf \<Longrightarrow> terminates tm (receives_events_check pf b h req d)"
  unfolding receives_events_check_def by (intro terminating)

lemma terminates_check_with_stability [terminating]:
  "timed tm pf \<Longrightarrow> terminates tm (check_with_stability fx pf sx ev req hit d)"
  unfolding check_with_stability_def by (intro terminating)

lemma terminates_check_live [terminating]:
  "timed tm pf \<Longrightarrow> terminates tm (check_live_with_stability fx pf e h d req sx)"
  unfolding check_live_with_stability_def by (intro terminating)

lemma terminates_check_trace [terminating]:
  "timed tm pf \<Longrightarrow> terminates tm (check_actionability_with_trace fx pf tg h d req sx)"
  unfolding check_actionability_with_trace_def by (intro terminating)

lemma terminates_trace_resolve [terminating]:
  "timed tm pf \<Longrightarrow> terminates tm (trace_resolve_error pf rid e)"
  "timed tm pf \<Longrightarrow> terminates tm (trace_resolve_ok pf rid)"
  unfolding trace_resolve_error_def trace_resolve_ok_def by (intro terminating, assumption)+

lemma terminates_opt_call [terminating]: "later tm f \<Longrightarrow> terminates tm (opt_call f)"
  unfolding opt_call_def by (intro terminating)

section \<open>Polling\<close>

lemma terminates_classify [terminating]: "timed tm pf \<Longrightarrow> terminates tm (classify_error pf d e)"
  unfolding classify_error_def by (intro terminating)

lemma terminates_resolve [terminating]: "timed tm pf \<Longrightarrow> terminates tm (resolve_within_deadline pf e d)"
  unfolding resolve_within_deadline_def by (intro terminating)

lemma resolve_after_deadline:
  assumes "timed tm pf" "\<not> tm w < expires_at d" "resolve_within_deadline pf e d w = Some (Inr out, w')"
  shows "out = DeadlinePassed"
  using slice_after_deadline [OF assms(1,2), of RESOLVE_ATTEMPT] assms(3)
  by (auto simp: resolve_within_deadline_def abind_Some_iff attempt_Some_iff)

lemma terminates_poll_steps [terminating]:
  assumes "timed tm pf"
  shows "terminates tm (fail_timeout pf st d)" "terminates tm (ensure_before_deadline pf d st)"
    "terminates tm (sleep_until_next_poll pf d n)"
    "terminates tm (handle_actionability_failure pf st e d)"
    "terminates tm (handle_resolve_failure pf tg st e d)"
  unfolding handle_resolve_failure_def handle_actionability_failure_def ensure_before_deadline_def
    fail_timeout_def sleep_until_next_poll_def
  by (intro terminating assms)+

lemma terminates_poll_round [terminating]: "timed tm pf \<Longrightarrow> terminates tm (poll_round fx pf tg req d st)"
  unfolding poll_round_def by (intro terminating)

text \<open>A pause that starts before the deadline takes time: it sleeps, or it found the deadline passed.\<close>

lemma pause_moves:
  assumes "timed tm pf" "0 < n" "sleep_until_next_poll pf d n w = Some (r, w')"
  shows "tm w < expires_at d \<Longrightarrow> tm w < tm w'"
  using assms(2,3) now_bounds [OF assms(1)] sleep_bound [OF assms(1)]
  by (fastforce simp: sleep_until_next_poll_def abind_Some_iff remaining_def split: if_splits dest: now_ok)

lemma pause_moves_from:
  assumes "timed tm pf" "0 < n" "sleep_until_next_poll pf d n w1 = Some (r, w')" "tm w < expires_at d" "tm w \<le> tm w1"
  shows "tm w < tm w'"
  using pause_moves [OF assms(1-3)] runs_mono [OF terminates_poll_steps(3) [OF assms(1)] assms(3)] assms(4,5)
  by (cases "tm w1 < expires_at d") auto

lemma poll_intervals_positive: "0 < POLL_INTERVAL" "0 < STABILITY_POLL_INTERVAL"
  by (simp_all add: POLL_INTERVAL_def STABILITY_POLL_INTERVAL_def ns_per_ms_def)

lemma actionability_failure_moves:
  assumes "timed tm pf" "tm w < expires_at d" "tm w \<le> tm w1"
    and "handle_actionability_failure pf st e d w1 = Some (Inr st', w')"
  shows "tm w < tm w'"
proof -
  from assms(4) obtain st2 w2 n where w2: "ensure_before_deadline pf d st2 w1 = Some (Inr (), w2)"
    and pause: "sleep_until_next_poll pf d n w2 = Some (Inr (), w')" and n: "0 < n"
    by (auto simp: handle_actionability_failure_def Let_def poll_intervals_positive split: if_splits elim!: abind_InrE)
  have "tm w \<le> tm w2" using assms(3) runs_mono [OF terminates_poll_steps(2) [OF assms(1)] w2] by simp
  from pause_moves_from [OF assms(1) n pause assms(2) this] show ?thesis .
qed

lemma resolve_failure_moves:
  assumes "timed tm pf" "tm w < expires_at d" "tm w \<le> tm w1"
    and "handle_resolve_failure pf tg st e d w1 = Some (Inr st', w')"
  shows "tm w < tm w'"
proof -
  from assms(4) obtain u where "sleep_until_next_poll pf d POLL_INTERVAL w1 = Some (Inr u, w')"
    by (auto simp: handle_resolve_failure_def Let_def split: if_splits elim!: abind_InrE)
  from pause_moves_from [OF assms(1) poll_intervals_positive(1) this assms(2,3)] show ?thesis .
qed

lemma poll_round_moves:
  assumes "timed tm pf" "poll_round fx pf tg req d st w = Some (Inr (Continue st'), w')"
  shows "tm w < expires_at d \<and> tm w < tm w'"
  using assms(2) unfolding poll_round_def Let_def
proof (elim abind_InrE, goal_cases)
  case (1 out w1)
  note out = resolve_after_deadline [OF assms(1) _ 1(1)]
    runs_mono [OF terminates_resolve [OF assms(1)] 1(1)]
  note mono = runs_mono [OF terminates_trace_resolve(2) [OF assms(1)]]
    runs_mono [OF terminates_poll_steps(2) [OF assms(1)]] runs_mono [OF terminates_check_trace [OF assms(1)]]
  show ?case
  proof (cases out)
    case (Resolved h)
    then have "\<exists>w4 s e. tm w1 \<le> tm w4 \<and> handle_actionability_failure pf s e d w4 = Some (Inr st', w')"
      using 1(2)
      by (auto simp: attempt_Some_iff elim!: abind_InrE dest!: mono split: sum.splits if_splits)
        (meson order_trans)+
    then show ?thesis using actionability_failure_moves [OF assms(1)] out Resolved
      by (metis order_trans resolve_attempt_outcome.distinct(3))
  next
    case (ResolveFailed e)
    with 1(2) have "\<exists>s e. handle_resolve_failure pf tg s e d w1 = Some (Inr st', w')"
      by (auto elim!: abind_InrE intro!: exI)
    then show ?thesis using resolve_failure_moves [OF assms(1)] out ResolveFailed
      by (metis resolve_attempt_outcome.distinct(5))
  next
    case DeadlinePassed
    with 1(2) show ?thesis by (auto simp: fail_timeout_def elim!: abind_InrE)
  qed
qed

lemma terminates_poll_loop [terminating]: "timed tm pf \<Longrightarrow> terminates tm (execute_poll_loop fx pf tg req d)"
  unfolding execute_poll_loop_def by (rule terminates_loop) (intro terminating, auto dest: poll_round_moves)

section \<open>Sampling and settling\<close>

lemma terminates_sample_round [terminating]: "timed tm pf \<Longrightarrow> terminates tm (sample_round fx pf h d t0 s)"
  unfolding sample_round_def by (intro terminating)

lemma sample_round_moves:
  assumes "timed tm pf" "sample_round fx pf h d t0 s w = Some (Inr (Continue s'), w')"
  shows "tm w < expires_at d \<and> tm w < tm w'"
proof -
  from assms(2) obtain b t w1 w2 w3 k u where
      bounds: "call (pf_get_element_bounds pf h d) w = Some (Inr b, w1)"
    and now: "get_now pf w1 = Some (Inr t :: app_error + nat, w2)"
    and slice: "take_slice pf STABILITY_SAMPLE_INTERVAL d w2 = Some (Inr k, w3)"
    and sleep: "sleep_for pf k w3 = Some (u :: app_error + unit, w')"
    by (auto simp: sample_round_def Let_def amap_err_Some_iff simp del: act_simps(4)
        split: prod.splits if_splits elim!: abind_InrE)
  have "tm w \<le> tm w1" using call_mono [OF timed_calls(3) [OF assms(1)] bounds] .
  moreover have "tm w1 \<le> tm w2" using now_bounds [OF assms(1) now] by simp
  moreover have "tm w2 \<le> tm w3" using runs_mono [OF terminates_take_slice [OF assms(1)] slice] .
  moreover note take_slice_bounds [OF assms(1) slice] sleep_bound [OF assms(1) sleep]
  ultimately show ?thesis by (auto simp: STABILITY_SAMPLE_INTERVAL_def ns_per_ms_def)
qed

lemma terminates_sample_loop [terminating]: "timed tm pf \<Longrightarrow> terminates tm (loop (sample_round fx pf h d t0) s)"
  by (rule terminates_loop) (intro terminating, auto dest: sample_round_moves)

lemma terminates_stable_preflight [terminating]: "timed tm pf \<Longrightarrow> terminates tm (stable_preflight fx pf tg h d req)"
  unfolding stable_preflight_def Let_def by (intro terminating) (auto intro!: terminating split: app_error.split)

lemma terminates_settle_round [terminating]: "timed tm pf \<Longrightarrow> terminates tm (settle_round pf h d sd x post el)"
  unfolding settle_round_def by (intro terminating)

lemma settle_round_moves:
  assumes "timed tm pf" "settle_round pf h d sd x post el w = Some (Inr (Continue s'), w')"
  shows "tm w < expires_at sd \<and> tm w < tm w'"
proof -
  from assms(2) obtain t w1 w2 u r where now: "get_now pf w = Some (Inr t :: adapter_error + nat, w1)" "SETTLE < remaining t sd"
    and sleep: "sleep_for pf SETTLE w1 = Some (u :: adapter_error + unit, w2)"
    and live: "call (pf_get_live_element pf h d) w2 = Some (r, w')"
    by (auto simp: settle_round_def attempt_Some_iff simp del: act_simps(4) split: if_splits elim!: abind_InrE)
  have "tm w2 \<le> tm w'" using call_mono [OF timed_calls(2) [OF assms(1)] live] .
  with now_bounds [OF assms(1) now(1)] now(2) sleep_bound [OF assms(1) sleep] show ?thesis
    by (auto simp: remaining_def SETTLE_def ns_per_ms_def)
qed

lemma terminates_settle_loop [terminating]: "timed tm pf \<Longrightarrow> terminates tm (loop (settle_round pf h d sd x post) el)"
  by (rule terminates_loop) (intro terminating, auto dest: settle_round_moves)

lemma terminates_read_before [terminating]: "timed tm pf \<Longrightarrow> terminates tm (read_before pf h d a)"
  unfolding read_before_def by (intro terminating)

lemma terminates_read_expected [terminating]: "timed tm pf \<Longrightarrow> terminates tm (read_expected_text pf h d req b)"
  unfolding read_expected_text_def by (intro terminating) (auto intro!: terminating split: action.split option.split)

lemma terminates_execute_verified [terminating]: "timed tm pf \<Longrightarrow> terminates tm (execute_verified_action pf h req l)"
  unfolding execute_verified_action_def by (intro terminating)

section \<open>The whole operation\<close>

lemma terminates_presentation [terminating]:
  assumes "timed tm pf"
  shows "terminates tm (before_dispatch pf pre l)" "terminates tm (after_dispatch pf pre a r)"
    "terminates tm (settled_surfaces pf proc d)"
  unfolding before_dispatch_def after_dispatch_def settled_surfaces_def by (intro terminating assms)+

lemma terminates_resolve_preflight [terminating]:
  "timed tm pf \<Longrightarrow> terminates tm (resolve_and_preflight fx pf tg d req l)"
  unfolding resolve_and_preflight_def by (intro terminating)

lemma terminates_dispatch [terminating]: "timed tm pf \<Longrightarrow> terminates tm (dispatch_resolved fx pf tg d req l)"
  unfolding dispatch_resolved_def by (intro terminating)

lemma terminates_focus [terminating]: "timed tm pf \<Longrightarrow> terminates tm (focus_entry_window pf e l)"
  unfolding focus_entry_window_def focus_exact_window_def by (intro terminating)

lemma terminates_single_shot [terminating]:
  "timed tm pf \<Longrightarrow> (\<And>tg d req l. terminates tm (dispatch tg d req l)) \<Longrightarrow>
     terminates tm (execute_single_shot pf tg req d l dispatch)"
  unfolding execute_single_shot_def by (intro terminating)

lemma terminates_capture [terminating]:
  "timed tm pf \<Longrightarrow> terminates tm (capture pf e ph d)"
  unfolding capture_def by (rule terminates_call) (simp add: timed_def later_def split_beta)

lemma terminates_artifacts [terminating]:
  assumes "timed tm pf"
  shows "terminates tm (capture_pre_artifact pf e d)" "terminates tm (finish_artifacts pf tg d pre)"
  unfolding capture_pre_artifact_def finish_artifacts_def pre_trace_capture_deadline_def
  by (intro terminating assms)+

lemma terminates_operation_deadline [terminating]: "timed tm pf \<Longrightarrow> terminates tm (operation_deadline pf inh req)"
  unfolding operation_deadline_def by (intro terminating)

lemma terminates_with_deadline [terminating]:
  "timed tm pf \<Longrightarrow> (\<And>tg d req l. terminates tm (dispatch tg d req l)) \<Longrightarrow>
     terminates tm (execute_with_deadline fx pf tg req d dispatch)"
  unfolding execute_with_deadline_def by (intro terminating)

lemma terminates_enrich [terminating]: "timed tm pf \<Longrightarrow> terminates tm (enrich_with_process_state pf e err d)"
  unfolding enrich_with_process_state_def process_identity_matches_def by (intro terminating)

lemma terminates_auto_wait [terminating]:
  "timed tm pf \<Longrightarrow> (\<And>tg d req l. terminates tm (dispatch tg d req l)) \<Longrightarrow>
     terminates tm (execute_with_auto_wait fx pf inh tg req dispatch)"
  unfolding execute_with_auto_wait_def execute_with_auto_wait_and_lease_def by (intro terminating)

lemma terminates_execute_entry: "timed tm pf \<Longrightarrow> terminates tm (execute_entry fx pf inh e req)"
  unfolding execute_entry_def by (intro terminating)

section \<open>A platform\<close>

text \<open>
  A button that can be clicked by an accessibility action, on a platform whose world is the time;
  every call takes a nanosecond.  \<open>live\<close> is what reading the element gives.
\<close>

definition sample_live :: "bool \<Rightarrow> live_element" where
  "sample_live on =
     \<lparr>le_identity = \<lparr>li_name = Known ''OK'', li_description = Absent, li_identifiers = evidence_absent\<rparr>,
      le_state = \<lparr>st_role = role_as_str RButton, st_states = [], st_value = None, st_enabled = Some on,
        st_hidden = Some False, st_offscreen = Some False\<rparr>,
      le_states_complete = True,
      le_bounds = Some \<lparr>rect_x = Fin 4, rect_y = Fin 8, rect_width = Fin 16, rect_height = Fin 1\<rparr>,
      le_available_actions = [CLICK]\<rparr>"

definition tick :: "'a \<Rightarrow> nat \<Rightarrow> 'a \<times> nat" where
  "tick r w = (r, w + 1)"

definition sample_platform :: "live_element \<Rightarrow> nat platform" where
  "sample_platform live =
     \<lparr>pf_now = (\<lambda>w. (w, w + 1)),
      pf_sleep = (\<lambda>n w. w + n),
      pf_resolve_element_strict = (\<lambda>e d. tick (Inr 7)),
      pf_get_live_element = (\<lambda>h d. tick (Inr live)),
      pf_get_element_bounds = (\<lambda>h d. tick (Inr (le_bounds live))),
      pf_get_text_selection = (\<lambda>h d. tick (Inr None)),
      pf_hit_test = (\<lambda>h p d. tick (Inr ReachesTarget)),
      pf_list_surfaces = (\<lambda>p d. tick (Inr [])),
      pf_list_apps = (\<lambda>d. tick (Inr [])),
      pf_process_state = (\<lambda>p d. tick (Inr Running)),
      pf_resolve_window_strict = (\<lambda>v d. tick (Inr v)),
      pf_acquire_interaction_lease = (\<lambda>d. tick (Inr \<lparr>lease_deadline = d, contention_count = 0\<rparr>)),
      pf_drop_lease = (\<lambda>l w. w + 1),
      pf_focus_window = (\<lambda>v l. tick (Inr ())),
      pf_scroll_into_view = (\<lambda>h l. tick (Inr ())),
      pf_execute_action = (\<lambda>h req l. tick (Inr (from_execution (req_action req) [step_succeeded CLICK]))),
      pf_trace = (\<lambda>ev j. tick (Inr ())),
      pf_cursor_travel = (\<lambda>p l w. w + 1),
      pf_cursor_submit = (\<lambda>p b c ph w. w + 1),
      pf_capture_screenshot = (\<lambda>e ph d. tick (ArtSkipped ''off'')),
      pf_emit_artifacts = (\<lambda>r a b w. w + 1)\<rparr>"

lemma sample_platform_timed: "timed (\<lambda>w. w) (sample_platform live)"
  by (simp add: timed_def later_def sample_platform_def tick_def)

section \<open>Properties\<close>

text \<open>
  C3. Acting on a ref always comes to an end: whatever the platform answers, as long as its clock
  does not go back and sleeping takes the time asked for, the operation returns a result or an
  error, because every round of waiting, sampling or settling moves towards its deadline.
\<close>

theorem acting_returns:
  assumes "timed tm pf"
  shows "\<exists>r w'. execute_entry fx pf inh e req w = Some (r, w') \<and> tm w \<le> tm w'"
  using runsD [OF terminates_execute_entry [OF assms]] by blast

theorem acting_returns_witness:
  "\<exists>r w'. execute_entry sum_hash (sample_platform (sample_live False)) None (sample_entry [] [0] None)
     (with_timeout_ms (Some 5000) (headless_request Click)) 0 = Some (r, w') \<and> 0 \<le> w'"
  using acting_returns [OF sample_platform_timed, of sum_hash "sample_live False" None "sample_entry [] [0] None"
      "with_timeout_ms (Some 5000) (headless_request Click)" 0] by blast

end
