(* ===== verification/RefActionLog.thy ===== *)
theory RefActionLog
  imports RefActionTime
begin

text \<open>
  What acting on a ref does to the outside, in which order.  \<open>logged pf\<close> is a platform whose world
  also records the calls that other agents or the user could notice: taking and returning the
  lease, focusing a window, scrolling, executing an action, the latter with the disposition
  the platform reported for it, the mutations that commands ask for directly, and, for platforms that
  observe, the observations and the switching on of renderers.  \<open>emits m S\<close>
  relates the result of an action to what it adds to the log.
\<close>

section \<open>The log\<close>

datatype mutation =
    MutWindow window_info window_op
  | MutClose app_info bool
  | MutDismiss nat
  | MutDismissAll "string option"
  | MutNotification nat string

datatype event =
    EvAcquire | EvRelease | EvFocus | EvScroll | EvExecute action_request delivery_semantics | EvMutate mutation
  | EvObserve "process_identity option" bool | EvActivate process_identity

definition pass_op :: "('w \<Rightarrow> 'a \<times> 'w) \<Rightarrow> 'w \<times> event list \<Rightarrow> 'a \<times> 'w \<times> event list" where
  "pass_op f = (\<lambda>(w, l). let (r, w') = f w in (r, w', l))"

definition log_op :: "('a \<Rightarrow> event list) \<Rightarrow> ('w \<Rightarrow> 'a \<times> 'w) \<Rightarrow> 'w \<times> event list \<Rightarrow> 'a \<times> 'w \<times> event list" where
  "log_op ev f = (\<lambda>(w, l). let (r, w') = f w in (r, w', l @ ev r))"

definition pass_eff :: "('w \<Rightarrow> 'w) \<Rightarrow> 'w \<times> event list \<Rightarrow> 'w \<times> event list" where
  "pass_eff g = (\<lambda>(w, l). (g w, l))"

definition outcome_disposition :: "adapter_error + action_result \<Rightarrow> delivery_semantics" where
  "outcome_disposition r = (case r of Inl e \<Rightarrow> err_disposition e | Inr res \<Rightarrow> res_disposition res)"

definition logged :: "'w platform \<Rightarrow> ('w \<times> event list) platform" where
  "logged pf =
     \<lparr>pf_now = pass_op (pf_now pf),
      pf_sleep = (\<lambda>n. pass_eff (pf_sleep pf n)),
      pf_resolve_element_strict = (\<lambda>e d. pass_op (pf_resolve_element_strict pf e d)),
      pf_get_live_element = (\<lambda>h d. pass_op (pf_get_live_element pf h d)),
      pf_get_element_bounds = (\<lambda>h d. pass_op (pf_get_element_bounds pf h d)),
      pf_get_text_selection = (\<lambda>h d. pass_op (pf_get_text_selection pf h d)),
      pf_hit_test = (\<lambda>h p d. pass_op (pf_hit_test pf h p d)),
      pf_list_surfaces = (\<lambda>p d. pass_op (pf_list_surfaces pf p d)),
      pf_list_apps = (\<lambda>d. pass_op (pf_list_apps pf d)),
      pf_process_state = (\<lambda>p d. pass_op (pf_process_state pf p d)),
      pf_resolve_window_strict = (\<lambda>v d. pass_op (pf_resolve_window_strict pf v d)),
      pf_acquire_interaction_lease =
        (\<lambda>d. log_op (\<lambda>r. if is_ok r then [EvAcquire] else []) (pf_acquire_interaction_lease pf d)),
      pf_drop_lease = (\<lambda>l (w, es). (pf_drop_lease pf l w, es @ [EvRelease])),
      pf_focus_window = (\<lambda>v l. log_op (\<lambda>_. [EvFocus]) (pf_focus_window pf v l)),
      pf_scroll_into_view = (\<lambda>h l. log_op (\<lambda>_. [EvScroll]) (pf_scroll_into_view pf h l)),
      pf_execute_action =
        (\<lambda>h req l. log_op (\<lambda>r. [EvExecute req (outcome_disposition r)]) (pf_execute_action pf h req l)),
      pf_trace = (\<lambda>ev j. pass_op (pf_trace pf ev j)),
      pf_cursor_travel = (\<lambda>p l. pass_eff (pf_cursor_travel pf p l)),
      pf_cursor_submit = (\<lambda>p b c ph. pass_eff (pf_cursor_submit pf p b c ph)),
      pf_capture_screenshot = (\<lambda>e s d. pass_op (pf_capture_screenshot pf e s d)),
      pf_emit_artifacts = (\<lambda>r a b. pass_eff (pf_emit_artifacts pf r a b))\<rparr>"

section \<open>What an action adds to the log\<close>

definition emits :: "('w \<times> event list, 'e, 'a) act \<Rightarrow> ('e + 'a \<Rightarrow> event list \<Rightarrow> bool) \<Rightarrow> bool" where
  "emits m S \<longleftrightarrow> (\<forall>w l r w' l'. m (w, l) = Some (r, w', l') \<longrightarrow> (\<exists>es. l' = l @ es \<and> S r es))"

abbreviation quiet :: "('w \<times> event list, 'e, 'a) act \<Rightarrow> bool" where
  "quiet m \<equiv> emits m (\<lambda>_ es. es = [])"

named_theorems quieting \<open>actions that log nothing\<close>

lemma emitsD: "emits m S \<Longrightarrow> m (w, l) = Some (r, w', l') \<Longrightarrow> \<exists>es. l' = l @ es \<and> S r es"
  unfolding emits_def by blast

lemma emits_weaken: "emits m S \<Longrightarrow> (\<And>r es. S r es \<Longrightarrow> T r es) \<Longrightarrow> emits m T"
  unfolding emits_def by blast

lemma emits_bind:
  assumes "emits m S" "\<And>x. emits (f x) (T x)"
    and "\<And>e es. S (Inl e) es \<Longrightarrow> U (Inl e) es"
    and "\<And>x es r es'. S (Inr x) es \<Longrightarrow> T x r es' \<Longrightarrow> U r (es @ es')"
  shows "emits (abind m f) U"
  unfolding emits_def
proof (intro allI impI)
  fix w l r w' l' assume "abind m f (w, l) = Some (r, w', l')"
  then consider e where "m (w, l) = Some (Inl e, w', l')" "r = Inl e"
    | x w2 l2 where "m (w, l) = Some (Inr x, w2, l2)" "f x (w2, l2) = Some (r, w', l')"
    unfolding abind_Some_iff by auto
  then show "\<exists>es. l' = l @ es \<and> U r es"
  proof cases
    case 1
    then show ?thesis using emitsD [OF assms(1)] assms(3) by blast
  next
    case 2
    obtain es where es: "l2 = l @ es" "S (Inr x) es" using emitsD [OF assms(1) 2(1)] by blast
    obtain es' where "l' = l2 @ es'" "T x r es'" using emitsD [OF assms(2) 2(2)] by blast
    then show ?thesis using assms(4) es by auto
  qed
qed

lemma emits_quiet_bind:
  assumes "quiet m" "\<And>x. emits (f x) S" "\<And>e. S (Inl e) []"
  shows "emits (abind m f) S"
  by (rule emits_bind [OF assms(1,2)]) (auto simp: assms(3))

lemma quiet_bind [quieting]: "quiet m \<Longrightarrow> (\<And>x. quiet (f x)) \<Longrightarrow> quiet (abind m f)"
  by (rule emits_quiet_bind) auto

lemma emits_attempt: "emits m S \<Longrightarrow> emits (attempt m) (\<lambda>r es. case r of Inl _ \<Rightarrow> False | Inr x \<Rightarrow> S x es)"
  by (auto simp: emits_def attempt_Some_iff)

lemma quiet_attempt [quieting]: "quiet m \<Longrightarrow> quiet (attempt m)"
  by (auto simp: emits_def attempt_Some_iff)

lemma emits_map_err: "emits m (\<lambda>r. S (res_map_err f r)) \<Longrightarrow> emits (amap_err f m) S"
  by (auto simp: emits_def amap_err_Some_iff)

lemma quiet_map_err [quieting]: "quiet m \<Longrightarrow> quiet (amap_err f m)"
  by (rule emits_map_err)

lemma emits_pure:
  "S (Inr x) [] \<Longrightarrow> emits (ret x) S" "S (Inl e) [] \<Longrightarrow> emits (fail_with e) S" "S r [] \<Longrightarrow> emits (lift_res r) S"
  by (auto simp: emits_def)

lemma quiet_pure [quieting]: "quiet (ret x)" "quiet (fail_with e)" "quiet (lift_res r)"
  by (auto simp: emits_def)

lemma quiet_call [quieting]: "quiet (call (pass_op f))"
  by (auto simp: emits_def pass_op_def split_beta)

lemma quiet_effect [quieting]: "quiet (effect (pass_eff g))"
  by (auto simp: emits_def pass_eff_def)

lemma emits_log_op: "(\<And>r. S r (ev r)) \<Longrightarrow> emits (call (log_op ev f)) S"
  by (auto simp: emits_def log_op_def split_beta)

lemma logged_calls [simp]:
  "pf_now (logged pf) = pass_op (pf_now pf)"
  "pf_sleep (logged pf) n = pass_eff (pf_sleep pf n)"
  "pf_resolve_element_strict (logged pf) e d = pass_op (pf_resolve_element_strict pf e d)"
  "pf_get_live_element (logged pf) h d = pass_op (pf_get_live_element pf h d)"
  "pf_get_element_bounds (logged pf) h d = pass_op (pf_get_element_bounds pf h d)"
  "pf_get_text_selection (logged pf) h d = pass_op (pf_get_text_selection pf h d)"
  "pf_hit_test (logged pf) h p d = pass_op (pf_hit_test pf h p d)"
  "pf_list_surfaces (logged pf) ip d = pass_op (pf_list_surfaces pf ip d)"
  "pf_list_apps (logged pf) d = pass_op (pf_list_apps pf d)"
  "pf_process_state (logged pf) ip d = pass_op (pf_process_state pf ip d)"
  "pf_resolve_window_strict (logged pf) v d = pass_op (pf_resolve_window_strict pf v d)"
  "pf_acquire_interaction_lease (logged pf) d =
     log_op (\<lambda>r. if is_ok r then [EvAcquire] else []) (pf_acquire_interaction_lease pf d)"
  "pf_focus_window (logged pf) v l = log_op (\<lambda>_. [EvFocus]) (pf_focus_window pf v l)"
  "pf_scroll_into_view (logged pf) h l = log_op (\<lambda>_. [EvScroll]) (pf_scroll_into_view pf h l)"
  "pf_execute_action (logged pf) h req l =
     log_op (\<lambda>r. [EvExecute req (outcome_disposition r)]) (pf_execute_action pf h req l)"
  "pf_trace (logged pf) ev j = pass_op (pf_trace pf ev j)"
  "pf_cursor_travel (logged pf) p l = pass_eff (pf_cursor_travel pf p l)"
  "pf_cursor_submit (logged pf) p b c ph = pass_eff (pf_cursor_submit pf p b c ph)"
  "pf_capture_screenshot (logged pf) e s d = pass_op (pf_capture_screenshot pf e s d)"
  "pf_emit_artifacts (logged pf) r0 a a' = pass_eff (pf_emit_artifacts pf r0 a a')"
  by (simp_all add: logged_def)

lemma emits_drop_lease: "S (Inr ()) [EvRelease] \<Longrightarrow> emits (effect (pf_drop_lease (logged pf) l)) S"
  by (auto simp: emits_def logged_def)

lemma quiet_loop [quieting]:
  assumes "\<And>s. quiet (body s)"
  shows "quiet (loop body s)"
proof -
  have "snd w' = l" if "loop body s (w, l) = Some (r, w')" for w l r w'
    using loop_invariant [OF that, of "\<lambda>_ w. snd w = l" "\<lambda>_ w. snd w = l"] emitsD [OF assms]
    by (fastforce simp: hoare_def split: sum.splits flow.splits)
  then show ?thesis by (fastforce simp: emits_def)
qed

text \<open>Branching.\<close>

lemma quiet_if [quieting]: "quiet m \<Longrightarrow> quiet n \<Longrightarrow> quiet (if b then m else n)"
  by simp

lemma quiet_let [quieting]: "(\<And>x. quiet (f x)) \<Longrightarrow> quiet (Let x f)"
  by (simp add: Let_def)

lemma quiet_cases [quieting]:
  "(\<And>x. quiet (f x)) \<Longrightarrow> (\<And>y. quiet (g y)) \<Longrightarrow> quiet (case_sum f g r)"
  "quiet m \<Longrightarrow> (\<And>x. quiet (h x)) \<Longrightarrow> quiet (case_option m h v)"
  "(\<And>x y. quiet (k x y)) \<Longrightarrow> quiet (case_prod k z)"
  "quiet n \<Longrightarrow> (\<And>x. quiet (i x)) \<Longrightarrow> (\<And>c. quiet (j c)) \<Longrightarrow> quiet (case_resolve_attempt_outcome i j n out)"
  "quiet a \<Longrightarrow> (\<And>x y z. quiet (b x y z)) \<Longrightarrow> quiet c \<Longrightarrow> quiet (case_hit_test_result a b c hr)"
  by (simp_all split: sum.split option.split prod.split resolve_attempt_outcome.split
      hit_test_result.split)

section \<open>Reading, checking and waiting are quiet\<close>

lemma quiet_clock [quieting]:
  "quiet (get_now (logged pf))" "quiet (sleep_for (logged pf) n)"
  by (auto simp: emits_def get_now_def sleep_for_def pass_op_def pass_eff_def split_beta)

lemma quiet_small [quieting]:
  "quiet (check_expired (logged pf) d)" "quiet (make_timeout_error (logged pf) d)"
  "quiet (cap_deadline (logged pf) n d)" "quiet (take_slice (logged pf) n d)"
  unfolding check_expired_def make_timeout_error_def cap_deadline_def take_slice_def by (intro quieting)+

lemma quiet_trace [quieting]: "quiet (trace (logged pf) ev j)" "quiet (trace_quietly (logged pf) ev j)"
  unfolding trace_quietly_def trace_def logged_calls by (intro quieting)+

lemma quiet_trace_resolve [quieting]:
  "quiet (trace_resolve_error (logged pf) rid e)" "quiet (trace_resolve_ok (logged pf) rid)"
  unfolding trace_resolve_error_def trace_resolve_ok_def by (intro quieting)+

lemma quiet_probe [quieting]: "quiet (probe_points (logged pf) h d ps first ev)"
proof (induction ps arbitrary: first ev)
  case Nil
  show ?case unfolding probe_points.simps by (intro quieting)
next
  case (Cons p ps)
  show ?case unfolding probe_points.simps logged_calls by (intro quieting Cons)
qed

lemma quiet_checks [quieting]:
  "quiet (check_actionability_with_trace fx (logged pf) tg h d req sx)"
  unfolding check_actionability_with_trace_def check_live_with_stability_def check_with_stability_def
    receives_events_check_def logged_calls
  by (intro quieting)

lemma quiet_opt_call [quieting]: "quiet (opt_call (pass_op f))"
  unfolding opt_call_def by (intro quieting)

lemma quiet_poll_round [quieting]: "quiet (poll_round fx (logged pf) tg req d st)"
  unfolding poll_round_def resolve_within_deadline_def classify_error_def handle_resolve_failure_def
    handle_actionability_failure_def ensure_before_deadline_def fail_timeout_def sleep_until_next_poll_def
    logged_calls
  by (intro quieting)

lemma quiet_poll_loop [quieting]: "quiet (execute_poll_loop fx (logged pf) tg req d)"
  unfolding execute_poll_loop_def by (intro quieting)

lemma quiet_sample_round [quieting]: "quiet (sample_round fx (logged pf) h d t0 s)"
  unfolding sample_round_def logged_calls by (intro quieting)

lemma quiet_stable_preflight [quieting]: "quiet (stable_preflight fx (logged pf) tg h d req)"
  unfolding stable_preflight_def Let_def by (intro quieting) (auto intro!: quieting split: app_error.split)

lemma quiet_settle [quieting]: "quiet (settle_round (logged pf) h d sd x post el)"
  unfolding settle_round_def logged_calls by (intro quieting)

lemma quiet_reads [quieting]:
  "quiet (read_before (logged pf) h d a)" "quiet (read_expected_text (logged pf) h d req b)"
  unfolding read_before_def read_expected_text_def logged_calls
  by (intro quieting, auto intro!: quieting split: action.split option.split)

lemma quiet_presentation [quieting]:
  "quiet (before_dispatch (logged pf) pre l)" "quiet (after_dispatch (logged pf) pre a r)"
  "quiet (settled_surfaces (logged pf) proc d)"
  unfolding before_dispatch_def after_dispatch_def settled_surfaces_def logged_calls by (intro quieting)+

lemma quiet_capture [quieting]: "quiet (capture (logged pf) e ph d)"
  by (auto simp: emits_def capture_def pass_op_def split_beta)

lemma quiet_artifacts [quieting]:
  "quiet (capture_pre_artifact (logged pf) e d)" "quiet (finish_artifacts (logged pf) tg d pre)"
  unfolding capture_pre_artifact_def finish_artifacts_def pre_trace_capture_deadline_def logged_calls
  by (intro quieting)+

lemma quiet_operation_deadline [quieting]: "quiet (operation_deadline (logged pf) inh req)"
  unfolding operation_deadline_def by (intro quieting)

lemma quiet_enrich [quieting]: "quiet (enrich_with_process_state (logged pf) e err d)"
  unfolding enrich_with_process_state_def process_identity_matches_def logged_calls by (intro quieting)

text \<open>\<open>silent m\<close>: moreover no error comes out.\<close>

abbreviation silent :: "('w \<times> event list, 'e, 'a) act \<Rightarrow> bool" where
  "silent m \<equiv> emits m (\<lambda>r es. es = [] \<and> is_ok r)"

named_theorems silence \<open>quiet actions without errors\<close>

lemma silent_bind_emits: "silent m \<Longrightarrow> (\<And>x. emits (f x) S) \<Longrightarrow> emits (abind m f) S"
  by (rule emits_bind [where S = "\<lambda>r es. es = [] \<and> is_ok r" and T = "\<lambda>_. S"]) (auto simp: is_ok_iff)

lemma silent_bind [silence]: "silent m \<Longrightarrow> (\<And>x. silent (f x)) \<Longrightarrow> silent (abind m f)"
  by (rule silent_bind_emits)

lemma silent_pure [silence]: "silent (ret x)"
  by (auto simp: emits_def is_ok_iff)

lemma silent_attempt [silence]: "quiet m \<Longrightarrow> silent (attempt m)"
  by (auto simp: emits_def attempt_Some_iff is_ok_iff)

lemma silent_clock [silence]:
  "silent (get_now (logged pf))" "silent (sleep_for (logged pf) n)" "silent (effect (pass_eff g))"
  by (auto simp: emits_def get_now_def sleep_for_def pass_op_def pass_eff_def split_beta is_ok_iff)

lemma emits_if: "(b \<Longrightarrow> emits m S) \<Longrightarrow> (\<not> b \<Longrightarrow> emits n S) \<Longrightarrow> emits (if b then m else n) S"
  by simp

lemma silent_cases [silence]:
  "silent m \<Longrightarrow> silent n \<Longrightarrow> silent (if b then m else n)"
  "silent m \<Longrightarrow> (\<And>x. silent (h x)) \<Longrightarrow> silent (case_option m h v)"
  by (simp_all split: option.split)

lemma silent_loop [silence]:
  assumes "\<And>s. silent (body s)"
  shows "silent (loop body s)"
proof -
  have body: "hoare (\<lambda>w. snd w = l) (body s) (\<lambda>r w. case r of Inl e \<Rightarrow> False
      | Inr (Continue s') \<Rightarrow> snd w = l | Inr (Done x) \<Rightarrow> snd w = l)" for s l
    using emitsD [OF assms] by (fastforce simp: hoare_def is_ok_iff split: sum.splits flow.splits)
  have "snd w' = l \<and> is_ok r" if "loop body s (w, l) = Some (r, w')" for w l r w'
    using loop_invariant [OF that, of "\<lambda>_ w. snd w = l" "\<lambda>r w. snd w = l \<and> is_ok r"] body
    by (simp add: is_ok_iff cong: sum.case_cong flow.case_cong)
  then show ?thesis by (fastforce simp: emits_def)
qed

lemma silent_small [silence]:
  "silent (check_expired (logged pf) d)" "silent (cap_deadline (logged pf) n d)"
  "silent (trace_quietly (logged pf) ev j)" "silent (make_timeout_error (logged pf) d)"
  unfolding check_expired_def cap_deadline_def trace_quietly_def make_timeout_error_def by (intro silence quieting)+

lemma silent_artifacts [silence]: "silent (finish_artifacts (logged pf) tg d pre)"
  unfolding finish_artifacts_def capture_def logged_calls
  by (intro silence) (auto simp: emits_def pass_op_def split_beta)

lemma silent_opt_call [silence]: "silent (opt_call (pass_op f))"
  unfolding opt_call_def by (intro silence quieting)

lemma silent_selection:
  "silent (abind (opt_call (pass_op f)) (\<lambda>sel. ret (g sel)))" "silent (abind (ret None) (\<lambda>sel. ret (g sel)))"
  by (intro silence)+

lemma silent_reads:
  "silent (read_before (logged pf) h d a)" "silent (read_expected_text (logged pf) h d req b)"
  unfolding read_before_def
  by (simp_all add: read_expected_text_def silent_pure silent_opt_call silent_selection Let_def
      split: action.split option.split)

lemma silent_settle [silence]: "silent (settle_round (logged pf) h d sd x post el)"
  unfolding settle_round_def logged_calls by (intro silence quieting)

section \<open>The phases under the lease\<close>

text \<open>
  The disposition of an operation's error says nothing was delivered only when the platform said so
  of the execution.
\<close>

definition honest :: "adapter_error + 'a \<Rightarrow> delivery_semantics \<Rightarrow> bool" where
  "honest r s = (case r of Inl e \<Rightarrow> err_disposition e = NotDelivered \<longrightarrow> s = NotDelivered | Inr _ \<Rightarrow> True)"

definition executed_once :: "action_request \<Rightarrow> adapter_error + 'a \<Rightarrow> event list \<Rightarrow> bool" where
  "executed_once req r es = (\<exists>s. es = [EvExecute req s] \<and> honest r s)"

lemma honest_simps [simp]:
  "honest (Inr x) s" "honest (Inl e) s \<longleftrightarrow> (err_disposition e = NotDelivered \<longrightarrow> s = NotDelivered)"
  by (simp_all add: honest_def)

lemma verification_error_disposition [simp]:
  "err_disposition (verification_error r o' e) = (if res_disposition r = NotDelivered then NotDelivered else DeliveredUnverified)"
  by (simp add: verification_error_def Let_def with_disposition_def with_details_def)

lemma honest_verify: "honest (verify_result a post r observed) (res_disposition r)"
  by (simp add: verify_result_def Let_def split: sum.split option.split bool.split)

lemma enrich_execution_disposition [simp]: "err_disposition (enrich_execution_error post observed e) = err_disposition e"
  by (simp add: enrich_execution_error_def Let_def split: sum.split)

lemma emits_execute_verified:
  "emits (execute_verified_action (logged pf) h req l) (executed_once req)"
proof -
  have direct: "emits (call (pf_execute_action (logged pf) h req l)) (executed_once req)"
    unfolding logged_calls by (rule emits_log_op) (auto simp: executed_once_def outcome_disposition_def split: sum.split)
  have execution: "emits (attempt (call (pf_execute_action (logged pf) h req l)) :: (_, adapter_error, _) act)
      (\<lambda>r es. case r of Inl _ \<Rightarrow> False | Inr x \<Rightarrow> es = [EvExecute req (outcome_disposition x)])"
    unfolding logged_calls by (rule emits_attempt [OF emits_log_op]) simp
  have settled: "emits (if (case x of Inl e \<Rightarrow> err_disposition e = NotDelivered | Inr _ \<Rightarrow> False) then lift_res x
      else abind (attempt (call (pf_get_live_element (logged pf) h d))) (\<lambda>observed.
           abind (cap_deadline (logged pf) SETTLE_BUDGET d) (\<lambda>sd.
           abind (loop (settle_round (logged pf) h d sd (is_ok x) post) observed) (\<lambda>observed.
             lift_res (case x of Inl e \<Rightarrow> Inl (enrich_execution_error post observed e)
                       | Inr r \<Rightarrow> verify_result a post r observed)))))
      (\<lambda>r es. es = [] \<and> honest r (outcome_disposition x))" for x d post a
    unfolding logged_calls
    by (intro emits_if silent_bind_emits silence quieting emits_pure)
      (auto simp: honest_verify outcome_disposition_def split: sum.splits)
  show ?thesis
    unfolding execute_verified_action_def Let_def
    by (intro emits_if direct silent_bind_emits [OF silent_reads(1)] silent_bind_emits [OF silent_reads(2)]
        emits_bind [OF execution settled])
      (auto simp: executed_once_def)
qed

text \<open>The request that reaches the platform is the caller's, for the stored process.\<close>

definition bound_request :: "ref_target \<Rightarrow> action_request \<Rightarrow> action_request \<Rightarrow> bool" where
  "bound_request tg req req' \<longleftrightarrow>
     req_action req' = req_action req \<and> req_policy req' \<in> {req_policy req, headless} \<and>
     (\<exists>proc. expected_process_of (rt_entry tg) = Inr proc \<and> req_expected_process req' = Some proc)"

definition dispatched :: "ref_target \<Rightarrow> action_request \<Rightarrow> adapter_error + 'a \<Rightarrow> event list \<Rightarrow> bool" where
  "dispatched tg req r es \<longleftrightarrow>
     (\<exists>sc ex. es = sc @ ex \<and> sc \<in> {[], [EvScroll]} \<and>
       (ex = [] \<and> \<not> is_ok r \<or> (\<exists>req'. bound_request tg req req' \<and> executed_once req' r ex)))"

lemma is_ok_res_map_err [simp]: "is_ok (res_map_err f r) = is_ok r"
  by (cases r) auto

lemma dispatched_error: "\<not> is_ok r \<Longrightarrow> es \<in> {[], [EvScroll]} \<Longrightarrow> dispatched tg req r es"
  unfolding dispatched_def by (rule exI [of _ es]) auto

lemma dispatched_scrolled:
  "es \<in> {[], [EvScroll]} \<Longrightarrow> bound_request tg req req' \<Longrightarrow> executed_once req' r ex \<Longrightarrow> dispatched tg req r (es @ ex)"
  unfolding dispatched_def by blast

lemma quiet_emits: "quiet m \<Longrightarrow> (\<And>r. S r []) \<Longrightarrow> emits m S"
  by (erule emits_weaken) simp

lemma emits_cases:
  "(\<And>x. r = Inl x \<Longrightarrow> emits (f x) S) \<Longrightarrow> (\<And>y. r = Inr y \<Longrightarrow> emits (g y) S) \<Longrightarrow> emits (case_sum f g r) S"
  by (simp split: sum.split)

lemma emits_resolve_and_preflight:
  "emits (resolve_and_preflight fx (logged pf) tg d req l) (\<lambda>r es. es \<in> {[], [EvScroll]})"
  (is "emits _ ?S")
proof -
  have scroll: "emits (abind (attempt (call (log_op (\<lambda>_. [EvScroll]) f))) k) ?S"
    if "\<And>x. quiet (k x)" for f :: "'a \<Rightarrow> (adapter_error + unit) \<times> 'a" and k
    by (rule emits_bind [OF emits_attempt [OF emits_log_op [where S = "\<lambda>_ es. es = [EvScroll]"]] that])
      (auto split: sum.splits)
  show ?thesis
    unfolding resolve_and_preflight_def Let_def logged_calls
    apply (rule emits_quiet_bind, intro quieting)
     apply (rule emits_cases)
      apply (rule quiet_emits, intro quieting, simp)
     apply (rule emits_quiet_bind, intro quieting)
      apply (rule emits_quiet_bind, intro quieting)
       apply (rule emits_cases)
        apply (rule emits_if, rule quiet_emits, intro quieting, simp)
        apply (rule scroll)
        apply (intro quieting)
       apply (rule quiet_emits, intro quieting, simp_all)
    done
qed

lemma silent_presentation [silence]:
  "silent (before_dispatch (logged pf) pre l)" "silent (after_dispatch (logged pf) pre a r)"
  "silent (settled_surfaces (logged pf) proc d)"
  unfolding before_dispatch_def after_dispatch_def settled_surfaces_def logged_calls Let_def
  by (intro silence quieting)+

lemma abind_lift [simp]: "abind (lift_res (Inr x)) f = f x" "abind (lift_res (Inl e)) f = fail_with e"
  by (simp_all add: fun_eq_iff abind_def)

text \<open>What follows the execution keeps its verdict on delivery.\<close>

lemma emits_after_execution:
  "emits (abind (after_dispatch (logged pf) pre a r) (\<lambda>_.
      abind (lift_res (res_map_err AppAdapter r)) (\<lambda>res.
      abind (if b then abind (settled_surfaces (logged pf) proc d) (\<lambda>ss. ret (g ss res)) else ret res) (\<lambda>res.
      abind (amap_err (\<lambda>e. trace_error_with_disposition e DeliveredUnverified) (trace (logged pf) ev (j res))) (\<lambda>_.
      ret res)))))
    (\<lambda>r' es. es = [] \<and> (\<forall>s. honest r s \<longrightarrow> honest (res_map_err into_adapter_error r') s))"
proof -
  have reported: "emits (abind (amap_err (\<lambda>e. trace_error_with_disposition e DeliveredUnverified) (trace (logged pf) ev (j res))) (\<lambda>_.
      ret res)) (\<lambda>r' es. es = [] \<and> (\<forall>s. honest (res_map_err into_adapter_error r') s))" for res
    by (rule emits_bind [OF emits_map_err [OF emits_weaken [OF quiet_trace(1)]],
          where S = "\<lambda>q es. es = [] \<and> (\<forall>e. q = Inl e \<longrightarrow> err_disposition (into_adapter_error e) = DeliveredUnverified)"
          and T = "\<lambda>_ q es. es = [] \<and> is_ok q"])
      (auto simp: trace_error_with_disposition_def with_disposition_def into_adapter_error_def is_ok_iff
        res_map_err_Inl_iff intro: emits_pure)
  show ?thesis
  proof (cases r)
    case (Inl e)
    then show ?thesis
      by (auto simp: into_adapter_error_def intro!: silent_bind_emits silence emits_pure)
  next
    case (Inr x)
    have "silent (if b then abind (settled_surfaces (logged pf) proc d) (\<lambda>ss. ret (g ss x)) else ret x)"
      by (intro silence)
    then show ?thesis
      unfolding Inr res_map_err.simps abind_lift
      by (intro silent_bind_emits [OF silent_presentation(2)] silent_bind_emits emits_weaken [OF reported]) auto
  qed
qed

lemma emits_dispatch:
  "emits (dispatch_resolved fx (logged pf) tg d req l) (\<lambda>r. dispatched tg req (res_map_err into_adapter_error r))"
proof (cases "expected_process_of (rt_entry tg)")
  case (Inl e)
  then show ?thesis by (auto simp: dispatch_resolved_def dispatched_def is_ok_iff intro!: emits_pure)
next
  case (Inr proc)
  have bound: "bound_request tg req (prepared_request pre proc req)" for pre
    using Inr by (simp add: bound_request_def prepared_request_def Let_def with_expected_process_def with_verified_point_def)
  have run: "emits (abind (attempt (execute_verified_action (logged pf) h req' l)) k)
      (\<lambda>r. executed_once req' (res_map_err into_adapter_error r))"
    if "\<And>r. emits (k r) (\<lambda>r' es. es = [] \<and> (\<forall>s. honest r s \<longrightarrow> honest (res_map_err into_adapter_error r') s))"
    for h req' and k :: "adapter_error + action_result \<Rightarrow> ('a \<times> event list, app_error, action_result) act"
    by (rule emits_bind [OF emits_attempt [OF emits_execute_verified] that])
      (auto simp: executed_once_def split: sum.splits)
  show ?thesis
    unfolding dispatch_resolved_def Inr res_map_err.simps abind_lift
    apply (rule emits_bind [OF emits_resolve_and_preflight, where T = "\<lambda>_ r es.
        es = [] \<and> \<not> is_ok r \<or> (\<exists>req'. bound_request tg req req' \<and> executed_once req' (res_map_err into_adapter_error r) es)"])
      apply (simp only: split_beta Let_def)
      apply (rule emits_quiet_bind [OF quiet_trace(1)])
       apply (rule silent_bind_emits [OF silent_presentation(1)])
       apply (rule emits_weaken [OF run [OF emits_after_execution]])
       apply (use bound in blast)
      apply (simp add: is_ok_iff)
     apply (rule dispatched_error, simp_all)
    apply (elim disjE exE conjE insertE emptyE)
       apply (simp_all add: dispatched_error dispatched_scrolled [of "[]", simplified] dispatched_scrolled [of "[EvScroll]", simplified])
    done
qed

lemma emits_focus:
  "emits (focus_entry_window (logged pf) e l) (\<lambda>r es. es \<in> {[], [EvFocus]} \<and> (is_ok r \<longrightarrow> es = [EvFocus]))"
  (is "emits _ ?S")
proof -
  have focus: "emits (abind (amap_err AppAdapter (call (log_op (\<lambda>_. [EvFocus]) f))) k) ?S"
    if "\<And>x. quiet (k x)" for f :: "'a \<Rightarrow> (adapter_error + unit) \<times> 'a"
      and k :: "unit \<Rightarrow> ('a \<times> event list, app_error, window_info) act"
    by (rule emits_bind [OF emits_map_err [OF emits_log_op] that, where S = "\<lambda>_ es. es = [EvFocus]"]) auto
  show ?thesis
    unfolding focus_entry_window_def focus_exact_window_def logged_calls
    apply (rule emits_quiet_bind, intro quieting)
     apply (rule emits_quiet_bind, intro quieting)
      apply (rule emits_quiet_bind, intro quieting)
       apply (rule emits_if)
        apply (rule emits_pure, simp)
       apply (rule focus, intro quieting)
      apply simp_all
    done
qed

definition performed :: "ref_target \<Rightarrow> action_request \<Rightarrow> adapter_error + 'a \<Rightarrow> event list \<Rightarrow> bool" where
  "performed tg req r es \<longleftrightarrow>
     (\<exists>fo es'. es = fo @ es' \<and> fo \<in> {[], [EvFocus]} \<and>
       (es' = [] \<and> \<not> is_ok r \<or>
        dispatched tg req r es' \<and> (requires_focus (request_headed_requirement req) \<longrightarrow> fo = [EvFocus])))"

lemma emits_single_shot:
  assumes "\<And>tg d req l. emits (dispatch tg d req l) (\<lambda>r. dispatched tg req (res_map_err into_adapter_error r))"
  shows "emits (execute_single_shot (logged pf) tg req d l dispatch) (performed tg req)"
proof -
  have focus: "emits (if requires_focus (request_headed_requirement req)
      then amap_err into_adapter_error (abind (focus_entry_window (logged pf) (rt_entry tg) l) (\<lambda>_. ret ()))
      else ret ())
     (\<lambda>r es. es \<in> {[], [EvFocus]} \<and> (is_ok r \<and> requires_focus (request_headed_requirement req) \<longrightarrow> es = [EvFocus]))"
    by (rule emits_if)
      (auto intro!: emits_pure emits_map_err emits_bind [OF emits_focus, where T = "\<lambda>_ r es. es = [] \<and> is_ok r"])
  show ?thesis
    unfolding execute_single_shot_def
    by (rule emits_bind [OF focus emits_map_err [OF assms]]) (auto simp: performed_def)
qed

text \<open>Everything happens between taking and returning the lease, or nothing happens.\<close>

definition bracketed :: "ref_target \<Rightarrow> action_request \<Rightarrow> adapter_error + 'a \<Rightarrow> event list \<Rightarrow> bool" where
  "bracketed tg req r es \<longleftrightarrow>
     es = [] \<and> \<not> is_ok r \<or> (\<exists>mid. es = [EvAcquire] @ mid @ [EvRelease] \<and> performed tg req r mid)"

lemma performed_timeout [simp]: "performed tg (with_timeout_ms t req) = performed tg req"
  by (intro ext) (simp add: performed_def dispatched_def bound_request_def with_timeout_ms_def request_headed_requirement_def)

text \<open>Only whether there is a value, and the disposition of an error, matter to the log.\<close>

lemma performed_values: "performed tg req (Inr x) es \<Longrightarrow> is_ok r \<Longrightarrow> performed tg req r es"
  by (cases r) (force simp: performed_def dispatched_def executed_once_def)+

lemma performed_errors:
  "err_disposition e' = err_disposition e \<Longrightarrow> performed tg req (Inl e) es \<Longrightarrow> performed tg req (Inl e') es"
  by (force simp: performed_def dispatched_def executed_once_def)

lemma performed_retype: "performed tg req (Inl e :: adapter_error + 'a) es \<Longrightarrow> performed tg req (Inl e :: adapter_error + 'b) es"
  by (simp add: performed_def dispatched_def executed_once_def)

lemma performed_nothing: "\<not> is_ok r \<Longrightarrow> performed tg req r []"
  by (simp add: performed_def)

text \<open>With the lease in hand: either a value, the lease kept, or an error, the lease returned.\<close>

definition leased :: "ref_target \<Rightarrow> action_request \<Rightarrow> adapter_error + 'a \<Rightarrow> event list \<Rightarrow> bool" where
  "leased tg req r es \<longleftrightarrow>
     (if is_ok r then performed tg req r es else \<exists>mid. es = mid @ [EvRelease] \<and> performed tg req r mid)"

lemma emits_release: "(\<And>x. emits (f x) (\<lambda>r es. es = [] \<and> S r)) \<Longrightarrow>
    emits (abind (effect (pf_drop_lease (logged pf) l)) f) (\<lambda>r es. es = [EvRelease] \<and> S r)"
  by (rule emits_bind [OF emits_drop_lease [where S = "\<lambda>r es. es = [EvRelease] \<and> is_ok r"]]) auto

lemma emits_with_deadline:
  assumes "\<And>tg d req l. emits (dispatch tg d req l) (\<lambda>r. dispatched tg req (res_map_err into_adapter_error r))"
  shows "emits (execute_with_deadline fx (logged pf) tg req d dispatch)
    (\<lambda>r es. if is_ok r then \<exists>mid. es = EvAcquire # mid \<and> performed tg req r mid else bracketed tg req r es)"
  (is "emits _ ?S")
proof -
  have nothing: "?S (Inl e) []" for e by (simp add: bracketed_def)
  have acquire: "emits (amap_err f (call (pf_acquire_interaction_lease (logged pf) d)))
      (\<lambda>r es. es = (if is_ok r then [EvAcquire] else []))" for f :: "adapter_error \<Rightarrow> adapter_error"
    unfolding logged_calls by (rule emits_map_err, rule emits_log_op) (simp split: if_splits)
  have late: "emits (abind (make_timeout_error (logged pf) d) (\<lambda>e.
        abind (effect (pf_drop_lease (logged pf) l)) (\<lambda>_. fail_with (g e)))) (leased tg req)" for l g
    by (rule silent_bind_emits [OF silent_small(4)], rule emits_weaken [OF emits_release [where S = "\<lambda>r. \<not> is_ok r"]])
      (auto simp: leased_def performed_nothing intro: emits_pure)
  have timeout: "emits (if waits req
        then abind (get_now (logged pf)) (\<lambda>t. ret (with_timeout_ms (Some (word_of_nat (remaining_ms t d))) req))
        else ret req) (\<lambda>r es. es = [] \<and> (\<exists>t. r = Inr (with_timeout_ms t req)))"
    by (auto simp: emits_def abind_Some_iff get_now_def pass_op_def with_timeout_ms_def split_beta
        intro: exI [of _ "req_timeout_ms req"])
  have shot: "emits (abind (attempt (execute_single_shot (logged pf) tg req' d l dispatch)) (\<lambda>r.
         case r of
           Inl e \<Rightarrow> abind (effect (pf_drop_lease (logged pf) l)) (\<lambda>_.
                      abind (finish_artifacts (logged pf) tg d pre) (\<lambda>_. fail_with e))
         | Inr res \<Rightarrow> abind (get_now (logged pf)) (\<lambda>t. ret (g res t)))) (leased tg req')" for req' l pre g
    by (rule emits_bind [OF emits_attempt [OF emits_single_shot [OF assms]], where T = "\<lambda>r q es.
          case r of Inl e \<Rightarrow> es = [EvRelease] \<and> q = Inl e | Inr res \<Rightarrow> es = [] \<and> is_ok q"])
      (auto simp: leased_def split: sum.splits
        intro: performed_values performed_retype intro!: emits_release silent_bind_emits silence quieting emits_pure)
  show ?thesis
    unfolding execute_with_deadline_def Let_def
    apply (rule emits_quiet_bind [OF _ _ nothing], intro quieting)
    apply (rule emits_quiet_bind [OF _ _ nothing], intro quieting)
    apply (rule emits_bind [OF acquire, where T = "\<lambda>_. leased tg req"])
      apply (rule silent_bind_emits [OF silent_small(1)])
      apply (rule emits_if [OF late])
      apply (rule emits_bind [OF timeout, where T = "\<lambda>req'. leased tg req'"])
        apply (rule silent_bind_emits [OF silent_clock(1)])
        apply (rule shot)
       apply (auto simp: leased_def nothing)[2]
     apply (simp add: bracketed_def)
    apply (auto simp: leased_def bracketed_def)
    done
qed

lemma emits_enrich:
  "emits (enrich_with_process_state (logged pf) e err d)
     (\<lambda>r es. es = [] \<and> (\<exists>e'. r = Inr e' \<and> err_disposition e' = err_disposition err))"
  (is "emits _ ?S")
proof -
  have same: "silent (process_identity_matches (logged pf) e d)"
    unfolding process_identity_matches_def logged_calls
    by (auto split: option.split prod.split intro!: silence quieting)
  show ?thesis
    unfolding enrich_with_process_state_def logged_calls Let_def
    by (auto split: option.split sum.split simp: attach_process_state_detail_def with_disposition_def with_details_def Let_def
        intro!: emits_pure silent_bind_emits [OF silent_attempt] silent_bind_emits [OF same] quieting)
qed

lemma bracketed_errors:
  "err_disposition e' = err_disposition e \<Longrightarrow> bracketed tg req (Inl e) es \<Longrightarrow> bracketed tg req (Inl e') es"
  by (auto simp: bracketed_def intro: performed_errors)

lemma bracketed_retype: "bracketed tg req (Inl e :: adapter_error + 'a) es \<Longrightarrow> bracketed tg req (Inl e :: adapter_error + 'b) es"
  by (auto simp: bracketed_def intro: performed_retype)

lemma emits_with_lease:
  assumes "\<And>tg d req l. emits (dispatch tg d req l) (\<lambda>r. dispatched tg req (res_map_err into_adapter_error r))"
  shows "emits (execute_with_auto_wait_and_lease fx (logged pf) inh tg req dispatch)
    (\<lambda>r es. if is_ok r then \<exists>mid. es = EvAcquire # mid \<and> performed tg req r mid else bracketed tg req r es)"
  (is "emits _ ?S")
proof -
  have after: "emits (case r of
        Inr x \<Rightarrow> ret x
      | Inl e \<Rightarrow> abind (check_expired (logged pf) d) (\<lambda>expired.
          if expired then fail_with e
          else abind (enrich_with_process_state (logged pf) (rt_entry tg) e d) fail_with))
     (\<lambda>q es. es = [] \<and> (case r of Inr x \<Rightarrow> q = Inr x
        | Inl e \<Rightarrow> \<exists>e'. q = Inl e' \<and> err_disposition e' = err_disposition e))" for r d
    by (auto split: sum.split intro!: emits_pure silent_bind_emits [OF silent_small(1)]
        emits_bind [OF emits_enrich, where T = "\<lambda>x q es. es = [] \<and> q = Inl x"])
  show ?thesis
    unfolding execute_with_auto_wait_and_lease_def
    apply (rule emits_quiet_bind, intro quieting)
     apply (rule emits_bind [OF emits_attempt [OF emits_with_deadline [OF assms]] after])
      apply (auto simp: bracketed_def split: sum.splits if_splits)[1]
     apply (auto split: sum.splits if_splits intro: bracketed_errors)[1]
    apply (simp add: bracketed_def)
    done
qed

lemma emits_auto_wait:
  assumes "\<And>tg d req l. emits (dispatch tg d req l) (\<lambda>r. dispatched tg req (res_map_err into_adapter_error r))"
  shows "emits (execute_with_auto_wait fx (logged pf) inh tg req dispatch) (bracketed tg req)"
proof -
  have finish: "emits (case x of (res, l, pre, d, t) \<Rightarrow>
        abind (effect (pf_drop_lease (logged pf) l)) (\<lambda>_.
        abind (finish_artifacts (logged pf) tg d pre) (\<lambda>_. ret res)))
      (\<lambda>r es. es = [EvRelease] \<and> is_ok r)" for x :: "action_result \<times> lease \<times> artifact_outcome \<times> deadline \<times> nat"
    by (cases x) (auto intro!: emits_release silence)
  show ?thesis
    unfolding execute_with_auto_wait_def
    by (rule emits_bind [OF emits_with_lease [OF assms] finish])
      (simp add: bracketed_retype, fastforce simp: bracketed_def intro: performed_values)
qed

lemma entry_log: "emits (execute_entry fx (logged pf) inh e req)
    (bracketed \<lparr>rt_entry = e, rt_ref_id = ref_label_from_entry e\<rparr> req)"
  unfolding execute_entry_def by (rule emits_auto_wait [OF emits_dispatch])

section \<open>Properties\<close>

lemma timed_logged: "timed tm pf \<Longrightarrow> timed (\<lambda>w. tm (fst w)) (logged pf)"
  by (simp add: timed_def later_def pass_op_def pass_eff_def log_op_def split_beta) (simp add: logged_def pass_eff_def split_beta)

lemma expected_process_instance:
  "expected_process_of e = Inr p \<Longrightarrow> Some (identity_instance p) = rp_instance (process e)"
  by (auto simp: expected_process_of_def res_bind_Inr_iff ok_or_def option_filter_def split: option.splits if_splits)

lemma entry_returns:
  assumes "timed tm pf"
  shows "\<exists>r w' evs. execute_entry fx (logged pf) inh e req (w, []) = Some (r, w', evs) \<and>
    bracketed \<lparr>rt_entry = e, rt_ref_id = ref_label_from_entry e\<rparr> req r evs"
proof -
  obtain r w' evs where run: "execute_entry fx (logged pf) inh e req (w, []) = Some (r, w', evs)"
    using runsD [OF terminates_execute_entry [OF timed_logged [OF assms]]] by (metis prod.collapse)
  then show ?thesis using emitsD [OF entry_log run] by auto
qed

lemma bracketed_cases:
  assumes "bracketed tg req r evs"
  obtains (idle) "evs = []" "\<not> is_ok r"
  | (refused) fo sc where "evs = [EvAcquire] @ fo @ sc @ [EvRelease]" "fo \<in> {[], [EvFocus]}" "sc \<in> {[], [EvScroll]}" "\<not> is_ok r"
  | (executed) fo sc req' s where "evs = [EvAcquire] @ fo @ sc @ [EvExecute req' s] @ [EvRelease]"
      "fo \<in> {[], [EvFocus]}" "sc \<in> {[], [EvScroll]}" "bound_request tg req req'" "honest r s"
      "requires_focus (request_headed_requirement req) \<longrightarrow> fo = [EvFocus]"
proof -
  consider "evs = []" "\<not> is_ok r" | mid where "evs = [EvAcquire] @ mid @ [EvRelease]" "performed tg req r mid"
    using assms unfolding bracketed_def by blast
  then show ?thesis
  proof cases
    case 1
    then show ?thesis by (rule idle)
  next
    case 2
    from 2(2) obtain fo es' where fo: "mid = fo @ es'" "fo \<in> {[], [EvFocus]}"
      and es': "es' = [] \<and> \<not> is_ok r \<or>
        dispatched tg req r es' \<and> (requires_focus (request_headed_requirement req) \<longrightarrow> fo = [EvFocus])"
      unfolding performed_def by blast
    from es' show ?thesis
    proof (elim disjE conjE)
      assume "es' = []" "\<not> is_ok r"
      then show ?thesis using refused [of fo "[]"] 2(1) fo by simp
    next
      assume d: "dispatched tg req r es'" and f: "requires_focus (request_headed_requirement req) \<longrightarrow> fo = [EvFocus]"
      from d obtain sc ex where sc: "es' = sc @ ex" "sc \<in> {[], [EvScroll]}"
        and ex: "ex = [] \<and> \<not> is_ok r \<or> (\<exists>req'. bound_request tg req req' \<and> executed_once req' r ex)"
        unfolding dispatched_def by blast
      from ex show ?thesis
        using refused [of fo sc] executed [of fo sc] 2(1) fo sc f unfolding executed_once_def by auto
    qed
  qed
qed

text \<open>
  C1. Acting on a ref touches the outside in one order only: nothing at all, or the lease is
  taken, a window may be focused, the view may be scrolled once, the action is executed at most
  once and for the stored process, and the lease is returned; success means it was executed.
\<close>

theorem acting_is_leased_and_single:
  assumes "timed tm pf"
  shows "\<exists>r w' evs. execute_entry fx (logged pf) inh e req (w, []) = Some (r, w', evs) \<and>
    (evs = [] \<and> \<not> is_ok r \<or>
     (\<exists>fo sc ex. evs = [EvAcquire] @ fo @ sc @ ex @ [EvRelease] \<and> fo \<in> {[], [EvFocus]} \<and> sc \<in> {[], [EvScroll]} \<and>
       (ex = [] \<and> \<not> is_ok r \<or>
        (\<exists>req' s. ex = [EvExecute req' s] \<and> req_action req' = req_action req \<and>
           req_policy req' \<in> {req_policy req, headless} \<and>
           map_option identity_instance (req_expected_process req') = rp_instance (process e) \<and>
           (requires_focus (request_headed_requirement req) \<longrightarrow> fo = [EvFocus])))))"
proof -
  obtain r w' evs where run: "execute_entry fx (logged pf) inh e req (w, []) = Some (r, w', evs)"
    and b: "bracketed \<lparr>rt_entry = e, rt_ref_id = ref_label_from_entry e\<rparr> req r evs"
    using entry_returns [OF assms] by blast
  from b show ?thesis
  proof (cases rule: bracketed_cases)
    case idle
    then show ?thesis using run by auto
  next
    case (refused fo sc)
    show ?thesis
      by (insert run refused, intro exI conjI, assumption)
        (rule disjI2, rule exI [of _ fo], rule exI [of _ sc], rule exI [of _ "[]"], simp)
  next
    case (executed fo sc req' s)
    show ?thesis
      by (insert run executed, intro exI conjI, assumption)
        (rule disjI2, rule exI [of _ fo], rule exI [of _ sc], rule exI [of _ "[EvExecute req' s]"],
         auto simp: bound_request_def dest: expected_process_instance)
  qed
qed

theorem acting_is_leased_and_single_witness:
  "\<exists>r w' evs. execute_entry sum_hash (logged (sample_platform (sample_live True))) None (sample_entry [] [0] None)
     (headless_request Click) (0, []) = Some (r, w', evs) \<and> length evs \<le> 5"
  using acting_is_leased_and_single [OF sample_platform_timed, of sum_hash "sample_live True" None "sample_entry [] [0] None"
      "headless_request Click" 0]
  by (elim exE conjE disjE) (intro exI conjI, assumption, auto)+

text \<open>
  C2. An error that claims nothing was delivered is true: whenever the operation fails with the
  disposition that makes a retry safe, the platform was never asked to execute the action or
  itself reported that it delivered nothing.
\<close>

theorem undelivered_means_undelivered:
  assumes "timed tm pf"
  shows "\<exists>r w' evs. execute_entry fx (logged pf) inh e req (w, []) = Some (r, w', evs) \<and>
    (case r of
       Inl err \<Rightarrow> err_disposition err = NotDelivered \<longrightarrow>
         list_all (\<lambda>ev. case ev of EvExecute _ s \<Rightarrow> s = NotDelivered | _ \<Rightarrow> True) evs
     | Inr _ \<Rightarrow> length (filter (\<lambda>ev. case ev of EvExecute _ _ \<Rightarrow> True | _ \<Rightarrow> False) evs) = 1)"
proof -
  obtain r w' evs where run: "execute_entry fx (logged pf) inh e req (w, []) = Some (r, w', evs)"
    and b: "bracketed \<lparr>rt_entry = e, rt_ref_id = ref_label_from_entry e\<rparr> req r evs"
    using entry_returns [OF assms] by blast
  from b show ?thesis
    by (cases rule: bracketed_cases) (use run in \<open>auto simp: run split: sum.split\<close>)
qed

theorem undelivered_means_undelivered_witness:
  "\<exists>r w' evs. execute_entry sum_hash (logged (sample_platform (sample_live False))) None (sample_entry [] [0] None)
     (headless_request Click) (0, []) = Some (r, w', evs) \<and>
    (case r of
       Inl err \<Rightarrow> err_disposition err = NotDelivered \<longrightarrow>
         list_all (\<lambda>ev. case ev of EvExecute _ s \<Rightarrow> s = NotDelivered | _ \<Rightarrow> True) evs
     | Inr _ \<Rightarrow> length (filter (\<lambda>ev. case ev of EvExecute _ _ \<Rightarrow> True | _ \<Rightarrow> False) evs) = 1)"
  by (rule undelivered_means_undelivered [OF sample_platform_timed])

end
