(* ===== verification/PostActionSpec.thy ===== *)
theory PostActionSpec
  imports PostAction
begin

text \<open>
  What verified execution promises: the text predicted for typing is the text with the selected
  characters replaced, counted in UTF-16 units, and an outcome is called verified exactly when a
  fresh observation shows the state asked for.
\<close>

section \<open>UTF-8 and UTF-16\<close>

text \<open>A Unicode scalar value, and the text of a list of them.\<close>

definition scalar :: "nat \<Rightarrow> bool" where
  "scalar p \<longleftrightarrow> p < 0x110000 \<and> \<not> (0xD800 \<le> p \<and> p < 0xE000)"

definition utf8 :: "nat list \<Rightarrow> string" where
  "utf8 ps = concat (map utf8_of ps)"

lemma byte_char_of [simp]: "byte (char_of n) = n mod 256"
  by (simp add: byte_def)

lemma code_points_Cons:
  "byte a < 0x80 \<Longrightarrow> code_points (a # s) = byte a # code_points s"
  "0x80 \<le> byte a \<Longrightarrow> byte a < 0xE0 \<Longrightarrow>
     code_points (a # b # s) = ((byte a - 0xC0) * 0x40 + (byte b - 0x80)) # code_points s"
  "0xE0 \<le> byte a \<Longrightarrow> byte a < 0xF0 \<Longrightarrow>
     code_points (a # b # c # s) =
       ((byte a - 0xE0) * 0x1000 + (byte b - 0x80) * 0x40 + (byte c - 0x80)) # code_points s"
  by (cases s; cases "tl s"; cases "tl (tl s)"; simp)+

lemma base64_digits:
  fixes p :: nat
  shows "p div 0x1000 * 0x1000 + p div 0x40 mod 0x40 * 0x40 + p mod 0x40 = p"
    and "p div 0x40000 * 0x40000 + p div 0x1000 mod 0x40 * 0x1000 + p div 0x40 mod 0x40 * 0x40 + p mod 0x40 = p"
proof -
  have low: "p mod 0x1000 = 0x40 * (p div 0x40 mod 0x40) + p mod 0x40"
    using mod_mult2_eq [of p "0x40" "0x40"] by simp
  have high: "p mod 0x40000 = 0x1000 * (p div 0x1000 mod 0x40) + p mod 0x1000"
    using mod_mult2_eq [of p "0x1000" "0x40"] by simp
  have combine: "a * 0x1000 + b = p \<Longrightarrow> b = 0x40 * c + d \<Longrightarrow> a * 0x1000 + c * 0x40 + d = p"
    "a * 0x40000 + e = p \<Longrightarrow> e = 0x1000 * c + b \<Longrightarrow> b = 0x40 * f + d \<Longrightarrow>
       a * 0x40000 + c * 0x1000 + f * 0x40 + d = p" for a b c d e f :: nat
    by simp_all
  show "p div 0x1000 * 0x1000 + p div 0x40 mod 0x40 * 0x40 + p mod 0x40 = p"
    by (rule combine(1) [OF div_mult_mod_eq low])
  show "p div 0x40000 * 0x40000 + p div 0x1000 mod 0x40 * 0x1000 + p div 0x40 mod 0x40 * 0x40 + p mod 0x40 = p"
    by (rule combine(2) [OF div_mult_mod_eq high low])
qed

lemma code_points_utf8_of: "scalar p \<Longrightarrow> code_points (utf8_of p @ s) = p # code_points s"
proof -
  assume sc: "scalar p"
  have digits: "p div 0x1000 * 0x1000 + p div 0x40 mod 0x40 * 0x40 + p mod 0x40 = p"
    "p div 0x40000 * 0x40000 + p div 0x1000 mod 0x40 * 0x1000 + p div 0x40 mod 0x40 * 0x40 + p mod 0x40 = p"
    by (rule base64_digits)+
  consider "p < 0x80" | "0x80 \<le> p" "p < 0x800" | "0x800 \<le> p" "p < 0x10000" | "0x10000 \<le> p" "p < 0x110000"
    using sc by (fastforce simp: scalar_def)
  then show ?thesis
  proof cases
    case 1
    then show ?thesis by (simp add: utf8_of_def code_points_Cons(1))
  next
    case 2
    have "p div 0x40 < 0x20" using 2 by linarith
    then show ?thesis using 2 by (simp add: utf8_of_def code_points_Cons(2))
  next
    case 3
    have "p div 0x1000 < 0x10" using 3 by linarith
    then show ?thesis using 3 digits(1) by (simp add: utf8_of_def code_points_Cons(3))
  next
    case 4
    have "p div 0x40000 < 5" using 4 by linarith
    then show ?thesis using 4 digits(2) by (simp add: utf8_of_def)
  qed
qed

lemma code_points_utf8: "list_all scalar ps \<Longrightarrow> code_points (utf8 ps) = ps"
  by (induction ps) (simp_all add: utf8_def code_points_utf8_of)

lemma encode_utf8: "list_all scalar ps \<Longrightarrow> encode_utf16 (utf8 ps) = concat (map units_of ps)"
  by (simp add: encode_utf16_def code_points_utf8)

lemma units_cases:
  assumes "scalar p"
  obtains "units_of p = [p]" "\<not> high_surrogate p" "\<not> low_surrogate p"
  | u v where "units_of p = [u, v]" "high_surrogate u" "low_surrogate v"
      "0x10000 + (u - 0xD800) * 0x400 + (v - 0xDC00) = p"
proof (cases "p < 0x10000")
  case True
  then show ?thesis using assms by (intro that(1)) (auto simp: units_of_def scalar_def high_surrogate_def low_surrogate_def)
next
  case False
  let ?q = "p - 0x10000"
  obtain h l where hl: "h = ?q div 0x400" "l = ?q mod 0x400" by blast
  have "?q < 0x400 * 0x400" using assms by (auto simp: scalar_def)
  then have h: "h < 0x400" unfolding hl(1) by (rule less_mult_imp_div_less)
  have l: "l < 0x400" unfolding hl(2) by simp
  have "h * 0x400 + l = ?q" unfolding hl by (rule div_mult_mod_eq)
  then have p: "0x10000 + h * 0x400 + l = p" using False by arith
  have "units_of p = [0xD800 + h, 0xDC00 + l]" using False by (simp add: units_of_def hl)
  then show ?thesis by (rule that(2)) (use h l p in \<open>simp_all add: high_surrogate_def low_surrogate_def\<close>)
qed

lemma points_of_units_of:
  "scalar p \<Longrightarrow> points_of_units (units_of p @ us) = map_option ((#) p) (points_of_units us)"
proof -
  assume "scalar p"
  then show ?thesis
  proof (cases rule: units_cases)
    case 1
    then show ?thesis by (cases us) simp_all
  next
    case (2 u v)
    then have "\<not> low_surrogate u" by (simp add: high_surrogate_def low_surrogate_def)
    then show ?thesis using 2 by simp
  qed
qed

lemma points_of_units_all: "list_all scalar ps \<Longrightarrow> points_of_units (concat (map units_of ps)) = Some ps"
  by (induction ps) (simp_all add: points_of_units_of)

fun point_index :: "nat list \<Rightarrow> nat \<Rightarrow> nat option" where
  "point_index ps 0 = Some 0"
| "point_index [] (Suc n) = None"
| "point_index (p # ps) (Suc n) =
     (if Suc n \<ge> length (units_of p) then map_option Suc (point_index ps (Suc n - length (units_of p))) else None)"

lemma low_first: "low_surrogate v \<Longrightarrow> points_of_units (v # us) = None"
  by (cases us) simp_all

lemma points_of_take:
  "list_all scalar ps \<Longrightarrow> a \<le> length (concat (map units_of ps)) \<Longrightarrow>
     points_of_units (take a (concat (map units_of ps))) = map_option (\<lambda>i. take i ps) (point_index ps a)"
proof (induction ps a rule: point_index.induct)
  case (3 p ps n)
  from 3(2) have "scalar p" by simp
  then show ?case
  proof (cases rule: units_cases)
    case 1
    then show ?thesis using 3 points_of_units_of [OF \<open>scalar p\<close>] by (simp add: option.map_comp comp_def)
  next
    case (2 u v)
    then show ?thesis using 3 points_of_units_of [OF \<open>scalar p\<close>]
      by (cases n) (simp_all add: option.map_comp comp_def)
  qed
qed simp_all

lemma points_of_drop:
  "list_all scalar ps \<Longrightarrow>
     points_of_units (drop b (concat (map units_of ps))) =
       (if length (concat (map units_of ps)) < b then Some [] else map_option (\<lambda>i. drop i ps) (point_index ps b))"
proof (induction ps b rule: point_index.induct)
  case (1 ps)
  then show ?case by (simp add: points_of_units_all)
next
  case (3 p ps n)
  from 3(2) have "scalar p" by simp
  then show ?case
  proof (cases rule: units_cases)
    case 1
    then show ?thesis using 3 by (simp add: option.map_comp comp_def)
  next
    case (2 u v)
    show ?thesis
    proof (cases n)
      case 0
      then show ?thesis using 2(1,3) low_first by simp
    next
      case (Suc m)
      then show ?thesis using 2(1) 3 by (simp add: option.map_comp comp_def)
    qed
  qed
qed simp_all

section \<open>Insertion\<close>

lemma from_utf16_eq: "from_utf16 us = map_option utf8 (points_of_units us)"
  by (simp add: from_utf16_def utf8_def [abs_def])

lemma point_index_le: "point_index ps a = Some i \<Longrightarrow> i \<le> length ps \<and> length (concat (map units_of (take i ps))) = a"
  by (induction ps a arbitrary: i rule: point_index.induct) (auto split: if_splits)

lemma index_splits:
  assumes "point_index ps a = Some i"
  shows "take a (concat (map units_of ps)) = concat (map units_of (take i ps))"
    and "drop a (concat (map units_of ps)) = concat (map units_of (drop i ps))"
proof -
  have "concat (map units_of ps) = concat (map units_of (take i ps)) @ concat (map units_of (drop i ps))"
    by (metis append_take_drop_id concat_append map_append)
  then show "take a (concat (map units_of ps)) = concat (map units_of (take i ps))"
    "drop a (concat (map units_of ps)) = concat (map units_of (drop i ps))"
    using point_index_le [OF assms] by auto
qed

lemma utf8_Nil [simp]: "utf8 [] = []"
  by (simp add: utf8_def)

lemma encode_utf16_Nil [simp]: "encode_utf16 [] = []"
  by (simp add: encode_utf16_def)

lemma point_index_Cons:
  "0 < n \<Longrightarrow> point_index (p # ps) n =
     (if length (units_of p) \<le> n then map_option Suc (point_index ps (n - length (units_of p))) else None)"
  by (cases n) simp_all

lemma utf8_empty: "utf8 ps = [] \<longleftrightarrow> ps = []"
  by (cases ps) (auto simp: utf8_def utf8_of_def)

lemma error_after_action:
  "Option.bind (err_details (verification_error r el e)) (json_get ''after_action'') = Some (action_result_json r)"
  by (simp add: verification_error_def Let_def with_details_def with_disposition_def json_get_insert
      del: json_insert.simps json_get.simps split: option.split)

lemma error_disposition:
  "err_disposition (verification_error r el e) = (if res_disposition r = NotDelivered then NotDelivered else DeliveredUnverified)"
  by (simp add: verification_error_def Let_def with_disposition_def with_details_def)

section \<open>Properties\<close>

text \<open>
  The text predicted for typing over a selection is the text before it, the typed text and
  the text after it; a selection in UTF-16 units that is out of range, reversed or splits a
  character predicts nothing, and without a selection only an empty field predicts anything.
\<close>

theorem expected_insertion_exact:
  assumes "list_all scalar ps" "list_all scalar ts"
  shows "expected_insertion (utf8 ps) (utf8 ts) None = (if ps = [] then Some (utf8 ts) else None) \<and>
    expected_insertion (utf8 ps) (utf8 ts) (Some (a, b)) =
      (case (point_index ps a, point_index ps b) of
         (Some i, Some j) \<Rightarrow> if a \<le> b then Some (utf8 (take i ps @ ts @ drop j ps)) else None
       | _ \<Rightarrow> None)"
proof
  let ?u = "\<lambda>qs. concat (map units_of qs)"
  note enc = encode_utf8 [OF assms(1)] encode_utf8 [OF assms(2)]
  show "expected_insertion (utf8 ps) (utf8 ts) None = (if ps = [] then Some (utf8 ts) else None)"
    using points_of_units_all [OF assms(2)] assms
    by (cases ps) (auto simp: expected_insertion_def utf8_empty enc from_utf16_eq Let_def)
  note ix = point_index_le
  show "expected_insertion (utf8 ps) (utf8 ts) (Some (a, b)) =
      (case (point_index ps a, point_index ps b) of
         (Some i, Some j) \<Rightarrow> if a \<le> b then Some (utf8 (take i ps @ ts @ drop j ps)) else None
       | _ \<Rightarrow> None)"
  proof (cases "a \<le> b \<and> b \<le> length (?u ps)")
    case False
    have "b \<le> length (?u ps)" if "point_index ps b = Some j" for j
      using ix [OF that] append_take_drop_id [of j ps] by (metis concat_append le_add1 length_append map_append)
    then show ?thesis using False
      by (auto simp: expected_insertion_def enc Let_def split: option.split)
  next
    case True
    have joined: "points_of_units (take a (?u ps) @ ?u ts @ drop b (?u ps)) = Some (take i ps @ ts @ drop j ps)"
      if "point_index ps a = Some i" "point_index ps b = Some j" for i j
    proof -
      have "take a (?u ps) = ?u (take i ps)" "drop b (?u ps) = ?u (drop j ps)"
        using index_splits [OF that(1)] index_splits [OF that(2)] by simp_all
      moreover have "list_all scalar (take i ps @ ts @ drop j ps)"
        using assms by (auto simp: list_all_iff dest: in_set_takeD in_set_dropD)
      ultimately show ?thesis using points_of_units_all by (metis concat_append map_append)
    qed
    show ?thesis using True points_of_take [OF assms(1)] points_of_drop [OF assms(1)] joined
      by (auto simp: expected_insertion_def enc from_utf16_eq Let_def split: option.split)
  qed
qed

theorem expected_insertion_exact_witness:
  "expected_insertion (utf8 [0x48, 0x1F600, 0x49]) (utf8 [0xE9]) (Some (1, 3)) = Some (utf8 [0x48, 0xE9, 0x49]) \<and>
   expected_insertion (utf8 [0x48, 0x1F600, 0x49]) (utf8 [0xE9]) (Some (2, 3)) = None"
proof -
  have scalars: "list_all scalar [0x48, 0x1F600, 0x49]" "list_all scalar [0xE9]" by (simp_all add: scalar_def)
  note exact = expected_insertion_exact [OF scalars]
  show ?thesis
    using exact [of 1 3] exact [of 2 3] by (simp add: point_index_Cons units_of_def del: point_index.simps(3))
qed

text \<open>
  C38. The outcome of a verified execution follows the observation: an error exactly when nothing
  could be observed or the change is refuted, verified delivery only when it is confirmed, with
  the observed state in the result; an error never claims less delivery than was reported.
\<close>

theorem verification_decided_by_observation:
  "case verify_result a post r observed of
     Inr res \<Rightarrow>
       (\<exists>el. observed = Inr el \<and> post el \<noteq> Some False \<and> res_post_state res = Some (le_state el) \<and>
         (res_disposition res = DeliveredVerified \<longleftrightarrow>
            post el = Some True \<and> res_disposition r \<in> {DeliveredUnverified, DeliveredVerified}) \<and>
         (res_disposition res = NotDelivered \<longleftrightarrow> res_disposition r = NotDelivered))
   | Inl e \<Rightarrow>
       (case observed of Inl _ \<Rightarrow> True | Inr el \<Rightarrow> post el = Some False) \<and>
       err_disposition e = (if res_disposition r = NotDelivered then NotDelivered else DeliveredUnverified) \<and>
       Option.bind (err_details e) (json_get ''after_action'') = Some (action_result_json r)"
proof (cases observed)
  case (Inl e)
  then show ?thesis by (simp add: verify_result_def error_after_action error_disposition)
next
  case (Inr el)
  show ?thesis
  proof (cases "post el")
    case None
    then show ?thesis
      by (simp add: verify_result_def Inr Let_def with_unverified_delivery_def)
  next
    case (Some sat)
    then show ?thesis
      by (cases sat; cases "res_disposition r")
        (simp_all add: verify_result_def Inr Let_def error_after_action error_disposition with_verified_delivery_def
          del: append.simps)
  qed
qed

end
