(* ===== verification/PreflightSpec.thy ===== *)
theory PreflightSpec
  imports RefActionTime
begin

text \<open>
  What the checks before a dispatch promise: when sampling calls an element stable, what a report
  that permits the action guarantees about the element, and that the evidence of a report that
  blocks it is read back from the error without loss.
\<close>

section \<open>Sampling\<close>

text \<open>
  The newest samples (the list has the newest first) that have bounds and each match the one
  before.
\<close>

fun streak :: "(rect option \<times> nat) list \<Rightarrow> nat" where
  "streak [] = 0"
| "streak ((None, t) # xs) = 0"
| "streak ((Some b, t) # xs) =
     (case xs of
        (Some p, _) # _ \<Rightarrow> if geometry_matches p b then Suc (streak xs) else 1
      | _ \<Rightarrow> 1)"

definition sampled :: "(rect option \<times> nat) list \<Rightarrow> stability_sampler" where
  "sampled xs = foldr (\<lambda>(b, t) s. snd (sampler_observe b t s)) xs sampler_new"

lemma sampled_Cons: "sampled ((b, t) # xs) = snd (sampler_observe b t (sampled xs))"
  by (simp add: sampled_def)

lemma streak_le: "streak xs \<le> length xs"
proof (induction xs rule: streak.induct)
  case (3 b t xs)
  then show ?case
    by (subst streak.simps(3)) (auto simp del: streak.simps split: list.split prod.split option.split)
qed simp_all

lemma streak_Some: "0 < streak ((Some b, t) # xs)"
  by (subst streak.simps(3)) (simp del: streak.simps split: list.split prod.split option.split)

lemma streak_pos: "0 < streak xs \<longleftrightarrow> (\<exists>b t ys. xs = (Some b, t) # ys)"
  by (cases xs rule: streak.cases) (simp_all add: streak_Some del: streak.simps(3))

lemma sampled_spec:
  "length xs < 2 ^ 32 \<Longrightarrow>
     unat (consecutive (sampled xs)) = streak xs \<and>
     previous (sampled xs) = (case xs of [] \<Rightarrow> None | (b, _) # _ \<Rightarrow> b) \<and>
     (0 < streak xs \<longrightarrow> stable_since (sampled xs) = snd (xs ! (streak xs - 1)))"
proof (induction xs)
  case Nil
  show ?case by (simp add: sampled_def sampler_new_def)
next
  case (Cons x xs)
  obtain b t where x: "x = (b, t)" by (cases x)
  have "length xs < 2 ^ 32" using Cons.prems by simp
  note IH = Cons.IH [OF this]
  show ?case
  proof (cases b)
    case None
    then show ?thesis by (simp add: x sampled_Cons sampler_observe_def)
  next
    case (Some b')
    show ?thesis
    proof (cases "is_some_and (previous (sampled xs)) (\<lambda>p. geometry_matches p b')")
      case False
      then show ?thesis using IH
        by (auto simp: x Some sampled_Cons sampler_observe_def Let_def split: list.splits prod.splits option.splits)
    next
      case True
      then obtain p t' ys where ys: "xs = (Some p, t') # ys" "geometry_matches p b'"
        using IH by (cases xs) (auto simp: is_some_and_iff del: streak.simps split: prod.splits)
      then have pos: "0 < streak xs" by (simp add: streak_pos del: streak.simps)
      have "streak xs \<le> length xs" by (rule streak_le)
      then have "unat (consecutive (sampled xs) + 1) = Suc (streak xs)"
        using Cons.prems IH by (simp add: unat_word_ariths)
      moreover have "(x # xs) ! (streak (x # xs) - 1) = xs ! (streak xs - 1)"
        using ys pos by (simp add: x Some nth_Cons')
      ultimately show ?thesis
        using IH ys True pos by (simp add: x Some sampled_Cons sampler_observe_def Let_def)
    qed
  qed
qed

section \<open>The evidence in an error\<close>

lemma check_json_fields:
  "json_get ''check'' (check_json c) = Some (JStr (chk_name c))"
  "json_get ''status'' (check_json c) = Some (JStr (status_token (chk_status c)))"
  by (simp_all add: check_json_def)

lemma status_token_eq [simp]:
  "status_token s = ''fail'' \<longleftrightarrow> s = Fail" "status_token s = ''pass'' \<longleftrightarrow> s = Pass"
  by (cases s; simp)+

lemma json_u64_read: "json_as_u64 (JInt (uint h)) = Some (unat (h :: u64))"
proof -
  have "uint h < 2 ^ LENGTH(64)" by (rule unsigned_less)
  then have "uint h \<le> int u64_max" by simp
  moreover have "nat (uint h) = unat h" by simp
  ultimately show ?thesis by (simp only: json_as_u64.simps) simp
qed

lemma finish_details:
  assumes "finish fx ev r = Inl e"
  shows "error_checks e = Some (map check_json (rp_checks r))"
    and "Option.bind (err_details e) (json_get ''observed_bounds_hash'') =
      map_option (\<lambda>h. JInt (uint h)) (Option.bind (ae_bounds ev) (bounds_hash fx))"
proof -
  from assms have d: "err_details e = Some (case Option.bind (ae_bounds ev) (bounds_hash fx) of
      None \<Rightarrow> report_json r | Some h \<Rightarrow> json_insert ''observed_bounds_hash'' (JInt (uint h)) (report_json r))"
    by (auto simp: finish_def Let_def not_actionable_error_def with_disposition_def with_suggestion_def with_details_def
        split: if_splits)
  have "json_get ''checks'' (report_json r) = Some (JArr (map check_json (rp_checks r)))"
    "json_get ''observed_bounds_hash'' (report_json r) = None" "json_is_object (report_json r)"
    by (auto simp: report_json_def opt_field_def split: option.split)
  then show "error_checks e = Some (map check_json (rp_checks r))"
    "Option.bind (err_details e) (json_get ''observed_bounds_hash'') =
      map_option (\<lambda>h. JInt (uint h)) (Option.bind (ae_bounds ev) (bounds_hash fx))"
    unfolding error_checks_def d by (simp_all add: json_get_insert split: option.split)
qed

section \<open>Gates that pass\<close>







section \<open>Probing\<close>





lemma finish_ok: "finish fx ev r = Inr r' \<longleftrightarrow> r' = r \<and> rp_actionable r"
  by (auto simp: finish_def Let_def)




section \<open>A permitted click\<close>


section \<open>Properties\<close>



text \<open>
  C36. The error of a blocked action carries the whole report: it says that nothing was delivered,
  and the code that decides what to do next reads back from it exactly the checks that failed,
  whether only stability is missing, and the bounds that were observed.
\<close>

theorem blocked_report_read_back:
  "case finish fx ev r of
     Inr r' \<Rightarrow> r' = r \<and> rp_actionable r
   | Inl e \<Rightarrow>
       \<not> rp_actionable r \<and> err_disposition e = NotDelivered \<and> err_code e = unwrap_or (terminal_code r) ActionFailed \<and>
       (failed_check e n \<longleftrightarrow> list_ex (\<lambda>c. chk_name c = n \<and> chk_status c = Fail) (rp_checks r)) \<and>
       (only_stability_pending e \<longleftrightarrow>
          list_ex (\<lambda>c. chk_name c = ''stable'' \<and> chk_status c \<noteq> Pass) (rp_checks r) \<and>
          list_all (\<lambda>c. chk_name c = ''stable'' \<or> chk_status c = Pass) (rp_checks r)) \<and>
       observed_bounds_hash e = Option.bind (ae_bounds ev) (bounds_hash fx)"
proof (cases "finish fx ev r")
  case (Inr r')
  then show ?thesis using finish_ok [of fx ev r r'] by simp
next
  case (Inl e)
  note d = finish_details [OF Inl]
  have shape: "\<not> rp_actionable r" "err_disposition e = NotDelivered" "err_code e = unwrap_or (terminal_code r) ActionFailed"
    using Inl by (auto simp: finish_def Let_def not_actionable_error_def with_disposition_def with_suggestion_def
        with_details_def new_error_def split: if_splits)
  have "failed_check e n \<longleftrightarrow> list_ex (\<lambda>c. chk_name c = n \<and> chk_status c = Fail) (rp_checks r)"
    by (simp add: failed_check_def d(1) list_ex_iff check_json_fields)
  moreover have "only_stability_pending e \<longleftrightarrow>
      list_ex (\<lambda>c. chk_name c = ''stable'' \<and> chk_status c \<noteq> Pass) (rp_checks r) \<and>
      list_all (\<lambda>c. chk_name c = ''stable'' \<or> chk_status c = Pass) (rp_checks r)"
    by (simp add: only_stability_pending_def d(1) list_ex_iff list_all_iff json_index_def check_json_fields)
  moreover have "observed_bounds_hash e = Option.bind (ae_bounds ev) (bounds_hash fx)"
    by (cases "Option.bind (ae_bounds ev) (bounds_hash fx)") (simp_all add: observed_bounds_hash_def d(2) json_u64_read del: json_as_u64.simps)
  ultimately show ?thesis using shape by (simp add: Inl)
qed

text \<open>
  C37. Sampling calls an element stable exactly when its newest samples that each lie within the
  tolerance of the one before are at least three and span at least 34 milliseconds; a sample
  without bounds starts over.
\<close>

theorem stable_by_streak:
  assumes "length xs < 2 ^ 32 - 1"
  shows "(case sampler_observe b t (sampled xs) of (settled, s) \<Rightarrow>
      (let k = streak ((b, t) # xs)
       in unat (consecutive s) = k \<and> previous s = b \<and>
          (settled \<longleftrightarrow> 3 \<le> k \<and> t - snd (((b, t) # xs) ! (k - 1)) \<ge> MIN_STABILITY_SPAN)))"
proof -
  obtain settled s where s: "sampler_observe b t (sampled xs) = (settled, s)" by fastforce
  then have now: "s = sampled ((b, t) # xs)" by (simp add: sampled_Cons)
  have "length ((b, t) # xs) < 2 ^ 32" using assms by simp
  note spec = sampled_spec [OF this, folded now]
  have "settled \<longleftrightarrow> b \<noteq> None \<and> 3 \<le> unat (consecutive s) \<and> t - stable_since s \<ge> MIN_STABILITY_SPAN"
    using s by (auto simp: sampler_observe_def Let_def word_le_nat_alt split: option.splits)
  then show ?thesis
    using spec s streak_pos [of "(b, t) # xs"] by (cases b) (auto simp: Let_def simp del: streak.simps(3))
qed

theorem stable_by_streak_witness:
  "(case sampler_observe None 17 (sampled [(Some \<lparr>rect_x = Fin 4, rect_y = Fin 8, rect_width = Fin 16, rect_height = Fin 1\<rparr>, 0)])
    of (settled, s) \<Rightarrow> \<not> settled)"
  using stable_by_streak [of "[(Some \<lparr>rect_x = Fin 4, rect_y = Fin 8, rect_width = Fin 16, rect_height = Fin 1\<rparr>, 0)]" None 17]
  by (simp add: Let_def split: prod.splits)

end
