(* ===== verification/Locator.thy ===== *)
theory Locator
  imports RefAlloc RefIdentity Actionability PostAction
begin

text \<open>
  Locator queries (\<open>locator.rs\<close>, \<open>identity_predicate.rs\<close>, \<open>state_predicate.rs\<close>,
  \<open>containment_predicate.rs\<close>, \<open>node_match_context.rs\<close>), the normal form of searched texts
  (\<open>search_text.rs\<close>), the matcher over a whole tree, and what a query must satisfy before it is
  run (\<open>live_locator/validate.rs\<close>, \<open>live_locator/predicate.rs\<close>).  Rust's table of lower-case
  mappings for characters beyond ASCII is the parameter \<open>lc\<close>, from a code point to the code
  points of its lower case.
\<close>

section \<open>Searched texts\<close>

type_synonym lower_table = "nat \<Rightarrow> nat list"

definition is_bidirectional_control :: "nat \<Rightarrow> bool" where
  "is_bidirectional_control c \<longleftrightarrow>
     c \<in> {0x061C, 0x200E, 0x200F} \<or> (0x202A \<le> c \<and> c \<le> 0x202E) \<or> (0x2066 \<le> c \<and> c \<le> 0x2069)"

text \<open>\<open>char::is_whitespace\<close> and \<open>char::to_ascii_lowercase\<close>, on code points.\<close>

definition is_whitespace :: "nat \<Rightarrow> bool" where
  "is_whitespace c \<longleftrightarrow>
     (9 \<le> c \<and> c \<le> 13) \<or> (0x2000 \<le> c \<and> c \<le> 0x200A) \<or>
     c \<in> {0x20, 0x85, 0xA0, 0x1680, 0x2028, 0x2029, 0x202F, 0x205F, 0x3000}"

definition lower_point :: "lower_table \<Rightarrow> nat \<Rightarrow> nat list" where
  "lower_point lc c =
     (if c < 0x80 then [if 65 \<le> c \<and> c \<le> 90 then c + 32 else c] else lc c)"

fun normalize_loop :: "lower_table \<Rightarrow> nat list \<Rightarrow> bool \<Rightarrow> nat list \<Rightarrow> nat list" where
  "normalize_loop lc out pending [] = out"
| "normalize_loop lc out pending (c # cs) =
     (if is_bidirectional_control c then normalize_loop lc out pending cs
      else if is_whitespace c then normalize_loop lc out (out \<noteq> []) cs
      else normalize_loop lc ((if pending then out @ [0x20] else out) @ lower_point lc c) False cs)"

definition normalize :: "lower_table \<Rightarrow> string \<Rightarrow> string" where
  "normalize lc s = concat (map utf8_of (normalize_loop lc [] False (code_points s)))"

text \<open>\<open>str::contains\<close>.\<close>

fun str_contains :: "string \<Rightarrow> string \<Rightarrow> bool" where
  "str_contains needle [] \<longleftrightarrow> needle = []"
| "str_contains needle (c # cs) \<longleftrightarrow>
     take (length needle) (c # cs) = needle \<or> str_contains needle cs"

definition text_contains :: "lower_table \<Rightarrow> string \<Rightarrow> string \<Rightarrow> bool" where
  "text_contains lc haystack needle \<longleftrightarrow> needle = [] \<or> str_contains needle (normalize lc haystack)"

definition text_matches :: "lower_table \<Rightarrow> string \<Rightarrow> string \<Rightarrow> bool \<Rightarrow> bool" where
  "text_matches lc actual expected exact \<longleftrightarrow>
     (if exact then normalize lc actual = expected else text_contains lc actual expected)"

definition somes :: "'a option list \<Rightarrow> 'a list" where
  "somes xs = List.map_filter id xs"

definition node_contains :: "lower_table \<Rightarrow> node \<Rightarrow> string \<Rightarrow> bool" where
  "node_contains lc n needle \<longleftrightarrow>
     list_ex (\<lambda>t. text_contains lc t needle)
       (somes [nid_name (node_id n), nid_value (node_id n), nid_description (node_id n)])"

section \<open>Queries\<close>

record state_predicate =
  sp_token :: string
  sp_expected :: "bool option"

record identity_predicate =
  ip_role :: "string option"
  ip_name :: "string option"
  ip_description :: "string option"
  ip_native_id :: "string option"
  ip_value :: "string option"

datatype locator_query =
    LocatorQuery (lq_identity: identity_predicate) (lq_has_text: "string option") (lq_exact: bool)
      (lq_states: "state_predicate list") (lq_containment: containment_predicate)
and containment_predicate =
    Containment (cp_has: "locator_query option") (cp_has_not: "locator_query option")

abbreviation lq_has :: "locator_query \<Rightarrow> locator_query option" where
  "lq_has q \<equiv> cp_has (lq_containment q)"

abbreviation lq_has_not :: "locator_query \<Rightarrow> locator_query option" where
  "lq_has_not q \<equiv> cp_has_not (lq_containment q)"

definition query_is_empty :: "locator_query \<Rightarrow> bool" where
  "query_is_empty q \<longleftrightarrow>
     ip_role (lq_identity q) = None \<and> ip_name (lq_identity q) = None \<and>
     ip_description (lq_identity q) = None \<and> ip_native_id (lq_identity q) = None \<and>
     ip_value (lq_identity q) = None \<and> lq_has_text q = None \<and> lq_states q = [] \<and>
     lq_has q = None \<and> lq_has_not q = None"

definition unknown_state_error :: "string \<Rightarrow> adapter_error" where
  "unknown_state_error token =
     with_suggestion (''Use one of: '' @ join_with '', '' STATE_VOCABULARY)
       (new_error InvalidArgs (''Unknown state token '' @ quoted token))"

fun validate_states :: "locator_query \<Rightarrow> adapter_error + unit" where
  "validate_states (LocatorQuery i t x states (Containment h n)) =
     (case find (\<lambda>p. sp_token p \<notin> set STATE_VOCABULARY) states of
        Some p \<Rightarrow> Inl (unknown_state_error (sp_token p))
      | None \<Rightarrow>
          res_bind (case h of Some q \<Rightarrow> validate_states q | None \<Rightarrow> Inr ()) (\<lambda>_.
            case n of Some q \<Rightarrow> validate_states q | None \<Rightarrow> Inr ()))"

section \<open>Matching a whole tree\<close>

record node_match_context =
  mc_role :: string
  mc_name :: "string option"
  mc_description :: "string option"
  mc_native_id :: "string option"
  mc_value :: "string option"
  mc_states :: "string list"
  mc_children :: "node list"

definition node_context :: "node \<Rightarrow> node_match_context" where
  "node_context n =
     \<lparr>mc_role = node_role n, mc_name = nid_name (node_id n), mc_description = nid_description (node_id n),
      mc_native_id = map_option ident_value (nid_native_id (node_id n)), mc_value = nid_value (node_id n),
      mc_states = np_states (node_pres n), mc_children = node_children n\<rparr>"

definition role_matches :: "locator_query \<Rightarrow> string \<Rightarrow> bool" where
  "role_matches q role \<longleftrightarrow> is_none_or (ip_role (lq_identity q)) (\<lambda>e. normalize_role_query e = role)"

definition text_field_matches :: "lower_table \<Rightarrow> string option \<Rightarrow> string option \<Rightarrow> bool \<Rightarrow> bool" where
  "text_field_matches lc expected actual exact \<longleftrightarrow>
     (case expected of
        None \<Rightarrow> True
      | Some e \<Rightarrow> (case actual of None \<Rightarrow> False | Some a \<Rightarrow> text_matches lc a e exact))"

definition native_id_matches :: "string option \<Rightarrow> string option \<Rightarrow> bool" where
  "native_id_matches expected actual \<longleftrightarrow> (case expected of None \<Rightarrow> True | Some e \<Rightarrow> actual = Some e)"

definition state_predicates_match :: "state_predicate list \<Rightarrow> string list \<Rightarrow> bool" where
  "state_predicates_match ps states \<longleftrightarrow>
     list_all (\<lambda>p. unwrap_or (sp_expected p) True = has_state states (sp_token p)) ps"

lemma child_size: "c \<in> set cs \<Longrightarrow> size_list size (node_children c) < size_list size cs"
proof (induction cs)
  case (Cons d cs)
  have "size_list size (node_children d) < size d" by (cases d) simp
  then show ?case using Cons by auto
qed simp

function has_text_matches :: "lower_table \<Rightarrow> string option \<Rightarrow> node_match_context \<Rightarrow> bool \<Rightarrow> bool" where
  "has_text_matches lc expected ctx exact \<longleftrightarrow>
     (case expected of
        None \<Rightarrow> True
      | Some e \<Rightarrow>
          list_ex (\<lambda>t. text_matches lc t e exact)
            (somes [mc_name ctx, mc_description ctx, mc_value ctx]) \<or>
          list_ex (\<lambda>c. has_text_matches lc (Some e) (node_context c) exact) (mc_children ctx))"
  by pat_completeness auto
termination
  by (relation "measure (\<lambda>(lc, e, ctx, x). size_list size (mc_children ctx))")
    (auto simp: node_context_def child_size)

function node_matches :: "lower_table \<Rightarrow> locator_query \<Rightarrow> node_match_context \<Rightarrow> bool"
  and subtree_contains :: "lower_table \<Rightarrow> locator_query \<Rightarrow> node list \<Rightarrow> bool" where
  "node_matches lc q ctx \<longleftrightarrow>
     (if \<not> role_matches q (mc_role ctx) then False
      else if \<not> text_field_matches lc (ip_name (lq_identity q)) (mc_name ctx) (lq_exact q) then False
      else if \<not> text_field_matches lc (ip_description (lq_identity q)) (mc_description ctx) (lq_exact q) then False
      else if \<not> native_id_matches (ip_native_id (lq_identity q)) (mc_native_id ctx) then False
      else if \<not> text_field_matches lc (ip_value (lq_identity q)) (mc_value ctx) (lq_exact q) then False
      else if \<not> has_text_matches lc (lq_has_text q) ctx (lq_exact q) then False
      else if \<not> state_predicates_match (lq_states q) (mc_states ctx) then False
      else
        (case lq_has q of None \<Rightarrow> True | Some h \<Rightarrow> subtree_contains lc h (mc_children ctx)) \<and>
        (case lq_has_not q of None \<Rightarrow> True | Some n \<Rightarrow> \<not> subtree_contains lc n (mc_children ctx)))"
| "subtree_contains lc q cs \<longleftrightarrow>
     list_ex (\<lambda>c. node_matches lc q (node_context c) \<or> subtree_contains lc q (node_children c)) cs"
  by pat_completeness auto
termination
  by (relation "measures
       [\<lambda>x. case x of Inl (lc, q, ctx) \<Rightarrow> size_list size (mc_children ctx) | Inr (lc, q, cs) \<Rightarrow> size_list size cs,
        \<lambda>x. case x of Inl _ \<Rightarrow> 1 | Inr _ \<Rightarrow> 0]")
    (auto simp: node_context_def child_size)

declare has_text_matches.simps [simp del] node_matches.simps [simp del] subtree_contains.simps [simp del]

definition accessibility_node_matches :: "lower_table \<Rightarrow> node \<Rightarrow> locator_query \<Rightarrow> bool" where
  "accessibility_node_matches lc n q = node_matches lc q (node_context n)"

section \<open>Which queries are run\<close>

definition MAX_QUERY_CLAUSES :: nat where "MAX_QUERY_CLAUSES = 64"
definition MAX_RAW_DEPTH :: nat where "MAX_RAW_DEPTH = 50"
definition MAX_QUERY_FIELD_BYTES :: nat where "MAX_QUERY_FIELD_BYTES = 4096"
definition MAX_QUERY_TOTAL_BYTES :: nat where "MAX_QUERY_TOTAL_BYTES = 65536"

definition query_fields :: "locator_query \<Rightarrow> string list" where
  "query_fields q =
     somes [ip_role (lq_identity q), ip_name (lq_identity q), ip_description (lq_identity q),
            ip_native_id (lq_identity q), ip_value (lq_identity q), lq_has_text q]"

text \<open>The byte count is a \<open>usize\<close> of 64 bits with \<open>saturating_add\<close>.\<close>

fun validate_fields :: "string list \<Rightarrow> nat \<Rightarrow> adapter_error + nat" where
  "validate_fields [] bytes = Inr bytes"
| "validate_fields (v # vs) bytes =
     (if length v > MAX_QUERY_FIELD_BYTES then
        Inl (new_error InvalidArgs (''Locator query field exceeds '' @ show_nat MAX_QUERY_FIELD_BYTES @ '' bytes''))
      else let bytes = min u64_max (bytes + length v)
        in if bytes > MAX_QUERY_TOTAL_BYTES then
             Inl (new_error InvalidArgs
               (''Locator query exceeds '' @ show_nat MAX_QUERY_TOTAL_BYTES @ '' aggregate bytes''))
           else validate_fields vs bytes)"

fun validate_clause :: "locator_query \<Rightarrow> nat \<Rightarrow> nat \<Rightarrow> adapter_error + nat \<times> nat" where
  "validate_clause (LocatorQuery i t x states (Containment h n)) clauses bytes =
     (let q = LocatorQuery i t x states (Containment h n); clauses = clauses + 1
      in if clauses > MAX_QUERY_CLAUSES then
           Inl (new_error InvalidArgs
             (''LocatorQuery may contain at most '' @ show_nat MAX_QUERY_CLAUSES @ '' recursive clauses''))
         else if is_some_and (ip_role i) (\<lambda>r. \<not> is_valid_role_query r) then
           Inl (new_error InvalidArgs (''Unknown role query '' @ quoted (unwrap_or (ip_role i) [])))
         else
           res_bind (validate_fields (query_fields q) bytes) (\<lambda>bytes.
             res_bind (case h of Some q \<Rightarrow> validate_clause q clauses bytes | None \<Rightarrow> Inr (clauses, bytes))
               (\<lambda>(clauses, bytes).
                 case n of Some q \<Rightarrow> validate_clause q clauses bytes | None \<Rightarrow> Inr (clauses, bytes))))"

definition validate_query :: "locator_query \<Rightarrow> adapter_error + unit" where
  "validate_query q =
     res_bind (validate_states q) (\<lambda>_. res_bind (validate_clause q 0 0) (\<lambda>_. Inr ()))"

section \<open>The normal form of a query\<close>

fun normalize_query :: "lower_table \<Rightarrow> locator_query \<Rightarrow> locator_query" where
  "normalize_query lc (LocatorQuery i t x states (Containment h n)) =
     LocatorQuery
       \<lparr>ip_role = map_option normalize_role_query (ip_role i),
        ip_name = map_option (normalize lc) (ip_name i),
        ip_description = map_option (normalize lc) (ip_description i),
        ip_native_id = ip_native_id i,
        ip_value = map_option (normalize lc) (ip_value i)\<rparr>
       (map_option (normalize lc) t) x states
       (Containment (case h of Some q \<Rightarrow> Some (normalize_query lc q) | None \<Rightarrow> None)
          (case n of Some q \<Rightarrow> Some (normalize_query lc q) | None \<Rightarrow> None))"

end
