(* ===== verification/LocatorStats.thy ===== *)
theory LocatorStats
  imports Json
begin

text \<open>
  The counters of an observation and of a locator run (\<open>live_locator/locator_*_stats.rs\<close>,
  \<open>locator_read_counts.rs\<close>, \<open>locator_read_health.rs\<close>, \<open>locator_stats.rs\<close>): their records, their
  JSON form, and how the counters of several attempts are combined.  Counters are natural numbers;
  the code's \<open>u64\<close> cannot overflow within a run.
\<close>

record activation_stats =
  act_attempted :: bool
  act_succeeded :: bool
  act_ready :: bool

record limit_stats =
  node_hits :: nat
  edge_hits :: nat
  child_hits :: nat
  child_label_hits :: nat
  text_hits :: nat
  depth_hits :: nat
  child_count_changes :: nat

record traversal_stats =
  nodes_visited :: nat
  peak_handles_owned :: nat
  tr_max_raw_depth :: nat
  tr_max_logical_depth :: nat
  web_wrapper_nodes :: nat
  cycles_skipped :: nat
  tr_limits :: limit_stats

record read_counts =
  observation_attempts :: nat
  attribute_batches :: nat
  attributes_requested :: nat
  child_reads :: nat
  action_reads :: nat
  fallback_reads :: nat

record read_health =
  cannot_complete :: nat
  native_read_failures :: nat
  deadline_exhausted :: nat

record read_stats =
  rd_counts :: read_counts
  rd_health :: read_health

record identifier_stats =
  values_observed :: nat
  nodes_with_identifiers :: nat
  nodes_with_multiple_identifiers :: nat
  preferred_matches :: nat
  fallback_matches :: nat

record semantic_read_stats =
  child_label_reads :: nat
  promotion_reads :: nat
  settable_reads :: nat

record evaluation_stats =
  query_clause_count :: nat
  text_clause_count :: nat
  memo_cells_evaluated :: nat
  self_filter_candidates :: nat
  matched_nodes :: nat

record locator_stats =
  ls_activation :: activation_stats
  ls_traversal :: traversal_stats
  ls_reads :: read_stats
  ls_identifiers :: identifier_stats
  ls_semantic_reads :: semantic_read_stats
  ls_evaluation :: evaluation_stats
  elapsed_us :: nat

definition default_stats :: locator_stats where
  "default_stats =
     \<lparr>ls_activation = \<lparr>act_attempted = False, act_succeeded = False, act_ready = False\<rparr>,
      ls_traversal =
        \<lparr>nodes_visited = 0, peak_handles_owned = 0, tr_max_raw_depth = 0, tr_max_logical_depth = 0,
         web_wrapper_nodes = 0, cycles_skipped = 0,
         tr_limits =
           \<lparr>node_hits = 0, edge_hits = 0, child_hits = 0, child_label_hits = 0, text_hits = 0,
            depth_hits = 0, child_count_changes = 0\<rparr>\<rparr>,
      ls_reads =
        \<lparr>rd_counts =
           \<lparr>observation_attempts = 0, attribute_batches = 0, attributes_requested = 0, child_reads = 0,
            action_reads = 0, fallback_reads = 0\<rparr>,
         rd_health = \<lparr>cannot_complete = 0, native_read_failures = 0, deadline_exhausted = 0\<rparr>\<rparr>,
      ls_identifiers =
        \<lparr>values_observed = 0, nodes_with_identifiers = 0, nodes_with_multiple_identifiers = 0,
         preferred_matches = 0, fallback_matches = 0\<rparr>,
      ls_semantic_reads = \<lparr>child_label_reads = 0, promotion_reads = 0, settable_reads = 0\<rparr>,
      ls_evaluation =
        \<lparr>query_clause_count = 0, text_clause_count = 0, memo_cells_evaluated = 0,
         self_filter_candidates = 0, matched_nodes = 0\<rparr>,
      elapsed_us = 0\<rparr>"

section \<open>Combination\<close>

definition merge_limits :: "limit_stats \<Rightarrow> limit_stats \<Rightarrow> limit_stats" where
  "merge_limits a b =
     \<lparr>node_hits = node_hits a + node_hits b, edge_hits = edge_hits a + edge_hits b,
      child_hits = child_hits a + child_hits b, child_label_hits = child_label_hits a + child_label_hits b,
      text_hits = text_hits a + text_hits b, depth_hits = depth_hits a + depth_hits b,
      child_count_changes = child_count_changes a + child_count_changes b\<rparr>"

definition merge_traversal :: "traversal_stats \<Rightarrow> traversal_stats \<Rightarrow> traversal_stats" where
  "merge_traversal a b =
     \<lparr>nodes_visited = nodes_visited a + nodes_visited b,
      peak_handles_owned = max (peak_handles_owned a) (peak_handles_owned b),
      tr_max_raw_depth = max (tr_max_raw_depth a) (tr_max_raw_depth b),
      tr_max_logical_depth = max (tr_max_logical_depth a) (tr_max_logical_depth b),
      web_wrapper_nodes = web_wrapper_nodes a + web_wrapper_nodes b,
      cycles_skipped = cycles_skipped a + cycles_skipped b,
      tr_limits = merge_limits (tr_limits a) (tr_limits b)\<rparr>"

definition merge_reads :: "read_stats \<Rightarrow> read_stats \<Rightarrow> read_stats" where
  "merge_reads a b =
     (let c = rd_counts a; d = rd_counts b; h = rd_health a; k = rd_health b
      in \<lparr>rd_counts =
            \<lparr>observation_attempts = observation_attempts c + observation_attempts d,
             attribute_batches = attribute_batches c + attribute_batches d,
             attributes_requested = attributes_requested c + attributes_requested d,
             child_reads = child_reads c + child_reads d, action_reads = action_reads c + action_reads d,
             fallback_reads = fallback_reads c + fallback_reads d\<rparr>,
          rd_health =
            \<lparr>cannot_complete = cannot_complete h + cannot_complete k,
             native_read_failures = native_read_failures h + native_read_failures k,
             deadline_exhausted = deadline_exhausted h + deadline_exhausted k\<rparr>\<rparr>)"

definition merge_observation :: "locator_stats \<Rightarrow> locator_stats \<Rightarrow> locator_stats" where
  "merge_observation a b =
     (let aa = ls_activation a; ba = ls_activation b; ai = ls_identifiers a; bi = ls_identifiers b;
          asr = ls_semantic_reads a; bsr = ls_semantic_reads b
      in a\<lparr>ls_activation :=
             \<lparr>act_attempted = (act_attempted aa \<or> act_attempted ba),
              act_succeeded = (act_succeeded aa \<or> act_succeeded ba), act_ready = (act_ready aa \<or> act_ready ba)\<rparr>,
           ls_traversal := merge_traversal (ls_traversal a) (ls_traversal b),
           ls_reads := merge_reads (ls_reads a) (ls_reads b),
           ls_identifiers :=
             ai\<lparr>values_observed := values_observed ai + values_observed bi,
                nodes_with_identifiers := nodes_with_identifiers ai + nodes_with_identifiers bi,
                nodes_with_multiple_identifiers :=
                  nodes_with_multiple_identifiers ai + nodes_with_multiple_identifiers bi\<rparr>,
           ls_semantic_reads :=
             \<lparr>child_label_reads = child_label_reads asr + child_label_reads bsr,
              promotion_reads = promotion_reads asr + promotion_reads bsr,
              settable_reads = settable_reads asr + settable_reads bsr\<rparr>\<rparr>)"

definition merge_evaluation :: "locator_stats \<Rightarrow> locator_stats \<Rightarrow> locator_stats" where
  "merge_evaluation a b =
     (let ai = ls_identifiers a; bi = ls_identifiers b; ae = ls_evaluation a; be = ls_evaluation b
      in a\<lparr>ls_identifiers :=
             ai\<lparr>preferred_matches := preferred_matches ai + preferred_matches bi,
                fallback_matches := fallback_matches ai + fallback_matches bi\<rparr>,
           ls_evaluation :=
             \<lparr>query_clause_count = max (query_clause_count ae) (query_clause_count be),
              text_clause_count = max (text_clause_count ae) (text_clause_count be),
              memo_cells_evaluated = memo_cells_evaluated ae + memo_cells_evaluated be,
              self_filter_candidates = self_filter_candidates ae + self_filter_candidates be,
              matched_nodes = matched_nodes ae + matched_nodes be\<rparr>\<rparr>)"

definition merge_attempt :: "locator_stats \<Rightarrow> locator_stats \<Rightarrow> locator_stats" where
  "merge_attempt a b = merge_evaluation (merge_observation a b) b"

section \<open>As JSON\<close>

abbreviation jnat :: "nat \<Rightarrow> json" where "jnat n \<equiv> JInt (int n)"

definition limits_json :: "limit_stats \<Rightarrow> json" where
  "limits_json l =
     JObj [(''node_hits'', jnat (node_hits l)), (''edge_hits'', jnat (edge_hits l)),
           (''child_hits'', jnat (child_hits l)), (''child_label_hits'', jnat (child_label_hits l)),
           (''text_hits'', jnat (text_hits l)), (''depth_hits'', jnat (depth_hits l)),
           (''child_count_changes'', jnat (child_count_changes l))]"

definition traversal_json :: "traversal_stats \<Rightarrow> json" where
  "traversal_json t =
     JObj [(''nodes_visited'', jnat (nodes_visited t)), (''peak_handles_owned'', jnat (peak_handles_owned t)),
           (''max_raw_depth'', jnat (tr_max_raw_depth t)), (''max_logical_depth'', jnat (tr_max_logical_depth t)),
           (''web_wrapper_nodes'', jnat (web_wrapper_nodes t)), (''cycles_skipped'', jnat (cycles_skipped t)),
           (''limits'', limits_json (tr_limits t))]"

definition reads_json :: "read_stats \<Rightarrow> json" where
  "reads_json r =
     JObj [(''observation_attempts'', jnat (observation_attempts (rd_counts r))),
           (''attribute_batches'', jnat (attribute_batches (rd_counts r))),
           (''attributes_requested'', jnat (attributes_requested (rd_counts r))),
           (''child_reads'', jnat (child_reads (rd_counts r))),
           (''action_reads'', jnat (action_reads (rd_counts r))),
           (''fallback_reads'', jnat (fallback_reads (rd_counts r))),
           (''cannot_complete'', jnat (cannot_complete (rd_health r))),
           (''native_read_failures'', jnat (native_read_failures (rd_health r))),
           (''deadline_exhausted'', jnat (deadline_exhausted (rd_health r)))]"

definition stats_json :: "locator_stats \<Rightarrow> json" where
  "stats_json s =
     JObj [(''activation'',
              JObj [(''attempted'', JBool (act_attempted (ls_activation s))),
                    (''succeeded'', JBool (act_succeeded (ls_activation s))),
                    (''ready'', JBool (act_ready (ls_activation s)))]),
           (''traversal'', traversal_json (ls_traversal s)),
           (''reads'', reads_json (ls_reads s)),
           (''identifiers'',
              JObj [(''values_observed'', jnat (values_observed (ls_identifiers s))),
                    (''nodes_with_identifiers'', jnat (nodes_with_identifiers (ls_identifiers s))),
                    (''nodes_with_multiple_identifiers'',
                       jnat (nodes_with_multiple_identifiers (ls_identifiers s))),
                    (''preferred_matches'', jnat (preferred_matches (ls_identifiers s))),
                    (''fallback_matches'', jnat (fallback_matches (ls_identifiers s)))]),
           (''semantic_reads'',
              JObj [(''child_label_reads'', jnat (child_label_reads (ls_semantic_reads s))),
                    (''promotion_reads'', jnat (promotion_reads (ls_semantic_reads s))),
                    (''settable_reads'', jnat (settable_reads (ls_semantic_reads s)))]),
           (''evaluation'',
              JObj [(''query_clause_count'', jnat (query_clause_count (ls_evaluation s))),
                    (''text_clause_count'', jnat (text_clause_count (ls_evaluation s))),
                    (''memo_cells_evaluated'', jnat (memo_cells_evaluated (ls_evaluation s))),
                    (''self_filter_candidates'', jnat (self_filter_candidates (ls_evaluation s))),
                    (''matched_nodes'', jnat (matched_nodes (ls_evaluation s)))]),
           (''elapsed_us'', jnat (elapsed_us s))]"

section \<open>Attempts may be combined in any grouping\<close>

lemma merge_limits_assoc: "merge_limits (merge_limits a b) c = merge_limits a (merge_limits b c)"
  by (simp add: merge_limits_def)

lemma merge_traversal_assoc: "merge_traversal (merge_traversal a b) c = merge_traversal a (merge_traversal b c)"
  by (simp add: merge_traversal_def merge_limits_assoc max.assoc)

lemma merge_reads_assoc: "merge_reads (merge_reads a b) c = merge_reads a (merge_reads b c)"
  by (simp add: merge_reads_def Let_def)

lemma merge_attempt_assoc: "merge_attempt (merge_attempt a b) c = merge_attempt a (merge_attempt b c)"
  by (simp add: merge_attempt_def merge_evaluation_def merge_observation_def Let_def max.assoc
      merge_traversal_assoc merge_reads_assoc)

lemma merge_attempt_default: "elapsed_us s = 0 \<Longrightarrow> merge_attempt default_stats s = s"
  by (simp add: merge_attempt_def merge_evaluation_def merge_observation_def default_stats_def Let_def
      merge_traversal_def merge_limits_def merge_reads_def)

lemma merge_attempt_attempts [simp]:
  "observation_attempts (rd_counts (ls_reads (merge_attempt a b))) =
     observation_attempts (rd_counts (ls_reads a)) + observation_attempts (rd_counts (ls_reads b))"
  by (simp add: merge_attempt_def merge_evaluation_def merge_observation_def merge_reads_def Let_def)

end
