(* ===== verification/LocatorTree.thy ===== *)
theory LocatorTree
  imports Locator LocatorStats
begin

text \<open>
  What an observation reads of an application (\<open>live_locator/locator_evidence.rs\<close>,
  \<open>locator_ref_evidence.rs\<close>, \<open>observation_completeness.rs\<close>, \<open>observed_subtree.rs\<close>,
  \<open>observed_node.rs\<close>, \<open>observed_tree.rs\<close>, \<open>observation_source.rs\<close>): evidence in which a field may
  be unknown and a subtree incomplete, the tree as it is read and its flat form in document order.
\<close>

section \<open>Evidence\<close>

record locator_ref_evidence =
  re_bounds :: "rect locator_field"
  re_available_actions :: "string list locator_field"

record locator_evidence =
  lev_role :: "string locator_field"
  lev_name :: "string locator_field"
  lev_description :: "string locator_field"
  lev_value :: "string locator_field"
  lev_identifiers :: identifier_evidence
  lev_states :: "string list locator_field"
  lev_ref :: locator_ref_evidence

record completeness =
  subtree_complete :: bool
  predecessors_complete :: bool

definition new_completeness :: "bool \<Rightarrow> completeness" where
  "new_completeness b = \<lparr>subtree_complete = b, predecessors_complete = True\<rparr>"

datatype observed_subtree =
  Subtree (sub_evidence: locator_evidence) (sub_children: "observed_subtree list")
    (sub_completeness: completeness) (sub_children_count: "u32 option") (sub_source_index: "nat option")

definition new_subtree ::
  "locator_evidence \<Rightarrow> observed_subtree list \<Rightarrow> bool \<Rightarrow> u32 option \<Rightarrow> observed_subtree" where
  "new_subtree ev cs whole count = Subtree ev cs (new_completeness whole) count None"

fun with_source_child_index :: "nat \<Rightarrow> observed_subtree \<Rightarrow> observed_subtree" where
  "with_source_child_index k (Subtree ev cs cpl count i) = Subtree ev cs cpl count (Some k)"

fun with_predecessors_complete :: "bool \<Rightarrow> observed_subtree \<Rightarrow> observed_subtree" where
  "with_predecessors_complete b (Subtree ev cs cpl count i) =
     Subtree ev cs (cpl\<lparr>predecessors_complete := b\<rparr>) count i"

definition subtree_is_complete :: "observed_subtree \<Rightarrow> bool" where
  "subtree_is_complete t = subtree_complete (sub_completeness t)"

record observed_node =
  on_evidence :: locator_evidence
  on_path :: "nat list"
  on_children :: "nat list"
  on_document_order :: nat
  on_completeness :: completeness
  on_children_count :: "u32 option"
  on_ref_id :: "string option"

datatype observation_source =
    FromWindow window_info snapshot_surface
  | FromElement ref_entry "string option"

record observed_tree =
  ot_nodes :: "observed_node list"
  ot_roots :: "nat list"
  ot_source :: observation_source
  ot_stats :: locator_stats
  ot_complete :: bool

section \<open>Building the flat tree\<close>

text \<open>
  \<open>append\<close> pushes the node, then its children in order, then writes the children's indices and the
  completeness back into the node.  Indices are \<open>u32\<close>: a node that would get a larger one fails.
\<close>

fun append_subtree ::
  "observed_node list \<Rightarrow> observed_subtree \<Rightarrow> nat list \<Rightarrow> adapter_error + nat \<times> observed_node list"
and append_children ::
  "observed_node list \<Rightarrow> observed_subtree list \<Rightarrow> nat list \<Rightarrow> nat \<Rightarrow> nat option \<Rightarrow> bool \<Rightarrow> nat list \<Rightarrow>
     adapter_error + (nat list \<times> bool) \<times> observed_node list"
where
  "append_subtree nodes (Subtree ev cs cpl count si) path =
     (let index = length nodes
      in if index > u32_max then Inl (internal_error ''observed tree exceeds u32'')
         else
           res_bind
             (append_children
                (nodes @
                  [\<lparr>on_evidence = ev, on_path = path, on_children = [], on_document_order = index,
                    on_completeness = cpl, on_children_count = count, on_ref_id = None\<rparr>])
                cs path 0 None (subtree_complete cpl) [])
             (\<lambda>((indices, whole), nodes).
               case list_get nodes index of
                 None \<Rightarrow> Inl (internal_error ''observed node disappeared during build'')
               | Some node \<Rightarrow>
                   Inr (index,
                     nodes[index :=
                       node\<lparr>on_children := indices,
                            on_completeness := (on_completeness node)\<lparr>subtree_complete := whole\<rparr>\<rparr>])))"
| "append_children nodes [] path order previous whole indices = Inr ((indices, whole), nodes)"
| "append_children nodes (c # cs) path order previous whole indices =
     (let native = unwrap_or (sub_source_index c) order
      in if is_some_and previous (\<lambda>p. p \<ge> native) then
           Inl (internal_error ''locator tree children are not in native document order'')
         else
           res_bind (append_subtree nodes c (path @ [native])) (\<lambda>(child, nodes).
             append_children nodes cs path (order + 1) (Some native)
               (whole \<and> subtree_complete (on_completeness (nodes ! child))) (indices @ [child])))"

fun append_roots ::
  "observed_node list \<Rightarrow> observed_subtree list \<Rightarrow> nat list \<Rightarrow> adapter_error + nat list \<times> observed_node list"
where
  "append_roots nodes [] roots = Inr (roots, nodes)"
| "append_roots nodes (r # rs) roots =
     res_bind (append_subtree nodes r []) (\<lambda>(index, nodes). append_roots nodes rs (roots @ [index]))"

definition from_roots ::
  "observed_subtree list \<Rightarrow> observation_source \<Rightarrow> locator_stats \<Rightarrow> bool \<Rightarrow> adapter_error + observed_tree" where
  "from_roots rs src stats whole =
     (if rs = [] then Inl (internal_error ''observation contains no roots'')
      else
        res_bind (append_roots [] rs []) (\<lambda>(roots, nodes).
          Inr \<lparr>ot_nodes = nodes, ot_roots = roots, ot_source = src, ot_stats = stats,
               ot_complete =
                 (whole \<and> list_all (\<lambda>r. subtree_complete (on_completeness (nodes ! r))) roots)\<rparr>))"

section \<open>The printed form\<close>

text \<open>
  \<open>take_known\<close> leaves the field unknown and \<open>take\<close> empties the child list, so a node projected
  twice would come out empty the second time: the nodes are threaded through.  The recursion
  follows the child indices; its depth is bounded by \<open>fuel\<close>, and no fuel means no answer.
\<close>

definition strip_node :: "observed_node \<Rightarrow> observed_node" where
  "strip_node n =
     (let ev = on_evidence n
      in n\<lparr>on_evidence :=
             ev\<lparr>lev_role := FieldUnknown, lev_name := FieldUnknown, lev_value := FieldUnknown,
                lev_description := FieldUnknown, lev_states := FieldUnknown,
                lev_ref := (lev_ref ev)\<lparr>re_available_actions := FieldUnknown\<rparr>\<rparr>,
           on_children := [], on_ref_id := None\<rparr>)"

definition projected_node :: "observed_node \<Rightarrow> node list \<Rightarrow> node" where
  "projected_node n cs =
     (let ev = on_evidence n
      in Node (on_ref_id n) (unwrap_or (known (lev_role ev)) ''unknown'')
           \<lparr>nid_retained_object = ev_retained_object (lev_identifiers ev),
            nid_name = option_filter (\<lambda>v. v \<noteq> []) (known (lev_name ev)),
            nid_value = option_filter (\<lambda>v. v \<noteq> []) (known (lev_value ev)),
            nid_description = option_filter (\<lambda>v. v \<noteq> []) (known (lev_description ev)),
            nid_native_id = preferred_identifier (lev_identifiers ev)\<rparr>
           \<lparr>np_hint = None, np_states = unwrap_or (known (lev_states ev)) [],
            np_available_actions = unwrap_or (known (re_available_actions (lev_ref ev))) [],
            np_bounds = known (re_bounds (lev_ref ev))\<rparr>
           (on_children_count n) (\<not> subtree_complete (on_completeness n)) cs)"

fun project ::
  "nat \<Rightarrow> observed_node list \<Rightarrow> nat \<Rightarrow> (adapter_error + node \<times> observed_node list) option"
and project_all ::
  "nat \<Rightarrow> observed_node list \<Rightarrow> nat list \<Rightarrow> (adapter_error + node list \<times> observed_node list) option"
where
  "project 0 nodes index = None"
| "project (Suc fuel) nodes index =
     (case list_get nodes index of
        None \<Rightarrow> Some (Inl (internal_error ''observed child index is out of bounds''))
      | Some n \<Rightarrow>
          (case project_all fuel (nodes[index := strip_node n]) (on_children n) of
             None \<Rightarrow> None
           | Some (Inl e) \<Rightarrow> Some (Inl e)
           | Some (Inr (cs, nodes)) \<Rightarrow> Some (Inr (projected_node n cs, nodes))))"
| "project_all fuel nodes [] = Some (Inr ([], nodes))"
| "project_all fuel nodes (i # is) =
     (case project fuel nodes i of
        None \<Rightarrow> None
      | Some (Inl e) \<Rightarrow> Some (Inl e)
      | Some (Inr (c, nodes)) \<Rightarrow>
          (case project_all fuel nodes is of
             None \<Rightarrow> None
           | Some (Inl e) \<Rightarrow> Some (Inl e)
           | Some (Inr (cs, nodes)) \<Rightarrow> Some (Inr (c # cs, nodes))))"

definition project_tree :: "observed_tree \<Rightarrow> (adapter_error + node) option" where
  "project_tree tree =
     map_option (\<lambda>r. res_bind r (\<lambda>(n, nodes). Inr n))
       (project (Suc (length (ot_nodes tree))) (ot_nodes tree) (ot_roots tree ! 0))"

definition incomplete_error :: "observed_tree \<Rightarrow> adapter_error" where
  "incomplete_error tree =
     with_details
       (JObj [(''kind'', JStr ''observation_incomplete''),
              (''nodes_observed'', jnat (length (ot_nodes tree))),
              (''query_stats'', stats_json (ot_stats tree))])
       (with_suggestion ''Retry with a larger timeout or a narrower tree depth''
         (new_error Timeout ''Accessibility observation was incomplete''))"

definition one_root_error :: adapter_error where
  "one_root_error = internal_error ''accessibility projection requires exactly one root''"

definition into_accessibility_tree :: "observed_tree \<Rightarrow> (adapter_error + node) option" where
  "into_accessibility_tree tree =
     (if \<not> ot_complete tree then Some (Inl (incomplete_error tree))
      else if length (ot_roots tree) \<noteq> 1 then Some (Inl one_root_error)
      else project_tree tree)"

definition into_accessibility_tree_partial :: "observed_tree \<Rightarrow> (adapter_error + node \<times> bool \<times> nat) option" where
  "into_accessibility_tree_partial tree =
     (if length (ot_roots tree) \<noteq> 1 then Some (Inl one_root_error)
      else
        map_option (\<lambda>r. res_bind r (\<lambda>n. Inr (n, ot_complete tree, length (ot_nodes tree))))
          (project_tree tree))"

section \<open>The flat tree is the tree in document order\<close>

text \<open>
  \<open>preorder\<close> lists the subtrees of a tree in document order; \<open>whole\<close> says that no node of it is
  incomplete.  \<open>flat\<close> is the flat form at a given offset.
\<close>

fun preorder :: "observed_subtree \<Rightarrow> observed_subtree list" where
  "preorder (Subtree ev cs cpl count si) = Subtree ev cs cpl count si # concat (map preorder cs)"

fun whole :: "observed_subtree \<Rightarrow> bool" where
  "whole (Subtree ev cs cpl count si) \<longleftrightarrow> subtree_complete cpl \<and> list_all whole cs"

abbreviation forest :: "observed_subtree list \<Rightarrow> observed_subtree list" where
  "forest ts \<equiv> concat (map preorder ts)"

fun starts :: "nat \<Rightarrow> observed_subtree list \<Rightarrow> nat list" where
  "starts k [] = []"
| "starts k (c # cs) = k # starts (k + length (preorder c)) cs"

fun flat :: "nat \<Rightarrow> nat list \<Rightarrow> observed_subtree \<Rightarrow> observed_node list"
and flats :: "nat \<Rightarrow> nat list \<Rightarrow> nat \<Rightarrow> observed_subtree list \<Rightarrow> observed_node list"
where
  "flat k p (Subtree ev cs cpl count si) =
     \<lparr>on_evidence = ev, on_path = p, on_children = starts (Suc k) cs, on_document_order = k,
      on_completeness = cpl\<lparr>subtree_complete := subtree_complete cpl \<and> list_all whole cs\<rparr>,
      on_children_count = count, on_ref_id = None\<rparr> # flats (Suc k) p 0 cs"
| "flats k p order [] = []"
| "flats k p order (c # cs) =
     flat k (p @ [unwrap_or (sub_source_index c) order]) c @
     flats (k + length (preorder c)) p (Suc order) cs"

fun ordered_children :: "nat option \<Rightarrow> nat \<Rightarrow> observed_subtree list \<Rightarrow> bool" where
  "ordered_children previous order [] = True"
| "ordered_children previous order (c # cs) \<longleftrightarrow>
     is_none_or previous (\<lambda>p. p < unwrap_or (sub_source_index c) order) \<and>
     ordered_children (Some (unwrap_or (sub_source_index c) order)) (Suc order) cs"

definition ordered :: "observed_subtree \<Rightarrow> bool" where
  "ordered t \<longleftrightarrow> list_all (\<lambda>s. ordered_children None 0 (sub_children s)) (preorder t)"

lemma preorder_nonempty [simp]: "0 < length (preorder t)" "preorder t \<noteq> []"
  by (cases t; simp)+

lemma preorder_hd [simp]: "preorder t ! 0 = t" "hd (preorder t) = t"
  by (cases t; simp)+

lemma flat_length [simp]: "length (flat k p t) = length (preorder t)"
  and flats_length [simp]: "length (flats k p order cs) = length (forest cs)"
  by (induction k p t and k p order cs rule: flat_flats.induct) auto

lemma flat_nonempty [simp]: "flat k p t \<noteq> []"
  by (cases t) simp

lemma ordered_Subtree [simp]:
  "ordered (Subtree ev cs cpl count si) \<longleftrightarrow> ordered_children None 0 cs \<and> list_all ordered cs"
  by (induction cs) (auto simp: ordered_def list_all_iff)

lemma flat_root_complete [simp]: "subtree_complete (on_completeness (flat k p t ! 0)) = whole t"
  by (cases t) simp

lemma nth_past: "(xs @ ys @ zs) ! length xs = (if ys = [] then zs ! 0 else ys ! 0)"
  by (auto simp: nth_append)

lemma append_exact:
  "append_subtree nodes t path = Inr r \<longleftrightarrow>
     r = (length nodes, nodes @ flat (length nodes) path t) \<and> ordered t \<and>
     length nodes + length (preorder t) \<le> Suc u32_max"
  and append_children_exact:
  "append_children nodes cs path order previous w is = Inr s \<longleftrightarrow>
     s = ((is @ starts (length nodes) cs, w \<and> list_all whole cs), nodes @ flats (length nodes) path order cs) \<and>
     ordered_children previous order cs \<and> list_all ordered cs \<and>
     (cs = [] \<or> length nodes + length (forest cs) \<le> Suc u32_max)"
proof (induction nodes t path and nodes cs path order previous w "is" arbitrary: r and s
    rule: append_subtree_append_children.induct)
  case (1 nodes ev cs cpl count si path)
  show ?case
  proof (cases "length nodes > u32_max")
    case True
    then show ?thesis by simp
  next
    case False
    then show ?thesis
      by (cases "cs = []") (auto simp: Let_def 1 list_get_def nth_append)
  qed
next
  case (2 nodes path order previous w "is")
  then show ?case by auto
next
  case (3 nodes c cs path order previous w "is")
  show ?case
  proof (cases "is_some_and previous (\<lambda>p. p \<ge> unwrap_or (sub_source_index c) order)")
    case True
    then show ?thesis by (auto simp: is_some_and_iff)
  next
    case False
    then have ok: "is_none_or previous (\<lambda>p. p < unwrap_or (sub_source_index c) order)"
      by (cases previous) auto
    let ?native = "unwrap_or (sub_source_index c) order"
    let ?after = "nodes @ flat (length nodes) (path @ [?native]) c"
    have child: "append_subtree nodes c (path @ [?native]) = Inr r \<longleftrightarrow>
      r = (length nodes, ?after) \<and> ordered c \<and> length nodes + length (preorder c) \<le> Suc u32_max" for r
      using 3(1)[OF refl False] by simp
    have mark: "subtree_complete (on_completeness (?after ! length nodes)) = whole c"
      by (simp add: nth_append)
    have rest: "append_children ?after cs path (order + 1) (Some ?native) (w \<and> whole c) (is @ [length nodes]) = Inr s \<longleftrightarrow>
      s = (((is @ [length nodes]) @ starts (length ?after) cs, (w \<and> whole c) \<and> list_all whole cs),
           ?after @ flats (length ?after) path (order + 1) cs) \<and>
      ordered_children (Some ?native) (order + 1) cs \<and> list_all ordered cs \<and>
      (cs = [] \<or> length ?after + length (forest cs) \<le> Suc u32_max)"
      using 3(2)[OF refl False, of ?after "length nodes" s] by (simp add: mark)
    have "append_children nodes (c # cs) path order previous w is = Inr s \<longleftrightarrow>
      ordered c \<and> length nodes + length (preorder c) \<le> Suc u32_max \<and>
      append_children ?after cs path (order + 1) (Some ?native) (w \<and> whole c) (is @ [length nodes]) = Inr s"
      using False by (auto simp: Let_def child mark)
    then show ?thesis
      unfolding rest using ok by (cases "cs = []") auto
  qed
qed

fun flat_roots :: "nat \<Rightarrow> observed_subtree list \<Rightarrow> observed_node list" where
  "flat_roots k [] = []"
| "flat_roots k (r # rs) = flat k [] r @ flat_roots (k + length (preorder r)) rs"

lemma flat_roots_length [simp]: "length (flat_roots k rs) = length (forest rs)"
  by (induction rs arbitrary: k) auto

lemma append_roots_exact:
  "append_roots nodes rs roots = Inr r \<longleftrightarrow>
     r = (roots @ starts (length nodes) rs, nodes @ flat_roots (length nodes) rs) \<and>
     list_all ordered rs \<and> (rs = [] \<or> length nodes + length (forest rs) \<le> Suc u32_max)"
proof (induction rs arbitrary: nodes roots r)
  case Nil
  then show ?case by auto
next
  case (Cons t rs)
  have "append_roots nodes (t # rs) roots = Inr r \<longleftrightarrow>
    ordered t \<and> length nodes + length (preorder t) \<le> Suc u32_max \<and>
    append_roots (nodes @ flat (length nodes) [] t) rs (roots @ [length nodes]) = Inr r"
    by (auto simp: append_exact)
  then show ?case
    unfolding Cons.IH by (cases "rs = []") auto
qed

lemma roots_complete:
  "list_all (\<lambda>r. subtree_complete (on_completeness ((xs @ flat_roots (length xs) rs) ! r))) (starts (length xs) rs)
     \<longleftrightarrow> list_all whole rs"
proof (induction rs arbitrary: xs)
  case (Cons t rs)
  have "(xs @ flat_roots (length xs) (t # rs)) ! length xs = flat (length xs) [] t ! 0"
    by (simp add: nth_append)
  then show ?case using Cons[of "xs @ flat (length xs) [] t"] by simp
qed simp

text \<open>Where a subtree lies in the flat form, and that its children lie where the node says.\<close>

definition located :: "observed_node list \<Rightarrow> nat \<Rightarrow> observed_subtree \<Rightarrow> bool" where
  "located nodes i t \<longleftrightarrow> (\<exists>p xs ys. nodes = xs @ flat i p t @ ys \<and> length xs = i)"

lemma located_flats:
  "nodes = xs @ flats k p order cs @ ys \<Longrightarrow> length xs = k \<Longrightarrow> list_all2 (located nodes) (starts k cs) cs"
proof (induction cs arbitrary: xs k order)
  case (Cons c cs)
  have "located nodes k c" using Cons.prems by (auto simp: located_def)
  moreover have "list_all2 (located nodes) (starts (k + length (preorder c)) cs) cs"
    using Cons.prems
    by (intro Cons.IH[of "xs @ flat k (p @ [unwrap_or (sub_source_index c) order]) c" _ "Suc order"]) auto
  ultimately show ?case by simp
qed simp

lemma starts_length [simp]: "length (starts k cs) = length cs"
  by (induction cs arbitrary: k) auto

lemma starts_after: "j \<in> set (starts k cs) \<Longrightarrow> k \<le> j"
  by (induction cs arbitrary: k) force+

lemma located_Subtree:
  assumes "located nodes i (Subtree ev cs cpl count si)"
  shows "i < length nodes"
    and "on_evidence (nodes ! i) = ev"
    and "on_children (nodes ! i) = starts (Suc i) cs"
    and "on_document_order (nodes ! i) = i"
    and "on_completeness (nodes ! i) = cpl\<lparr>subtree_complete := subtree_complete cpl \<and> list_all whole cs\<rparr>"
    and "on_ref_id (nodes ! i) = None"
    and "list_all2 (located nodes) (starts (Suc i) cs) cs"
proof -
  obtain p xs ys where nodes: "nodes = xs @ flat i p (Subtree ev cs cpl count si) @ ys" and i: "length xs = i"
    using assms by (auto simp: located_def)
  from nodes i show "i < length nodes" by simp
  have n: "nodes ! i = hd (flat i p (Subtree ev cs cpl count si))"
    using nodes i by (simp add: nth_append)
  then show "on_evidence (nodes ! i) = ev"
    "on_children (nodes ! i) = starts (Suc i) cs" "on_document_order (nodes ! i) = i"
    "on_completeness (nodes ! i) = cpl\<lparr>subtree_complete := subtree_complete cpl \<and> list_all whole cs\<rparr>"
    "on_ref_id (nodes ! i) = None"
    by simp_all
  from nodes i show "list_all2 (located nodes) (starts (Suc i) cs) cs"
    by (intro located_flats[of _ "xs @ [hd (flat i p (Subtree ev cs cpl count si))]" _ p 0 _ ys]) simp_all
qed

lemma located_bound: "located nodes i t \<Longrightarrow> i < length nodes"
  by (cases t) (auto dest: located_Subtree(1))

lemma located_whole: "located nodes i t \<Longrightarrow> subtree_complete (on_completeness (nodes ! i)) = whole t"
  by (cases t) (simp add: located_Subtree(5))

lemma located_list:
  assumes "list_all2 (located nodes) (starts k cs) cs"
    and "\<And>c j i. c \<in> set cs \<Longrightarrow> located nodes j c \<Longrightarrow> i < length (preorder c) \<Longrightarrow>
      located nodes (j + i) (preorder c ! i)"
    and "i < length (forest cs)"
  shows "located nodes (k + i) (forest cs ! i)"
  using assms
proof (induction cs arbitrary: k i rule: list.induct)
  case (Cons c cs)
  show ?case
  proof (cases "i < length (preorder c)")
    case True
    then show ?thesis using Cons.prems(1,2) by (simp add: nth_append)
  next
    case False
    have "located nodes ((k + length (preorder c)) + (i - length (preorder c))) (forest cs ! (i - length (preorder c)))"
      using Cons.prems False by (intro Cons.IH) auto
    then show ?thesis using False by (simp add: nth_append)
  qed
qed simp

lemma located_inside:
  "located nodes k t \<Longrightarrow> i < length (preorder t) \<Longrightarrow> located nodes (k + i) (preorder t ! i)"
proof (induction t arbitrary: k i)
  case (Subtree ev cs cpl count si)
  show ?case
  proof (cases i)
    case 0
    then show ?thesis using Subtree.prems by simp
  next
    case (Suc j)
    then show ?thesis
      using located_list[OF located_Subtree(7)[OF Subtree.prems(1)] Subtree.IH, of j] Subtree.prems(2) by simp
  qed
qed

lemma located_roots:
  "nodes = xs @ flat_roots k rs @ ys \<Longrightarrow> length xs = k \<Longrightarrow> list_all2 (located nodes) (starts k rs) rs"
proof (induction rs arbitrary: xs k)
  case (Cons r rs)
  have "located nodes k r" using Cons.prems by (auto simp: located_def)
  moreover have "list_all2 (located nodes) (starts (k + length (preorder r)) rs) rs"
    using Cons.prems by (intro Cons.IH[of "xs @ flat k [] r"]) auto
  ultimately show ?case by simp
qed simp

lemma located_forest:
  "nodes = flat_roots 0 rs \<Longrightarrow> i < length (forest rs) \<Longrightarrow> located nodes i (forest rs ! i)"
  using located_list[OF located_roots[of nodes "[]" 0 rs "[]"] located_inside] by simp

lemma from_roots_exact:
  "from_roots rs src stats w = Inr tree \<longleftrightarrow>
     rs \<noteq> [] \<and> list_all ordered rs \<and> length (forest rs) \<le> 2 ^ 32 \<and>
     tree = \<lparr>ot_nodes = flat_roots 0 rs, ot_roots = starts 0 rs, ot_source = src, ot_stats = stats,
             ot_complete = (w \<and> list_all whole rs)\<rparr>"
  using roots_complete[of "[]" rs]
  by (auto simp: from_roots_def append_roots_exact)

section \<open>The printed form is the tree that was read\<close>

fun projection :: "observed_subtree \<Rightarrow> node" where
  "projection (Subtree ev cs cpl count si) =
     Node None (unwrap_or (known (lev_role ev)) ''unknown'')
       \<lparr>nid_retained_object = ev_retained_object (lev_identifiers ev),
        nid_name = option_filter (\<lambda>v. v \<noteq> []) (known (lev_name ev)),
        nid_value = option_filter (\<lambda>v. v \<noteq> []) (known (lev_value ev)),
        nid_description = option_filter (\<lambda>v. v \<noteq> []) (known (lev_description ev)),
        nid_native_id = preferred_identifier (lev_identifiers ev)\<rparr>
       \<lparr>np_hint = None, np_states = unwrap_or (known (lev_states ev)) [],
        np_available_actions = unwrap_or (known (re_available_actions (lev_ref ev))) [],
        np_bounds = known (re_bounds (lev_ref ev))\<rparr>
       count (\<not> whole (Subtree ev cs cpl count si)) (map projection cs)"

lemma project_flat:
  "length xs = i \<Longrightarrow> length (preorder t) \<le> fuel \<Longrightarrow>
     \<exists>zs. length zs = length (preorder t) \<and>
       project fuel (xs @ flat i p t @ ys) i = Some (Inr (projection t, xs @ zs @ ys))"
proof (induction t arbitrary: xs i p ys fuel)
  case (Subtree ev cs cpl count si)
  have children: "\<exists>zs. length zs = length (forest ds) \<and>
      project_all fuel (xs @ flats k p order ds @ ys) (starts k ds) =
        Some (Inr (map projection ds, xs @ zs @ ys))"
    if "set ds \<subseteq> set cs" "length xs = k" "length (forest ds) \<le> fuel" for ds xs k order ys fuel
    using that
  proof (induction ds arbitrary: xs k order)
    case Nil
    then show ?case by simp
  next
    case (Cons d ds)
    obtain zs where zs: "length zs = length (preorder d)"
      "project fuel (xs @ flat k (p @ [unwrap_or (sub_source_index d) order]) d @
          (flats (k + length (preorder d)) p (Suc order) ds @ ys)) k =
        Some (Inr (projection d, xs @ zs @ flats (k + length (preorder d)) p (Suc order) ds @ ys))"
      using Subtree.IH[of d xs k fuel "p @ [unwrap_or (sub_source_index d) order]"
          "flats (k + length (preorder d)) p (Suc order) ds @ ys"] Cons.prems by auto
    obtain zs' where zs': "length zs' = length (forest ds)"
      "project_all fuel ((xs @ zs) @ flats (k + length (preorder d)) p (Suc order) ds @ ys)
         (starts (k + length (preorder d)) ds) = Some (Inr (map projection ds, (xs @ zs) @ zs' @ ys))"
      using Cons.IH[of "xs @ zs" "k + length (preorder d)" "Suc order"] Cons.prems zs(1) by auto
    show ?case
      using zs zs' by (intro exI[of _ "zs @ zs'"]) simp
  qed
  obtain f where f: "fuel = Suc f" "length (forest cs) \<le> f"
    using Subtree.prems(2) by (cases fuel) auto
  define n where "n = hd (flat i p (Subtree ev cs cpl count si))"
  have flat: "flat i p (Subtree ev cs cpl count si) = n # flats (Suc i) p 0 cs"
    by (simp add: n_def)
  obtain zs where zs: "length zs = length (forest cs)"
    "project_all f ((xs @ [strip_node n]) @ flats (Suc i) p 0 cs @ ys) (starts (Suc i) cs) =
      Some (Inr (map projection cs, (xs @ [strip_node n]) @ zs @ ys))"
    using children[of cs "xs @ [strip_node n]" "Suc i" f 0 ys] Subtree.prems f by auto
  have "projected_node n (map projection cs) = projection (Subtree ev cs cpl count si)"
    by (simp add: n_def projected_node_def)
  moreover have "on_children n = starts (Suc i) cs" by (simp add: n_def)
  ultimately show ?case
    using zs Subtree.prems(1) unfolding flat f(1)
    by (intro exI[of _ "strip_node n # zs"]) (simp add: list_get_def nth_append list_update_append)
qed

lemma printed_as_read:
  assumes "from_roots [t] src stats w = Inr tree"
  shows "into_accessibility_tree_partial tree = Some (Inr (projection t, w \<and> whole t, length (preorder t))) \<and>
    into_accessibility_tree tree =
      Some (if w \<and> whole t then Inr (projection t) else Inl (incomplete_error tree))"
proof -
  have tree: "ot_nodes tree = flat 0 [] t" "ot_roots tree = [0]" "ot_complete tree = (w \<and> whole t)"
    using assms by (simp_all add: from_roots_exact)
  have "\<exists>zs. project (Suc (length (preorder t))) (flat 0 [] t) 0 = Some (Inr (projection t, zs))"
    using project_flat[of "[]" 0 t "Suc (length (preorder t))" "[]" "[]"] by auto
  then have "project_tree tree = Some (Inr (projection t))"
    by (auto simp: project_tree_def tree simp del: project.simps)
  then show ?thesis
    by (simp add: into_accessibility_tree_partial_def into_accessibility_tree_def tree)
qed

lemma printed_without_refs:
  assumes "from_roots rs src stats w = Inr tree"
  shows "into_accessibility_tree_partial tree = Some (Inr (n, complete_tree, count)) \<Longrightarrow> tree_refs n = []"
    "into_accessibility_tree tree = Some (Inr n) \<Longrightarrow> tree_refs n = []"
proof -
  have none: "tree_refs (projection t) = []" for t by (induction t) auto
  have "length (starts k cs) = length cs" for k cs by (induction k cs rule: starts.induct) auto
  then have "length (ot_roots tree) = length rs" using assms by (simp add: from_roots_exact)
  then consider t where "rs = [t]" | "length (ot_roots tree) \<noteq> 1" by (cases rs rule: list.exhaust; cases "tl rs") auto
  then have "(into_accessibility_tree_partial tree = Some (Inr (n, complete_tree, count)) \<longrightarrow> tree_refs n = []) \<and>
    (into_accessibility_tree tree = Some (Inr n) \<longrightarrow> tree_refs n = [])"
  proof cases
    case 1
    then show ?thesis using printed_as_read [of t src stats w tree] assms none by auto
  qed (simp add: into_accessibility_tree_partial_def into_accessibility_tree_def)
  then show "into_accessibility_tree_partial tree = Some (Inr (n, complete_tree, count)) \<Longrightarrow> tree_refs n = []"
    "into_accessibility_tree tree = Some (Inr n) \<Longrightarrow> tree_refs n = []" by blast+
qed

text \<open>
  C31.  Whatever was observed of a single root is printed as it was read, node by node and child by
  child: values that were not read print as absent, truncated nodes are marked, and the report of
  completeness and of the number of nodes is exact.
\<close>

theorem observation_prints_as_read:
  assumes "from_roots [t] src stats w = Inr tree"
  shows "into_accessibility_tree_partial tree = Some (Inr (projection t, w \<and> whole t, length (preorder t))) \<and>
    into_accessibility_tree tree =
      Some (if w \<and> whole t then Inr (projection t) else Inl (incomplete_error tree))"
  using assms by (rule printed_as_read)

section \<open>A sample\<close>

definition sample_field_evidence :: "string \<Rightarrow> string \<Rightarrow> element_identifier list \<Rightarrow> locator_evidence" where
  "sample_field_evidence role name ids =
     \<lparr>lev_role = Known role, lev_name = Known name, lev_description = Absent, lev_value = Absent,
      lev_identifiers =
        \<lparr>ev_identifiers = ids, ev_preferred = (if ids = [] then None else Some 0), ev_complete = True,
         ev_retained_object = None\<rparr>, lev_states = Known [],
      lev_ref = \<lparr>re_bounds = Absent, re_available_actions = Known [''Click'']\<rparr>\<rparr>"

definition sample_button :: observed_subtree where
  "sample_button =
     new_subtree
       (sample_field_evidence ''button'' ''ok'' [\<lparr>ident_kind = AxIdentifier, ident_value = ''ok-button''\<rparr>])
       [] True None"

text \<open>A group of which one button was read, and nothing else remains to be read if \<open>w\<close>.\<close>

definition sample_group :: "bool \<Rightarrow> observed_subtree" where
  "sample_group w = new_subtree (sample_field_evidence ''group'' ''dialog'' []) [sample_button] w None"

definition sample_stats :: locator_stats where
  "sample_stats =
     default_stats\<lparr>ls_reads :=
       (ls_reads default_stats)\<lparr>rd_counts := (rd_counts (ls_reads default_stats))\<lparr>observation_attempts := 1\<rparr>\<rparr>\<rparr>"

definition sample_observed :: "bool \<Rightarrow> observed_tree" where
  "sample_observed w =
     \<lparr>ot_nodes = flat_roots 0 [sample_group w], ot_roots = [0],
      ot_source = FromElement (sample_entry [] [] None) None, ot_stats = sample_stats, ot_complete = w\<rparr>"

lemma sample_whole: "whole (sample_group w) = w"
  by (simp add: sample_group_def sample_button_def new_subtree_def new_completeness_def)

lemma sample_from_roots:
  "from_roots [sample_group w] (FromElement (sample_entry [] [] None) None) sample_stats True =
     Inr (sample_observed w)"
  unfolding from_roots_exact sample_observed_def
  by (simp add: sample_whole) (simp add: sample_group_def sample_button_def new_subtree_def)

text \<open>
   An observation is accepted exactly when it has a root, the children of every node come in
  the order of their native positions and there are at most \<open>2 ^ 32\<close> nodes.  Its flat form then
  lists every node once in document order, and it is complete exactly when the reader said so and
  no node is marked incomplete.
\<close>

theorem observation_tree_exact:
  "from_roots rs src stats w = Inr tree \<longleftrightarrow>
     rs \<noteq> [] \<and> list_all ordered rs \<and> length (forest rs) \<le> 2 ^ 32 \<and>
     tree = \<lparr>ot_nodes = flat_roots 0 rs, ot_roots = starts 0 rs, ot_source = src, ot_stats = stats,
             ot_complete = (w \<and> list_all whole rs)\<rparr>"
  by (rule from_roots_exact)

theorem observation_prints_as_read_witness:
  "into_accessibility_tree_partial (sample_observed False) = Some (Inr (projection (sample_group False), False, 2))"
  using observation_prints_as_read[OF sample_from_roots[of False]]
  by (simp add: sample_whole) (simp add: sample_group_def sample_button_def new_subtree_def)

end
