(* ===== verification/LocatorEval.thy ===== *)
theory LocatorEval
  imports LocatorTree "HOL-Library.List_Lexorder" "HOL-Library.Char_ord"
begin

text \<open>
  Evaluation of a query on an observed tree (\<open>live_locator/match_verdict.rs\<close>, \<open>predicate.rs\<close>,
  \<open>compiled_clause.rs\<close>, \<open>evaluation_buffers.rs\<close>, \<open>evaluate.rs\<close>, \<open>select.rs\<close>,
  \<open>selection_completeness.rs\<close>, \<open>materialize.rs\<close>, \<open>cardinality.rs\<close>): verdicts of three values, the
  memo matrix over nodes and clauses, the selection among the matches, the refs given to them, and
  what may be concluded from an incomplete observation.
\<close>

section \<open>Verdicts\<close>

datatype verdict = VMatch | VNoMatch | VUnknown

fun verdict_and :: "verdict \<Rightarrow> verdict \<Rightarrow> verdict" where
  "verdict_and VNoMatch _ = VNoMatch"
| "verdict_and _ VNoMatch = VNoMatch"
| "verdict_and VMatch VMatch = VMatch"
| "verdict_and _ _ = VUnknown"

fun verdict_or :: "verdict \<Rightarrow> verdict \<Rightarrow> verdict" where
  "verdict_or VMatch _ = VMatch"
| "verdict_or _ VMatch = VMatch"
| "verdict_or VNoMatch VNoMatch = VNoMatch"
| "verdict_or _ _ = VUnknown"

fun negate :: "verdict \<Rightarrow> verdict" where
  "negate VMatch = VNoMatch"
| "negate VNoMatch = VMatch"
| "negate VUnknown = VUnknown"

definition bool_verdict :: "bool \<Rightarrow> verdict" where
  "bool_verdict b = (if b then VMatch else VNoMatch)"

section \<open>One node\<close>

definition role_verdict :: "string option \<Rightarrow> string locator_field \<Rightarrow> verdict" where
  "role_verdict expected actual =
     (case expected of
        None \<Rightarrow> VMatch
      | Some e \<Rightarrow>
          (case actual of
             Known a \<Rightarrow> bool_verdict (a = e)
           | Absent \<Rightarrow> VNoMatch
           | FieldUnknown \<Rightarrow> VUnknown))"

definition text_verdict :: "lower_table \<Rightarrow> string option \<Rightarrow> string locator_field \<Rightarrow> bool \<Rightarrow> verdict" where
  "text_verdict lc expected actual exact =
     (case expected of
        None \<Rightarrow> VMatch
      | Some e \<Rightarrow>
          (case actual of
             Known a \<Rightarrow>
               bool_verdict (if exact then normalize lc a = e else text_contains lc a e)
           | Absent \<Rightarrow> VNoMatch
           | FieldUnknown \<Rightarrow> VUnknown))"

datatype identifier_match_kind = Preferred | Fallback

definition identifier_verdict :: "string option \<Rightarrow> locator_evidence \<Rightarrow> verdict \<times> identifier_match_kind option" where
  "identifier_verdict expected ev =
     (case expected of
        None \<Rightarrow> (VMatch, None)
      | Some e \<Rightarrow>
          if preferred_value (lev_identifiers ev) = Some e then (VMatch, Some Preferred)
          else if list_ex (\<lambda>i. ident_value i = e) (ev_identifiers (lev_identifiers ev)) then
            (VMatch, Some Fallback)
          else (if \<not> ev_complete (lev_identifiers ev) then VUnknown else VNoMatch, None))"

definition states_verdict :: "locator_query \<Rightarrow> locator_evidence \<Rightarrow> verdict" where
  "states_verdict q ev =
     (if lq_states q = [] then VMatch
      else
        (case lev_states ev of
           Known states \<Rightarrow>
             bool_verdict (list_all (\<lambda>p. has_state states (sp_token p) = unwrap_or (sp_expected p) True) (lq_states q))
         | Absent \<Rightarrow> bool_verdict (list_all (\<lambda>p. sp_expected p = Some False) (lq_states q))
         | FieldUnknown \<Rightarrow> VUnknown))"

definition count_match :: "identifier_match_kind option \<Rightarrow> identifier_stats \<Rightarrow> identifier_stats" where
  "count_match m s =
     (case m of
        Some Preferred \<Rightarrow> s\<lparr>preferred_matches := preferred_matches s + 1\<rparr>
      | Some Fallback \<Rightarrow> s\<lparr>fallback_matches := fallback_matches s + 1\<rparr>
      | None \<Rightarrow> s)"

definition self_verdict ::
  "lower_table \<Rightarrow> locator_query \<Rightarrow> locator_evidence \<Rightarrow> identifier_stats \<Rightarrow> verdict \<times> identifier_stats" where
  "self_verdict lc q ev s =
     (let (idv, idm) = identifier_verdict (ip_native_id (lq_identity q)) ev;
          v = verdict_and (verdict_and (role_verdict (ip_role (lq_identity q)) (lev_role ev)) idv)
                (states_verdict q ev)
      in if v = VNoMatch then (v, s)
         else
           let v = verdict_and (verdict_and (verdict_and v
                     (text_verdict lc (ip_name (lq_identity q)) (lev_name ev) (lq_exact q)))
                     (text_verdict lc (ip_description (lq_identity q)) (lev_description ev) (lq_exact q)))
                     (text_verdict lc (ip_value (lq_identity q)) (lev_value ev) (lq_exact q))
           in (v, if v = VMatch then count_match idm s else s))"

fun text_verdict_loop ::
  "lower_table \<Rightarrow> string \<Rightarrow> bool \<Rightarrow> string locator_field list \<Rightarrow> verdict \<Rightarrow> verdict" where
  "text_verdict_loop lc e exact [] v = v"
| "text_verdict_loop lc e exact (f # fs) v =
     (let v = verdict_or v (text_verdict lc (Some e) f exact)
      in if v = VMatch then v else text_verdict_loop lc e exact fs v)"

definition self_text_verdict :: "lower_table \<Rightarrow> string option \<Rightarrow> locator_evidence \<Rightarrow> bool \<Rightarrow> verdict" where
  "self_text_verdict lc expected ev exact =
     (case expected of
        None \<Rightarrow> VMatch
      | Some e \<Rightarrow>
          text_verdict_loop lc e exact [lev_name ev, lev_description ev, lev_value ev] VNoMatch)"

section \<open>The memo matrix\<close>

record compiled_clause =
  cc_query :: locator_query
  cc_has :: "nat option"
  cc_has_not :: "nat option"

fun compile_clauses :: "locator_query \<Rightarrow> compiled_clause list \<Rightarrow> nat \<times> compiled_clause list" where
  "compile_clauses (LocatorQuery i t x states (Containment h n)) clauses =
     (let (has, clauses) =
            (case h of
               None \<Rightarrow> (None, clauses)
             | Some q \<Rightarrow> (case compile_clauses q clauses of (k, clauses) \<Rightarrow> (Some k, clauses)));
          (has_not, clauses) =
            (case n of
               None \<Rightarrow> (None, clauses)
             | Some q \<Rightarrow> (case compile_clauses q clauses of (k, clauses) \<Rightarrow> (Some k, clauses)))
      in (length clauses,
          clauses @
            [\<lparr>cc_query = LocatorQuery i t x states (Containment h n), cc_has = has, cc_has_not = has_not\<rparr>]))"

record evaluation_buffers =
  bf_matches :: "verdict list"
  bf_subtree_matches :: "verdict list"
  bf_subtree_text :: "verdict list"
  bf_stats :: locator_stats

definition cell :: "nat \<Rightarrow> nat \<Rightarrow> nat \<Rightarrow> nat" where
  "cell node clause count = node * count + clause"

definition join_children :: "observed_node \<Rightarrow> nat \<Rightarrow> nat \<Rightarrow> verdict \<Rightarrow> verdict list \<Rightarrow> verdict" where
  "join_children n clause count own matrix =
     (let v = foldl (\<lambda>v child. verdict_or v (matrix ! cell child clause count)) own (on_children n)
      in if v = VNoMatch \<and> \<not> subtree_complete (on_completeness n) then VUnknown else v)"

definition aggregate_descendants :: "observed_tree \<Rightarrow> nat \<Rightarrow> nat \<Rightarrow> nat \<Rightarrow> verdict list \<Rightarrow> verdict" where
  "aggregate_descendants tree node clause count matrix =
     (case list_get (ot_nodes tree) node of
        None \<Rightarrow> VUnknown
      | Some n \<Rightarrow> join_children n clause count VNoMatch matrix)"

definition aggregate_subtree ::
  "observed_tree \<Rightarrow> nat \<Rightarrow> nat \<times> nat \<Rightarrow> verdict \<Rightarrow> verdict list \<Rightarrow> verdict" where
  "aggregate_subtree tree node clause own matrix =
     (case list_get (ot_nodes tree) node of
        None \<Rightarrow> VUnknown
      | Some n \<Rightarrow> join_children n (fst clause) (snd clause) own matrix)"

definition update_evaluation :: "(evaluation_stats \<Rightarrow> evaluation_stats) \<Rightarrow> locator_stats \<Rightarrow> locator_stats" where
  "update_evaluation f s = s\<lparr>ls_evaluation := f (ls_evaluation s)\<rparr>"

definition add_memo_cells :: "nat \<Rightarrow> locator_stats \<Rightarrow> locator_stats" where
  "add_memo_cells k = update_evaluation (\<lambda>e. e\<lparr>memo_cells_evaluated := memo_cells_evaluated e + k\<rparr>)"

definition add_candidate :: "locator_stats \<Rightarrow> locator_stats" where
  "add_candidate = update_evaluation (\<lambda>e. e\<lparr>self_filter_candidates := self_filter_candidates e + 1\<rparr>)"

definition evaluate_clause ::
  "lower_table \<Rightarrow> observed_tree \<Rightarrow> nat \<Rightarrow> observed_node \<Rightarrow> nat \<Rightarrow> nat \<Rightarrow> compiled_clause \<Rightarrow>
     evaluation_buffers \<Rightarrow> evaluation_buffers" where
  "evaluate_clause lc tree node n count k cl bf =
     (let offset = cell node k count;
          (own, ids) = self_verdict lc (cc_query cl) (on_evidence n) (ls_identifiers (bf_stats bf));
          st = (bf_stats bf)\<lparr>ls_identifiers := ids\<rparr>;
          st = (if own \<noteq> VNoMatch then add_candidate st else st);
          st = (if lq_has_text (cc_query cl) \<noteq> None then add_memo_cells 1 st else st);
          text_v =
            (if lq_has_text (cc_query cl) \<noteq> None then
               aggregate_subtree tree node (k, count)
                 (self_text_verdict lc (lq_has_text (cc_query cl)) (on_evidence n) (lq_exact (cc_query cl)))
                 (bf_subtree_text bf)
             else VMatch);
          texts = (bf_subtree_text bf)[offset := text_v];
          has =
            (case cc_has cl of
               None \<Rightarrow> VMatch
             | Some j \<Rightarrow> aggregate_descendants tree node j count (bf_subtree_matches bf));
          has_not =
            (case cc_has_not cl of
               None \<Rightarrow> VMatch
             | Some j \<Rightarrow> negate (aggregate_descendants tree node j count (bf_subtree_matches bf)));
          v = verdict_and (verdict_and (verdict_and own text_v) has) has_not
      in \<lparr>bf_matches = (bf_matches bf)[offset := v],
          bf_subtree_matches =
            (bf_subtree_matches bf)[offset := aggregate_subtree tree node (k, count) v (bf_subtree_matches bf)],
          bf_subtree_text = texts,
          bf_stats = add_memo_cells 2 st\<rparr>)"

definition evaluate_node ::
  "lower_table \<Rightarrow> observed_tree \<Rightarrow> nat \<Rightarrow> compiled_clause list \<Rightarrow> evaluation_buffers \<Rightarrow> evaluation_buffers" where
  "evaluate_node lc tree node clauses bf =
     (case list_get (ot_nodes tree) node of
        None \<Rightarrow> bf
      | Some n \<Rightarrow>
          fold (\<lambda>(k, cl). evaluate_clause lc tree node n (length clauses) k cl)
            (List.enumerate 0 clauses) bf)"

fun evaluate_nodes ::
  "lower_table \<Rightarrow> observed_tree \<Rightarrow> compiled_clause list \<Rightarrow> nat \<Rightarrow> evaluation_buffers \<Rightarrow> evaluation_buffers"
where
  "evaluate_nodes lc tree clauses 0 bf = bf"
| "evaluate_nodes lc tree clauses (Suc k) bf =
     evaluate_nodes lc tree clauses k (evaluate_node lc tree k clauses bf)"

section \<open>Selection\<close>

datatype locator_selection = Strict | SelectAll "u32 option" | SelectCount | First | Last | Nth u32

datatype locator_materialization = MatNone | SelectedMatches | FullRefMap

record resolve_request =
  rq_selection :: locator_selection
  rq_deadline :: deadline
  rq_max_raw_depth :: nat
  rq_materialization :: locator_materialization
  rq_surface :: "snapshot_surface option"

definition validate_request :: "resolve_request \<Rightarrow> adapter_error + unit" where
  "validate_request r =
     (if 1 \<le> rq_max_raw_depth r \<and> rq_max_raw_depth r \<le> MAX_RAW_DEPTH then Inr ()
      else
        Inl (new_error InvalidArgs
          (''max_raw_depth must be between 1 and '' @ show_nat MAX_RAW_DEPTH @ '', got '' @
           show_nat (rq_max_raw_depth r))))"

definition take_matches :: "nat list \<Rightarrow> nat \<Rightarrow> nat list \<times> bool" where
  "take_matches matches limit = (take limit matches, length matches > limit)"

fun selected_indices :: "nat list \<Rightarrow> locator_selection \<Rightarrow> nat list \<times> bool" where
  "selected_indices matches Strict = take_matches matches 10"
| "selected_indices matches (SelectAll limit) =
     (case limit of
        None \<Rightarrow> (matches, False)
      | Some l \<Rightarrow> if l = 0 then (matches, False) else take_matches matches (unat l))"
| "selected_indices matches SelectCount = ([], False)"
| "selected_indices matches First = take_matches matches 1"
| "selected_indices matches Last =
     (if matches = [] then [] else [last matches], length matches > 1)"
| "selected_indices matches (Nth index) =
     ((case list_get matches (unat index) of None \<Rightarrow> [] | Some m \<Rightarrow> [m]), length matches > 1)"

record match_data =
  md_ref_id :: "string option"
  md_role :: string
  md_name :: string
  md_value :: "string option"
  md_states :: "string list"
  md_interactive :: bool
  md_path :: "string list"

text \<open>\<open>parents[child] = Some(index)\<close> for every child of every node, in order.\<close>

definition parents_of :: "observed_node list \<Rightarrow> nat option list" where
  "parents_of nodes =
     fold (\<lambda>(i, n) ps. fold (\<lambda>c ps. ps[c := Some i]) (on_children n) ps)
       (List.enumerate 0 nodes) (replicate (length nodes) None)"

definition parent_of :: "nat option list \<Rightarrow> nat \<Rightarrow> nat option" where
  "parent_of parents i = Option.bind (list_get parents i) id"

text \<open>The way up from a node, topmost ancestor first; a cycle of parents would not end.\<close>

partial_function (option) ancestors :: "nat option list \<Rightarrow> nat option \<Rightarrow> nat list \<Rightarrow> nat list option" where
  "ancestors parents current acc =
     (case current of
        None \<Rightarrow> Some acc
      | Some i \<Rightarrow> ancestors parents (parent_of parents i) (i # acc))"

definition node_label :: "observed_node \<Rightarrow> string" where
  "node_label n =
     (let role = unwrap_or (known (lev_role (on_evidence n))) ''unknown''
      in case field_meaningful_string (lev_name (on_evidence n)) of
           Some l \<Rightarrow> role @ '':'' @ l
         | None \<Rightarrow>
             (case field_meaningful_string (lev_value (on_evidence n)) of
                Some l \<Rightarrow> role @ '':'' @ l
              | None \<Rightarrow> role))"

definition addressability :: "locator_evidence \<Rightarrow> bool \<times> bool" where
  "addressability ev =
     (case known (lev_role ev) of
        None \<Rightarrow> (False, False)
      | Some role \<Rightarrow>
          (case re_available_actions (lev_ref ev) of
             Known actions \<Rightarrow> (is_ref_able_role_actions role actions, True)
           | Absent \<Rightarrow> (is_ref_able_role_actions role [], True)
           | FieldUnknown \<Rightarrow> (is_ref_able_role_actions role [], False)))"

text \<open>The outer option is the walk up the parents, the inner one the code's own.\<close>

definition match_data_of ::
  "observed_tree \<Rightarrow> nat \<Rightarrow> nat option list \<Rightarrow> match_data option option" where
  "match_data_of tree index parents =
     (case list_get (ot_nodes tree) index of
        None \<Rightarrow> Some None
      | Some n \<Rightarrow>
          map_option (\<lambda>ups. Some
            \<lparr>md_ref_id = on_ref_id n, md_role = unwrap_or (known (lev_role (on_evidence n))) ''unknown'',
             md_name = unwrap_or (field_meaningful_string (lev_name (on_evidence n))) [],
             md_value = field_meaningful_string (lev_value (on_evidence n)),
             md_states = unwrap_or (known (lev_states (on_evidence n))) [],
             md_interactive = fst (addressability (on_evidence n)),
             md_path = map node_label (List.map_filter (list_get (ot_nodes tree)) ups)\<rparr>)
           (ancestors parents (parent_of parents index) []))"

section \<open>Refs for the matches\<close>

definition selected_identifier :: "locator_evidence \<Rightarrow> string option \<Rightarrow> element_identifier option" where
  "selected_identifier ev expected =
     (case expected of
        None \<Rightarrow> preferred_identifier (lev_identifiers ev)
      | Some e \<Rightarrow>
          if is_some_and (preferred_identifier (lev_identifiers ev)) (\<lambda>i. ident_value i = e)
          then preferred_identifier (lev_identifiers ev)
          else find (\<lambda>i. ident_value i = e) (ev_identifiers (lev_identifiers ev)))"

definition available_actions :: "locator_evidence \<Rightarrow> string list" where
  "available_actions ev =
     (case re_available_actions (lev_ref ev) of Known actions \<Rightarrow> actions | _ \<Rightarrow> [])"

definition apply_source :: "fx \<Rightarrow> ref_entry \<Rightarrow> observation_source \<Rightarrow> nat list \<Rightarrow> ref_entry" where
  "apply_source fx e src node_path =
     (case src of
        FromWindow w surface \<Rightarrow>
          e\<lparr>process := \<lparr>rp_pid = win_pid w, rp_instance = win_instance w\<rparr>,
            source :=
              \<lparr>src_app = Some (win_app w), src_window_id = Some (win_id w), src_window_title = Some (win_title w),
               src_window_bounds_hash = Option.bind (win_bounds w) (bounds_hash fx), src_surface = surface\<rparr>\<rparr>
      | FromElement from root_ref \<Rightarrow>
          let r = (case root_ref of Some r \<Rightarrow> Some r | None \<Rightarrow> scope_root_ref (scope from))
          in e\<lparr>process := process from, source := source from,
               scope :=
                 \<lparr>scope_root_ref = r,
                  scope_path_is_absolute = (r \<noteq> None \<or> scope_path_is_absolute (scope from)),
                  scope_path = scope_path (scope from) @ node_path\<rparr>\<rparr>)"

definition locator_ref_entry :: "fx \<Rightarrow> observed_node \<Rightarrow> observation_source \<Rightarrow> locator_query \<Rightarrow> ref_entry" where
  "locator_ref_entry fx n src q =
     (let ev = on_evidence n; bounds = known (re_bounds (lev_ref ev))
      in apply_source fx
           \<lparr>process = \<lparr>rp_pid = 0, rp_instance = None\<rparr>,
            identity =
              \<lparr>id_retained_object = ev_retained_object (lev_identifiers ev),
               id_role = unwrap_or (known (lev_role ev)) ''unknown'',
               id_name = field_meaningful_string (lev_name ev),
               id_value = field_meaningful_string (lev_value ev),
               id_description = field_meaningful_string (lev_description ev),
               id_native_id = selected_identifier ev (ip_native_id (lq_identity q))\<rparr>,
            geometry = \<lparr>geo_bounds = bounds, geo_bounds_hash = Option.bind bounds (bounds_hash fx)\<rparr>,
            capabilities =
              \<lparr>cap_states = unwrap_or (known (lev_states ev)) [], cap_available_actions = available_actions ev\<rparr>,
            source =
              \<lparr>src_app = None, src_window_id = None, src_window_title = None,
               src_window_bounds_hash = None, src_surface = SurfWindow\<rparr>,
            scope = \<lparr>scope_root_ref = None, scope_path_is_absolute = False, scope_path = on_path n\<rparr>\<rparr>
           src (on_path n))"

fun materialize_loop ::
  "fx \<Rightarrow> observation_source \<Rightarrow> locator_query \<Rightarrow> nat list \<Rightarrow> observed_node list \<Rightarrow> ref_map \<Rightarrow> bool \<Rightarrow>
     adapter_error + (ref_map \<times> bool) \<times> observed_node list"
where
  "materialize_loop fx src q [] nodes m all_known = Inr ((m, all_known), nodes)"
| "materialize_loop fx src q (i # is) nodes m all_known =
     (let n = nodes ! i; (addressable, is_known) = addressability (on_evidence n);
          all_known = (all_known \<and> is_known)
      in if \<not> addressable then materialize_loop fx src q is nodes m all_known
         else
           res_bind
             (res_map_err (\<lambda>e. new_error InvalidArgs (app_error_text e))
               (try_allocate fx m (locator_ref_entry fx n src q)))
             (\<lambda>(rid, m). materialize_loop fx src q is (nodes[i := n\<lparr>on_ref_id := Some rid\<rparr>]) m all_known))"

definition materialize_refmap ::
  "fx \<Rightarrow> observed_tree \<Rightarrow> locator_query \<Rightarrow> nat list option \<Rightarrow> adapter_error + (ref_map \<times> bool) \<times> observed_tree" where
  "materialize_refmap fx tree q selected =
     res_bind
       (materialize_loop fx (ot_source tree) q
         (case selected of Some is \<Rightarrow> is | None \<Rightarrow> [0..<length (ot_nodes tree)])
         (ot_nodes tree) refmap_new True)
       (\<lambda>(r, nodes). Inr (r, tree\<lparr>ot_nodes := nodes\<rparr>))"

section \<open>What an incomplete observation decides\<close>

fun all_opt :: "('a \<Rightarrow> bool option) \<Rightarrow> 'a list \<Rightarrow> bool option" where
  "all_opt f [] = Some True"
| "all_opt f (x # xs) =
     (case f x of None \<Rightarrow> None | Some False \<Rightarrow> Some False | Some True \<Rightarrow> all_opt f xs)"

text \<open>The recursion over the children is bounded by \<open>fuel\<close>; no fuel means no answer.\<close>

fun subtree_is_authoritative ::
  "nat \<Rightarrow> observed_tree \<Rightarrow> verdict list \<Rightarrow> nat \<Rightarrow> bool option" where
  "subtree_is_authoritative 0 tree verdicts index = None"
| "subtree_is_authoritative (Suc fuel) tree verdicts index =
     (case list_get (ot_nodes tree) index of
        None \<Rightarrow> Some False
      | Some n \<Rightarrow>
          if \<not> subtree_complete (on_completeness n) \<or> \<not> predecessors_complete (on_completeness n) \<or>
             list_get verdicts index = Some VUnknown
          then Some False
          else all_opt (subtree_is_authoritative fuel tree verdicts) (on_children n))"

definition earlier_authoritative :: "observed_tree \<Rightarrow> verdict list \<Rightarrow> nat list \<Rightarrow> nat \<Rightarrow> bool option" where
  "earlier_authoritative tree verdicts siblings order =
     all_opt (subtree_is_authoritative (Suc (length (ot_nodes tree))) tree verdicts) (take order siblings)"

text \<open>The steps down the chain from the root to the target, \<open>windows(2)\<close>.\<close>

fun chain_is_authoritative :: "observed_tree \<Rightarrow> verdict list \<Rightarrow> nat list \<Rightarrow> bool option" where
  "chain_is_authoritative tree verdicts (ancestor # child # rest) =
     (if list_get verdicts ancestor = Some VUnknown then Some False
      else
        (case list_get (ot_nodes tree) ancestor of
           None \<Rightarrow> Some False
         | Some n \<Rightarrow>
             if \<not> is_some_and (list_get (ot_nodes tree) child)
                    (\<lambda>c. predecessors_complete (on_completeness c))
             then Some False
             else
               (case position_of child (on_children n) of
                  None \<Rightarrow> Some False
                | Some order \<Rightarrow>
                    (case earlier_authoritative tree verdicts (on_children n) order of
                       None \<Rightarrow> None
                     | Some False \<Rightarrow> Some False
                     | Some True \<Rightarrow> chain_is_authoritative tree verdicts (child # rest)))))"
| "chain_is_authoritative tree verdicts _ = Some True"

definition first_is_authoritative ::
  "observed_tree \<Rightarrow> nat \<Rightarrow> nat option list \<Rightarrow> verdict list \<Rightarrow> bool option" where
  "first_is_authoritative tree target parents verdicts =
     (case ancestors parents (Some target) [] of
        None \<Rightarrow> None
      | Some [] \<Rightarrow> Some False
      | Some (apex # rest) \<Rightarrow>
          if \<not> is_some_and (list_get (ot_nodes tree) apex) (\<lambda>n. predecessors_complete (on_completeness n))
          then Some False
          else
            (case position_of apex (ot_roots tree) of
               None \<Rightarrow> Some False
             | Some order \<Rightarrow>
                 (case earlier_authoritative tree verdicts (ot_roots tree) order of
                    None \<Rightarrow> None
                  | Some False \<Rightarrow> Some False
                  | Some True \<Rightarrow>
                      (case chain_is_authoritative tree verdicts (apex # rest) of
                         None \<Rightarrow> None
                       | Some False \<Rightarrow> Some False
                       | Some True \<Rightarrow> Some (list_get verdicts target = Some VMatch)))))"

section \<open>The whole evaluation\<close>

record locator_match =
  lm_data :: match_data
  lm_document_order :: nat
  lm_entry :: ref_entry

record resolution_meta =
  meta_total_matches :: nat
  meta_complete :: bool
  meta_selection_complete :: bool
  meta_truncated :: bool
  meta_roles_present :: "string list"

record locator_resolution =
  lr_matches :: "locator_match list"
  lr_refmap :: "ref_map option"
  lr_stats :: locator_stats
  lr_meta :: resolution_meta

definition initial_buffers :: "nat \<Rightarrow> compiled_clause list \<Rightarrow> locator_stats \<Rightarrow> evaluation_buffers" where
  "initial_buffers count clauses stats =
     \<lparr>bf_matches = replicate (count * length clauses) VNoMatch,
      bf_subtree_matches = replicate (count * length clauses) VNoMatch,
      bf_subtree_text = replicate (count * length clauses) VNoMatch,
      bf_stats =
        update_evaluation
          (\<lambda>e. e\<lparr>query_clause_count := length clauses,
                 text_clause_count := length (filter (\<lambda>cl. lq_has_text (cc_query cl) \<noteq> None) clauses)\<rparr>)
          stats\<rparr>"

definition evaluated_buffers ::
  "lower_table \<Rightarrow> observed_tree \<Rightarrow> compiled_clause list \<Rightarrow> evaluation_buffers" where
  "evaluated_buffers lc tree clauses =
     evaluate_nodes lc tree clauses (length (ot_nodes tree))
       (initial_buffers (length (ot_nodes tree)) clauses (ot_stats tree))"

definition root_verdicts ::
  "observed_tree \<Rightarrow> compiled_clause list \<Rightarrow> nat \<Rightarrow> evaluation_buffers \<Rightarrow> verdict list" where
  "root_verdicts tree clauses root_clause bf =
     map (\<lambda>i. bf_matches bf ! cell i root_clause (length clauses)) [0..<length (ot_nodes tree)]"

definition matched_indices :: "verdict list \<Rightarrow> nat list" where
  "matched_indices verdicts = filter (\<lambda>i. verdicts ! i = VMatch) [0..<length verdicts]"

fun collect_matches ::
  "fx \<Rightarrow> observed_tree \<Rightarrow> nat option list \<Rightarrow> locator_query \<Rightarrow> nat list \<Rightarrow>
     (adapter_error + locator_match list) option"
where
  "collect_matches fx tree parents q [] = Some (Inr [])"
| "collect_matches fx tree parents q (i # is) =
     (case match_data_of tree i parents of
        None \<Rightarrow> None
      | Some None \<Rightarrow> Some (Inl (internal_error ''selected locator node is missing''))
      | Some (Some d) \<Rightarrow>
          (case list_get (ot_nodes tree) i of
             None \<Rightarrow> Some (Inl (internal_error ''selected locator node is out of bounds''))
           | Some n \<Rightarrow>
               map_option (\<lambda>r. res_bind r (\<lambda>ms. Inr
                   (\<lparr>lm_data = d, lm_document_order = on_document_order n,
                     lm_entry = locator_ref_entry fx n (ot_source tree) q\<rparr> # ms)))
                 (collect_matches fx tree parents q is)))"

definition materialize_for ::
  "fx \<Rightarrow> observed_tree \<Rightarrow> locator_query \<Rightarrow> locator_materialization \<Rightarrow> nat list \<Rightarrow>
     adapter_error + (ref_map option \<times> bool) \<times> observed_tree" where
  "materialize_for fx tree q mat selected =
     (case mat of
        MatNone \<Rightarrow> Inr ((None, True), tree)
      | SelectedMatches \<Rightarrow>
          res_bind (materialize_refmap fx tree q (Some selected)) (\<lambda>((m, k), tree). Inr ((Some m, k), tree))
      | FullRefMap \<Rightarrow>
          res_bind (materialize_refmap fx tree q None) (\<lambda>((m, k), tree). Inr ((Some m, k), tree)))"

definition roles_present :: "observed_tree \<Rightarrow> string list" where
  "roles_present tree =
     sort (remdups (List.map_filter (\<lambda>n. known (lev_role (on_evidence n))) (ot_nodes tree)))"

definition selection_is_complete ::
  "bool \<Rightarrow> locator_selection \<Rightarrow> locator_match list \<Rightarrow> observed_tree \<Rightarrow> nat option list \<Rightarrow> verdict list \<Rightarrow>
     bool option" where
  "selection_is_complete all_decided sel ms tree parents verdicts =
     (if all_decided then Some True
      else if sel \<noteq> First then Some False
      else
        (case ms of
           [] \<Rightarrow> Some False
         | m # _ \<Rightarrow> first_is_authoritative tree (lm_document_order m) parents verdicts))"

text \<open>The end of \<open>evaluate_locator_tree\<close>: the selected matches and what is known of the selection.\<close>

definition conclude_evaluation ::
  "fx \<Rightarrow> observed_tree \<Rightarrow> nat option list \<Rightarrow> locator_query \<Rightarrow> locator_selection \<Rightarrow> verdict list \<Rightarrow>
     locator_stats \<Rightarrow> ref_map option \<Rightarrow> bool \<Rightarrow> (adapter_error + locator_resolution) option" where
  "conclude_evaluation fx tree parents q sel verdicts stats refmap all_known =
     (let matched = matched_indices verdicts;
          (selected, truncated) = selected_indices matched sel;
          all_decided = (ot_complete tree \<and> VUnknown \<notin> set verdicts \<and> all_known)
      in case collect_matches fx tree parents q selected of
           None \<Rightarrow> None
         | Some (Inl e) \<Rightarrow> Some (Inl e)
         | Some (Inr ms) \<Rightarrow>
             if length matched > u32_max then
               Some (Inl (internal_error ''locator match count exceeds u32''))
             else
               map_option (\<lambda>selection_done. Inr
                 \<lparr>lr_matches = ms, lr_refmap = refmap, lr_stats = stats,
                  lr_meta =
                    \<lparr>meta_total_matches = length matched, meta_complete = all_decided,
                     meta_selection_complete = selection_done, meta_truncated = truncated,
                     meta_roles_present = (if matched = [] then roles_present tree else [])\<rparr>\<rparr>)
                 (selection_is_complete all_decided sel ms tree parents verdicts))"

definition evaluate_locator_tree ::
  "lower_table \<Rightarrow> fx \<Rightarrow> observed_tree \<Rightarrow> locator_query \<Rightarrow> resolve_request \<Rightarrow>
     (adapter_error + locator_resolution) option" where
  "evaluate_locator_tree lc fx tree query request =
     (case res_bind (validate_query query) (\<lambda>_. validate_request request) of
        Inl e \<Rightarrow> Some (Inl e)
      | Inr _ \<Rightarrow>
          let q = normalize_query lc query;
              (root_clause, clauses) = compile_clauses q [];
              parents = parents_of (ot_nodes tree)
          in if length (ot_nodes tree) * length clauses > u64_max then
               Some (Inl (internal_error ''locator evaluation matrix is too large''))
             else
               let bf = evaluated_buffers lc tree clauses;
                   verdicts = root_verdicts tree clauses root_clause bf;
                   matched = matched_indices verdicts;
                   stats = update_evaluation (\<lambda>e. e\<lparr>matched_nodes := length matched\<rparr>) (bf_stats bf)
               in (case materialize_for fx tree q (rq_materialization request)
                          (fst (selected_indices matched (rq_selection request))) of
                     Inl e \<Rightarrow> Some (Inl e)
                   | Inr ((refmap, all_known), tree) \<Rightarrow>
                       conclude_evaluation fx tree parents q (rq_selection request) verdicts stats refmap
                         all_known))"

section \<open>Unique results\<close>

datatype locator_cardinality = CardZero | CardOne | CardMany nat bool | CardIncomplete nat

definition classify_query_result :: "locator_resolution \<Rightarrow> locator_cardinality" where
  "classify_query_result r =
     (let observed = meta_total_matches (lr_meta r)
      in if observed \<ge> 2 then CardMany observed (meta_complete (lr_meta r))
         else if \<not> meta_complete (lr_meta r) then CardIncomplete observed
         else if observed = 0 then CardZero else CardOne)"

definition candidate_json :: "locator_match \<Rightarrow> json" where
  "candidate_json m =
     JObj [(''document_order'', jnat (lm_document_order m)), (''name'', JStr (md_name (lm_data m))),
           (''ref_id'', json_opt JStr (md_ref_id (lm_data m))), (''role'', JStr (md_role (lm_data m)))]"

definition no_match_error :: adapter_error where
  "no_match_error =
     with_suggestion ''Use a broader locator or inspect roles_present''
       (new_error ElementNotFound ''Locator query matched no elements'')"

definition many_matches_error :: "locator_resolution \<Rightarrow> nat \<Rightarrow> bool \<Rightarrow> adapter_error" where
  "many_matches_error r observed exact =
     with_details
       (JObj [(''candidate_count'', jnat observed), (''candidate_count_exact'', JBool exact),
              (''candidates'', JArr (map candidate_json (take 10 (lr_matches r)))),
              (''query_stats'', stats_json (lr_stats r))])
       (ambiguous_target_error (''Locator query matched at least '' @ show_nat observed @ '' elements''))"

definition unproven_error :: "locator_resolution \<Rightarrow> nat \<Rightarrow> adapter_error" where
  "unproven_error r observed =
     with_details
       (JObj [(''kind'', JStr ''locator_incomplete''), (''observed_matches'', jnat observed),
              (''query_stats'', stats_json (lr_stats r))])
       (timeout_error_msg ''Locator traversal could not prove a unique result'')"

definition require_unique :: "locator_resolution \<Rightarrow> app_error + locator_match" where
  "require_unique r =
     (case classify_query_result r of
        CardZero \<Rightarrow> Inl (AppAdapter no_match_error)
      | CardOne \<Rightarrow>
          (case lr_matches r of
             m # _ \<Rightarrow> Inr m
           | [] \<Rightarrow> Inl (AppAdapter (internal_error ''unique locator resolution did not retain its match'')))
      | CardMany observed exact \<Rightarrow> Inl (AppAdapter (many_matches_error r observed exact))
      | CardIncomplete observed \<Rightarrow> Inl (AppAdapter (unproven_error r observed)))"

end
