(* ===== verification/LocatorMatrix.thy ===== *)
theory LocatorMatrix
  imports LocatorEval
begin

text \<open>
  What the memo matrix of \<open>live_locator/evaluate.rs\<close> computes: for every node and clause the verdict
  that a recursion over the observed tree gives (\<open>verdict_sem\<close>).
\<close>

section \<open>Verdicts form two monoids with a complement\<close>

lemma verdict_or_comm: "verdict_or a b = verdict_or b a"
  by (cases a; cases b) simp_all

lemma verdict_or_assoc: "verdict_or (verdict_or a b) c = verdict_or a (verdict_or b c)"
  by (cases a; cases b; cases c) simp_all

lemma verdict_and_comm: "verdict_and a b = verdict_and b a"
  by (cases a; cases b) simp_all

lemma verdict_and_assoc: "verdict_and (verdict_and a b) c = verdict_and a (verdict_and b c)"
  by (cases a; cases b; cases c) simp_all

lemma verdict_units [simp]:
  "verdict_or VNoMatch a = a" "verdict_or a VNoMatch = a" "verdict_and VMatch a = a" "verdict_and a VMatch = a"
  "verdict_or a VMatch = VMatch" "verdict_and a VNoMatch = VNoMatch"
  by (cases a; simp)+

lemma negate_or: "negate (verdict_or a b) = verdict_and (negate a) (negate b)"
  by (cases a; cases b) simp_all

lemma negate_negate [simp]: "negate (negate a) = a"
  by (cases a) simp_all

interpretation vor: comm_monoid verdict_or VNoMatch
  by unfold_locales (rule verdict_or_assoc verdict_or_comm | simp)+

interpretation vand: comm_monoid verdict_and VMatch
  by unfold_locales (rule verdict_and_assoc verdict_and_comm | simp)+

definition any_verdict :: "verdict list \<Rightarrow> verdict" where
  "any_verdict vs = foldr verdict_or vs VNoMatch"

lemma any_verdict_simps [simp]:
  "any_verdict [] = VNoMatch" "any_verdict (v # vs) = verdict_or v (any_verdict vs)"
  by (simp_all add: any_verdict_def)

lemma foldl_or: "foldl (\<lambda>v x. verdict_or v (f x)) own xs = verdict_or own (any_verdict (map f xs))"
  by (induction xs arbitrary: own) (simp_all add: verdict_or_assoc)

text \<open>A negative verdict on an incomplete subtree is not known.\<close>

definition close_verdict :: "bool \<Rightarrow> verdict \<Rightarrow> verdict" where
  "close_verdict w v = (if v = VNoMatch \<and> \<not> w then VUnknown else v)"

section \<open>The verdict by recursion over the tree\<close>

definition self_sem :: "lower_table \<Rightarrow> locator_query \<Rightarrow> locator_evidence \<Rightarrow> verdict" where
  "self_sem lc q ev =
     verdict_and (role_verdict (ip_role (lq_identity q)) (lev_role ev))
       (verdict_and (fst (identifier_verdict (ip_native_id (lq_identity q)) ev))
         (verdict_and (states_verdict q ev)
           (verdict_and (text_verdict lc (ip_name (lq_identity q)) (lev_name ev) (lq_exact q))
             (verdict_and (text_verdict lc (ip_description (lq_identity q)) (lev_description ev) (lq_exact q))
               (text_verdict lc (ip_value (lq_identity q)) (lev_value ev) (lq_exact q))))))"

lemma self_verdict_sem: "fst (self_verdict lc q ev s) = self_sem lc q ev"
proof -
  let ?v = "verdict_and (role_verdict (ip_role (lq_identity q)) (lev_role ev))
    (verdict_and (fst (identifier_verdict (ip_native_id (lq_identity q)) ev)) (states_verdict q ev))"
  let ?texts = "verdict_and (text_verdict lc (ip_name (lq_identity q)) (lev_name ev) (lq_exact q))
      (verdict_and (text_verdict lc (ip_description (lq_identity q)) (lev_description ev) (lq_exact q))
        (text_verdict lc (ip_value (lq_identity q)) (lev_value ev) (lq_exact q)))"
  have "fst (self_verdict lc q ev s) = (if ?v = VNoMatch then VNoMatch else verdict_and ?v ?texts)"
    by (simp add: self_verdict_def Let_def split_beta verdict_and_assoc)
  also have "\<dots> = verdict_and ?v ?texts"
    by (cases ?v) simp_all
  also have "\<dots> = self_sem lc q ev"
    by (simp only: self_sem_def verdict_and_assoc)
  finally show ?thesis .
qed

fun text_sem :: "lower_table \<Rightarrow> locator_query \<Rightarrow> observed_subtree \<Rightarrow> verdict" where
  "text_sem lc q (Subtree ev cs cpl count si) =
     (if lq_has_text q = None then VMatch
      else close_verdict (whole (Subtree ev cs cpl count si))
        (verdict_or (self_text_verdict lc (lq_has_text q) ev (lq_exact q))
          (any_verdict (map (text_sem lc q) cs))))"

lemma sub_child_size: "c \<in> set (sub_children t) \<Longrightarrow> size c < size t"
  by (cases t) (auto dest: size_list_estimation'[where f = size, OF _ order_refl] simp: less_Suc_eq_le)

function verdict_sem :: "lower_table \<Rightarrow> locator_query \<Rightarrow> observed_subtree \<Rightarrow> verdict"
  and subtree_sem :: "lower_table \<Rightarrow> locator_query \<Rightarrow> observed_subtree \<Rightarrow> verdict"
where
  "verdict_sem lc q t =
     verdict_and (self_sem lc q (sub_evidence t))
       (verdict_and (text_sem lc q t)
         (verdict_and
           (case lq_has q of
              None \<Rightarrow> VMatch
            | Some h \<Rightarrow> close_verdict (whole t) (any_verdict (map (subtree_sem lc h) (sub_children t))))
           (case lq_has_not q of
              None \<Rightarrow> VMatch
            | Some h \<Rightarrow>
                negate (close_verdict (whole t) (any_verdict (map (subtree_sem lc h) (sub_children t)))))))"
| "subtree_sem lc q t =
     close_verdict (whole t)
       (verdict_or (verdict_sem lc q t) (any_verdict (map (subtree_sem lc q) (sub_children t))))"
  by pat_completeness auto

termination
  by (relation "measures
       [\<lambda>x. case x of Inl (lc, q, t) \<Rightarrow> size t | Inr (lc, q, t) \<Rightarrow> size t,
        \<lambda>x. case x of Inl _ \<Rightarrow> 0 | Inr _ \<Rightarrow> 1]")
    (auto simp: sub_child_size)

declare verdict_sem.simps [simp del] subtree_sem.simps [simp del] text_sem.simps [simp del]

section \<open>Compiled clauses\<close>

text \<open>The nested queries of a clause are earlier clauses of the list.\<close>

definition clauses_ok :: "compiled_clause list \<Rightarrow> bool" where
  "clauses_ok cls \<longleftrightarrow>
     list_all (\<lambda>cl.
       (case cc_has cl of
          None \<Rightarrow> lq_has (cc_query cl) = None
        | Some j \<Rightarrow> j < length cls \<and> lq_has (cc_query cl) = Some (cc_query (cls ! j))) \<and>
       (case cc_has_not cl of
          None \<Rightarrow> lq_has_not (cc_query cl) = None
        | Some j \<Rightarrow> j < length cls \<and> lq_has_not (cc_query cl) = Some (cc_query (cls ! j)))) cls"

fun query_clauses :: "locator_query \<Rightarrow> locator_query list" where
  "query_clauses (LocatorQuery i t x states (Containment h n)) =
     LocatorQuery i t x states (Containment h n) #
     (case h of None \<Rightarrow> [] | Some q \<Rightarrow> query_clauses q) @ (case n of None \<Rightarrow> [] | Some q \<Rightarrow> query_clauses q)"

lemma clauses_ok_nth:
  assumes "clauses_ok cls" "k < length cls"
  shows "case cc_has (cls ! k) of None \<Rightarrow> lq_has (cc_query (cls ! k)) = None
      | Some j \<Rightarrow> j < length cls \<and> lq_has (cc_query (cls ! k)) = Some (cc_query (cls ! j))"
    and "case cc_has_not (cls ! k) of None \<Rightarrow> lq_has_not (cc_query (cls ! k)) = None
      | Some j \<Rightarrow> j < length cls \<and> lq_has_not (cc_query (cls ! k)) = Some (cc_query (cls ! j))"
  using assms by (simp_all add: clauses_ok_def list_all_length)

lemma clauses_ok_append:
  assumes "clauses_ok cls"
    and "case cc_has cl of None \<Rightarrow> lq_has (cc_query cl) = None
      | Some j \<Rightarrow> j < length cls \<and> lq_has (cc_query cl) = Some (cc_query (cls ! j))"
    and "case cc_has_not cl of None \<Rightarrow> lq_has_not (cc_query cl) = None
      | Some j \<Rightarrow> j < length cls \<and> lq_has_not (cc_query cl) = Some (cc_query (cls ! j))"
  shows "clauses_ok (cls @ [cl])"
  using assms
  by (auto simp: clauses_ok_def list_all_iff nth_append split: option.splits)

lemma compile_clauses_spec:
  "compile_clauses q cls = (k, cls') \<Longrightarrow> clauses_ok cls \<Longrightarrow>
     clauses_ok cls' \<and> k < length cls' \<and> cc_query (cls' ! k) = q \<and>
     length cls' = length cls + length (query_clauses q) \<and> (\<exists>more. cls' = cls @ more)"
proof (induction q cls arbitrary: k cls' rule: compile_clauses.induct)
  case (1 i t x states h n clauses)
  obtain has cls1 where has: "(case h of None \<Rightarrow> (None, clauses)
      | Some q \<Rightarrow> (case compile_clauses q clauses of (k, c) \<Rightarrow> (Some k, c))) = (has, cls1)"
    by fastforce
  obtain has_not cls2 where has_not: "(case n of None \<Rightarrow> (None, cls1)
      | Some q \<Rightarrow> (case compile_clauses q cls1 of (k, c) \<Rightarrow> (Some k, c))) = (has_not, cls2)"
    by fastforce
  let ?q = "LocatorQuery i t x states (Containment h n)"
  let ?cl = "\<lparr>cc_query = ?q, cc_has = has, cc_has_not = has_not\<rparr>"
  have out: "k = length cls2" "cls' = cls2 @ [?cl]"
    using 1(3) has has_not by (simp_all add: Let_def)
  have one: "clauses_ok cls1 \<and> (\<exists>m. cls1 = clauses @ m) \<and>
    length cls1 = length clauses + length (case h of None \<Rightarrow> [] | Some q \<Rightarrow> query_clauses q) \<and>
    (case has of None \<Rightarrow> h = None | Some j \<Rightarrow> j < length cls1 \<and> h = Some (cc_query (cls1 ! j)))"
  proof (cases h)
    case None
    then show ?thesis using has 1(4) by simp
  next
    case (Some a)
    then obtain j where "compile_clauses a clauses = (j, cls1)" "has = Some j"
      using has by (auto split: prod.splits)
    then show ?thesis using 1(1)[OF Some _ 1(4)] Some by simp
  qed
  have two: "clauses_ok cls2 \<and> (\<exists>m. cls2 = cls1 @ m) \<and>
    length cls2 = length cls1 + length (case n of None \<Rightarrow> [] | Some q \<Rightarrow> query_clauses q) \<and>
    (case has_not of None \<Rightarrow> n = None | Some j \<Rightarrow> j < length cls2 \<and> n = Some (cc_query (cls2 ! j)))"
  proof (cases n)
    case None
    then show ?thesis using has_not one by simp
  next
    case (Some a)
    then obtain j where "compile_clauses a cls1 = (j, cls2)" "has_not = Some j"
      using has_not by (auto split: prod.splits)
    then show ?thesis using 1(2)[OF has[symmetric] refl Some] one Some by simp
  qed
  have "clauses_ok (cls2 @ [?cl])"
    using one two by (intro clauses_ok_append) (auto simp: nth_append split: option.splits)
  moreover have "length (query_clauses ?q) =
      Suc (length (case h of None \<Rightarrow> [] | Some q \<Rightarrow> query_clauses q) +
           length (case n of None \<Rightarrow> [] | Some q \<Rightarrow> query_clauses q))"
    by simp
  moreover have "k < length cls'" "cc_query (cls' ! k) = ?q" by (simp_all add: out)
  moreover have "\<exists>more. cls' = clauses @ more" using one two by (auto simp: out)
  moreover have "length cls' = Suc (length cls2)" by (simp add: out)
  ultimately show ?case
    using one two by (simp add: out(2) del: query_clauses.simps)
qed

section \<open>The matrix holds the recursive verdicts\<close>

lemma cell_inject: "c < m \<Longrightarrow> d < m \<Longrightarrow> cell i c m = cell j d m \<longleftrightarrow> i = j \<and> c = d"
proof
  assume *: "c < m" "d < m" "cell i c m = cell j d m"
  then have "(i * m + c) div m = (j * m + d) div m" "(i * m + c) mod m = (j * m + d) mod m"
    by (simp_all add: cell_def)
  then show "i = j \<and> c = d" using * by simp
qed simp

lemma cell_bound: "i < n \<Longrightarrow> c < m \<Longrightarrow> cell i c m < n * m"
proof -
  assume *: "i < n" "c < m"
  then have "cell i c m < Suc i * m" by (simp add: cell_def)
  also have "\<dots> \<le> n * m" using * by (intro mult_le_mono1) simp
  finally show ?thesis .
qed

definition sizes_ok :: "nat \<Rightarrow> nat \<Rightarrow> evaluation_buffers \<Rightarrow> bool" where
  "sizes_ok n m bf \<longleftrightarrow>
     length (bf_matches bf) = n * m \<and> length (bf_subtree_matches bf) = n * m \<and>
     length (bf_subtree_text bf) = n * m"

definition cells_ok ::
  "lower_table \<Rightarrow> observed_node list \<Rightarrow> compiled_clause list \<Rightarrow> (nat \<times> nat) set \<Rightarrow> evaluation_buffers \<Rightarrow> bool" where
  "cells_ok lc nodes cls K bf \<longleftrightarrow>
     sizes_ok (length nodes) (length cls) bf \<and>
     (\<forall>i t c. located nodes i t \<longrightarrow> c < length cls \<longrightarrow> (i, c) \<in> K \<longrightarrow>
        bf_matches bf ! cell i c (length cls) = verdict_sem lc (cc_query (cls ! c)) t \<and>
        bf_subtree_matches bf ! cell i c (length cls) = subtree_sem lc (cc_query (cls ! c)) t \<and>
        bf_subtree_text bf ! cell i c (length cls) = text_sem lc (cc_query (cls ! c)) t)"

lemma join_children_sem:
  assumes "located nodes i t"
    and "\<And>j s. i < j \<Longrightarrow> located nodes j s \<Longrightarrow> matrix ! cell j c m = f s"
  shows "join_children (nodes ! i) c m own matrix =
    close_verdict (whole t) (verdict_or own (any_verdict (map f (sub_children t))))"
proof (cases t)
  case (Subtree ev cs cpl count si)
  note at = located_Subtree[OF assms(1)[unfolded Subtree]]
  have later: "i < j" if "j \<in> set (starts (Suc i) cs)" for j
    using starts_after[OF that] by simp
  have "list_all2 (\<lambda>j s. matrix ! cell j c m = f s) (starts (Suc i) cs) cs"
    by (rule list.rel_mono_strong[OF at(7)]) (blast intro: assms(2) later)
  then have "map (\<lambda>j. matrix ! cell j c m) (starts (Suc i) cs) = map f cs"
    by (simp add: list_all2_conv_all_nth list_eq_iff_nth_eq)
  then show ?thesis
    by (simp add: join_children_def foldl_or at Subtree close_verdict_def Let_def)
qed

lemma evaluate_clause_ok:
  assumes ok: "cells_ok lc (ot_nodes tree) cls K bf" "clauses_ok cls"
    and i: "i < length (ot_nodes tree)" and k: "k < length cls"
    and later: "{j. i < j} \<times> UNIV \<subseteq> K"
  shows "cells_ok lc (ot_nodes tree) cls (insert (i, k) K)
    (evaluate_clause lc tree i (ot_nodes tree ! i) (length cls) k (cls ! k) bf)"
proof -
  let ?nodes = "ot_nodes tree" let ?m = "length cls" let ?q = "cc_query (cls ! k)"
  let ?bf = "evaluate_clause lc tree i (?nodes ! i) ?m k (cls ! k) bf"
  have sizes: "sizes_ok (length ?nodes) ?m bf" using ok by (simp add: cells_ok_def)
  have get: "list_get ?nodes i = Some (?nodes ! i)" using i by (simp add: list_get_def)
  have old: "bf_subtree_matches bf ! cell j c ?m = subtree_sem lc (cc_query (cls ! c)) s"
    "bf_subtree_text bf ! cell j c ?m = text_sem lc (cc_query (cls ! c)) s"
    if "i < j" "located ?nodes j s" "c < ?m" for j s c
    using ok(1) that later by (auto simp: cells_ok_def)
  have descendants: "aggregate_descendants tree i c ?m (bf_subtree_matches bf) =
      close_verdict (whole t) (any_verdict (map (subtree_sem lc (cc_query (cls ! c))) (sub_children t)))"
    if "located ?nodes i t" "c < ?m" for t c
    using join_children_sem[OF that(1), of "bf_subtree_matches bf" c ?m _ VNoMatch] old(1) that(2)
    by (simp add: aggregate_descendants_def get)
  have ev: "on_evidence (?nodes ! i) = sub_evidence t" if "located ?nodes i t" for t
    using located_Subtree(2)[of ?nodes i] that by (cases t) auto
  have text_v: "(if lq_has_text ?q \<noteq> None then
       aggregate_subtree tree i (k, ?m)
         (self_text_verdict lc (lq_has_text ?q) (on_evidence (?nodes ! i)) (lq_exact ?q)) (bf_subtree_text bf)
     else VMatch) = text_sem lc ?q t" if "located ?nodes i t" for t
    using join_children_sem[OF that, of "bf_subtree_text bf" k ?m "text_sem lc ?q"] old(2) k
    by (cases t) (simp add: aggregate_subtree_def get text_sem.simps ev[OF that])
  have has: "(case cc_has (cls ! k) of None \<Rightarrow> VMatch
      | Some j \<Rightarrow> aggregate_descendants tree i j ?m (bf_subtree_matches bf)) =
    (case lq_has ?q of None \<Rightarrow> VMatch
     | Some h \<Rightarrow> close_verdict (whole t) (any_verdict (map (subtree_sem lc h) (sub_children t))))"
    and has_not: "(case cc_has_not (cls ! k) of None \<Rightarrow> VMatch
      | Some j \<Rightarrow> negate (aggregate_descendants tree i j ?m (bf_subtree_matches bf))) =
    (case lq_has_not ?q of None \<Rightarrow> VMatch
     | Some h \<Rightarrow> negate (close_verdict (whole t) (any_verdict (map (subtree_sem lc h) (sub_children t)))))"
    if "located ?nodes i t" for t
    using clauses_ok_nth[OF ok(2) k] descendants[OF that]
    by (cases "cc_has (cls ! k)"; cases "cc_has_not (cls ! k)"; simp)+
  define v where "v = bf_matches ?bf ! cell i k ?m"
  have off: "cell i k ?m < length ?nodes * ?m" using cell_bound[OF i k] .
  have v: "v = verdict_sem lc ?q t" if "located ?nodes i t" for t
    using sizes off text_v[OF that]
    by (cases "lq_has_text ?q")
      (simp_all add: v_def evaluate_clause_def Let_def split_beta sizes_ok_def self_verdict_sem ev[OF that]
        verdict_sem.simps[of lc ?q t] has[OF that] has_not[OF that] verdict_and_assoc)
  have bufs: "bf_matches ?bf = (bf_matches bf)[cell i k ?m := v]"
    "bf_subtree_matches ?bf = (bf_subtree_matches bf)
       [cell i k ?m := aggregate_subtree tree i (k, ?m) v (bf_subtree_matches bf)]"
    "bf_subtree_text ?bf = (bf_subtree_text bf)[cell i k ?m :=
       if lq_has_text ?q \<noteq> None then
         aggregate_subtree tree i (k, ?m)
           (self_text_verdict lc (lq_has_text ?q) (on_evidence (?nodes ! i)) (lq_exact ?q)) (bf_subtree_text bf)
       else VMatch]"
    using sizes off by (simp_all add: v_def evaluate_clause_def Let_def split_beta sizes_ok_def)
  have sub: "aggregate_subtree tree i (k, ?m) v (bf_subtree_matches bf) = subtree_sem lc ?q t"
    if "located ?nodes i t" for t
    using join_children_sem[OF that, of "bf_subtree_matches bf" k ?m "subtree_sem lc ?q"] old(1) k v[OF that]
    by (simp add: aggregate_subtree_def get subtree_sem.simps[of lc ?q t])
  show ?thesis
    unfolding cells_ok_def
  proof (intro conjI allI impI)
    show "sizes_ok (length ?nodes) ?m ?bf" using sizes by (simp add: sizes_ok_def bufs)
    fix j t c
    assume loc: "located ?nodes j t" and c: "c < ?m" and jc: "(j, c) \<in> insert (i, k) K"
    have len: "cell i k ?m < length (bf_matches bf)" "cell i k ?m < length (bf_subtree_matches bf)"
      "cell i k ?m < length (bf_subtree_text bf)"
      using sizes off by (simp_all add: sizes_ok_def)
    have "bf_matches ?bf ! cell j c ?m = verdict_sem lc (cc_query (cls ! c)) t \<and>
      bf_subtree_matches ?bf ! cell j c ?m = subtree_sem lc (cc_query (cls ! c)) t \<and>
      bf_subtree_text ?bf ! cell j c ?m = text_sem lc (cc_query (cls ! c)) t"
    proof (cases "(j, c) = (i, k)")
      case True
      then have "j = i" "c = k" by simp_all
      moreover have "bf_matches ?bf ! cell i k ?m = v"
        "bf_subtree_matches ?bf ! cell i k ?m = aggregate_subtree tree i (k, ?m) v (bf_subtree_matches bf)"
        "bf_subtree_text ?bf ! cell i k ?m = (if lq_has_text ?q \<noteq> None then
           aggregate_subtree tree i (k, ?m)
             (self_text_verdict lc (lq_has_text ?q) (on_evidence (?nodes ! i)) (lq_exact ?q)) (bf_subtree_text bf)
         else VMatch)"
        unfolding bufs
        by (simp_all only: nth_list_update_eq[OF len(1)] nth_list_update_eq[OF len(2)] nth_list_update_eq[OF len(3)])
      ultimately show ?thesis
        using v[of t] sub[of t] text_v[of t] loc by metis
    next
      case False
      then have in_K: "(j, c) \<in> K" and "cell i k ?m \<noteq> cell j c ?m" using jc cell_inject[OF k c, of i j] by auto
      moreover have "bf_matches bf ! cell j c ?m = verdict_sem lc (cc_query (cls ! c)) t"
        "bf_subtree_matches bf ! cell j c ?m = subtree_sem lc (cc_query (cls ! c)) t"
        "bf_subtree_text bf ! cell j c ?m = text_sem lc (cc_query (cls ! c)) t"
        using ok(1) loc c in_K unfolding cells_ok_def by blast+
      ultimately show ?thesis
        unfolding bufs by (simp only: nth_list_update_neq simp_thms)
    qed
    then show "bf_matches ?bf ! cell j c ?m = verdict_sem lc (cc_query (cls ! c)) t"
      "bf_subtree_matches ?bf ! cell j c ?m = subtree_sem lc (cc_query (cls ! c)) t"
      "bf_subtree_text ?bf ! cell j c ?m = text_sem lc (cc_query (cls ! c)) t"
      by simp_all
  qed
qed

lemma evaluate_clauses_ok:
  assumes "clauses_ok cls" "i < length (ot_nodes tree)" "{j. i < j} \<times> UNIV \<subseteq> K"
  shows "cells_ok lc (ot_nodes tree) cls K bf \<Longrightarrow> drop k cls = ys \<Longrightarrow> k \<le> length cls \<Longrightarrow>
    cells_ok lc (ot_nodes tree) cls (K \<union> {i} \<times> {k..<length cls})
      (fold (\<lambda>(k, cl). evaluate_clause lc tree i (ot_nodes tree ! i) (length cls) k cl) (List.enumerate k ys) bf)"
  using assms(3)
proof (induction ys arbitrary: k bf K)
  case Nil
  then show ?case by simp
next
  case (Cons y ys)
  then have k: "k < length cls" "cls ! k = y" "drop (Suc k) cls = ys"
    using drop_eq_Nil2[of k cls] tl_drop[of k cls, unfolded drop_Suc[symmetric]]
    by (auto simp: nth_via_drop not_le[symmetric])
  have step: "cells_ok lc (ot_nodes tree) cls (insert (i, k) K)
      (evaluate_clause lc tree i (ot_nodes tree ! i) (length cls) k y bf)"
    using evaluate_clause_ok[OF Cons.prems(1) assms(1,2) k(1) Cons.prems(4)] by (simp add: k(2))
  have "insert (i, k) K \<union> {i} \<times> {Suc k..<length cls} = K \<union> {i} \<times> {k..<length cls}"
    using k(1) by auto
  then show ?case
    using Cons.IH[OF step k(3)] k(1) Cons.prems(4) by (simp add: subset_insertI2)
qed

lemma evaluate_node_ok:
  assumes "clauses_ok cls" "i < length (ot_nodes tree)"
    "cells_ok lc (ot_nodes tree) cls ({j. i < j} \<times> UNIV) bf"
  shows "cells_ok lc (ot_nodes tree) cls ({j. i \<le> j} \<times> UNIV) (evaluate_node lc tree i cls bf)"
proof -
  have "cells_ok lc (ot_nodes tree) cls ({j. i < j} \<times> UNIV \<union> {i} \<times> {0..<length cls}) (evaluate_node lc tree i cls bf)"
    using evaluate_clauses_ok[OF assms(1,2) order_refl assms(3), of 0 cls] assms(2)
    by (simp add: evaluate_node_def list_get_def)
  then show ?thesis
    by (force simp: cells_ok_def le_less)
qed

lemma evaluate_nodes_ok:
  "clauses_ok cls \<Longrightarrow> k \<le> length (ot_nodes tree) \<Longrightarrow> cells_ok lc (ot_nodes tree) cls ({j. k \<le> j} \<times> UNIV) bf \<Longrightarrow>
     cells_ok lc (ot_nodes tree) cls UNIV (evaluate_nodes lc tree cls k bf)"
proof (induction k arbitrary: bf)
  case 0
  then show ?case by (simp add: cells_ok_def)
next
  case (Suc k)
  have "{j. Suc k \<le> j} = {j. k < j}" by auto
  then show ?case
    using Suc.IH[OF Suc.prems(1) _ evaluate_node_ok[OF Suc.prems(1)]] Suc.prems by simp
qed

lemma evaluated_buffers_ok:
  assumes "clauses_ok cls"
  shows "cells_ok lc (ot_nodes tree) cls UNIV (evaluated_buffers lc tree cls)"
proof -
  have "cells_ok lc (ot_nodes tree) cls ({j. length (ot_nodes tree) \<le> j} \<times> UNIV)
      (initial_buffers (length (ot_nodes tree)) cls (ot_stats tree))"
    by (auto simp: cells_ok_def sizes_ok_def initial_buffers_def dest: located_Subtree(1) located_bound)
  then show ?thesis
    unfolding evaluated_buffers_def by (rule evaluate_nodes_ok[OF assms order_refl])
qed

lemma matrix_sem:
  assumes "from_roots rs src stats w = Inr tree"
    and "compile_clauses q [] = (k, clauses)"
  shows "root_verdicts tree clauses k (evaluated_buffers lc tree clauses) = map (verdict_sem lc q) (forest rs)"
proof -
  have cls: "clauses_ok clauses" "k < length clauses" "cc_query (clauses ! k) = q"
    using compile_clauses_spec[OF assms(2)] by (simp_all add: clauses_ok_def)
  have nodes: "ot_nodes tree = flat_roots 0 rs" using assms(1) by (simp add: from_roots_exact)
  have cell: "bf_matches (evaluated_buffers lc tree clauses) ! cell i k (length clauses) = verdict_sem lc q (forest rs ! i)"
    if "i < length (forest rs)" for i
    using evaluated_buffers_ok[OF cls(1), of lc tree] cls(2,3) located_forest[OF nodes that]
    unfolding cells_ok_def by blast
  show ?thesis
    by (intro nth_equalityI) (simp_all add: root_verdicts_def nodes cell)
qed

text \<open>
  C7.  The matrix that is filled node by node from the last node to the first, clause by clause,
  holds at the clause of the whole query, for every node of the tree in document order, the
  verdict of the recursion over the subtree read there: nothing is missing, stale or written to
  another cell, whatever the nesting of the query.
\<close>

theorem matrix_is_recursion:
  assumes "from_roots rs src stats w = Inr tree"
    and "compile_clauses q [] = (k, clauses)"
  shows "root_verdicts tree clauses k (evaluated_buffers lc tree clauses) = map (verdict_sem lc q) (forest rs)"
  using assms by (rule matrix_sem)

lemma identifier_verdict_eq:
  "fst (identifier_verdict e ev) =
     (case e of
        None \<Rightarrow> VMatch
      | Some x \<Rightarrow>
          if x \<in> ident_value ` set (ev_identifiers (lev_identifiers ev)) then VMatch
          else if ev_complete (lev_identifiers ev) then VNoMatch else VUnknown)"
  by (auto simp: identifier_verdict_def preferred_value_def list_get_def list_ex_iff image_iff bind_eq_Some_conv
      split: option.splits if_splits)

lemma any_verdict_Match: "any_verdict vs = VMatch \<longleftrightarrow> VMatch \<in> set vs"
proof (induction vs)
  case (Cons v vs)
  then show ?case by (cases v; cases "any_verdict vs") auto
qed simp

lemma any_verdict_NoMatch: "any_verdict vs = VNoMatch \<longleftrightarrow> set vs \<subseteq> {VNoMatch}"
proof (induction vs)
  case (Cons v vs)
  then show ?case by (cases v; cases "any_verdict vs") auto
qed simp

section \<open>The sample, evaluated\<close>

definition sample_query :: locator_query where
  "sample_query =
     LocatorQuery
       \<lparr>ip_role = None, ip_name = None, ip_description = None, ip_native_id = Some ''ok-button'', ip_value = None\<rparr>
       None False [] (Containment None None)"

definition sample_clauses :: "compiled_clause list" where
  "sample_clauses = [\<lparr>cc_query = sample_query, cc_has = None, cc_has_not = None\<rparr>]"

definition sample_request :: "locator_selection \<Rightarrow> resolve_request" where
  "sample_request sel =
     \<lparr>rq_selection = sel,
      rq_deadline = \<lparr>started_at = 0, expires_at = 9, dl_timeout_ms = 0, dl_capped = False\<rparr>,
      rq_max_raw_depth = 50, rq_materialization = MatNone, rq_surface = None\<rparr>"

lemma sample_normal: "normalize_query lc sample_query = sample_query"
  by (simp add: sample_query_def)

lemma sample_compiled: "compile_clauses sample_query [] = (0, sample_clauses)"
  by (simp add: sample_query_def sample_clauses_def)

lemma sample_valid: "validate_query sample_query = Inr ()" "validate_request (sample_request sel) = Inr ()"
  by (simp_all add: sample_query_def validate_query_def Let_def MAX_QUERY_CLAUSES_def query_fields_def somes_def
      MAX_QUERY_FIELD_BYTES_def MAX_QUERY_TOTAL_BYTES_def sample_request_def validate_request_def MAX_RAW_DEPTH_def)

lemma sample_sem: "verdict_sem lc sample_query sample_button = VMatch"
   "verdict_sem lc sample_query (sample_group w) = VNoMatch"
   by (simp_all add: sample_query_def sample_button_def sample_group_def self_sem_def sample_field_evidence_def text_verdict_def role_verdict_def states_verdict_def identifier_verdict_eq new_subtree_def verdict_sem.simps text_sem.simps Let_def)

lemma sample_forest: "forest [sample_group w] = [sample_group w, sample_button]"
  by (simp add: sample_group_def sample_button_def new_subtree_def)

lemma sample_verdicts: "root_verdicts (sample_observed w) sample_clauses 0
   (evaluated_buffers lc (sample_observed w) sample_clauses) = [VNoMatch, VMatch]"
  unfolding matrix_sem[OF sample_from_roots sample_compiled] sample_forest by (simp add: sample_sem) 

lemma sample_nodes:
  "ot_complete (sample_observed w) = w" "length (ot_nodes (sample_observed w)) = 2"
  "parents_of (ot_nodes (sample_observed w)) = [None, Some 0]"
  by (simp_all add: sample_observed_def sample_group_def sample_button_def new_subtree_def parents_of_def)

lemma sample_matched: "matched_indices [VNoMatch, VMatch] = [1]"
  by (simp add: matched_indices_def upt_conv_Cons)

lemma sample_clauses_length: "length sample_clauses = 1"
  by (simp add: sample_clauses_def)

lemma sample_request_fields:
  "rq_selection (sample_request sel) = sel" "rq_materialization (sample_request sel) = MatNone"
  by (simp_all add: sample_request_def)

lemma sample_evaluation:
  "evaluate_locator_tree lc fx (sample_observed w) sample_query (sample_request sel) =
     conclude_evaluation fx (sample_observed w) [None, Some 0] sample_query sel [VNoMatch, VMatch]
       (update_evaluation (\<lambda>e. e\<lparr>matched_nodes := 1\<rparr>)
          (bf_stats (evaluated_buffers lc (sample_observed w) sample_clauses))) None True"
  by (simp add: evaluate_locator_tree_def sample_valid sample_normal sample_compiled sample_verdicts Let_def
      sample_nodes sample_matched materialize_for_def sample_request_fields sample_clauses_length)

lemma sample_first_settled: "first_is_authoritative (sample_observed w) 1 [None, Some 0] [VNoMatch, VMatch] = Some True"
  by (simp add: first_is_authoritative_def ancestors.simps[of _ "Some _"] ancestors.simps[of _ None] parent_of_def list_get_def
    sample_observed_def sample_group_def sample_button_def new_subtree_def new_completeness_def earlier_authoritative_def)

lemma sample_conclusion:
  assumes "fst (selected_indices [1] sel) = [1]"
  shows "\<exists>r m. evaluate_locator_tree lc fx (sample_observed w) sample_query (sample_request sel) = Some (Inr r) \<and>
    lr_matches r = [m] \<and> lm_document_order m = 1 \<and> meta_total_matches (lr_meta r) = 1 \<and>
    meta_complete (lr_meta r) = w \<and> meta_selection_complete (lr_meta r) = (w \<or> sel = First)"
proof -
  have "\<exists>d. match_data_of (sample_observed w) 1 [None, Some 0] = Some (Some d)"
    by (simp add: match_data_of_def ancestors.simps[of _ "Some _"] ancestors.simps[of _ None] parent_of_def list_get_def
      sample_observed_def sample_group_def sample_button_def new_subtree_def)
  then obtain d where d: "match_data_of (sample_observed w) 1 [None, Some 0] = Some (Some d)" by blast
  have "\<exists>m. collect_matches fx (sample_observed w) [None, Some 0] sample_query [1] = Some (Inr [m]) \<and> lm_document_order m = 1"
    by (simp add: d[simplified] list_get_def)
      (simp add: sample_observed_def sample_group_def sample_button_def new_subtree_def)
  then obtain m where m: "collect_matches fx (sample_observed w) [None, Some 0] sample_query [1] = Some (Inr [m])" "lm_document_order m = 1" by blast
  have s: "selection_is_complete w sel [m] (sample_observed w) [None, Some 0] [VNoMatch, VMatch] = Some (w \<or> sel = First)"
    using sample_first_settled m(2) by (simp add: selection_is_complete_def)
  show ?thesis
    by (simp add: sample_evaluation conclude_evaluation_def Let_def split_beta sample_matched[simplified] assms[simplified] m[simplified]
      sample_nodes s)
qed

definition sample_has_query :: locator_query where
  "sample_has_query =
     LocatorQuery
       \<lparr>ip_role = None, ip_name = None, ip_description = None, ip_native_id = None, ip_value = None\<rparr>
       None False [] (Containment (Some sample_query) None)"
lemma sample_has: "verdict_sem lc sample_has_query (sample_group w) = VMatch"
  unfolding verdict_sem.simps[of lc sample_has_query]
  by (simp add: subtree_sem.simps[of lc sample_query] sample_sem[of lc] any_verdict_Match sample_has_query_def self_sem_def text_verdict_def role_verdict_def states_verdict_def identifier_verdict_eq text_sem.simps Let_def sample_group_def new_subtree_def close_verdict_def)

theorem matrix_is_recursion_witness:
  "\<exists>k clauses. compile_clauses sample_query [] = (k, clauses) \<and>
     root_verdicts (sample_observed False) clauses k
       (evaluated_buffers (\<lambda>c. [c]) (sample_observed False) clauses) = [VNoMatch, VMatch]"
  using matrix_is_recursion[OF sample_from_roots[of False] sample_compiled, where lc = "\<lambda>c. [c]"]
  by (simp only: sample_compiled sample_forest) (simp add: sample_sem)

end
