(* ===== verification/LocatorRequest.thy ===== *)
theory LocatorRequest
  imports LocatorEval
begin

text \<open>
  What an observation is asked to read (\<open>live_locator/evidence_requirements.rs\<close>,
  \<open>ref_evidence_requirements.rs\<close>, \<open>evidence_plan.rs\<close>, \<open>observation_budget.rs\<close>,
  \<open>observation_request.rs\<close>, \<open>observation_root.rs\<close>) and whether the evidence read meets it
  (\<open>locator_evidence.rs\<close>), with the options of a snapshot (\<open>tree_options.rs\<close>).
\<close>

section \<open>Requirements\<close>

record ref_evidence_requirements =
  rer_bounds :: bool
  rer_actions :: bool

definition union_ref_requirements ::
  "ref_evidence_requirements \<Rightarrow> ref_evidence_requirements \<Rightarrow> ref_evidence_requirements" where
  "union_ref_requirements a b =
     \<lparr>rer_bounds = (rer_bounds a \<or> rer_bounds b), rer_actions = (rer_actions a \<or> rer_actions b)\<rparr>"

record evidence_requirements =
  er_role :: bool
  er_name :: bool
  er_description :: bool
  er_value :: bool
  er_identifiers :: bool
  er_states :: bool
  er_ref :: ref_evidence_requirements

definition no_requirements :: evidence_requirements where
  "no_requirements =
     \<lparr>er_role = False, er_name = False, er_description = False, er_value = False, er_identifiers = False,
      er_states = False, er_ref = \<lparr>rer_bounds = False, rer_actions = False\<rparr>\<rparr>"

definition snapshot_requirements :: evidence_requirements where
  "snapshot_requirements =
     \<lparr>er_role = True, er_name = True, er_description = True, er_value = True, er_identifiers = True,
      er_states = True, er_ref = \<lparr>rer_bounds = True, rer_actions = True\<rparr>\<rparr>"

definition union_requirements ::
  "evidence_requirements \<Rightarrow> evidence_requirements \<Rightarrow> evidence_requirements" where
  "union_requirements a b =
     \<lparr>er_role = (er_role a \<or> er_role b), er_name = (er_name a \<or> er_name b),
      er_description = (er_description a \<or> er_description b), er_value = (er_value a \<or> er_value b),
      er_identifiers = (er_identifiers a \<or> er_identifiers b), er_states = (er_states a \<or> er_states b),
      er_ref = union_ref_requirements (er_ref a) (er_ref b)\<rparr>"

definition requirements_cover :: "evidence_requirements \<Rightarrow> evidence_requirements \<Rightarrow> bool" where
  "requirements_cover a b \<longleftrightarrow> union_requirements a b = a"

fun query_requirements :: "locator_query \<Rightarrow> evidence_requirements" where
  "query_requirements (LocatorQuery i t x states (Containment h n)) =
     (let text = (t \<noteq> None);
          own =
            \<lparr>er_role = True, er_name = (ip_name i \<noteq> None \<or> text),
             er_description = (ip_description i \<noteq> None \<or> text), er_value = (ip_value i \<noteq> None \<or> text),
             er_identifiers = (ip_native_id i \<noteq> None), er_states = (states \<noteq> []),
             er_ref = \<lparr>rer_bounds = False, rer_actions = False\<rparr>\<rparr>;
          with_has = (case h of None \<Rightarrow> own | Some q \<Rightarrow> union_requirements own (query_requirements q))
      in case n of None \<Rightarrow> with_has | Some q \<Rightarrow> union_requirements with_has (query_requirements q))"

definition locator_requirements :: "locator_query \<Rightarrow> resolve_request \<Rightarrow> evidence_requirements" where
  "locator_requirements q r =
     (if rq_materialization r = FullRefMap then snapshot_requirements
      else
        let req = query_requirements q
        in if rq_materialization r = SelectedMatches
           then req\<lparr>er_identifiers := True, er_ref := (er_ref req)\<lparr>rer_bounds := True\<rparr>\<rparr>
           else req)"

definition evidence_satisfies :: "locator_evidence \<Rightarrow> evidence_requirements \<Rightarrow> bool" where
  "evidence_satisfies ev r \<longleftrightarrow>
     (\<not> er_role r \<or> \<not> field_is_unknown (lev_role ev)) \<and>
     (\<not> er_name r \<or> \<not> field_is_unknown (lev_name ev)) \<and>
     (\<not> er_description r \<or> \<not> field_is_unknown (lev_description ev)) \<and>
     (\<not> er_value r \<or> \<not> field_is_unknown (lev_value ev)) \<and>
     (\<not> er_identifiers r \<or> ev_complete (lev_identifiers ev)) \<and>
     (\<not> er_states r \<or> \<not> field_is_unknown (lev_states ev)) \<and>
     (\<not> rer_bounds (er_ref r) \<or> \<not> field_is_unknown (re_bounds (lev_ref ev))) \<and>
     (\<not> rer_actions (er_ref r) \<or> \<not> field_is_unknown (re_available_actions (lev_ref ev)))"

section \<open>Plans\<close>

record evidence_plan =
  plan_root :: evidence_requirements
  plan_descendants :: evidence_requirements

definition uniform_plan :: "evidence_requirements \<Rightarrow> evidence_plan" where
  "uniform_plan r = \<lparr>plan_root = r, plan_descendants = r\<rparr>"

definition rooted_plan :: "evidence_requirements \<Rightarrow> evidence_requirements \<Rightarrow> evidence_plan" where
  "rooted_plan r d = \<lparr>plan_root = r, plan_descendants = d\<rparr>"

definition validate_plan :: "evidence_plan \<Rightarrow> adapter_error + unit" where
  "validate_plan p =
     (if \<not> er_role (plan_descendants p) \<or> \<not> er_role (plan_root p) then
        Inl (new_error InvalidArgs ''role evidence is required for every observation'')
      else if \<not> requirements_cover (plan_root p) (plan_descendants p) then
        Inl (new_error InvalidArgs ''root evidence must cover descendant evidence'')
      else Inr ())"

definition plan_for_raw_depth :: "nat \<Rightarrow> evidence_plan \<Rightarrow> evidence_requirements" where
  "plan_for_raw_depth d p = (if d = 0 then plan_root p else plan_descendants p)"

definition plan_hydrates_root_name :: "evidence_plan \<Rightarrow> bool" where
  "plan_hydrates_root_name p \<longleftrightarrow>
     plan_root p \<noteq> plan_descendants p \<and> (er_name (plan_root p) \<or> er_description (plan_root p))"

section \<open>Budgets\<close>

definition MAX_OBSERVATION_NODES :: nat where "MAX_OBSERVATION_NODES = 50000"
definition MAX_OBSERVATION_EDGES :: nat where "MAX_OBSERVATION_EDGES = 100000"
definition MAX_CHILDREN_PER_NODE :: nat where "MAX_CHILDREN_PER_NODE = 4096"
definition MAX_OBSERVATION_FIELD_BYTES :: nat where "MAX_OBSERVATION_FIELD_BYTES = 64 * 1024"
definition MAX_OBSERVATION_TEXT_BYTES :: nat where "MAX_OBSERVATION_TEXT_BYTES = 8 * 1024 * 1024"

record observation_budget =
  max_nodes :: nat
  max_edges :: nat
  max_children_per_node :: nat
  max_field_bytes :: nat
  max_text_bytes :: nat

definition default_budget :: observation_budget where
  "default_budget =
     \<lparr>max_nodes = MAX_OBSERVATION_NODES, max_edges = MAX_OBSERVATION_EDGES,
      max_children_per_node = MAX_CHILDREN_PER_NODE, max_field_bytes = MAX_OBSERVATION_FIELD_BYTES,
      max_text_bytes = MAX_OBSERVATION_TEXT_BYTES\<rparr>"

definition validate_limit :: "string \<Rightarrow> nat \<Rightarrow> nat \<Rightarrow> adapter_error + unit" where
  "validate_limit name v maximum =
     (if 1 \<le> v \<and> v \<le> maximum then Inr ()
      else
        Inl (new_error InvalidArgs
          (name @ '' must be between 1 and '' @ show_nat maximum @ '', got '' @ show_nat v)))"

definition validate_budget :: "observation_budget \<Rightarrow> adapter_error + observation_budget" where
  "validate_budget b =
     res_bind (validate_limit ''max_nodes'' (max_nodes b) MAX_OBSERVATION_NODES) (\<lambda>_.
     res_bind (validate_limit ''max_edges'' (max_edges b) MAX_OBSERVATION_EDGES) (\<lambda>_.
     res_bind (validate_limit ''max_children_per_node'' (max_children_per_node b) MAX_CHILDREN_PER_NODE) (\<lambda>_.
     res_bind (validate_limit ''max_field_bytes'' (max_field_bytes b) MAX_OBSERVATION_FIELD_BYTES) (\<lambda>_.
     res_bind (validate_limit ''max_text_bytes'' (max_text_bytes b) MAX_OBSERVATION_TEXT_BYTES) (\<lambda>_.
       if max_field_bytes b > max_text_bytes b then
         Inl (new_error InvalidArgs ''max_field_bytes cannot exceed max_text_bytes'')
       else Inr b)))))"

section \<open>Observation requests\<close>

record observation_request =
  or_deadline :: deadline
  or_max_raw_depth :: nat
  or_max_logical_depth :: nat
  or_surface :: snapshot_surface
  or_skeleton :: bool
  or_plan :: evidence_plan
  or_budget :: observation_budget

datatype observation_root =
    RootWindow window_info
  | RootElement handle ref_entry "string option"

fun root_surface :: "observation_root \<Rightarrow> snapshot_surface" where
  "root_surface (RootWindow _) = SurfWindow"
| "root_surface (RootElement h e r) = src_surface (source e)"

fun source_from_root :: "observation_root \<Rightarrow> snapshot_surface \<Rightarrow> observation_source" where
  "source_from_root (RootWindow w) surface = FromWindow w surface"
| "source_from_root (RootElement h e r) surface = FromElement e r"

record tree_options =
  to_max_depth :: nat
  to_include_bounds :: bool
  to_interactive_only :: bool
  to_compact :: bool
  to_surface :: snapshot_surface
  to_skeleton :: bool

definition validate_observation :: "observation_request \<Rightarrow> adapter_error + observation_request" where
  "validate_observation r =
     res_bind (validate_budget (or_budget r)) (\<lambda>_.
       if \<not> (1 \<le> or_max_raw_depth r \<and> or_max_raw_depth r \<le> 50) then
         Inl (new_error InvalidArgs ''max_raw_depth must be between 1 and 50'')
       else if or_max_logical_depth r > or_max_raw_depth r then
         Inl (new_error InvalidArgs ''max_logical_depth cannot exceed max_raw_depth'')
       else if or_skeleton r \<and> or_max_logical_depth r > 3 then
         Inl (new_error InvalidArgs ''skeleton observations support a maximum logical depth of 3'')
       else res_bind (validate_plan (or_plan r)) (\<lambda>_. Inr r))"

definition snapshot_observation :: "tree_options \<Rightarrow> deadline \<Rightarrow> observation_request" where
  "snapshot_observation opts d =
     \<lparr>or_deadline = d, or_max_raw_depth = 50,
      or_max_logical_depth = (if to_skeleton opts then min (to_max_depth opts) 3 else to_max_depth opts),
      or_surface = to_surface opts, or_skeleton = to_skeleton opts,
      or_plan = uniform_plan snapshot_requirements, or_budget = default_budget\<rparr>"

definition locator_observation :: "locator_query \<Rightarrow> resolve_request \<Rightarrow> deadline \<Rightarrow> observation_request" where
  "locator_observation q r d =
     \<lparr>or_deadline = d, or_max_raw_depth = rq_max_raw_depth r, or_max_logical_depth = rq_max_raw_depth r,
      or_surface = SurfWindow, or_skeleton = False, or_plan = uniform_plan (locator_requirements q r),
      or_budget = default_budget\<rparr>"

definition locator_for_root ::
  "locator_query \<Rightarrow> resolve_request \<Rightarrow> observation_root \<Rightarrow> deadline \<Rightarrow> observation_request" where
  "locator_for_root q r root_of d =
     (locator_observation q r d)\<lparr>or_surface := unwrap_or (rq_surface r) (root_surface root_of)\<rparr>"

definition selected_hydration ::
  "locator_query \<Rightarrow> resolve_request \<Rightarrow> observation_root \<Rightarrow> deadline \<Rightarrow> observation_request" where
  "selected_hydration q r root_of d =
     (let subtree_query = (lq_has_text q \<noteq> None \<or> lq_has q \<noteq> None \<or> lq_has_not q \<noteq> None)
      in \<lparr>or_deadline = d,
          or_max_raw_depth = (if subtree_query then rq_max_raw_depth r else 1),
          or_max_logical_depth = (if subtree_query then rq_max_raw_depth r else 0),
          or_surface = root_surface root_of, or_skeleton = False,
          or_plan = rooted_plan snapshot_requirements (query_requirements q), or_budget = default_budget\<rparr>)"

definition evidence_for_raw_depth :: "nat \<Rightarrow> observation_request \<Rightarrow> evidence_requirements" where
  "evidence_for_raw_depth d r = plan_for_raw_depth d (or_plan r)"

definition descendant_evidence :: "observation_request \<Rightarrow> evidence_requirements" where
  "descendant_evidence r = plan_descendants (or_plan r)"

definition hydrates_root_name_from_children :: "observation_request \<Rightarrow> bool" where
  "hydrates_root_name_from_children r = plan_hydrates_root_name (or_plan r)"

end
