(* ===== verification/LocatorVerdict.thy ===== *)
theory LocatorVerdict
  imports LocatorMatrix LocatorRequest
begin

text \<open>
  What a verdict is worth.  A verdict on a partial observation survives every observation that sees
  more (\<open>sharper\<close>); evidence that meets the requirements of \<open>live_locator/evidence_requirements.rs\<close>
  always yields a verdict.
\<close>

section \<open>More evidence\<close>

text \<open>The information order: \<open>VUnknown\<close> is below everything.\<close>

instantiation verdict :: order_bot
begin

definition bot_verdict where "bot_verdict = VUnknown"
definition less_eq_verdict where "a \<le> b \<longleftrightarrow> a = VUnknown \<or> a = (b :: verdict)"
definition less_verdict where "a < b \<longleftrightarrow> a \<le> b \<and> \<not> b \<le> (a :: verdict)"

instance
  by standard (auto simp: less_eq_verdict_def less_verdict_def bot_verdict_def)

end

abbreviation verdict_le :: "verdict \<Rightarrow> verdict \<Rightarrow> bool" where
  "verdict_le a b \<equiv> a \<le> b"

lemmas verdict_le_def = less_eq_verdict_def

lemma verdict_le_and: "verdict_le a b \<Longrightarrow> verdict_le c d \<Longrightarrow> verdict_le (verdict_and a c) (verdict_and b d)"
  by (cases a; cases b; cases c; cases d) (simp_all add: verdict_le_def)

lemma verdict_le_or: "verdict_le a b \<Longrightarrow> verdict_le c d \<Longrightarrow> verdict_le (verdict_or a c) (verdict_or b d)"
  by (cases a; cases b; cases c; cases d) (simp_all add: verdict_le_def)

lemma verdict_le_negate: "verdict_le a b \<Longrightarrow> verdict_le (negate a) (negate b)"
  by (auto simp: verdict_le_def)

definition sharper_evidence :: "locator_evidence \<Rightarrow> locator_evidence \<Rightarrow> bool" where
  "sharper_evidence a b \<longleftrightarrow>
     field_le (lev_role a) (lev_role b) \<and> field_le (lev_name a) (lev_name b) \<and>
     field_le (lev_description a) (lev_description b) \<and> field_le (lev_value a) (lev_value b) \<and>
     field_le (lev_states a) (lev_states b) \<and> evidence_le (lev_identifiers a) (lev_identifiers b)"

text \<open>
  \<open>sharper t u\<close>: every field known in \<open>t\<close> is the same in \<open>u\<close>; where \<open>t\<close> is complete \<open>u\<close> has the same
  children, elsewhere \<open>u\<close> may have more of them, anywhere.
\<close>

inductive sharper :: "observed_subtree \<Rightarrow> observed_subtree \<Rightarrow> bool" where
  complete_node: "sharper_evidence ev ev' \<Longrightarrow> subtree_complete c' \<Longrightarrow> list_all2 sharper cs cs' \<Longrightarrow>
    sharper (Subtree ev cs c n s) (Subtree ev' cs' c' n' s')"
| partial_node: "sharper_evidence ev ev' \<Longrightarrow> \<not> subtree_complete c \<Longrightarrow> list_emb sharper cs cs' \<Longrightarrow>
    sharper (Subtree ev cs c n s) (Subtree ev' cs' c' n' s')"
monos list.rel_mono list_emb_mono

lemma role_verdict_mono: "field_le f g \<Longrightarrow> verdict_le (role_verdict e f) (role_verdict e g)"
  by (auto simp: field_le_def verdict_le_def role_verdict_def split: option.splits)

lemma text_verdict_mono: "field_le f g \<Longrightarrow> verdict_le (text_verdict lc e f x) (text_verdict lc e g x)"
  by (auto simp: field_le_def verdict_le_def text_verdict_def split: option.splits)

lemma states_verdict_mono:
  "sharper_evidence a b \<Longrightarrow> verdict_le (states_verdict q a) (states_verdict q b)"
  by (auto simp: sharper_evidence_def field_le_def verdict_le_def states_verdict_def)

lemma identifier_verdict_mono:
  "sharper_evidence a b \<Longrightarrow> verdict_le (fst (identifier_verdict e a)) (fst (identifier_verdict e b))"
  by (auto simp: sharper_evidence_def evidence_le_def identifier_verdict_eq verdict_le_def split: option.splits)

lemma self_sem_mono: "sharper_evidence a b \<Longrightarrow> verdict_le (self_sem lc q a) (self_sem lc q b)"
  unfolding self_sem_def
  by (intro verdict_le_and role_verdict_mono text_verdict_mono states_verdict_mono identifier_verdict_mono)
    (simp_all add: sharper_evidence_def)

lemma text_verdict_loop_or:
  "text_verdict_loop lc e x fs v = verdict_or v (any_verdict (map (\<lambda>f. text_verdict lc (Some e) f x) fs))"
proof (induction fs arbitrary: v)
  case (Cons f fs)
  then show ?case by (auto simp: Let_def verdict_or_assoc[symmetric])
qed simp

lemma self_text_mono:
  "sharper_evidence a b \<Longrightarrow> verdict_le (self_text_verdict lc e a x) (self_text_verdict lc e b x)"
  by (cases e) (auto simp: self_text_verdict_def text_verdict_loop_or sharper_evidence_def
      intro!: verdict_le_or text_verdict_mono)

lemma any_verdict_le: "list_all2 verdict_le vs ws \<Longrightarrow> verdict_le (any_verdict vs) (any_verdict ws)"
  by (induction rule: list_all2_induct) (auto intro: verdict_le_or)

text \<open>One node and its children: the step every monotonicity below takes.\<close>

lemma close_mono:
  assumes "verdict_le own own'" "list_emb verdict_le vs ws" "w \<Longrightarrow> w' \<and> list_all2 verdict_le vs ws"
  shows "verdict_le (close_verdict w (verdict_or own (any_verdict vs)))
    (close_verdict w' (verdict_or own' (any_verdict ws)))"
proof (cases w)
  case True
  then have "verdict_le (verdict_or own (any_verdict vs)) (verdict_or own' (any_verdict ws))" "w'"
    using assms by (auto intro: verdict_le_or any_verdict_le)
  then show ?thesis by (auto simp: close_verdict_def verdict_le_def)
next
  case False
  have "VMatch \<in> set ws" if "VMatch \<in> set vs"
    using list_emb_set[OF assms(2) that] by (auto simp: verdict_le_def)
  then have "verdict_or own (any_verdict vs) = VMatch \<Longrightarrow> verdict_or own' (any_verdict ws) = VMatch"
    using assms(1) any_verdict_Match[of vs] any_verdict_Match[of ws]
    by (cases own; cases "any_verdict vs"; cases "any_verdict ws") (auto simp: verdict_le_def)
  then show ?thesis using False
    by (cases "verdict_or own (any_verdict vs)") (auto simp: close_verdict_def verdict_le_def)
qed

lemma list_all2_emb: "list_all2 P xs ys \<Longrightarrow> list_emb P xs ys"
  by (induction rule: list_all2_induct) auto

lemma list_emb_map:
  "list_emb P xs ys \<Longrightarrow> (\<And>x y. x \<in> set xs \<Longrightarrow> P x y \<Longrightarrow> Q (f x) (g y)) \<Longrightarrow> list_emb Q (map f xs) (map g ys)"
  by (induction rule: list_emb.induct) auto

lemma sharper_cases:
  assumes "sharper t u"
  shows "sharper_evidence (sub_evidence t) (sub_evidence u)"
    and "list_emb sharper (sub_children t) (sub_children u)"
    and "subtree_complete (sub_completeness t) \<Longrightarrow>
      subtree_complete (sub_completeness u) \<and> list_all2 sharper (sub_children t) (sub_children u)"
  using assms by (auto elim!: sharper.cases intro: list_all2_emb)

lemma whole_iff: "whole t \<longleftrightarrow> subtree_complete (sub_completeness t) \<and> list_all whole (sub_children t)"
  by (cases t) simp

lemma sharper_whole: "sharper t u \<Longrightarrow> whole t \<Longrightarrow> whole u"
proof (induction t arbitrary: u rule: measure_induct_rule[where f = size])
  case (less t)
  have "list_all2 sharper (sub_children t) (sub_children u)" "subtree_complete (sub_completeness u)"
    using sharper_cases(3)[OF less.prems(1)] less.prems(2) by (simp_all add: whole_iff[of t])
  moreover have "list_all whole (sub_children t)" using less.prems(2) by (simp add: whole_iff[of t])
  ultimately show ?case
    using less.IH[OF sub_child_size[OF nth_mem]]
    by (auto simp: whole_iff[of u] list_all2_conv_all_nth list_all_length)
qed

lemma text_sem_eq:
  "text_sem lc q t =
     (if lq_has_text q = None then VMatch
      else close_verdict (whole t)
        (verdict_or (self_text_verdict lc (lq_has_text q) (sub_evidence t) (lq_exact q))
          (any_verdict (map (text_sem lc q) (sub_children t)))))"
  by (cases t) (simp add: text_sem.simps)

lemma sharper_children:
  assumes "sharper t u"
    and "\<And>c d. c \<in> set (sub_children t) \<Longrightarrow> sharper c d \<Longrightarrow> verdict_le (f c) (f d)"
    and "verdict_le own own'"
  shows "verdict_le (close_verdict (whole t) (verdict_or own (any_verdict (map f (sub_children t)))))
    (close_verdict (whole u) (verdict_or own' (any_verdict (map f (sub_children u)))))"
proof (rule close_mono[OF assms(3)])
  show "list_emb verdict_le (map f (sub_children t)) (map f (sub_children u))"
    using sharper_cases(2)[OF assms(1)] by (rule list_emb_map) (rule assms(2))
  assume w: "whole t"
  then have "list_all2 sharper (sub_children t) (sub_children u)"
    using sharper_cases(3)[OF assms(1)] by (simp add: whole_iff[of t])
  then show "whole u \<and> list_all2 verdict_le (map f (sub_children t)) (map f (sub_children u))"
    using sharper_whole[OF assms(1) w] assms(2)
    by (auto simp: list_all2_conv_all_nth)
qed

lemma text_sem_mono: "sharper t u \<Longrightarrow> verdict_le (text_sem lc q t) (text_sem lc q u)"
proof (induction t arbitrary: u rule: measure_induct_rule[where f = size])
  case (less t)
  show ?case
    unfolding text_sem_eq[of lc q t] text_sem_eq[of lc q u]
    using sharper_children[OF less.prems less.IH[OF sub_child_size]
        self_text_mono[OF sharper_cases(1)[OF less.prems]]]
    by simp
qed

lemma sem_mono:
  "sharper t u \<Longrightarrow> (\<forall>q. verdict_le (verdict_sem lc q t) (verdict_sem lc q u)) \<and>
     (\<forall>q. verdict_le (subtree_sem lc q t) (subtree_sem lc q u))"
proof (induction t arbitrary: u rule: measure_induct_rule[where f = size])
  case (less t)
  have sub: "verdict_le (subtree_sem lc q c) (subtree_sem lc q d)"
    if "c \<in> set (sub_children t)" "sharper c d" for c d q
    using less.IH[OF sub_child_size[OF that(1)] that(2)] by simp
  have below: "verdict_le (close_verdict (whole t) (any_verdict (map (subtree_sem lc h) (sub_children t))))
      (close_verdict (whole u) (any_verdict (map (subtree_sem lc h) (sub_children u))))" for h
    using sharper_children[OF less.prems sub, where own = VNoMatch and own' = VNoMatch] by simp
  have own: "verdict_le (verdict_sem lc q t) (verdict_sem lc q u)" for q
    unfolding verdict_sem.simps[of lc q t] verdict_sem.simps[of lc q u]
    by (intro verdict_le_and self_sem_mono sharper_cases(1)[OF less.prems] text_sem_mono less.prems)
      (auto split: option.splits intro: below verdict_le_negate)
  moreover have "verdict_le (subtree_sem lc q t) (subtree_sem lc q u)" for q
    unfolding subtree_sem.simps[of lc q t] subtree_sem.simps[of lc q u]
    by (rule sharper_children[OF less.prems sub own])
  ultimately show ?case by blast
qed

lemma verdict_sem_stays: "sharper t u \<Longrightarrow> verdict_sem lc q t \<noteq> VUnknown \<Longrightarrow> verdict_sem lc q u = verdict_sem lc q t"
  using sem_mono[of t u lc] by (auto simp: verdict_le_def)

text \<open>
  C6.  A verdict is never withdrawn.  Whatever was left unread, a root reported as matching still
  matches, and one reported as not matching still does not, in every observation that agrees with
  what was read: fields not known become known, and elements appear wherever the first observation
  was marked incomplete.  This holds for nested \<open>has\<close> and \<open>has_not\<close> clauses too.
\<close>

theorem verdict_survives_more_evidence:
  assumes "from_roots [t] src stats w = Inr tree" "from_roots [u] src' stats' w' = Inr tree'"
    and "sharper t u" "compile_clauses q [] = (k, clauses)"
    and "root_verdicts tree clauses k (evaluated_buffers lc tree clauses) ! 0 \<noteq> VUnknown"
  shows "root_verdicts tree' clauses k (evaluated_buffers lc tree' clauses) ! 0 =
    root_verdicts tree clauses k (evaluated_buffers lc tree clauses) ! 0"
  using assms(5) verdict_sem_stays[OF assms(3)]
  by (simp add: matrix_sem[OF assms(1,4)] matrix_sem[OF assms(2,4)])

section \<open>Enough evidence\<close>

lemma preorder_trans: "s \<in> set (preorder t) \<Longrightarrow> set (preorder s) \<subseteq> set (preorder t)"
  by (induction t) auto

lemma whole_preorder: "s \<in> set (preorder t) \<Longrightarrow> whole t \<Longrightarrow> whole s"
  by (induction t) (auto simp: list_all_iff)

definition evidence_met :: "evidence_requirements \<Rightarrow> observed_subtree \<Rightarrow> bool" where
  "evidence_met r t \<longleftrightarrow> list_all (\<lambda>s. evidence_satisfies (sub_evidence s) r) (preorder t)"

lemma evidence_met_iff:
  "evidence_met r t \<longleftrightarrow> evidence_satisfies (sub_evidence t) r \<and> list_all (evidence_met r) (sub_children t)"
  by (cases t) (auto simp: evidence_met_def list_all_iff)

lemma satisfies_union:
  "evidence_satisfies ev (union_requirements a b) \<longleftrightarrow> evidence_satisfies ev a \<and> evidence_satisfies ev b"
proof -
  have need: "(\<not> (a \<or> b) \<or> x) = ((\<not> a \<or> x) \<and> (\<not> b \<or> x))" for a b x by blast
  show ?thesis
    unfolding evidence_satisfies_def union_requirements_def union_ref_requirements_def
      evidence_requirements.simps ref_evidence_requirements.simps need
    by (simp only: conj_ac)
qed

lemma evidence_met_union: "evidence_met (union_requirements a b) t \<longleftrightarrow> evidence_met a t \<and> evidence_met b t"
  by (auto simp: evidence_met_def satisfies_union list_all_iff)

lemma query_requirements_nested:
  assumes "evidence_met (query_requirements q) t"
  shows "lq_has q = Some h \<Longrightarrow> evidence_met (query_requirements h) t"
    and "lq_has_not q = Some h \<Longrightarrow> evidence_met (query_requirements h) t"
proof -
  obtain i x e states g n where q: "q = LocatorQuery i x e states (Containment g n)"
    by (cases q rule: query_requirements.cases) simp
  show "lq_has q = Some h \<Longrightarrow> evidence_met (query_requirements h) t"
    using assms unfolding q query_requirements.simps Let_def
    by (cases n) (simp_all add: evidence_met_union)
  show "lq_has_not q = Some h \<Longrightarrow> evidence_met (query_requirements h) t"
    using assms unfolding q query_requirements.simps Let_def by (simp add: evidence_met_union)
qed

lemma and_decided: "a \<noteq> VUnknown \<Longrightarrow> b \<noteq> VUnknown \<Longrightarrow> verdict_and a b \<noteq> VUnknown"
  by (cases a; cases b) simp_all

lemma or_decided: "a \<noteq> VUnknown \<Longrightarrow> b \<noteq> VUnknown \<Longrightarrow> verdict_or a b \<noteq> VUnknown"
  by (cases a; cases b) simp_all

lemma any_decided: "list_all (\<lambda>v. v \<noteq> VUnknown) vs \<Longrightarrow> any_verdict vs \<noteq> VUnknown"
  by (induction vs) (simp_all add: or_decided)

lemma close_decided: "v \<noteq> VUnknown \<Longrightarrow> close_verdict True v \<noteq> VUnknown"
  by (simp add: close_verdict_def)

lemma requirements_own:
  assumes "evidence_satisfies ev (query_requirements q)"
  shows "\<not> field_is_unknown (lev_role ev)"
    and "ip_name (lq_identity q) \<noteq> None \<or> lq_has_text q \<noteq> None \<Longrightarrow> \<not> field_is_unknown (lev_name ev)"
    and "ip_description (lq_identity q) \<noteq> None \<or> lq_has_text q \<noteq> None \<Longrightarrow> \<not> field_is_unknown (lev_description ev)"
    and "ip_value (lq_identity q) \<noteq> None \<or> lq_has_text q \<noteq> None \<Longrightarrow> \<not> field_is_unknown (lev_value ev)"
    and "ip_native_id (lq_identity q) \<noteq> None \<Longrightarrow> ev_complete (lev_identifiers ev)"
    and "lq_states q \<noteq> [] \<Longrightarrow> \<not> field_is_unknown (lev_states ev)"
proof -
  obtain i t x states h n where q: "q = LocatorQuery i t x states (Containment h n)"
    by (cases q rule: query_requirements.cases) simp
  define own where "own =
    \<lparr>er_role = True, er_name = (ip_name i \<noteq> None \<or> t \<noteq> None),
     er_description = (ip_description i \<noteq> None \<or> t \<noteq> None), er_value = (ip_value i \<noteq> None \<or> t \<noteq> None),
     er_identifiers = (ip_native_id i \<noteq> None), er_states = (states \<noteq> []),
     er_ref = \<lparr>rer_bounds = False, rer_actions = False\<rparr>\<rparr>"
  have "evidence_satisfies ev own"
    using assms unfolding q query_requirements.simps Let_def own_def[symmetric]
    by (simp add: satisfies_union split: option.splits)
  then show "\<not> field_is_unknown (lev_role ev)"
    "ip_name (lq_identity q) \<noteq> None \<or> lq_has_text q \<noteq> None \<Longrightarrow> \<not> field_is_unknown (lev_name ev)"
    "ip_description (lq_identity q) \<noteq> None \<or> lq_has_text q \<noteq> None \<Longrightarrow> \<not> field_is_unknown (lev_description ev)"
    "ip_value (lq_identity q) \<noteq> None \<or> lq_has_text q \<noteq> None \<Longrightarrow> \<not> field_is_unknown (lev_value ev)"
    "ip_native_id (lq_identity q) \<noteq> None \<Longrightarrow> ev_complete (lev_identifiers ev)"
    "lq_states q \<noteq> [] \<Longrightarrow> \<not> field_is_unknown (lev_states ev)"
    by (auto simp: evidence_satisfies_def own_def q)
qed

lemma field_unknown_iff [simp]: "field_is_unknown f \<longleftrightarrow> f = FieldUnknown"
  by (cases f) simp_all

lemma role_decided: "f \<noteq> FieldUnknown \<Longrightarrow> role_verdict e f \<noteq> VUnknown"
  by (auto simp: role_verdict_def bool_verdict_def split: option.splits locator_field.splits)

lemma text_decided: "(e \<noteq> None \<Longrightarrow> f \<noteq> FieldUnknown) \<Longrightarrow> text_verdict lc e f x \<noteq> VUnknown"
  by (cases e; cases f) (simp_all add: text_verdict_def bool_verdict_def)

lemma text_absent [simp]: "text_verdict lc None f x = VMatch"
  by (simp add: text_verdict_def)

lemma self_sem_decided:
  assumes "evidence_satisfies ev (query_requirements q)"
  shows "self_sem lc q ev \<noteq> VUnknown"
proof -
  note own = requirements_own[OF assms, simplified]
  have texts: "text_verdict lc (ip_name (lq_identity q)) (lev_name ev) (lq_exact q) \<noteq> VUnknown"
    "text_verdict lc (ip_description (lq_identity q)) (lev_description ev) (lq_exact q) \<noteq> VUnknown"
    "text_verdict lc (ip_value (lq_identity q)) (lev_value ev) (lq_exact q) \<noteq> VUnknown"
    using own(2-4) by (auto intro!: text_decided)
  have "states_verdict q ev \<noteq> VUnknown"
    using own(6) by (auto simp: states_verdict_def bool_verdict_def split: locator_field.splits)
  moreover have "fst (identifier_verdict (ip_native_id (lq_identity q)) ev) \<noteq> VUnknown"
    using own(5) by (auto simp: identifier_verdict_eq split: option.splits)
  ultimately show ?thesis
    unfolding self_sem_def using own(1) texts by (intro and_decided role_decided)
qed

lemma self_text_decided:
  assumes "evidence_satisfies ev (query_requirements q)"
  shows "self_text_verdict lc (lq_has_text q) ev x \<noteq> VUnknown"
  using requirements_own[OF assms]
  by (cases "lq_has_text q")
    (simp_all add: self_text_verdict_def text_verdict_loop_or or_decided text_decided)

lemma text_sem_decided:
  "whole t \<Longrightarrow> evidence_met (query_requirements q) t \<Longrightarrow> text_sem lc q t \<noteq> VUnknown"
proof (induction t rule: measure_induct_rule[where f = size])
  case (less t)
  have "list_all (\<lambda>v. v \<noteq> VUnknown) (map (text_sem lc q) (sub_children t))"
    using less.IH[OF sub_child_size] less.prems
    by (auto simp: whole_iff[of t] evidence_met_iff[of _ t] list_all_iff)
  moreover have "self_text_verdict lc (lq_has_text q) (sub_evidence t) (lq_exact q) \<noteq> VUnknown"
    using self_text_decided less.prems by (simp add: evidence_met_iff[of _ t])
  ultimately show ?case
    using less.prems by (simp add: text_sem_eq[of lc q t] close_decided or_decided any_decided)
qed

lemma sem_decided:
  "whole t \<Longrightarrow> \<forall>q. evidence_met (query_requirements q) t \<longrightarrow>
     verdict_sem lc q t \<noteq> VUnknown \<and> subtree_sem lc q t \<noteq> VUnknown"
proof (induction t rule: measure_induct_rule[where f = size])
  case (less t)
  have below: "any_verdict (map (subtree_sem lc q) (sub_children t)) \<noteq> VUnknown"
    if "evidence_met (query_requirements q) t" for q
    using less.IH[OF sub_child_size] less.prems that
    by (intro any_decided) (auto simp: whole_iff[of t] evidence_met_iff[of _ t] list_all_iff)
  have own: "verdict_sem lc q t \<noteq> VUnknown" if met: "evidence_met (query_requirements q) t" for q
  proof -
    have "negate v \<noteq> VUnknown" if "v \<noteq> VUnknown" for v using that by (cases v) auto
    then show ?thesis
      unfolding verdict_sem.simps[of lc q t]
      using met less.prems query_requirements_nested[OF met] below
      by (intro and_decided self_sem_decided text_sem_decided)
        (auto simp: evidence_met_iff[of _ t] close_decided split: option.splits)
  qed
  then show ?case
    using less.prems below by (simp add: subtree_sem.simps[of lc _ t] close_decided or_decided)
qed

text \<open>
  C30.  The evidence that the locator asks for is enough: when every node of a tree without gaps
  meets the requirements derived from the query, no verdict is left open, for the query and for
  every node of the tree.
\<close>

theorem required_evidence_decides:
  assumes "from_roots rs src stats w = Inr tree" "ot_complete tree"
    and "compile_clauses q [] = (k, clauses)"
    and "list_all (\<lambda>n. evidence_satisfies (on_evidence n) (query_requirements q)) (ot_nodes tree)"
  shows "VUnknown \<notin> set (root_verdicts tree clauses k (evaluated_buffers lc tree clauses))"
proof -
  have nodes: "ot_nodes tree = flat_roots 0 rs" and wh: "list_all whole rs"
    using assms(1,2) by (auto simp: from_roots_exact)
  have ev: "on_evidence (ot_nodes tree ! i) = sub_evidence (forest rs ! i)" if "i < length (forest rs)" for i
    using located_Subtree(2) located_forest[OF nodes that] by (metis observed_subtree.exhaust_sel)
  have met: "evidence_satisfies (sub_evidence s) (query_requirements q)" if s: "s \<in> set (forest rs)" for s
  proof -
    obtain i where i: "i < length (forest rs)" "s = forest rs ! i"
      using s unfolding in_set_conv_nth by blast
    then have "evidence_satisfies (on_evidence (ot_nodes tree ! i)) (query_requirements q)"
      using assms(4) by (simp add: list_all_length nodes)
    then show ?thesis using ev[OF i(1)] i(2) by simp
  qed
  have "whole s \<and> evidence_met (query_requirements q) s" if s: "s \<in> set (forest rs)" for s
  proof -
    obtain r where r: "r \<in> set rs" "s \<in> set (preorder r)" using s by auto
    have "set (preorder s) \<subseteq> set (forest rs)" using preorder_trans[OF r(2)] r(1) by auto
    moreover have "whole s" using whole_preorder r wh by (auto simp: list_all_iff)
    ultimately show ?thesis using met by (auto simp: evidence_met_def list_all_iff)
  qed
  then have "verdict_sem lc q s \<noteq> VUnknown" if "s \<in> set (forest rs)" for s
    using sem_decided[of s lc] that by blast
  then show ?thesis
    unfolding matrix_sem[OF assms(1,3)] set_map by (metis imageE)
qed

section \<open>The sample\<close>

lemma sample_sharper: "sharper (sample_group False) (sample_group True)"
proof -
  have same: "sharper_evidence (sample_field_evidence r n ids) (sample_field_evidence r n ids)" for r n ids
    by (simp add: sharper_evidence_def field_le_def evidence_le_def)
  have "sharper sample_button sample_button"
    unfolding sample_button_def new_subtree_def by (intro complete_node same) (simp_all add: new_completeness_def)
  then have "list_emb sharper [sample_button] [sample_button]" by auto
  then show ?thesis
    unfolding sample_group_def new_subtree_def by (intro partial_node same) (simp_all add: new_completeness_def)
qed

theorem verdict_survives_more_evidence_witness:
  "\<exists>k clauses. compile_clauses sample_has_query [] = (k, clauses) \<and>
     root_verdicts (sample_observed False) clauses k
       (evaluated_buffers (\<lambda>c. [c]) (sample_observed False) clauses) ! 0 = VMatch \<and>
     root_verdicts (sample_observed True) clauses k
       (evaluated_buffers (\<lambda>c. [c]) (sample_observed True) clauses) ! 0 = VMatch"
proof -
  obtain k clauses where c: "compile_clauses sample_has_query [] = (k, clauses)" by fastforce
  have before: "root_verdicts (sample_observed False) clauses k
      (evaluated_buffers (\<lambda>c. [c]) (sample_observed False) clauses) ! 0 = VMatch"
    unfolding matrix_sem[OF sample_from_roots c] sample_forest by (simp add: sample_has)
  then have "root_verdicts (sample_observed True) clauses k
      (evaluated_buffers (\<lambda>c. [c]) (sample_observed True) clauses) ! 0 = VMatch"
    using verdict_survives_more_evidence[OF sample_from_roots sample_from_roots sample_sharper c, where lc = "\<lambda>c. [c]"] by simp
  then show ?thesis using c before by blast
qed

theorem required_evidence_decides_witness:
  "\<exists>k clauses. compile_clauses sample_has_query [] = (k, clauses) \<and>
     VUnknown \<notin> set (root_verdicts (sample_observed True) clauses k
       (evaluated_buffers (\<lambda>c. [c]) (sample_observed True) clauses))"
proof -
  obtain k clauses where c: "compile_clauses sample_has_query [] = (k, clauses)" by fastforce
  have "list_all (\<lambda>n. evidence_satisfies (on_evidence n) (query_requirements sample_has_query))
      (ot_nodes (sample_observed True))"
    by (simp add: sample_observed_def sample_group_def sample_button_def new_subtree_def evidence_satisfies_def
        sample_has_query_def sample_query_def union_requirements_def union_ref_requirements_def
        sample_field_evidence_def)
  then show ?thesis
    using required_evidence_decides[OF sample_from_roots _ c] c by (simp add: sample_nodes)
qed

end
