(* ===== verification/LocatorPlain.thy ===== *)
theory LocatorPlain
  imports LocatorVerdict
begin

text \<open>
  On an observation without gaps the verdict is the answer of the plain matcher of \<open>locator.rs\<close> on
  the printed tree.
\<close>

section \<open>The plain matcher\<close>

text \<open>
  Evidence that prints without loss: the role is known, no text is known to be empty, and the
  element has no identifier beside the preferred one.
\<close>

definition printable :: "locator_evidence \<Rightarrow> bool" where
  "printable ev \<longleftrightarrow>
     (case lev_role ev of Known r \<Rightarrow> True | _ \<Rightarrow> False) \<and>
     list_all (\<lambda>f. f \<noteq> FieldUnknown \<and> f \<noteq> Known []) [lev_name ev, lev_description ev, lev_value ev] \<and>
     lev_states ev \<noteq> FieldUnknown \<and> ev_complete (lev_identifiers ev) \<and>
     set (ev_identifiers (lev_identifiers ev)) = set_option (preferred_identifier (lev_identifiers ev))"

definition printable_tree :: "observed_subtree \<Rightarrow> bool" where
  "printable_tree t \<longleftrightarrow> whole t \<and> list_all (\<lambda>s. printable (sub_evidence s)) (preorder t)"

lemma printable_tree_iff:
  "printable_tree t \<longleftrightarrow>
     subtree_complete (sub_completeness t) \<and> printable (sub_evidence t) \<and> list_all printable_tree (sub_children t)"
  by (cases t) (auto simp: printable_tree_def list_all_iff)

lemma node_context_fields:
  "mc_role (node_context n) = node_role n" "mc_name (node_context n) = nid_name (node_id n)"
  "mc_description (node_context n) = nid_description (node_id n)"
  "mc_native_id (node_context n) = map_option ident_value (nid_native_id (node_id n))"
  "mc_value (node_context n) = nid_value (node_id n)" "mc_states (node_context n) = np_states (node_pres n)"
  "mc_children (node_context n) = node_children n"
  by (simp_all add: node_context_def)

lemma if_False_chain: "(if \<not> a then False else b) = (a \<and> b)"
  by simp

lemma printable_treeD: "printable_tree t \<Longrightarrow> whole t" "printable_tree t \<Longrightarrow> printable (sub_evidence t)"
  by (cases t; simp add: printable_tree_def)+

lemma projection_fields:
  "node_role (projection t) = unwrap_or (known (lev_role (sub_evidence t))) ''unknown''"
  "nid_name (node_id (projection t)) = option_filter (\<lambda>v. v \<noteq> []) (known (lev_name (sub_evidence t)))"
  "nid_description (node_id (projection t)) = option_filter (\<lambda>v. v \<noteq> []) (known (lev_description (sub_evidence t)))"
  "nid_value (node_id (projection t)) = option_filter (\<lambda>v. v \<noteq> []) (known (lev_value (sub_evidence t)))"
  "nid_native_id (node_id (projection t)) = preferred_identifier (lev_identifiers (sub_evidence t))"
  "np_states (node_pres (projection t)) = unwrap_or (known (lev_states (sub_evidence t))) []"
  "node_children (projection t) = map projection (sub_children t)"
  by (cases t; simp)+

lemma bool_verdict_and: "verdict_and (bool_verdict a) (bool_verdict b) = bool_verdict (a \<and> b)"
  and bool_verdict_or: "verdict_or (bool_verdict a) (bool_verdict b) = bool_verdict (a \<or> b)"
  and bool_verdict_negate: "negate (bool_verdict a) = bool_verdict (\<not> a)"
  and bool_verdict_True: "VMatch = bool_verdict True"
  and bool_verdict_close: "close_verdict True (bool_verdict a) = bool_verdict a"
  by (simp_all add: bool_verdict_def close_verdict_def)

lemma any_bool: "any_verdict (map (\<lambda>x. bool_verdict (p x)) xs) = bool_verdict (list_ex p xs)"
  by (induction xs) (simp_all add: bool_verdict_or, simp add: bool_verdict_def)

lemma text_verdict_plain:
  assumes "f \<noteq> FieldUnknown" "f \<noteq> Known []"
  shows "text_verdict lc e f x = bool_verdict (text_field_matches lc e (option_filter (\<lambda>v. v \<noteq> []) (known f)) x)"
  using assms
  by (cases f; cases e) (auto simp: text_verdict_def text_field_matches_def text_matches_def bool_verdict_def)

lemma role_verdict_plain:
  assumes "is_none_or e (\<lambda>r. normalize_role_query r = r)" "ip_role (lq_identity q) = e"
  shows "role_verdict e (Known a) = bool_verdict (role_matches q a)"
  using assms by (cases e) (auto simp: role_verdict_def role_matches_def bool_verdict_def)

lemma identifier_plain:
  assumes "ev_complete (lev_identifiers ev)"
    "set (ev_identifiers (lev_identifiers ev)) = set_option (preferred_identifier (lev_identifiers ev))"
  shows "fst (identifier_verdict e ev) =
    bool_verdict (native_id_matches e (map_option ident_value (preferred_identifier (lev_identifiers ev))))"
  using assms
  by (cases "preferred_identifier (lev_identifiers ev)"; cases e)
    (auto simp: identifier_verdict_eq native_id_matches_def bool_verdict_def)

lemma states_plain:
  assumes "lev_states ev \<noteq> FieldUnknown"
  shows "states_verdict q ev = bool_verdict (state_predicates_match (lq_states q) (unwrap_or (known (lev_states ev)) []))"
proof (cases "lev_states ev")
  case (Known ss)
  then show ?thesis
    by (simp add: states_verdict_def state_predicates_match_def bool_verdict_def
        eq_commute[of _ "unwrap_or _ True"] del: has_state_iff)
next
  case Absent
  have "(\<lambda>p. sp_expected p = Some False) = (\<lambda>p. unwrap_or (sp_expected p) True = has_state [] (sp_token p))"
  proof
    show "(sp_expected p = Some False) = (unwrap_or (sp_expected p) True = has_state [] (sp_token p))" for p
      by (cases "sp_expected p") auto
  qed
  note eq = this
  show ?thesis
    unfolding states_verdict_def state_predicates_match_def eq
    by (simp add: Absent bool_verdict_def del: has_state_iff)
qed (use assms in simp)

fun roles_normal :: "locator_query \<Rightarrow> bool" where
  "roles_normal (LocatorQuery i t x states (Containment h n)) \<longleftrightarrow>
     is_none_or (ip_role i) (\<lambda>r. normalize_role_query r = r) \<and>
     (case h of None \<Rightarrow> True | Some q \<Rightarrow> roles_normal q) \<and> (case n of None \<Rightarrow> True | Some q \<Rightarrow> roles_normal q)"

lemma roles_normalD:
  assumes "roles_normal q"
  shows "is_none_or (ip_role (lq_identity q)) (\<lambda>r. normalize_role_query r = r)"
    and "lq_has q = Some h \<Longrightarrow> roles_normal h" and "lq_has_not q = Some h \<Longrightarrow> roles_normal h"
  using assms by (cases q rule: roles_normal.cases; simp)+

lemma normalize_role_idem: "normalize_role_query (normalize_role_query r) = normalize_role_query r"
proof -
  have "normalize_role_query (role_as_str a) = role_as_str a" for a
    by (simp add: normalize_role_query_def Let_def trim_plain lower_plain role_query_alias_as_str)
  then show ?thesis by (simp add: normalize_role_query_def[of r] Let_def)
qed

lemma roles_normal_normalize: "roles_normal (normalize_query lc q)"
  by (induction lc q rule: normalize_query.induct)
    (auto simp: normalize_role_idem is_none_or_def split: option.splits)

lemma self_text_plain:
  assumes "printable (sub_evidence t)"
  shows "self_text_verdict lc (Some e) (sub_evidence t) x =
    bool_verdict (list_ex (\<lambda>s. text_matches lc s e x)
      (somes [nid_name (node_id (projection t)), nid_description (node_id (projection t)),
              nid_value (node_id (projection t))]))"
proof -
  have f: "text_verdict lc (Some e) f x =
      bool_verdict (case option_filter (\<lambda>v. v \<noteq> []) (known f) of None \<Rightarrow> False | Some a \<Rightarrow> text_matches lc a e x)"
    if "f \<noteq> FieldUnknown" "f \<noteq> Known []" for f
    using text_verdict_plain[OF that, of lc "Some e" x] by (simp add: text_field_matches_def)
  have "VNoMatch = bool_verdict False" by (simp add: bool_verdict_def)
  then show ?thesis
    using assms
    by (auto simp: self_text_verdict_def text_verdict_loop_or printable_def f projection_fields bool_verdict_or
        somes_def List.map_filter_def split: option.splits)
qed

lemma text_sem_plain:
  "printable_tree t \<Longrightarrow> text_sem lc q t =
     bool_verdict (has_text_matches lc (lq_has_text q) (node_context (projection t)) (lq_exact q))"
proof (induction t rule: measure_induct_rule[where f = size])
  case (less t)
  show ?case
  proof (cases "lq_has_text q")
    case None
    then show ?thesis by (simp add: text_sem_eq[of lc q t] has_text_matches.simps bool_verdict_def)
  next
    case (Some e)
    have below: "map (text_sem lc q) (sub_children t) =
        map (\<lambda>c. bool_verdict (has_text_matches lc (Some e) (node_context (projection c)) (lq_exact q))) (sub_children t)"
      using less.IH[OF sub_child_size] less.prems
      by (auto simp: printable_tree_iff[of t] list_all_iff Some)
    have all: "has_text_matches lc (Some e) (node_context (projection t)) (lq_exact q) \<longleftrightarrow>
      list_ex (\<lambda>s. text_matches lc s e (lq_exact q))
        (somes [nid_name (node_id (projection t)), nid_description (node_id (projection t)),
                nid_value (node_id (projection t))]) \<or>
      list_ex (\<lambda>c. has_text_matches lc (Some e) (node_context (projection c)) (lq_exact q)) (sub_children t)"
      unfolding has_text_matches.simps[of lc "Some e" "node_context (projection t)"]
      by (simp add: node_context_def[of "projection t"] projection_fields(7) list_ex_iff)
    show ?thesis
      unfolding text_sem_eq[of lc q t] below Some all self_text_plain[OF printable_treeD(2)[OF less.prems]]
        any_bool bool_verdict_or
      by (simp add: printable_treeD(1)[OF less.prems] bool_verdict_close)
  qed
qed

lemma self_sem_plain:
  assumes "printable (sub_evidence t)" "roles_normal q"
  shows "self_sem lc q (sub_evidence t) = bool_verdict (
    role_matches q (node_role (projection t)) \<and>
    native_id_matches (ip_native_id (lq_identity q)) (map_option ident_value (nid_native_id (node_id (projection t)))) \<and>
    state_predicates_match (lq_states q) (np_states (node_pres (projection t))) \<and>
    text_field_matches lc (ip_name (lq_identity q)) (nid_name (node_id (projection t))) (lq_exact q) \<and>
    text_field_matches lc (ip_description (lq_identity q)) (nid_description (node_id (projection t))) (lq_exact q) \<and>
    text_field_matches lc (ip_value (lq_identity q)) (nid_value (node_id (projection t))) (lq_exact q))"
proof -
  obtain r where r: "lev_role (sub_evidence t) = Known r"
    using assms(1) by (auto simp: printable_def split: locator_field.splits)
  have role: "role_verdict (ip_role (lq_identity q)) (Known r) = bool_verdict (role_matches q r)"
    by (rule role_verdict_plain[OF roles_normalD(1)[OF assms(2)] refl])
  show ?thesis
    using assms(1)
    by (simp add: self_sem_def role r identifier_plain states_plain text_verdict_plain printable_def
        projection_fields bool_verdict_and)
qed

lemma sem_plain:
  "printable_tree t \<Longrightarrow> \<forall>q. roles_normal q \<longrightarrow>
     verdict_sem lc q t = bool_verdict (accessibility_node_matches lc (projection t) q) \<and>
     subtree_sem lc q t =
       bool_verdict (accessibility_node_matches lc (projection t) q \<or> subtree_contains lc q (node_children (projection t)))"
proof (induction t rule: measure_induct_rule[where f = size])
  case (less t)
  note wh = printable_treeD(1)[OF less.prems] and pr = printable_treeD(2)[OF less.prems]
  have below: "any_verdict (map (subtree_sem lc q) (sub_children t)) =
      bool_verdict (subtree_contains lc q (node_children (projection t)))" if "roles_normal q" for q
  proof -
    have "map (subtree_sem lc q) (sub_children t) = map (\<lambda>c. bool_verdict
        (accessibility_node_matches lc (projection c) q \<or> subtree_contains lc q (node_children (projection c)))) (sub_children t)"
      using less.IH[OF sub_child_size] less.prems that
      by (auto simp: printable_tree_iff[of t] list_all_iff)
    note eq = this
    show ?thesis
      unfolding eq any_bool subtree_contains.simps[of lc q "node_children (projection t)"]
      by (simp add: projection_fields(7) accessibility_node_matches_def list_ex_iff)
  qed
  have own: "verdict_sem lc q t = bool_verdict (accessibility_node_matches lc (projection t) q)" if rn: "roles_normal q" for q
  proof -
    have has: "(case lq_has q of None \<Rightarrow> VMatch
        | Some h \<Rightarrow> close_verdict (whole t) (any_verdict (map (subtree_sem lc h) (sub_children t)))) =
      bool_verdict (case lq_has q of None \<Rightarrow> True | Some h \<Rightarrow> subtree_contains lc h (node_children (projection t)))"
      using roles_normalD(2)[OF rn] below wh
      by (cases "lq_has q") (simp_all add: bool_verdict_close bool_verdict_True)
    have has_not: "(case lq_has_not q of None \<Rightarrow> VMatch
        | Some h \<Rightarrow> negate (close_verdict (whole t) (any_verdict (map (subtree_sem lc h) (sub_children t))))) =
      bool_verdict (case lq_has_not q of None \<Rightarrow> True | Some h \<Rightarrow> \<not> subtree_contains lc h (node_children (projection t)))"
      using roles_normalD(3)[OF rn] below wh
      by (cases "lq_has_not q") (simp_all add: bool_verdict_close bool_verdict_True bool_verdict_negate)
    have all: "accessibility_node_matches lc (projection t) q \<longleftrightarrow>
      role_matches q (node_role (projection t)) \<and>
      text_field_matches lc (ip_name (lq_identity q)) (nid_name (node_id (projection t))) (lq_exact q) \<and>
      text_field_matches lc (ip_description (lq_identity q)) (nid_description (node_id (projection t))) (lq_exact q) \<and>
      native_id_matches (ip_native_id (lq_identity q)) (map_option ident_value (nid_native_id (node_id (projection t)))) \<and>
      text_field_matches lc (ip_value (lq_identity q)) (nid_value (node_id (projection t))) (lq_exact q) \<and>
      has_text_matches lc (lq_has_text q) (node_context (projection t)) (lq_exact q) \<and>
      state_predicates_match (lq_states q) (np_states (node_pres (projection t))) \<and>
      (case lq_has q of None \<Rightarrow> True | Some h \<Rightarrow> subtree_contains lc h (node_children (projection t))) \<and>
      (case lq_has_not q of None \<Rightarrow> True | Some h \<Rightarrow> \<not> subtree_contains lc h (node_children (projection t)))"
      unfolding accessibility_node_matches_def node_matches.simps[of lc q "node_context (projection t)"]
        node_context_fields
      by (simp only: if_False_chain)
    show ?thesis
      unfolding verdict_sem.simps[of lc q t] has has_not self_sem_plain[OF pr rn] text_sem_plain[OF less.prems]
        bool_verdict_and all
      by (rule arg_cong[where f = bool_verdict]) (simp only: conj_ac)
  qed
  show ?case
    using own below wh by (simp add: subtree_sem.simps[of lc _ t] bool_verdict_or bool_verdict_close)
qed

text \<open>
  C8.  On an observation without gaps whose texts print without loss, the three-valued evaluation
  and the plain matcher agree: a node is reported as matching exactly when the matcher on the
  printed tree says so, and as not matching otherwise.  The query is the normal form that every
  run evaluates.
\<close>

theorem evaluation_agrees_with_matcher:
  assumes "from_roots [t] src stats w = Inr tree" "printable_tree t"
    and "compile_clauses (normalize_query lc q) [] = (k, clauses)"
  shows "root_verdicts tree clauses k (evaluated_buffers lc tree clauses) =
    map (\<lambda>s. bool_verdict (accessibility_node_matches lc (projection s) (normalize_query lc q))) (preorder t)"
proof -
  have "printable_tree s" if "s \<in> set (preorder t)" for s
    using assms(2) that preorder_trans[OF that] whole_preorder[OF that]
    by (auto simp: printable_tree_def list_all_iff)
  then show ?thesis
    using sem_plain[of _ lc] roles_normal_normalize[of lc q]
    by (simp add: matrix_sem[OF assms(1,3)])
qed

theorem evaluation_agrees_with_matcher_witness:
  "\<exists>k clauses. compile_clauses (normalize_query (\<lambda>c. [c]) sample_query) [] = (k, clauses) \<and>
     root_verdicts (sample_observed True) clauses k
       (evaluated_buffers (\<lambda>c. [c]) (sample_observed True) clauses) =
     map (\<lambda>s. bool_verdict
         (accessibility_node_matches (\<lambda>c. [c]) (projection s) (normalize_query (\<lambda>c. [c]) sample_query)))
       [sample_group True, sample_button]"
proof -
  obtain k clauses where c: "compile_clauses (normalize_query (\<lambda>c. [c]) sample_query) [] = (k, clauses)"
    by fastforce
  have "printable_tree (sample_group True)"
    by (simp add: printable_tree_def sample_whole)
      (simp add: printable_def sample_group_def sample_button_def new_subtree_def sample_field_evidence_def
        preferred_identifier_def list_get_def)
  then show ?thesis
    using evaluation_agrees_with_matcher[OF sample_from_roots _ c] sample_forest[of True] c by simp
qed

end
