(* ===== verification/LocatorResult.thy ===== *)
theory LocatorResult
  imports LocatorVerdict
begin

text \<open>
  The whole evaluation (\<open>evaluate_locator_tree\<close>): on every observed tree it returns, and what its
  result says of the tree.  The walks up the parents and down the subtrees end because the flat
  form lists children after their parents.
\<close>

section \<open>Children come after their parents\<close>

definition forward :: "observed_node list \<Rightarrow> bool" where
  "forward nodes \<longleftrightarrow>
     (\<forall>i < length nodes. \<forall>c \<in> set (on_children (nodes ! i)). i < c \<and> c < length nodes)"

lemma located_children: "located nodes i t \<Longrightarrow> c \<in> set (on_children (nodes ! i)) \<Longrightarrow> i < c \<and> c < length nodes"
proof (cases t)
  case (Subtree ev cs cpl count si)
  assume at: "located nodes i t" and c: "c \<in> set (on_children (nodes ! i))"
  note at' = located_Subtree[OF at[unfolded Subtree]]
  from c at'(3) have c': "c \<in> set (starts (Suc i) cs)" by simp
  then obtain k where k: "k < length cs" "c = starts (Suc i) cs ! k"
    using starts_length by (metis in_set_conv_nth)
  then have "located nodes c (cs ! k)" using at'(7) by (simp add: list_all2_conv_all_nth)
  then show ?thesis using starts_after[OF c'] located_bound by auto
qed

lemma forward_flat: "from_roots rs src stats w = Inr tree \<Longrightarrow> forward (ot_nodes tree)"
  unfolding forward_def
  using located_children located_forest by (fastforce simp: from_roots_exact)

lemma fold_children_parent:
  "length ps = n \<Longrightarrow> fold (\<lambda>c ps. ps[c := Some i]) cs ps ! j = Some p \<Longrightarrow> j < n \<Longrightarrow>
     (p = i \<and> j \<in> set cs) \<or> ps ! j = Some p"
proof (induction cs arbitrary: ps)
  case (Cons c cs)
  have "(p = i \<and> j \<in> set cs) \<or> ps[c := Some i] ! j = Some p"
    using Cons.prems by (intro Cons.IH) simp_all
  then show ?case using Cons.prems(1,3) by (cases "j = c") auto
qed simp

lemma fold_children_length [simp]: "length (fold (\<lambda>c ps. ps[c := Some i]) cs ps) = length ps"
  by (induction cs arbitrary: ps) auto

lemma fold_parents:
  "fold (\<lambda>(i, n) ps. fold (\<lambda>c ps. ps[c := Some i]) (on_children n) ps) xs ps ! j = Some p \<Longrightarrow>
     j < length ps \<Longrightarrow> (\<exists>n. (p, n) \<in> set xs \<and> j \<in> set (on_children n)) \<or> ps ! j = Some p"
proof (induction xs arbitrary: ps)
  case (Cons x xs)
  obtain i n where x: "x = (i, n)" by (cases x)
  let ?ps = "fold (\<lambda>c ps. ps[c := Some i]) (on_children n) ps"
  have "(\<exists>n. (p, n) \<in> set xs \<and> j \<in> set (on_children n)) \<or> ?ps ! j = Some p"
    using Cons.IH[of ?ps] Cons.prems by (simp add: x)
  then show ?case
    using fold_children_parent[OF refl _ Cons.prems(2), of i "on_children n" p] by (auto simp: x)
qed simp

lemma fold_parents_length:
  "length (fold (\<lambda>(i, n) ps. fold (\<lambda>c ps. ps[c := Some i]) (on_children n) ps) xs ps) = length ps"
  by (induction xs arbitrary: ps) (auto simp: case_prod_beta)

lemma parents_of_length [simp]: "length (parents_of nodes) = length nodes"
  by (simp add: parents_of_def fold_parents_length)

lemma parent_of_child:
  assumes "parent_of (parents_of nodes) j = Some p"
  shows "p < length nodes \<and> j \<in> set (on_children (nodes ! p))"
proof -
  have j: "j < length nodes" "parents_of nodes ! j = Some p"
    using assms by (auto simp: parent_of_def list_get_def bind_eq_Some_conv split: if_splits)
  then have "\<exists>n. (p, n) \<in> set (List.enumerate 0 nodes) \<and> j \<in> set (on_children n)"
    using fold_parents[of "List.enumerate 0 nodes" "replicate (length nodes) None" j p]
    by (simp add: parents_of_def)
  then show ?thesis by (auto simp: in_set_enumerate_eq)
qed

lemma parent_before: "forward nodes \<Longrightarrow> parent_of (parents_of nodes) j = Some p \<Longrightarrow> p < j"
  using parent_of_child[of nodes j p] unfolding forward_def by blast

section \<open>The walks end\<close>

lemma ancestors_return:
  assumes "forward nodes"
  shows "\<exists>ups. ancestors (parents_of nodes) current acc = Some (ups @ acc)"
proof (cases current)
  case None
  then show ?thesis by (simp add: ancestors.simps)
next
  case (Some i)
  have "\<exists>ups. ancestors (parents_of nodes) (Some i) acc = Some (ups @ acc)"
  proof (induction i arbitrary: acc rule: less_induct)
    case (less i)
    show ?case
    proof (cases "parent_of (parents_of nodes) i")
      case None
      then show ?thesis by (simp add: ancestors.simps)
    next
      case (Some p)
      then obtain ups where "ancestors (parents_of nodes) (Some p) (i # acc) = Some (ups @ i # acc)"
        using less.IH[OF parent_before[OF assms]] by blast
      then show ?thesis using Some by (simp add: ancestors.simps[of _ "Some i"])
    qed
  qed
  then show ?thesis by (simp add: Some)
qed

lemma all_opt_return: "(\<And>x. x \<in> set xs \<Longrightarrow> f x \<noteq> None) \<Longrightarrow> all_opt f xs \<noteq> None"
  by (induction xs) (auto split: option.splits bool.splits)

lemma all_opt_True [simp]: "all_opt f xs = Some True \<longleftrightarrow> list_all (\<lambda>x. f x = Some True) xs"
  by (induction xs) (auto split: option.splits bool.splits)

lemma subtree_authoritative_return:
  assumes "forward (ot_nodes tree)"
  shows "length (ot_nodes tree) - i < fuel \<Longrightarrow> subtree_is_authoritative fuel tree verdicts i \<noteq> None"
proof (induction fuel arbitrary: i)
  case (Suc fuel)
  have "all_opt (subtree_is_authoritative fuel tree verdicts) (on_children (ot_nodes tree ! i)) \<noteq> None"
    if i: "i < length (ot_nodes tree)"
  proof (intro all_opt_return Suc.IH)
    fix c assume "c \<in> set (on_children (ot_nodes tree ! i))"
    then have "i < c" "c < length (ot_nodes tree)" using assms i unfolding forward_def by blast+
    then show "length (ot_nodes tree) - c < fuel" using Suc.prems by linarith
  qed
  then show ?case by (auto simp: list_get_def)
qed simp

lemma earlier_return: "forward (ot_nodes tree) \<Longrightarrow> earlier_authoritative tree verdicts is k \<noteq> None"
  unfolding earlier_authoritative_def by (intro all_opt_return subtree_authoritative_return) auto

lemma chain_return: "forward (ot_nodes tree) \<Longrightarrow> chain_is_authoritative tree verdicts xs \<noteq> None"
  by (induction tree verdicts xs rule: chain_is_authoritative.induct)
    (auto simp: earlier_return split: option.splits bool.splits)

lemma first_return:
  "forward nodes \<Longrightarrow> forward (ot_nodes tree) \<Longrightarrow>
     first_is_authoritative tree target (parents_of nodes) verdicts \<noteq> None"
  using ancestors_return[of nodes "Some target" "[]"]
  by (auto simp: first_is_authoritative_def earlier_return chain_return split: option.splits list.splits bool.splits)

section \<open>Giving refs changes nothing else\<close>

definition without_refs :: "observed_node list \<Rightarrow> observed_node list" where
  "without_refs nodes = map (\<lambda>n. n\<lparr>on_ref_id := None\<rparr>) nodes"

lemma materialize_loop_keeps:
  "materialize_loop fx src q is nodes m k = Inr (r, nodes') \<Longrightarrow> without_refs nodes' = without_refs nodes"
proof (induction "is" arbitrary: nodes m k)
  case (Cons i "is")
  have "without_refs (nodes[i := (nodes ! i)\<lparr>on_ref_id := x\<rparr>]) = without_refs nodes" for x
    by (cases "i < length nodes") (auto simp: without_refs_def map_update list_update_same_conv list_update_beyond)
  then show ?case using Cons by (auto simp: Let_def split_beta split: if_splits)
qed simp

lemma without_refs_fields:
  assumes "without_refs nodes' = without_refs nodes"
  shows "length nodes' = length nodes"
    and "on_children (nodes' ! i) = on_children (nodes ! i) \<or> length nodes \<le> i"
    and "i < length nodes \<Longrightarrow> on_document_order (nodes' ! i) = on_document_order (nodes ! i)"
    and "i < length nodes \<Longrightarrow> on_completeness (nodes' ! i) = on_completeness (nodes ! i)"
    and "i < length nodes \<Longrightarrow> locator_ref_entry fx (nodes' ! i) src q = locator_ref_entry fx (nodes ! i) src q"
proof -
  have len: "length nodes' = length nodes"
    using arg_cong[OF assms, of length] by (simp add: without_refs_def)
  have nth: "(nodes' ! i)\<lparr>on_ref_id := None\<rparr> = (nodes ! i)\<lparr>on_ref_id := None\<rparr>" if "i < length nodes" for i
    using arg_cong[OF assms, of "\<lambda>xs. xs ! i"] that len by (simp add: without_refs_def)
  show "length nodes' = length nodes" by (fact len)
  show "on_children (nodes' ! i) = on_children (nodes ! i) \<or> length nodes \<le> i"
    using arg_cong[OF nth, of i on_children] by (cases "i < length nodes") simp_all
  show "i < length nodes \<Longrightarrow> on_document_order (nodes' ! i) = on_document_order (nodes ! i)"
    using arg_cong[OF nth, of i on_document_order] by simp
  show "i < length nodes \<Longrightarrow> on_completeness (nodes' ! i) = on_completeness (nodes ! i)"
    using arg_cong[OF nth, of i on_completeness] by simp
  show "i < length nodes \<Longrightarrow> locator_ref_entry fx (nodes' ! i) src q = locator_ref_entry fx (nodes ! i) src q"
    using arg_cong[OF nth, of i on_evidence] arg_cong[OF nth, of i on_path]
    by (simp add: locator_ref_entry_def)
qed

lemma forward_without_refs: "without_refs nodes' = without_refs nodes \<Longrightarrow> forward nodes \<Longrightarrow> forward nodes'"
  unfolding forward_def using without_refs_fields(1,2)[of nodes' nodes] by (metis not_le)

lemma materialize_for_keeps:
  assumes "materialize_for fx tree q mat selected = Inr (r, tree')"
  shows "without_refs (ot_nodes tree') = without_refs (ot_nodes tree)"
    and "ot_source tree' = ot_source tree" and "ot_complete tree' = ot_complete tree"
    and "ot_roots tree' = ot_roots tree"
  using assms
  by (auto simp: materialize_for_def materialize_refmap_def split: locator_materialization.splits
      dest: materialize_loop_keeps)

lemma collect_matches_return: "forward nodes \<Longrightarrow> collect_matches fx tree (parents_of nodes) q is \<noteq> None"
proof (induction "is")
  case (Cons i "is")
  have "match_data_of tree i (parents_of nodes) \<noteq> None"
    using ancestors_return[OF Cons.prems, of "parent_of (parents_of nodes) i" "[]"]
    by (auto simp: match_data_of_def split: option.splits)
  then show ?case using Cons by (auto split: option.splits)
qed simp

lemma collect_matches_Inr:
  "collect_matches fx tree ps q is = Some (Inr ms) \<Longrightarrow>
     map (\<lambda>m. (lm_document_order m, lm_entry m)) ms =
     map (\<lambda>i. (on_document_order (ot_nodes tree ! i),
              locator_ref_entry fx (ot_nodes tree ! i) (ot_source tree) q)) is \<and>
     (\<forall>i \<in> set is. i < length (ot_nodes tree))"
  by (induction "is" arbitrary: ms)
    (auto simp: list_get_def split: option.splits sum.splits if_splits)

section \<open>The result\<close>

lemma conclude_return:
  assumes "forward nodes" "forward (ot_nodes tree)"
  shows "conclude_evaluation fx tree (parents_of nodes) q sel vs stats m k \<noteq> None"
proof -
  obtain x where x: "collect_matches fx tree (parents_of nodes) q (fst (selected_indices (matched_indices vs) sel)) = Some x"
    using collect_matches_return[OF assms(1)] by blast
  have sel: "\<exists>z. selection_is_complete b sel ms tree (parents_of nodes) vs = Some z" for b ms
    using first_return[OF assms] by (auto simp: selection_is_complete_def split: list.splits)
  show ?thesis
    by (simp add: conclude_evaluation_def Let_def split_beta x sel split: sum.splits)
qed

lemma evaluate_total:
  assumes fwd: "forward (ot_nodes tree)"
  shows "evaluate_locator_tree lc fx tree q request \<noteq> None"
proof -
  obtain k cls where c: "compile_clauses (normalize_query lc q) [] = (k, cls)" by fastforce
  have "conclude_evaluation fx tree' (parents_of (ot_nodes tree)) q' sel vs st m b \<noteq> None"
    if "materialize_for fx tree q' mat is = Inr (r, tree')" for tree' q' sel vs st m b mat "is" r
    by (rule conclude_return[OF fwd forward_without_refs[OF materialize_for_keeps(1)[OF that] fwd]])
  then show ?thesis
    by (auto simp: evaluate_locator_tree_def c Let_def split: sum.splits)
qed

lemma evaluate_Inr:
  assumes "evaluate_locator_tree lc fx tree query request = Some (Inr r)"
    and "compile_clauses (normalize_query lc query) [] = (k, cls)"
  obtains tree' m b where
    "materialize_for fx tree (normalize_query lc query) (rq_materialization request)
       (fst (selected_indices (matched_indices (root_verdicts tree cls k (evaluated_buffers lc tree cls)))
         (rq_selection request))) = Inr ((m, b), tree')"
    "conclude_evaluation fx tree' (parents_of (ot_nodes tree)) (normalize_query lc query) (rq_selection request)
       (root_verdicts tree cls k (evaluated_buffers lc tree cls))
       (update_evaluation (\<lambda>e. e\<lparr>matched_nodes :=
            length (matched_indices (root_verdicts tree cls k (evaluated_buffers lc tree cls)))\<rparr>)
          (bf_stats (evaluated_buffers lc tree cls))) m b = Some (Inr r)"
  using assms
  by (auto simp: evaluate_locator_tree_def Let_def split: sum.splits if_splits)

lemma conclude_Inr:
  assumes "conclude_evaluation fx tree parents q sel vs stats m k = Some (Inr r)"
  shows "meta_total_matches (lr_meta r) = length (matched_indices vs)"
    and "meta_complete (lr_meta r) \<longleftrightarrow> ot_complete tree \<and> VUnknown \<notin> set vs \<and> k"
    and "collect_matches fx tree parents q (fst (selected_indices (matched_indices vs) sel)) = Some (Inr (lr_matches r))"
    and "selection_is_complete (meta_complete (lr_meta r)) sel (lr_matches r) tree parents vs =
      Some (meta_selection_complete (lr_meta r))"
    and "lr_stats r = stats" and "lr_refmap r = m"
  using assms
  by (auto simp: conclude_evaluation_def Let_def split_beta split: option.splits sum.splits if_splits)

text \<open>
  Evaluating a query on an observed tree always comes to an end with an answer or an error:
  the walk from a match up to its root and the walks down the subtrees before it cannot run
  forever, whatever was observed.
\<close>

theorem evaluation_returns:
  assumes "from_roots rs src stats w = Inr tree"
  shows "\<exists>r. evaluate_locator_tree lc fx tree q request = Some r"
  using evaluate_total[OF forward_flat[OF assms]] by auto

lemma single_match_verdicts:
  assumes "matched_indices vs = [i]" "VUnknown \<notin> set vs"
  shows "vs = (replicate (length vs) VNoMatch)[i := VMatch]"
proof (rule nth_equalityI)
  fix j assume j: "j < length vs"
  have mem: "j \<in> set (matched_indices vs) \<longleftrightarrow> vs ! j = VMatch"
    using j by (auto simp: matched_indices_def)
  have "vs ! j \<noteq> VUnknown" using assms(2) j by (metis nth_mem)
  then show "vs ! j = (replicate (length vs) VNoMatch)[i := VMatch] ! j"
    using mem j assms(1) by (cases "vs ! j") (auto simp: nth_list_update)
qed simp

lemma selected_of_one: "fst (selected_indices [i] sel) \<in> {[], [i]}"
  by (cases sel) (auto simp: take_matches_def list_get_def take_Cons' split: option.splits)

text \<open>
  C11.  A result accepted as unique is the only one: the observation was complete, no verdict was
  left open, exactly the returned node matches, every other node is known not to match, and the
  entry returned is the one made from that node.
\<close>

theorem unique_result_is_unique:
  assumes "from_roots rs src stats w = Inr tree"
    and "evaluate_locator_tree lc fx tree query request = Some (Inr r)" "require_unique r = Inr m"
    and "compile_clauses (normalize_query lc query) [] = (k, clauses)"
  shows "ot_complete tree \<and> lm_document_order m < length (ot_nodes tree) \<and>
    root_verdicts tree clauses k (evaluated_buffers lc tree clauses) =
      (replicate (length (ot_nodes tree)) VNoMatch)[lm_document_order m := VMatch] \<and>
    lm_entry m =
      locator_ref_entry fx (ot_nodes tree ! lm_document_order m) (ot_source tree) (normalize_query lc query)"
proof -
  let ?vs = "root_verdicts tree clauses k (evaluated_buffers lc tree clauses)"
  obtain tree' mm b where mat: "materialize_for fx tree (normalize_query lc query) (rq_materialization request)
       (fst (selected_indices (matched_indices ?vs) (rq_selection request))) = Inr ((mm, b), tree')"
    and con: "conclude_evaluation fx tree' (parents_of (ot_nodes tree)) (normalize_query lc query)
       (rq_selection request) ?vs
       (update_evaluation (\<lambda>e. e\<lparr>matched_nodes := length (matched_indices ?vs)\<rparr>)
          (bf_stats (evaluated_buffers lc tree clauses))) mm b = Some (Inr r)"
    by (rule evaluate_Inr[OF assms(2,4)])
  note keep = materialize_for_keeps[OF mat] and res = conclude_Inr[OF con]
  have total: "meta_total_matches (lr_meta r) = 1" "meta_complete (lr_meta r)" "\<exists>ms. lr_matches r = m # ms"
    using assms(3)
    by (auto simp: require_unique_def classify_query_result_def Let_def split: if_splits list.splits)
  note one = total(1)[unfolded res(1)] total(2,3)
  obtain i where i: "matched_indices ?vs = [i]" using one(1) by (auto simp: length_Suc_conv)
  have "fst (selected_indices (matched_indices ?vs) (rq_selection request)) \<noteq> []"
    using res(3) one(3) by (cases "fst (selected_indices (matched_indices ?vs) (rq_selection request))") auto
  then have "fst (selected_indices (matched_indices ?vs) (rq_selection request)) = [i]"
    using selected_of_one[of i "rq_selection request"] by (simp add: i)
  then have m: "lm_document_order m = on_document_order (ot_nodes tree' ! i)" "i < length (ot_nodes tree')"
    "lm_entry m = locator_ref_entry fx (ot_nodes tree' ! i) (ot_source tree') (normalize_query lc query)"
    using collect_matches_Inr[OF res(3)] one(3) by auto
  have nodes: "ot_nodes tree = flat_roots 0 rs" using assms(1) by (simp add: from_roots_exact)
  note same = without_refs_fields[OF keep(1)]
  have lt: "i < length (ot_nodes tree)" using m(2) same(1) by simp
  have order: "on_document_order (ot_nodes tree ! i) = i"
    using located_forest[OF nodes, of i] lt
    by (cases "forest rs ! i") (auto simp: nodes dest: located_Subtree(4))
  have "?vs = (replicate (length ?vs) VNoMatch)[i := VMatch]"
    using single_match_verdicts[OF i] res(2) one(2) by blast
  moreover have "length ?vs = length (ot_nodes tree)" by (simp add: root_verdicts_def)
  ultimately show ?thesis
    using m same(3,5)[OF lt] order keep(2,3) one(2) res(2) lt by simp
qed

theorem evaluation_returns_witness:
  "\<exists>r. evaluate_locator_tree (\<lambda>c. [c]) sum_hash (sample_observed False) sample_query
     (sample_request Last) = Some r"
  by (rule evaluation_returns[OF sample_from_roots])

theorem unique_result_is_unique_witness:
  "\<exists>r m. evaluate_locator_tree (\<lambda>c. [c]) sum_hash (sample_observed True) sample_query (sample_request Strict) =
       Some (Inr r) \<and> require_unique r = Inr m \<and>
     lm_entry m = locator_ref_entry sum_hash (ot_nodes (sample_observed True) ! 1)
       (ot_source (sample_observed True)) (normalize_query (\<lambda>c. [c]) sample_query)"
proof -
  obtain r m where r: "evaluate_locator_tree (\<lambda>c. [c]) sum_hash (sample_observed True) sample_query
      (sample_request Strict) = Some (Inr r)"
    "lr_matches r = [m]" "lm_document_order m = 1" "meta_total_matches (lr_meta r) = 1" "meta_complete (lr_meta r)"
    using sample_conclusion[of Strict "\<lambda>c. [c]" sum_hash True] by (auto simp: take_matches_def)
  then have "require_unique r = Inr m" by (simp add: require_unique_def classify_query_result_def)
  moreover from unique_result_is_unique[OF sample_from_roots r(1) this] sample_compiled
  have "lm_entry m = locator_ref_entry sum_hash (ot_nodes (sample_observed True) ! 1)
      (ot_source (sample_observed True)) (normalize_query (\<lambda>c. [c]) sample_query)"
    by (simp add: sample_normal r(3))
  ultimately show ?thesis using r(1) by blast
qed

end
