(* ===== verification/LocatorFirst.thy ===== *)
theory LocatorFirst
  imports LocatorResult
begin

text \<open>
  When the first match may be reported although the observation is incomplete
  (\<open>live_locator/selection_completeness.rs\<close>): the meaning of its checks on the observed tree
  (\<open>lead\<close>), and that the match stays the first one in every later, fuller observation (\<open>grown\<close>).
\<close>

section \<open>Fuller observations\<close>

text \<open>
  Where a node is incomplete, unseen children may turn up anywhere except before a child whose
  predecessors were all seen.
\<close>

inductive inserts :: "(observed_subtree \<Rightarrow> observed_subtree \<Rightarrow> bool) \<Rightarrow>
    observed_subtree list \<Rightarrow> observed_subtree list \<Rightarrow> bool" for P where
  inserts_nil: "inserts P [] ds"
| inserts_keep: "P c d \<Longrightarrow> inserts P cs ds \<Longrightarrow> inserts P (c # cs) (d # ds)"
| inserts_new: "\<not> predecessors_complete (sub_completeness c) \<Longrightarrow> inserts P (c # cs) ds \<Longrightarrow>
    inserts P (c # cs) (d # ds)"

lemma inserts_mono: "(\<And>x y. P x y \<longrightarrow> Q x y) \<Longrightarrow> inserts P xs ys \<longrightarrow> inserts Q xs ys"
proof
  assume PQ: "\<And>x y. P x y \<longrightarrow> Q x y"
  show "inserts P xs ys \<Longrightarrow> inserts Q xs ys"
    by (induction rule: inserts.induct) (auto intro: inserts.intros simp: PQ)
qed

inductive grown :: "observed_subtree \<Rightarrow> observed_subtree \<Rightarrow> bool" where
  grown_complete: "sharper_evidence ev ev' \<Longrightarrow> subtree_complete c' \<Longrightarrow> list_all2 grown cs cs' \<Longrightarrow>
    grown (Subtree ev cs c n s) (Subtree ev' cs' c' n' s')"
| grown_partial: "sharper_evidence ev ev' \<Longrightarrow> \<not> subtree_complete c \<Longrightarrow> inserts grown cs cs' \<Longrightarrow>
    grown (Subtree ev cs c n s) (Subtree ev' cs' c' n' s')"
monos list.rel_mono inserts_mono

lemma inserts_emb: "inserts P cs ds \<Longrightarrow> list_emb P cs ds"
  by (induction rule: inserts.induct) auto

lemma grown_sharper: "grown t u \<Longrightarrow> sharper t u"
proof (induction rule: grown.induct)
  case (grown_complete ev ev' c' cs cs' c n s n' s')
  then show ?case by (intro sharper.complete_node) (auto elim: list.rel_mono_strong)
next
  case (grown_partial ev ev' c cs cs' n s c' n' s')
  have "list_emb sharper cs cs'"
    using grown_partial.IH list_emb_mono[of "\<lambda>x y. grown x y \<and> sharper x y" sharper cs cs'] inserts_emb by blast
  then show ?case using grown_partial by (intro sharper.partial_node)
qed

lemma grown_stays: "grown t u \<Longrightarrow> verdict_sem lc q t \<noteq> VUnknown \<Longrightarrow> verdict_sem lc q u = verdict_sem lc q t"
  by (rule verdict_sem_stays[OF grown_sharper])

lemma grown_cases:
  assumes "grown t u"
  shows "subtree_complete (sub_completeness t) \<Longrightarrow> list_all2 grown (sub_children t) (sub_children u)"
    and "list_all2 grown (sub_children t) (sub_children u) \<or> inserts grown (sub_children t) (sub_children u)"
  using assms by (auto elim: grown.cases)

section \<open>Settled subtrees and the way to the first match\<close>

definition settled :: "lower_table \<Rightarrow> locator_query \<Rightarrow> observed_subtree \<Rightarrow> bool" where
  "settled lc q t \<longleftrightarrow>
     list_all (\<lambda>s. whole s \<and> predecessors_complete (sub_completeness s) \<and> verdict_sem lc q s = VNoMatch)
       (preorder t)"

inductive lead :: "lower_table \<Rightarrow> locator_query \<Rightarrow> observed_subtree \<Rightarrow> observed_subtree \<Rightarrow> bool" for lc q where
  lead_here: "verdict_sem lc q t = VMatch \<Longrightarrow> lead lc q t t"
| lead_below: "verdict_sem lc q t = VNoMatch \<Longrightarrow> sub_children t = xs @ c # ys \<Longrightarrow>
    list_all (settled lc q) xs \<Longrightarrow> predecessors_complete (sub_completeness c) \<Longrightarrow> lead lc q c s \<Longrightarrow>
    lead lc q t s"

lemma settled_iff:
  "settled lc q t \<longleftrightarrow>
     whole t \<and> predecessors_complete (sub_completeness t) \<and> verdict_sem lc q t = VNoMatch \<and>
     list_all (settled lc q) (sub_children t)"
  by (cases t) (auto simp: settled_def list_all_iff)

lemma settled_seen: "settled lc q t \<Longrightarrow> predecessors_complete (sub_completeness t)"
  by (simp add: settled_iff[of lc q t])

lemma preorder_eq: "preorder t = t # forest (sub_children t)"
  by (cases t) simp

lemma settled_grown: "settled lc q t \<Longrightarrow> grown t u \<Longrightarrow> list_all (\<lambda>s. verdict_sem lc q s = VNoMatch) (preorder u)"
proof (induction t arbitrary: u rule: measure_induct_rule[where f = size])
  case (less t)
  have "list_all2 grown (sub_children t) (sub_children u)"
    using grown_cases(1)[OF less.prems(2)] less.prems(1) by (simp add: settled_iff[of _ _ t] whole_iff[of t])
  moreover have "list_all (settled lc q) (sub_children t)" using less.prems(1) by (simp add: settled_iff[of _ _ t])
  ultimately have "list_all (\<lambda>s. verdict_sem lc q s = VNoMatch) (forest (sub_children u))"
    using less.IH[OF sub_child_size]
    by (fastforce simp: list_all_iff list_all2_conv_all_nth in_set_conv_nth)
  then show ?case
    using grown_stays[OF less.prems(2), of lc q] less.prems(1)
    by (simp add: preorder_eq[of u] settled_iff[of _ _ t])
qed

lemma inserts_prefix:
  "inserts P (xs @ c # ys) ds \<Longrightarrow> list_all (\<lambda>x. predecessors_complete (sub_completeness x)) (xs @ [c]) \<Longrightarrow>
     \<exists>as d bs. ds = as @ d # bs \<and> list_all2 P xs as \<and> P c d"
proof (induction xs arbitrary: ds)
  case Nil
  from Nil.prems show ?case by (auto elim: inserts.cases)
next
  case (Cons x xs)
  from Cons.prems obtain e es where e: "ds = e # es" "P x e" "inserts P (xs @ c # ys) es"
    by (auto elim: inserts.cases)
  obtain as d bs where "es = as @ d # bs" "list_all2 P xs as" "P c d"
    using Cons.IH[OF e(3)] Cons.prems(2) by auto
  then have "ds = (e # as) @ d # bs \<and> list_all2 P (x # xs) (e # as) \<and> P c d" using e(1,2) by simp
  then show ?case by blast
qed

lemma all2_prefix:
  "list_all2 P (xs @ c # ys) ds \<Longrightarrow> \<exists>as d bs. ds = as @ d # bs \<and> list_all2 P xs as \<and> P c d"
  by (auto simp: list_all2_append1 list_all2_Cons1)

text \<open>Settled siblings first, then the way to the match: in every fuller list, too.\<close>

lemma lead_siblings:
  assumes grown: "list_all2 grown (xs @ c # ys) ds \<or> inserts grown (xs @ c # ys) ds"
    and settled: "list_all (settled lc q) xs" and seen: "predecessors_complete (sub_completeness c)"
    and below: "\<And>d. grown c d \<Longrightarrow> \<exists>us v vs. preorder d = us @ v # vs \<and>
      list_all (\<lambda>s. verdict_sem lc q s = VNoMatch) us \<and> verdict_sem lc q v = VMatch \<and> grown s v"
  shows "\<exists>us v vs. forest ds = us @ v # vs \<and> list_all (\<lambda>s. verdict_sem lc q s = VNoMatch) us \<and>
    verdict_sem lc q v = VMatch \<and> grown s v"
proof -
  have "list_all (\<lambda>x. predecessors_complete (sub_completeness x)) (xs @ [c])"
    using settled seen settled_seen by (auto simp: list_all_iff)
  then have "\<exists>as d bs. ds = as @ d # bs \<and> list_all2 grown xs as \<and> grown c d"
    using grown all2_prefix[of grown xs c ys ds] inserts_prefix[of grown xs c ys ds] by blast
  then obtain as d bs where d: "ds = as @ d # bs" "list_all2 grown xs as" "grown c d"
    by blast
  obtain us v vs where v: "preorder d = us @ v # vs" "list_all (\<lambda>s. verdict_sem lc q s = VNoMatch) us"
    "verdict_sem lc q v = VMatch" "grown s v"
    using below[OF d(3)] by blast
  have "list_all (\<lambda>s. verdict_sem lc q s = VNoMatch) (forest as)"
    using d(2) settled settled_grown
    by (fastforce simp: list_all_iff list_all2_conv_all_nth in_set_conv_nth)
  then have "list_all (\<lambda>s. verdict_sem lc q s = VNoMatch) (forest as @ us)" using v(2) by simp
  moreover have "forest ds = (forest as @ us) @ v # (vs @ forest bs)" by (simp add: d(1) v(1))
  ultimately show ?thesis using v(3,4) by blast
qed

lemma lead_grown:
  "lead lc q t s \<Longrightarrow> grown t u \<Longrightarrow>
     \<exists>us v vs. preorder u = us @ v # vs \<and> list_all (\<lambda>s. verdict_sem lc q s = VNoMatch) us \<and>
       verdict_sem lc q v = VMatch \<and> grown s v"
proof (induction arbitrary: u rule: lead.induct)
  case (lead_here t)
  have "verdict_sem lc q u = VMatch" using grown_stays[OF lead_here(2)] lead_here(1) by simp
  then have "preorder u = [] @ u # forest (sub_children u) \<and>
      list_all (\<lambda>s. verdict_sem lc q s = VNoMatch) [] \<and> verdict_sem lc q u = VMatch \<and> grown t u"
    using lead_here(2) by (simp add: preorder_eq[of u])
  then show ?case by blast
next
  case (lead_below t xs c ys s)
  obtain us v vs where v: "forest (sub_children u) = us @ v # vs" "list_all (\<lambda>s. verdict_sem lc q s = VNoMatch) us"
    "verdict_sem lc q v = VMatch" "grown s v"
    using lead_siblings[OF _ lead_below(3,4) lead_below.IH, of ys "sub_children u"] grown_cases(2)[OF lead_below.prems]
    unfolding lead_below(2) by blast
  have "verdict_sem lc q u = VNoMatch" using grown_stays[OF lead_below.prems, of lc q] lead_below(1) by simp
  then have "preorder u = (u # us) @ v # vs \<and> list_all (\<lambda>s. verdict_sem lc q s = VNoMatch) (u # us)"
    using v(1,2) by (simp add: preorder_eq[of u])
  then show ?case using v(3,4) by blast
qed

section \<open>What the checks of the code establish\<close>

text \<open>The verdicts of the matrix, wherever a subtree is located.\<close>

definition verdicts_at :: "lower_table \<Rightarrow> locator_query \<Rightarrow> observed_node list \<Rightarrow> verdict list \<Rightarrow> bool" where
  "verdicts_at lc q nodes vs \<longleftrightarrow>
     length vs = length nodes \<and> (\<forall>i t. located nodes i t \<longrightarrow> vs ! i = verdict_sem lc q t)"

lemma verdicts_at_root:
  assumes "compile_clauses q [] = (k, cls)"
  shows "verdicts_at lc q (ot_nodes tree) (root_verdicts tree cls k (evaluated_buffers lc tree cls))"
proof -
  have cls: "clauses_ok cls" "k < length cls" "cc_query (cls ! k) = q"
    using compile_clauses_spec[OF assms] by (simp_all add: clauses_ok_def)
  show ?thesis
    using evaluated_buffers_ok[OF cls(1), of lc tree] cls(2,3) located_bound
    by (auto simp: verdicts_at_def root_verdicts_def cells_ok_def)
qed

lemma starts_gap:
  "j < k \<Longrightarrow> k < length cs \<Longrightarrow> starts n cs ! j + length (preorder (cs ! j)) \<le> starts n cs ! k"
proof (induction cs arbitrary: n j k)
  case (Cons c cs)
  show ?case
  proof (cases j)
    case 0
    have "starts (n + length (preorder c)) cs ! (k - 1) \<in> set (starts (n + length (preorder c)) cs)"
      using Cons.prems by (intro nth_mem) auto
    then have "n + length (preorder c) \<le> starts (n + length (preorder c)) cs ! (k - 1)"
      by (rule starts_after)
    then show ?thesis using 0 Cons.prems by (simp add: nth_Cons')
  next
    case (Suc i)
    have "starts (n + length (preorder c)) cs ! i + length (preorder (cs ! i)) \<le>
        starts (n + length (preorder c)) cs ! (k - 1)"
      using Cons.prems Suc by (intro Cons.IH) auto
    then show ?thesis using Suc Cons.prems by (simp add: nth_Cons')
  qed
qed simp

lemma position_of_nth: "position_of x xs = Some k \<Longrightarrow> k < length xs \<and> xs ! k = x"
  by (rule position_of_Some)

lemma starts_end: "k < length cs \<Longrightarrow> starts n cs ! k + length (preorder (cs ! k)) \<le> n + length (forest cs)"
proof (induction cs arbitrary: n k)
  case (Cons c cs)
  show ?case
  proof (cases k)
    case (Suc j)
    have "starts (n + length (preorder c)) cs ! j + length (preorder (cs ! j)) \<le>
        n + length (preorder c) + length (forest cs)"
      using Cons.prems Suc by (intro Cons.IH) auto
    then show ?thesis using Suc by simp
  qed simp
qed simp

text \<open>No match before \<open>b\<close> turns an authoritative subtree that ends before \<open>b\<close> into a settled one.\<close>

lemma authoritative_settled:
  assumes vs: "verdicts_at lc q (ot_nodes tree) vs"
  shows "subtree_is_authoritative fuel tree vs i = Some True \<Longrightarrow> located (ot_nodes tree) i t \<Longrightarrow>
    (\<And>j. j < i + length (preorder t) \<Longrightarrow> vs ! j \<noteq> VMatch) \<Longrightarrow> settled lc q t"
proof (induction t arbitrary: i fuel rule: measure_induct_rule[where f = size])
  case (less t)
  obtain ev cs cpl n si where t: "t = Subtree ev cs cpl n si" by (cases t)
  note at = located_Subtree[OF less.prems(2)[unfolded t]]
  obtain f where f: "fuel = Suc f" using less.prems(1) by (cases fuel) auto
  have checks: "subtree_complete (on_completeness (ot_nodes tree ! i))"
    "predecessors_complete (on_completeness (ot_nodes tree ! i))" "list_get vs i \<noteq> Some VUnknown"
    "list_all (\<lambda>c. subtree_is_authoritative f tree vs c = Some True) (starts (Suc i) cs)"
    using less.prems(1) at(1,3) by (auto simp: f list_get_def split: if_splits)
  have v: "vs ! i = verdict_sem lc q t" "length vs = length (ot_nodes tree)"
    using vs less.prems(2) by (auto simp: verdicts_at_def)
  then have "verdict_sem lc q t \<noteq> VUnknown" "verdict_sem lc q t \<noteq> VMatch"
    using checks(3) at(1) less.prems(3)[of i] by (auto simp: list_get_def t)
  then have "verdict_sem lc q t = VNoMatch" by (cases "verdict_sem lc q t") auto
  moreover have "settled lc q (cs ! k)" if k: "k < length cs" for k
  proof (rule less.IH)
    show "size (cs ! k) < size t" using sub_child_size[of "cs ! k" t] k by (simp add: t)
    show "subtree_is_authoritative f tree vs (starts (Suc i) cs ! k) = Some True"
      using checks(4) k by (simp add: list_all_length)
    show "located (ot_nodes tree) (starts (Suc i) cs ! k) (cs ! k)"
      using at(7) k by (simp add: list_all2_conv_all_nth)
    fix j assume "j < starts (Suc i) cs ! k + length (preorder (cs ! k))"
    then have "j < i + length (preorder t)"
      using starts_end[OF k, of "Suc i"] by (simp add: t)
    then show "vs ! j \<noteq> VMatch" by (rule less.prems(3))
  qed
  ultimately show ?case
    unfolding settled_iff[of lc q t] using checks(1,2) at(5) by (simp add: t list_all_length)
qed

lemma earlier_settled:
  assumes vs: "verdicts_at lc q (ot_nodes tree) vs"
    and early: "earlier_authoritative tree vs (starts n cs) k = Some True" and k: "k < length cs"
    and at: "list_all2 (located (ot_nodes tree)) (starts n cs) cs"
    and none: "\<And>j. j < starts n cs ! k \<Longrightarrow> vs ! j \<noteq> VMatch"
  shows "list_all (settled lc q) (take k cs)"
proof -
  have "settled lc q (cs ! j)" if j: "j < k" for j
  proof (rule authoritative_settled[OF vs])
    show "subtree_is_authoritative (Suc (length (ot_nodes tree))) tree vs (starts n cs ! j) = Some True"
      using early j k by (simp add: earlier_authoritative_def list_all_length del: subtree_is_authoritative.simps)
    show "located (ot_nodes tree) (starts n cs ! j) (cs ! j)"
      using at j k by (simp add: list_all2_conv_all_nth)
    show "vs ! i \<noteq> VMatch" if "i < starts n cs ! j + length (preorder (cs ! j))" for i
      using none starts_gap[OF j k, of n] that by simp
  qed
  then show ?thesis using k by (simp add: list_all_length)
qed

lemma chain_step:
  "chain_is_authoritative tree vs (a # b # rest) = Some True \<longleftrightarrow>
     list_get vs a \<noteq> Some VUnknown \<and>
     (\<exists>n order. list_get (ot_nodes tree) a = Some n \<and>
        is_some_and (list_get (ot_nodes tree) b) (\<lambda>c. predecessors_complete (on_completeness c)) \<and>
        position_of b (on_children n) = Some order \<and>
        earlier_authoritative tree vs (on_children n) order = Some True \<and>
        chain_is_authoritative tree vs (b # rest) = Some True)"
  by (auto split: option.splits if_splits bool.splits)

lemma chain_ascends:
  assumes "forward (ot_nodes tree)"
  shows "chain_is_authoritative tree vs (a # rest) = Some True \<Longrightarrow> a \<le> last (a # rest)"
proof (induction rest arbitrary: a)
  case (Cons b rest)
  then obtain n k where "list_get (ot_nodes tree) a = Some n" "position_of b (on_children n) = Some k"
    "b \<le> last (b # rest)"
    unfolding chain_step by blast
  moreover from this have "a < length (ot_nodes tree)" "b \<in> set (on_children (ot_nodes tree ! a))"
    using position_of_Some[of b "on_children n" k] nth_mem by (auto simp: list_get_def split: if_splits)
  then have "a < b" using assms unfolding forward_def by blast
  ultimately show ?case by simp
qed simp

lemma located_seen:
  assumes "located nodes i t" "is_some_and (list_get nodes i) (\<lambda>n. predecessors_complete (on_completeness n))"
  shows "predecessors_complete (sub_completeness t)"
proof -
  obtain ev cs cpl n si where t: "t = Subtree ev cs cpl n si" by (cases t)
  show ?thesis
    using assms(2) located_Subtree(1,5)[OF assms(1)[unfolded t]] by (simp add: list_get_def t)
qed

lemma chain_leads:
  assumes vs: "verdicts_at lc q (ot_nodes tree) vs" and fwd: "forward (ot_nodes tree)"
  shows "chain_is_authoritative tree vs (a # rest) = Some True \<Longrightarrow> located (ot_nodes tree) a t \<Longrightarrow>
    vs ! last (a # rest) = VMatch \<Longrightarrow> (\<And>j. j < last (a # rest) \<Longrightarrow> vs ! j \<noteq> VMatch) \<Longrightarrow>
    \<exists>s. lead lc q t s \<and> located (ot_nodes tree) (last (a # rest)) s"
proof (induction rest arbitrary: a t)
  case Nil
  have "verdict_sem lc q t = VMatch" using vs Nil.prems(2,3) by (auto simp: verdicts_at_def)
  then show ?case using Nil.prems(2) by (auto intro: lead_here)
next
  case (Cons b rest)
  obtain ev cs cpl m si where t: "t = Subtree ev cs cpl m si" by (cases t)
  note at = located_Subtree[OF Cons.prems(2)[unfolded t]]
  obtain k where chain: "list_get vs a \<noteq> Some VUnknown"
    "is_some_and (list_get (ot_nodes tree) b) (\<lambda>c. predecessors_complete (on_completeness c))"
    "position_of b (starts (Suc a) cs) = Some k"
    "earlier_authoritative tree vs (starts (Suc a) cs) k = Some True"
    "chain_is_authoritative tree vs (b # rest) = Some True"
    using Cons.prems(1) at(1,3) unfolding chain_step by (auto simp: list_get_def)
  have k: "k < length cs" "starts (Suc a) cs ! k = b" using position_of_Some[OF chain(3)] by simp_all
  have loc: "located (ot_nodes tree) b (cs ! k)" using at(7) k by (auto simp: list_all2_conv_all_nth)
  have bound: "a < b" "b \<le> last (b # rest)"
    using chain_ascends[OF fwd chain(5)] starts_after[of b "Suc a" cs] nth_mem[of k "starts (Suc a) cs"] k by auto
  obtain s where s: "lead lc q (cs ! k) s" "located (ot_nodes tree) (last (b # rest)) s"
    using Cons.IH[OF chain(5) loc] Cons.prems(3,4) by auto
  have early: "list_all (settled lc q) (take k cs)"
    using Cons.prems(4) bound k by (intro earlier_settled[OF vs chain(4) k(1) at(7)]) auto
  have v: "vs ! a = verdict_sem lc q t" "length vs = length (ot_nodes tree)"
    using vs Cons.prems(2) by (auto simp: verdicts_at_def)
  then have "verdict_sem lc q t \<noteq> VUnknown" "verdict_sem lc q t \<noteq> VMatch"
    using chain(1) at(1) Cons.prems(4)[of a] bound by (auto simp: list_get_def)
  then have no: "verdict_sem lc q t = VNoMatch" by (cases "verdict_sem lc q t") auto
  have split: "sub_children t = take k cs @ cs ! k # drop (Suc k) cs"
    using k(1) by (simp add: t id_take_nth_drop)
  have seen: "predecessors_complete (sub_completeness (cs ! k))"
    by (rule located_seen[OF loc chain(2)])
  have "lead lc q t s" by (rule lead_below[OF no split early seen s(1)])
  then show ?case using s(2) by auto
qed

lemma ancestors_end:
  assumes "forward nodes" "ancestors (parents_of nodes) (Some i) [] = Some xs"
  shows "xs \<noteq> [] \<and> last xs = i"
  using assms(2) ancestors_return[OF assms(1), of "parent_of (parents_of nodes) i" "[i]"]
  by (auto simp: ancestors.simps[of _ "Some i"])

lemma first_leads:
  assumes vs: "verdicts_at lc q (ot_nodes tree) vs" and fwd: "forward (ot_nodes tree)"
    and roots: "ot_roots tree = starts 0 rs" "ot_nodes tree = flat_roots 0 rs"
    and first: "first_is_authoritative tree target (parents_of (ot_nodes tree)) vs = Some True"
    and none: "\<And>j. j < target \<Longrightarrow> vs ! j \<noteq> VMatch"
  shows "\<exists>xs c ys s. rs = xs @ c # ys \<and> list_all (settled lc q) xs \<and>
    predecessors_complete (sub_completeness c) \<and> lead lc q c s \<and> located (ot_nodes tree) target s"
proof -
  obtain apex rest k where w: "ancestors (parents_of (ot_nodes tree)) (Some target) [] = Some (apex # rest)"
    "is_some_and (list_get (ot_nodes tree) apex) (\<lambda>n. predecessors_complete (on_completeness n))"
    "position_of apex (starts 0 rs) = Some k"
    "earlier_authoritative tree vs (starts 0 rs) k = Some True"
    "chain_is_authoritative tree vs (apex # rest) = Some True" "list_get vs target = Some VMatch"
    using first roots(1)
    by (auto simp: first_is_authoritative_def split: option.splits list.splits if_splits bool.splits)
  have last: "last (apex # rest) = target" using ancestors_end[OF fwd w(1)] by simp
  have at: "list_all2 (located (ot_nodes tree)) (starts 0 rs) rs"
    using located_roots[of "ot_nodes tree" "[]" 0 rs "[]"] roots(2) by simp
  have k: "k < length rs" "starts 0 rs ! k = apex" using position_of_Some[OF w(3)] by simp_all
  have loc: "located (ot_nodes tree) apex (rs ! k)" using at k by (auto simp: list_all2_conv_all_nth)
  have le: "apex \<le> target" using chain_ascends[OF fwd w(5)] by (simp only: last)
  have m: "vs ! target = VMatch" using w(6) by (auto simp: list_get_def split: if_splits)
  obtain s where s: "lead lc q (rs ! k) s" "located (ot_nodes tree) target s"
    using chain_leads[OF vs fwd w(5) loc] none m unfolding last by blast
  have "list_all (settled lc q) (take k rs)"
    using none le k by (intro earlier_settled[OF vs w(4) k(1) at]) auto
  moreover have "rs = take k rs @ rs ! k # drop (Suc k) rs" using k(1) by (simp add: id_take_nth_drop)
  moreover have "predecessors_complete (sub_completeness (rs ! k))"
    by (rule located_seen[OF loc w(2)])
  ultimately show ?thesis using s by blast
qed

section \<open>The checks do not see the refs\<close>

definition same_shape :: "observed_node list \<Rightarrow> observed_node list \<Rightarrow> bool" where
  "same_shape nodes' nodes \<longleftrightarrow>
     list_all2 (\<lambda>n' n. on_completeness n' = on_completeness n \<and> on_children n' = on_children n) nodes' nodes"

lemma without_refs_shape: "without_refs nodes' = without_refs nodes \<Longrightarrow> same_shape nodes' nodes"
  using without_refs_fields(1,2,4)[of nodes' nodes]
  unfolding same_shape_def list_all2_conv_all_nth by (metis leD)

lemma same_shape_length: "same_shape nodes' nodes \<Longrightarrow> length nodes' = length nodes"
  by (auto simp: same_shape_def dest: list_all2_lengthD)

lemma same_shape_at:
  assumes "same_shape nodes' nodes"
  obtains "list_get nodes' i = None" "list_get nodes i = None"
  | n' n where "list_get nodes' i = Some n'" "list_get nodes i = Some n"
      "on_completeness n' = on_completeness n" "on_children n' = on_children n"
  using assms by (cases "i < length nodes") (auto simp: same_shape_def list_all2_conv_all_nth list_get_def)

lemma same_shape_seen:
  "same_shape nodes' nodes \<Longrightarrow>
     is_some_and (list_get nodes' i) (\<lambda>n. predecessors_complete (on_completeness n)) =
     is_some_and (list_get nodes i) (\<lambda>n. predecessors_complete (on_completeness n))"
  by (erule same_shape_at[of _ _ i]) simp_all

lemma subtree_authoritative_shape:
  assumes "same_shape (ot_nodes tree') (ot_nodes tree)"
  shows "subtree_is_authoritative fuel tree' vs i = subtree_is_authoritative fuel tree vs i"
proof (induction fuel arbitrary: i)
  case (Suc fuel)
  have same: "subtree_is_authoritative fuel tree' vs = subtree_is_authoritative fuel tree vs"
    using Suc by (intro ext)
  show ?case by (rule same_shape_at[OF assms, of i]) (simp_all add: same)
qed simp

lemma earlier_shape:
  assumes "same_shape (ot_nodes tree') (ot_nodes tree)"
  shows "earlier_authoritative tree' vs xs k = earlier_authoritative tree vs xs k"
proof -
  have "subtree_is_authoritative fuel tree' vs = subtree_is_authoritative fuel tree vs" for fuel
    by (intro ext subtree_authoritative_shape[OF assms])
  then show ?thesis
    by (simp add: earlier_authoritative_def same_shape_length[OF assms] del: subtree_is_authoritative.simps)
qed

lemma chain_shape:
  assumes "same_shape (ot_nodes tree') (ot_nodes tree)"
  shows "chain_is_authoritative tree' vs (a # rest) = chain_is_authoritative tree vs (a # rest)"
proof (induction rest arbitrary: a)
  case (Cons b rest)
  show ?case
    by (rule same_shape_at[OF assms, of a])
      (simp_all add: Cons same_shape_seen[OF assms] earlier_shape[OF assms] cong: option.case_cong bool.case_cong)
qed simp

lemma first_shape:
  assumes "same_shape (ot_nodes tree') (ot_nodes tree)" "ot_roots tree' = ot_roots tree"
  shows "first_is_authoritative tree' target ps vs = first_is_authoritative tree target ps vs"
  unfolding first_is_authoritative_def assms(2) same_shape_seen[OF assms(1)] earlier_shape[OF assms(1)]
    chain_shape[OF assms(1)] by (rule refl)

section \<open>The first match is final\<close>

lemma first_result:
  assumes tree: "from_roots rs src stats w = Inr tree"
    and result: "evaluate_locator_tree lc fx tree query request = Some (Inr r)"
    and first: "rq_selection request = First" "meta_selection_complete (lr_meta r)"
      "\<not> meta_complete (lr_meta r)"
    and cls: "compile_clauses (normalize_query lc query) [] = (k, cls)"
  defines "vs \<equiv> root_verdicts tree cls k (evaluated_buffers lc tree cls)"
  obtains m where "lr_matches r = [m]" "\<And>j. j < lm_document_order m \<Longrightarrow> vs ! j \<noteq> VMatch"
    "first_is_authoritative tree (lm_document_order m) (parents_of (ot_nodes tree)) vs = Some True"
proof -
  obtain tree' mm b where mat: "materialize_for fx tree (normalize_query lc query) (rq_materialization request)
       (fst (selected_indices (matched_indices vs) (rq_selection request))) = Inr ((mm, b), tree')"
    and con: "conclude_evaluation fx tree' (parents_of (ot_nodes tree)) (normalize_query lc query)
       (rq_selection request) vs
       (update_evaluation (\<lambda>e. e\<lparr>matched_nodes := length (matched_indices vs)\<rparr>)
          (bf_stats (evaluated_buffers lc tree cls))) mm b = Some (Inr r)"
    unfolding vs_def by (rule evaluate_Inr[OF result cls])
  note keep = materialize_for_keeps[OF mat] and res = conclude_Inr[OF con]
  have sel: "(case lr_matches r of [] \<Rightarrow> Some False
      | m # _ \<Rightarrow> first_is_authoritative tree' (lm_document_order m) (parents_of (ot_nodes tree)) vs) = Some True"
    using res(4) first by (simp add: selection_is_complete_def)
  then obtain m ms where ms: "lr_matches r = m # ms" by (auto split: list.splits)
  have collected: "map (\<lambda>m. (lm_document_order m, lm_entry m)) (m # ms) =
     map (\<lambda>i. (on_document_order (ot_nodes tree' ! i),
              locator_ref_entry fx (ot_nodes tree' ! i) (ot_source tree') (normalize_query lc query)))
       (fst (selected_indices (matched_indices vs) First)) \<and>
     (\<forall>i \<in> set (fst (selected_indices (matched_indices vs) First)). i < length (ot_nodes tree'))"
    using collect_matches_Inr[OF res(3)] by (simp add: ms first(1))
  obtain i js where i: "matched_indices vs = i # js"
    using collected by (cases "matched_indices vs") (auto simp: take_matches_def)
  have one: "fst (selected_indices (matched_indices vs) First) = [i]" by (simp add: i take_matches_def)
  have lt: "i < length (ot_nodes tree)"
    using collected[unfolded one] without_refs_fields(1)[OF keep(1)] by simp
  have nodes: "ot_nodes tree = flat_roots 0 rs" using tree by (simp add: from_roots_exact)
  have order: "lm_document_order m = i"
    using collected[unfolded one] without_refs_fields(3)[OF keep(1) lt] located_forest[OF nodes, of i] lt
    by (cases "forest rs ! i") (auto simp: nodes dest: located_Subtree(4))
  have "vs ! j \<noteq> VMatch" if "j < i" for j
  proof
    assume m: "vs ! j = VMatch"
    have len: "length vs = length (ot_nodes tree)" by (simp add: vs_def root_verdicts_def)
    have "sorted (matched_indices vs)" unfolding matched_indices_def by (intro sorted_wrt_filter sorted_upt)
    moreover have "j \<in> set (matched_indices vs)" using m that lt len by (simp add: matched_indices_def)
    ultimately show False using that by (auto simp: i)
  qed
  moreover have "first_is_authoritative tree i (parents_of (ot_nodes tree)) vs = Some True"
    using sel first_shape[OF without_refs_shape[OF keep(1)] keep(4)] by (simp add: ms order)
  moreover have "lr_matches r = [m]" using collected[unfolded one] by (simp add: ms)
  ultimately show ?thesis using that order by simp
qed

text \<open>
  C5.  A first match reported as settled although the observation is incomplete is final: in every
  fuller observation of the same place, in which incomplete nodes may have gained children anywhere
  but before a child known to have no unseen predecessor, the nodes before it in document order
  still do not match, and the node that takes its place still matches and agrees with all that was
  known of it.
\<close>

theorem first_match_is_final:
  assumes "from_roots rs src stats w = Inr tree"
    and "evaluate_locator_tree lc fx tree query request = Some (Inr r)"
    and "rq_selection request = First" "meta_selection_complete (lr_meta r)" "\<not> meta_complete (lr_meta r)"
    and "list_all2 grown rs us \<or> inserts grown rs us"
  shows "\<exists>m before v after. lr_matches r = [m] \<and> forest us = before @ v # after \<and>
    list_all (\<lambda>u. verdict_sem lc (normalize_query lc query) u = VNoMatch) before \<and>
    verdict_sem lc (normalize_query lc query) v = VMatch \<and>
    sharper_evidence (on_evidence (ot_nodes tree ! lm_document_order m)) (sub_evidence v)"
proof -
  let ?q = "normalize_query lc query"
  obtain k cls where cls: "compile_clauses ?q [] = (k, cls)" by fastforce
  let ?vs = "root_verdicts tree cls k (evaluated_buffers lc tree cls)"
  obtain m where m: "lr_matches r = [m]" "\<And>j. j < lm_document_order m \<Longrightarrow> ?vs ! j \<noteq> VMatch"
    "first_is_authoritative tree (lm_document_order m) (parents_of (ot_nodes tree)) ?vs = Some True"
    using first_result[OF assms(1-5) cls] by blast
  have shape: "ot_roots tree = starts 0 rs" "ot_nodes tree = flat_roots 0 rs"
    using assms(1) by (simp_all add: from_roots_exact)
  obtain xs c ys s where lead: "rs = xs @ c # ys" "list_all (settled lc ?q) xs"
    "predecessors_complete (sub_completeness c)" "lead lc ?q c s" "located (ot_nodes tree) (lm_document_order m) s"
    using first_leads[OF verdicts_at_root[OF cls] forward_flat[OF assms(1)] shape m(3,2)] by blast
  obtain before v after where v: "forest us = before @ v # after"
    "list_all (\<lambda>u. verdict_sem lc ?q u = VNoMatch) before" "verdict_sem lc ?q v = VMatch" "grown s v"
    using lead_siblings[OF assms(6)[unfolded lead(1)] lead(2,3) lead_grown[OF lead(4)]] by blast
  have "sharper_evidence (on_evidence (ot_nodes tree ! lm_document_order m)) (sub_evidence v)"
    using v(4) located_Subtree(2) lead(5) by (cases s) (auto elim: grown.cases)
  then show ?thesis using m(1) v(1-3) by blast
qed

text \<open>The same group, read again with a second button after the first.\<close>

definition sample_grown :: observed_subtree where
  "sample_grown =
     new_subtree (sample_field_evidence ''group'' ''dialog'' []) [sample_button, sample_button] False None"

theorem first_match_is_final_witness:
  "\<exists>r m before v after.
     evaluate_locator_tree (\<lambda>c. [c]) sum_hash (sample_observed False) sample_query (sample_request First) =
       Some (Inr r) \<and> \<not> meta_complete (lr_meta r) \<and> lr_matches r = [m] \<and>
     forest [sample_grown] = before @ v # after \<and>
     verdict_sem (\<lambda>c. [c]) (normalize_query (\<lambda>c. [c]) sample_query) v = VMatch"
proof -
  obtain r m where r: "evaluate_locator_tree (\<lambda>c. [c]) sum_hash (sample_observed False) sample_query
      (sample_request First) = Some (Inr r)"
    "\<not> meta_complete (lr_meta r)" "meta_selection_complete (lr_meta r)"
    using sample_conclusion[of First "\<lambda>c. [c]" sum_hash False] by (auto simp: take_matches_def)
  have same: "sharper_evidence (sample_field_evidence r n ids) (sample_field_evidence r n ids)" for r n ids
    by (simp add: sharper_evidence_def field_le_def evidence_le_def)
  have button: "grown sample_button sample_button"
    unfolding sample_button_def new_subtree_def by (intro grown_complete same) (simp_all add: new_completeness_def)
  have ins: "inserts grown [] [sample_button]" by (rule inserts_nil)
  have "inserts grown [sample_button] [sample_button, sample_button]"
    by (rule inserts_keep[OF button ins])
  then have "grown (sample_group False) sample_grown"
    unfolding sample_group_def sample_grown_def new_subtree_def
    by (intro grown_partial same) (simp_all add: new_completeness_def)
  then have "list_all2 grown [sample_group False] [sample_grown] \<or> inserts grown [sample_group False] [sample_grown]"
    by simp
  then show ?thesis
    using first_match_is_final[OF sample_from_roots r(1) _ r(3,2), of "[sample_grown]"] r(1,2)
    by (auto simp: sample_request_fields)
qed

end
