(* ===== verification/Waiting.thy ===== *)
theory Waiting
  imports RefActionTime
begin

text \<open>
  The shape of a waiting loop: look, and either finish or pause and look again.  \<open>moves\<close> says of a
  round that one which continues started before the bound and took time, \<open>progress\<close> that one which
  started before the bound took time; both go through the constructs of the code, so that a loop
  returns by the syntax of its body (\<open>terminates_waiting\<close>).
\<close>

section \<open>Pausing\<close>

text \<open>Sleep, but not past the deadline.\<close>

definition sleep_left :: "'w platform \<Rightarrow> deadline \<Rightarrow> nat \<Rightarrow> ('w, 'e, unit) act" where
  "sleep_left pf d n = abind (get_now pf) (\<lambda>t. sleep_for pf (min (remaining t d) n))"

text \<open>Sleep and go on, unless no time is left.\<close>

definition pause_or ::
  "'w platform \<Rightarrow> deadline \<Rightarrow> nat \<Rightarrow> ('w, 'e, ('s, 'a) flow) act \<Rightarrow> 's \<Rightarrow> ('w, 'e, ('s, 'a) flow) act" where
  "pause_or pf d n on_timeout s =
     abind (get_now pf) (\<lambda>t.
       if remaining t d = 0 then on_timeout
       else abind (sleep_for pf (min (remaining t d) n)) (\<lambda>_. ret (Continue s)))"

section \<open>Reading the clock\<close>

lemma get_now_Some: "get_now pf w = Some (Inr t, w') \<longleftrightarrow> pf_now pf w = (t, w')"
  by (cases "pf_now pf w") (auto simp: get_now_def)

lemma not_expired_Some:
  "check_expired pf d w = Some (Inr False, w') \<Longrightarrow> \<exists>t. pf_now pf w = (t, w') \<and> t < expires_at d"
  by (auto simp: check_expired_def get_now_Some is_expired_iff elim!: abind_InrE)

lemma check_expired_Some:
  "check_expired pf d w = Some (Inr x, w') \<Longrightarrow> \<exists>t. pf_now pf w = (t, w') \<and> (x \<longleftrightarrow> expires_at d \<le> t)"
  by (auto simp: check_expired_def get_now_Some is_expired_iff elim!: abind_InrE)

section \<open>Holding a lease\<close>

text \<open>The lease is returned when the function ends, with or without an error.\<close>

definition with_lease :: "'w platform \<Rightarrow> lease \<Rightarrow> ('w, 'e, 'a) act \<Rightarrow> ('w, 'e, 'a) act" where
  "with_lease pf l m =
     abind (attempt m) (\<lambda>r. abind (effect (pf_drop_lease pf l)) (\<lambda>_. lift_res r))"

lemma terminates_with_lease [terminating]:
  "timed tm pf \<Longrightarrow> terminates tm m \<Longrightarrow> terminates tm (with_lease pf l m)"
  unfolding with_lease_def by (intro terminating)

section \<open>Rounds that move\<close>

named_theorems moving \<open>rounds that continue only by moving towards the bound\<close>

definition moves :: "('w \<Rightarrow> nat) \<Rightarrow> nat \<Rightarrow> ('w, 'e, ('s, 'a) flow) act \<Rightarrow> bool" where
  "moves tm bound m \<longleftrightarrow>
     (\<forall>w s w'. m w = Some (Inr (Continue s), w') \<longrightarrow> tm w < bound \<and> tm w < tm w')"

definition progress :: "('w \<Rightarrow> nat) \<Rightarrow> nat \<Rightarrow> ('w, 'e, ('s, 'a) flow) act \<Rightarrow> bool" where
  "progress tm bound m \<longleftrightarrow>
     terminates tm m \<and> (\<forall>w s w'. m w = Some (Inr (Continue s), w') \<longrightarrow> tm w < bound \<longrightarrow> tm w < tm w')"

lemma terminates_waiting:
  "(\<And>s. terminates tm (body s)) \<Longrightarrow> (\<And>s. moves tm bound (body s)) \<Longrightarrow> terminates tm (loop body s)"
  by (rule terminates_loop [where bound = bound]) (auto simp: moves_def)

lemma moves_final [moving]: "moves tm bound (ret (Done x))" "moves tm bound (fail_with e)"
  by (simp_all add: moves_def)

lemma moves_bind [moving]:
  assumes "terminates tm m" "\<And>x. moves tm bound (f x)"
  shows "moves tm bound (abind m f)"
  unfolding moves_def
proof (intro allI impI)
  fix w s w' assume "abind m f w = Some (Inr (Continue s), w')"
  then obtain x w1 where m: "m w = Some (Inr x, w1)" and f: "f x w1 = Some (Inr (Continue s), w')"
    by (rule abind_InrE)
  have "tm w \<le> tm w1" using runs_mono [OF assms(1) m] .
  with f assms(2) show "tm w < bound \<and> tm w < tm w'" unfolding moves_def by (meson le_less_trans)
qed

lemma moves_if [moving]: "(b \<Longrightarrow> moves tm bound m) \<Longrightarrow> (\<not> b \<Longrightarrow> moves tm bound m') \<Longrightarrow> moves tm bound (if b then m else m')"
  by simp

lemma moves_case [moving]:
  "(\<And>x. moves tm bound (f x)) \<Longrightarrow> (\<And>y. moves tm bound (g y)) \<Longrightarrow> moves tm bound (case r of Inl x \<Rightarrow> f x | Inr y \<Rightarrow> g y)"
  "moves tm bound m \<Longrightarrow> (\<And>y. moves tm bound (g y)) \<Longrightarrow> moves tm bound (case v of None \<Rightarrow> m | Some y \<Rightarrow> g y)"
  "(\<And>x y. moves tm bound (h x y)) \<Longrightarrow> moves tm bound (case p of (x, y) \<Rightarrow> h x y)"
  by (simp_all split: sum.split option.split prod.split)

lemma list_cases [terminating, moving]:
  "terminates tm a \<Longrightarrow> (\<And>x xs. terminates tm (g x xs)) \<Longrightarrow> terminates tm (case xs of [] \<Rightarrow> a | x # xs \<Rightarrow> g x xs)"
  "moves tm bound b \<Longrightarrow> (\<And>x xs. moves tm bound (h x xs)) \<Longrightarrow> moves tm bound (case xs of [] \<Rightarrow> b | x # xs \<Rightarrow> h x xs)"
  by (simp_all split: list.split)

lemma terminates_sleep_left [terminating]: "timed tm pf \<Longrightarrow> terminates tm (sleep_left pf d n)"
  unfolding sleep_left_def by (intro terminating)

lemma terminates_pause_or [terminating]:
  "timed tm pf \<Longrightarrow> terminates tm m \<Longrightarrow> terminates tm (pause_or pf d n m s)"
  unfolding pause_or_def by (intro terminating)

lemma moves_pause_or [moving]:
  assumes "timed tm pf" "0 < n" "moves tm (expires_at d) m"
  shows "moves tm (expires_at d) (pause_or pf d n m s)"
  unfolding moves_def
proof (intro allI impI)
  fix w s' w' assume run: "pause_or pf d n m s w = Some (Inr (Continue s'), w')"
  then obtain t w1 where t: "get_now pf w = Some (Inr t :: 'b + nat, w1)"
    and rest: "(if remaining t d = 0 then m
       else abind (sleep_for pf (min (remaining t d) n)) (\<lambda>_. ret (Continue s))) w1 = Some (Inr (Continue s'), w')"
    unfolding pause_or_def by (rule abind_InrE)
  note b = now_bounds [OF assms(1) t]
  show "tm w < expires_at d \<and> tm w < tm w'"
  proof (cases "remaining t d = 0")
    case True
    then have "tm w1 < expires_at d \<and> tm w1 < tm w'" using rest assms(3) by (auto simp: moves_def)
    then show ?thesis using b by linarith
  next
    case False
    with rest obtain u where "sleep_for pf (min (remaining t d) n) w1 = Some (Inr u :: 'b + unit, w')"
      by (auto elim!: abind_InrE)
    from sleep_bound [OF assms(1) this] False b assms(2) show ?thesis by (auto simp: remaining_def)
  qed
qed

text \<open>A check of the deadline at the top of a round.\<close>

lemma progress_final [moving]: "progress tm bound (ret (Done x))" "progress tm bound (fail_with e)"
  by (simp_all add: progress_def terminating)

lemma progress_bind [moving]:
  assumes m: "terminates tm m" and f: "\<And>x. progress tm bound (f x)"
  shows "progress tm bound (abind m f)"
  unfolding progress_def
proof (intro conjI allI impI)
  have t: "terminates tm (f x)" for x using f by (simp add: progress_def)
  show "terminates tm (abind m f)" using m t by (rule terminates_bind)
  fix w s w' assume run: "abind m f w = Some (Inr (Continue s), w')" and b: "tm w < bound"
  from run obtain x w1 where w1: "m w = Some (Inr x, w1)" and w': "f x w1 = Some (Inr (Continue s), w')"
    by (rule abind_InrE)
  have "tm w \<le> tm w1" "tm w1 \<le> tm w'" using runs_mono [OF m w1] runs_mono [OF t w'] .
  then show "tm w < tm w'"
    using f [of x] w' b unfolding progress_def by (cases "tm w1 < bound") (fastforce, linarith)
qed

lemma progress_if [moving]:
  "(b \<Longrightarrow> progress tm bound m) \<Longrightarrow> (\<not> b \<Longrightarrow> progress tm bound m') \<Longrightarrow> progress tm bound (if b then m else m')"
  by simp

lemma progress_case [moving]:
  "(\<And>x. progress tm bound (f x)) \<Longrightarrow> (\<And>y. progress tm bound (g y)) \<Longrightarrow> progress tm bound (case r of Inl x \<Rightarrow> f x | Inr y \<Rightarrow> g y)"
  "progress tm bound m \<Longrightarrow> (\<And>y. progress tm bound (g y)) \<Longrightarrow> progress tm bound (case v of None \<Rightarrow> m | Some y \<Rightarrow> g y)"
  by (simp_all split: sum.split option.split)

lemma sleep_left_moves:
  assumes "timed tm pf" "0 < n" "(sleep_left pf d n :: ('w, 'e, unit) act) w = Some (Inr u, w')"
    and left: "tm w < expires_at d"
  shows "tm w < tm w'"
proof -
  from assms(3) obtain t w1 where t: "get_now pf w = Some (Inr t :: 'e + nat, w1)"
    and z: "sleep_for pf (min (remaining t d) n) w1 = Some (Inr u :: 'e + unit, w')"
    unfolding sleep_left_def by (rule abind_InrE)
  from now_bounds [OF assms(1) t] sleep_bound [OF assms(1) z] left assms(2)
  show "tm w < tm w'" by (auto simp: remaining_def min_def split: if_splits)
qed

lemma progress_sleep [moving]:
  assumes "timed tm pf" "0 < n"
  shows "progress tm (expires_at d) (abind (sleep_left pf d n) (\<lambda>_. ret (Continue s)))"
  unfolding progress_def
  using sleep_left_moves [OF assms] by (auto intro!: terminating assms elim!: abind_InrE)

lemma moves_check [moving]:
  assumes pf: "timed tm pf" and e: "moves tm (expires_at d) m" and p: "progress tm (expires_at d) m'"
  shows "moves tm (expires_at d) (abind (check_expired pf d) (\<lambda>expired. if expired then m else m'))"
  unfolding moves_def
proof (intro allI impI)
  fix w s w'
  assume "abind (check_expired pf d) (\<lambda>expired. if expired then m else m') w = Some (Inr (Continue s), w')"
  then obtain x w1 where c: "check_expired pf d w = Some (Inr x :: 'b + bool, w1)"
    and rest: "(if x then m else m') w1 = Some (Inr (Continue s), w')" by (rule abind_InrE)
  from c obtain t where t: "get_now pf w = Some (Inr t :: 'b + nat, w1)" and x: "x \<longleftrightarrow> is_expired t d"
    unfolding check_expired_def by (auto elim!: abind_InrE)
  note b = now_bounds [OF pf t]
  show "tm w < expires_at d \<and> tm w < tm w'"
  proof (cases x)
    case True
    then have "tm w1 < expires_at d \<and> tm w1 < tm w'" using rest e by (auto simp: moves_def)
    then show ?thesis using b by linarith
  next
    case False
    then have w': "m' w1 = Some (Inr (Continue s), w')" using rest by simp
    have "tm w < expires_at d" using False x b by (simp add: is_expired_iff)
    moreover have "tm w1 \<le> tm w'" using p w' runs_mono [of tm m'] by (auto simp: progress_def)
    ultimately show ?thesis
      using p w' b unfolding progress_def by (cases "tm w1 < expires_at d") (fastforce, linarith)
  qed
qed

end
