(* ===== verification/LocatorObserve.thy ===== *)
theory LocatorObserve
  imports LocatorResult Waiting
begin

text \<open>
  Reading an application (\<open>renderer_accessibility.rs\<close>): a platform that can observe, and the loop
  that switches on the accessibility of a renderer which has not published its tree yet.
\<close>

section \<open>Platforms that observe\<close>

text \<open>
  The calls of the adapter trait that the locator adds to those of \<open>platform\<close>
  (\<open>adapter/observation.rs\<close>, \<open>adapter/system.rs\<close>).
\<close>

record 'w observer =
  ob_platform :: "'w platform"
  ob_observe_tree :: "observation_root \<Rightarrow> observation_request \<Rightarrow> 'w \<Rightarrow> (adapter_error + observed_tree) \<times> 'w"
  ob_resolve_locator_anchor :: "ref_entry \<Rightarrow> deadline \<Rightarrow> 'w \<Rightarrow> (adapter_error + handle) \<times> 'w"
  ob_activate_renderer :: "process_identity \<Rightarrow> lease \<Rightarrow> 'w \<Rightarrow> (adapter_error + unit) \<times> 'w"

section \<open>Switching the renderer's accessibility on\<close>

definition INITIAL_ACTIVATION_RETRY :: nat where "INITIAL_ACTIVATION_RETRY = 25 * ns_per_ms"
definition MAX_ACTIVATION_RETRY :: nat where "MAX_ACTIVATION_RETRY = 400 * ns_per_ms"

definition identity_of :: "process_id \<Rightarrow> string option \<Rightarrow> process_identity option" where
  "identity_of p instance_of = map_option (\<lambda>i. \<lparr>identity_pid = p, identity_instance = i\<rparr>) instance_of"

fun root_process :: "observation_root \<Rightarrow> app_error + process_identity" where
  "root_process (RootWindow v) =
     ok_or (identity_of (win_pid v) (win_instance v))
       (AppAdapter (stale_ref_error ''renderer process instance is unavailable''))"
| "root_process (RootElement h e r) =
     ok_or (identity_of (rp_pid (process e)) (rp_instance (process e)))
       (AppAdapter (stale_ref_error ''renderer process instance is unavailable''))"

definition switch_on :: "'w observer \<Rightarrow> deadline option \<Rightarrow> observation_root \<Rightarrow> ('w, app_error, unit) act" where
  "switch_on ob inh r =
     (let pf = ob_platform ob
      in abind (get_now pf) (\<lambda>t.
         abind (lift_res (res_map_err AppAdapter (deadline_standard inh t))) (\<lambda>d.
         abind (amap_err AppAdapter (call (pf_acquire_interaction_lease pf d))) (\<lambda>l.
         with_lease pf l
           (abind (lift_res (root_process r)) (\<lambda>p.
            amap_err AppAdapter (call (ob_activate_renderer ob p l))))))))"

text \<open>A timeout while switching on is reported as a timeout of the observation.\<close>

definition switch_on_error :: "'w observer \<Rightarrow> deadline \<Rightarrow> app_error \<Rightarrow> ('w, app_error, unit) act" where
  "switch_on_error ob observing e =
     (case e of
        AppAdapter ae \<Rightarrow>
          if err_code ae = Timeout
          then abind (make_timeout_error (ob_platform ob) observing) (\<lambda>te. fail_with (AppAdapter te))
          else fail_with e
      | _ \<Rightarrow> fail_with e)"

definition activate ::
  "'w observer \<Rightarrow> deadline option \<Rightarrow> observation_root \<Rightarrow> deadline \<Rightarrow> ('w, app_error, deadline) act" where
  "activate ob inh r observing =
     abind (get_now (ob_platform ob)) (\<lambda>started.
     abind (attempt (switch_on ob inh r)) (\<lambda>result.
     abind (case result of Inl e \<Rightarrow> switch_on_error ob observing e | Inr _ \<Rightarrow> ret ()) (\<lambda>_.
     abind (get_now (ob_platform ob)) (\<lambda>t.
       ret (extended_by inh (t - started) observing)))))"

record observe_state =
  os_request :: observation_request
  os_activated :: bool
  os_delay :: nat

text \<open>The pause before the next round, and the round itself.\<close>

definition retry_pause ::
  "'w observer \<Rightarrow> observe_state \<Rightarrow> deadline \<Rightarrow> ('w, app_error, observe_state) act" where
  "retry_pause ob st d =
     abind (get_now (ob_platform ob)) (\<lambda>t.
       if remaining t d = 0
       then abind (make_timeout_error (ob_platform ob) d) (\<lambda>te. fail_with (AppAdapter te))
       else
         abind (sleep_for (ob_platform ob) (min (remaining t d) (os_delay st))) (\<lambda>_.
         ret \<lparr>os_request = (os_request st)\<lparr>or_deadline := d\<rparr>, os_activated = True,
              os_delay = min (2 * os_delay st) MAX_ACTIVATION_RETRY\<rparr>))"

definition observe_round ::
  "'w observer \<Rightarrow> deadline option \<Rightarrow> observation_root \<Rightarrow> observe_state \<Rightarrow>
     ('w, app_error, (observe_state, observed_tree) flow) act" where
  "observe_round ob inh r st =
     abind (attempt (call (ob_observe_tree ob r (os_request st)))) (\<lambda>result.
       case result of
         Inr tree \<Rightarrow> ret (Done tree)
       | Inl e \<Rightarrow>
           if \<not> requires_renderer_activation e then fail_with (AppAdapter e)
           else
             abind (if os_activated st then ret (or_deadline (os_request st))
                    else activate ob inh r (or_deadline (os_request st))) (\<lambda>d.
             abind (retry_pause ob st d) (\<lambda>st'. ret (Continue st'))))"

definition observe_tree ::
  "'w observer \<Rightarrow> deadline option \<Rightarrow> observation_root \<Rightarrow> observation_request \<Rightarrow> ('w, app_error, observed_tree) act" where
  "observe_tree ob inh r request =
     loop (observe_round ob inh r)
       \<lparr>os_request = request, os_activated = False, os_delay = INITIAL_ACTIVATION_RETRY\<rparr>"

section \<open>Observing returns\<close>

text \<open>What the code relies on of the clock, for the observing calls too.\<close>

definition timed_observer :: "('w \<Rightarrow> nat) \<Rightarrow> 'w observer \<Rightarrow> bool" where
  "timed_observer tm ob \<longleftrightarrow>
     timed tm (ob_platform ob) \<and>
     (\<forall>r q. later tm (ob_observe_tree ob r q)) \<and>
     (\<forall>e d. later tm (ob_resolve_locator_anchor ob e d)) \<and>
     (\<forall>p l. later tm (ob_activate_renderer ob p l))"

lemma timed_observer_calls [terminating]:
  assumes "timed_observer tm ob"
  shows "timed tm (ob_platform ob)" "later tm (ob_observe_tree ob r q)"
    "later tm (ob_resolve_locator_anchor ob e d)" "later tm (ob_activate_renderer ob p l)"
  using assms by (simp_all add: timed_observer_def)

lemma terminates_switch_on [terminating]: "timed_observer tm ob \<Longrightarrow> terminates tm (switch_on ob inh r)"
  unfolding switch_on_def Let_def by (intro terminating)

lemma terminates_switch_on_error [terminating]:
  "timed_observer tm ob \<Longrightarrow> terminates tm (switch_on_error ob d e)"
  unfolding switch_on_error_def by (cases e; simp; intro terminating conjI impI)

lemma terminates_activate [terminating]: "timed_observer tm ob \<Longrightarrow> terminates tm (activate ob inh r d)"
  unfolding activate_def by (intro terminating)

lemma terminates_retry_pause [terminating]: "timed_observer tm ob \<Longrightarrow> terminates tm (retry_pause ob st d)"
  unfolding retry_pause_def by (intro terminating)

lemma terminates_observe_round [terminating]: "timed_observer tm ob \<Longrightarrow> terminates tm (observe_round ob inh r st)"
  unfolding observe_round_def by (intro terminating)

text \<open>
  A loop returns when every round that continues moves towards the bound of its state, or lowers
  the number of times the bound may still change.
\<close>

lemma terminates_loop_bounds:
  fixes changes :: "'s \<Rightarrow> nat"
  assumes "\<And>s. terminates tm (body s)" "I s0"
    and "\<And>s w s' w'. I s \<Longrightarrow> body s w = Some (Inr (Continue s'), w') \<Longrightarrow>
      I s' \<and> (changes s' < changes s \<or>
        changes s' \<le> changes s \<and> bound s' = bound s \<and> tm w < bound s \<and> tm w < tm w')"
  shows "terminates tm (loop body s0)"
proof -
  have "\<exists>r w'. loop body s w = Some (r, w') \<and> tm w \<le> tm w'" if "I s" for s w
    using that
  proof (induction "(changes s, bound s - tm w)" arbitrary: s w rule: wf_induct_rule[OF wf_lex_prod[OF wf_less wf_less]])
    case less: 1
    obtain r w1 where b: "body s w = Some (r, w1)" "tm w \<le> tm w1" using runsD [OF assms(1)] by blast
    show ?case
    proof (cases "\<exists>s'. r = Inr (Continue s')")
      case True
      then obtain s' where s': "r = Inr (Continue s')" by blast
      have "I s'" using assms(3) [OF less(2)] b s' by blast
      moreover have "((changes s', bound s' - tm w1), (changes s, bound s - tm w)) \<in> {(x, y). x < y} <*lex*> {(x, y). x < y}"
        using assms(3) [OF less(2)] b s' by (fastforce simp: diff_less_mono2)
      ultimately obtain r' w' where "loop body s' w1 = Some (r', w')" "tm w1 \<le> tm w'" using less(1) by blast
      then show ?thesis using b s' by (subst loop_unfold) simp
    next
      case False
      then show ?thesis using b by (subst loop_unfold) (auto split: sum.splits flow.splits)
    qed
  qed
  then show ?thesis using assms(2) by (simp add: runs_def)
qed

lemma positive_retry: "0 < INITIAL_ACTIVATION_RETRY" "0 < MAX_ACTIVATION_RETRY"
  by (simp_all add: INITIAL_ACTIVATION_RETRY_def MAX_ACTIVATION_RETRY_def ns_per_ms_def)

lemma retry_pause_moves:
  assumes ob: "timed_observer tm ob" and st: "0 < os_delay st"
    and run: "retry_pause ob st d w = Some (Inr st', w')"
  shows "0 < os_delay st' \<and> os_activated st' \<and> or_deadline (os_request st') = d \<and>
    tm w < expires_at d \<and> tm w < tm w'"
proof -
  note pf = timed_observer_calls(1)[OF ob]
  from run obtain t w1 u where t: "get_now (ob_platform ob) w = Some (Inr t :: app_error + nat, w1)"
    and left: "remaining t d \<noteq> 0"
    and s: "sleep_for (ob_platform ob) (min (remaining t d) (os_delay st)) w1 = Some (Inr u :: app_error + unit, w')"
    and st': "st' = \<lparr>os_request = (os_request st)\<lparr>or_deadline := d\<rparr>, os_activated = True,
       os_delay = min (2 * os_delay st) MAX_ACTIVATION_RETRY\<rparr>"
    unfolding retry_pause_def by (auto elim!: abind_InrE split: if_split_asm)
  show ?thesis
    using sleep_bound[OF pf s] now_bounds[OF pf t] left st positive_retry by (auto simp: st' remaining_def)
qed

lemma observe_round_moves:
  assumes ob: "timed_observer tm ob" and st: "0 < os_delay st"
    and run: "observe_round ob inh r st w = Some (Inr (Continue st'), w')"
  shows "0 < os_delay st' \<and> os_activated st' \<and>
    (os_activated st \<longrightarrow> or_deadline (os_request st') = or_deadline (os_request st) \<and>
       tm w < expires_at (or_deadline (os_request st)) \<and> tm w < tm w')"
proof -
  from run obtain x w1 d w2
    where x: "attempt (call (ob_observe_tree ob r (os_request st))) w =
        Some (Inr x :: app_error + (adapter_error + observed_tree), w1)"
      and d: "(if os_activated st then ret (or_deadline (os_request st))
        else activate ob inh r (or_deadline (os_request st))) w1 = Some (Inr d, w2)"
      and p: "retry_pause ob st d w2 = Some (Inr st', w')"
    unfolding observe_round_def by (elim abind_InrE) (auto elim!: abind_InrE split: sum.split_asm if_split_asm)
  have "tm w \<le> tm w1"
    by (rule runs_mono[where m = "attempt (call (ob_observe_tree ob r (os_request st)))", OF _ x])
      (intro terminating ob)
  moreover have "tm w1 \<le> tm w2"
    using d runs_mono[where m = "activate ob inh r (or_deadline (os_request st))", OF terminates_activate[OF ob]]
    by (cases "os_activated st") auto
  ultimately show ?thesis using retry_pause_moves[OF ob st p] d by auto
qed

lemma terminates_observe_tree [terminating]:
  assumes "timed_observer tm ob"
  shows "terminates tm (observe_tree ob inh r request)"
  unfolding observe_tree_def
proof (rule terminates_loop_bounds[where changes = "\<lambda>st. if os_activated st then 0 else 1"
      and bound = "\<lambda>st. expires_at (or_deadline (os_request st))" and I = "\<lambda>st. 0 < os_delay st"])
  show "terminates tm (observe_round ob inh r st)" for st by (intro terminating assms)
qed (use observe_round_moves[OF assms] positive_retry in force)+

section \<open>What an observation is\<close>

text \<open>Every tree was built by the only constructor of observed trees.\<close>

definition built :: "observed_tree \<Rightarrow> bool" where
  "built tree \<longleftrightarrow> (\<exists>rs w. from_roots rs (ot_source tree) (ot_stats tree) w = Inr tree)"

definition builds :: "'w observer \<Rightarrow> bool" where
  "builds ob \<longleftrightarrow>
     (\<forall>r q w. case fst (ob_observe_tree ob r q w) of Inl _ \<Rightarrow> True | Inr tree \<Rightarrow> built tree)"

lemma built_forward: "built tree \<Longrightarrow> forward (ot_nodes tree)"
  unfolding built_def using forward_flat by blast

lemma built_stats [simp]: "built (tree\<lparr>ot_stats := s\<rparr>) = built tree"
  by (cases tree) (simp add: built_def from_roots_exact)

lemma observe_tree_built:
  assumes "builds ob"
  shows "hoare (\<lambda>_. True) (observe_tree ob inh r request) (\<lambda>res _. case res of Inl _ \<Rightarrow> True | Inr tree \<Rightarrow> built tree)"
proof -
  have tree: "built tree" if "ob_observe_tree ob r q v = (Inr tree, v')" for tree q v v'
    using assms that unfolding builds_def by (metis fst_conv sum.case(2))
  have "case res of Inl _ \<Rightarrow> True | Inr (Continue _) \<Rightarrow> True | Inr (Done tree) \<Rightarrow> built tree"
    if "observe_round ob inh r st w = Some (res, w')" for st w res w'
  proof -
    obtain x v where x: "ob_observe_tree ob r (os_request st) w = (x, v)" by fastforce
    show ?thesis
      using that tree x unfolding observe_round_def
      by (cases x)
        (auto simp: abind_def attempt_def split: option.split_asm sum.split_asm prod.split_asm if_split_asm)
  qed
  then have "hoare (\<lambda>_. True) (observe_round ob inh r st)
      (\<lambda>res _. case res of Inl _ \<Rightarrow> True | Inr (Continue _) \<Rightarrow> True | Inr (Done tree) \<Rightarrow> built tree)" for st
    unfolding hoare_def by blast
  note step = this
  show ?thesis
    unfolding observe_tree_def
    by (rule hoare_loop[where I = "\<lambda>_ _. True"], rule hoare_weaken[OF step])
      (auto split: sum.splits flow.splits)
qed

lemma sample_built: "built (sample_observed w)"
proof -
  have "ot_source (sample_observed w) = FromElement (sample_entry [] [] None) None"
    "ot_stats (sample_observed w) = sample_stats" by (simp_all add: sample_observed_def)
  then show ?thesis unfolding built_def using sample_from_roots by metis
qed

end
