(* ===== verification/LocatorHydrate.thy ===== *)
theory LocatorHydrate
  imports LocatorObserve
begin

text \<open>
  Hydrating the selected matches (\<open>live_locator/hydrate.rs\<close>): each match is resolved again by its
  entry, read in full, compared with what was first seen, and given a ref.
\<close>

section \<open>Errors\<close>

definition hydration_retryable :: "adapter_error \<Rightarrow> bool" where
  "hydration_retryable e \<longleftrightarrow>
     permits_retry_by_default e \<and>
     err_code e \<in> {StaleRef, AmbiguousTarget, ElementNotFound, Timeout, AppUnresponsive}"

definition has_deterministic_limit :: "locator_stats \<Rightarrow> bool" where
  "has_deterministic_limit s \<longleftrightarrow>
     (let l = tr_limits (ls_traversal s)
      in node_hits l > 0 \<or> edge_hits l > 0 \<or> child_hits l > 0 \<or> text_hits l > 0 \<or> depth_hits l > 0)"

definition anchor_missing :: "ref_entry \<Rightarrow> adapter_error" where
  "anchor_missing e =
     with_disposition NotDelivered
       (with_details
         (JObj [(''kind'', JStr ''locator_selected_anchor_missing''), (''retryable'', JBool False),
                (''role'', JStr (id_role (identity e))), (''path_len'', jnat (length (scope_path (scope e)))),
                (''has_identity'', JBool (has_meaningful_identity e)),
                (''has_bounds'', JBool (geo_bounds_hash (geometry e) \<noteq> None))])
         (with_suggestion ''Use a locator that resolves to an element with stable identity or bounds''
           (new_error StaleRef ''Selected locator lacks a verifiable identity or geometry anchor'')))"

definition changed_during_hydration :: adapter_error where
  "changed_during_hydration =
     with_disposition NotDelivered
       (with_suggestion ''Retry the locator against the current accessibility tree''
         (new_error StaleRef ''Selected locator changed during hydration''))"

definition query_incomplete :: "locator_resolution \<Rightarrow> adapter_error" where
  "query_incomplete v =
     (let deterministic = has_deterministic_limit (lr_stats v)
      in with_disposition NotDelivered
           (with_details
             (JObj [(''kind'',
                     JStr (if deterministic then ''locator_selected_query_budget_limit''
                           else ''locator_selected_query_incomplete'')),
                    (''retryable'', JBool (\<not> deterministic)),
                    (''selection_complete'', JBool (meta_selection_complete (lr_meta v))),
                    (''observed_matches'', jnat (meta_total_matches (lr_meta v))),
                    (''query_stats'', stats_json (lr_stats v))])
             (with_suggestion ''Retry against a stable subtree or use a narrower locator''
               (timeout_error_msg ''Selected locator query could not be revalidated''))))"

definition unknown_fields_json :: "locator_evidence \<Rightarrow> json" where
  "unknown_fields_json ev =
     JObj [(''role'', JBool (field_is_unknown (lev_role ev))), (''name'', JBool (field_is_unknown (lev_name ev))),
           (''description'', JBool (field_is_unknown (lev_description ev))),
           (''value'', JBool (field_is_unknown (lev_value ev))),
           (''identifiers'', JBool (\<not> ev_complete (lev_identifiers ev))),
           (''states'', JBool (field_is_unknown (lev_states ev))),
           (''bounds'', JBool (field_is_unknown (re_bounds (lev_ref ev)))),
           (''actions'', JBool (field_is_unknown (re_available_actions (lev_ref ev))))]"

definition evidence_incomplete :: "observed_tree \<Rightarrow> observed_node option \<Rightarrow> locator_query \<Rightarrow> adapter_error" where
  "evidence_incomplete tree n q =
     with_disposition NotDelivered
       (with_details
         (JObj [(''kind'', JStr ''locator_selected_evidence_incomplete''), (''retryable'', JBool True),
                (''structurally_complete'', JBool (ot_complete tree)),
                (''root_count'', jnat (length (ot_roots tree))),
                (''required'',
                 JObj [(''name'', JBool (ip_name (lq_identity q) \<noteq> None)),
                       (''description'', JBool (ip_description (lq_identity q) \<noteq> None)),
                       (''value'', JBool (ip_value (lq_identity q) \<noteq> None)),
                       (''identifiers'', JBool (ip_native_id (lq_identity q) \<noteq> None)),
                       (''states'', JBool True), (''bounds'', JBool True), (''actions'', JBool True)]),
                (''unknown'', json_opt (\<lambda>n. unknown_fields_json (on_evidence n)) n),
                (''query_stats'', stats_json (ot_stats tree))])
         (timeout_error_msg ''Selected locator evidence was incomplete''))"

section \<open>Comparing with what was first seen\<close>

definition evidence_is_complete :: "locator_query \<Rightarrow> observed_node \<Rightarrow> bool" where
  "evidence_is_complete q n \<longleftrightarrow>
     (let ev = on_evidence n; i = lq_identity q
      in \<not> field_is_unknown (lev_role ev) \<and>
         (ip_name i = None \<or> \<not> field_is_unknown (lev_name ev)) \<and>
         (ip_description i = None \<or> \<not> field_is_unknown (lev_description ev)) \<and>
         (ip_value i = None \<or> \<not> field_is_unknown (lev_value ev)) \<and>
         (ip_native_id i = None \<or> ev_complete (lev_identifiers ev)) \<and>
         \<not> field_is_unknown (lev_states ev) \<and> \<not> field_is_unknown (re_bounds (lev_ref ev)) \<and>
         snd (addressability ev))"

definition anchor_matches :: "fx \<Rightarrow> ref_entry \<Rightarrow> observed_node \<Rightarrow> bool" where
  "anchor_matches fx preliminary n =
     (let ev = on_evidence n; actual = Option.bind (known (re_bounds (lev_ref ev))) (bounds_hash fx);
          expected = geo_bounds_hash (geometry preliminary)
      in if has_meaningful_identity preliminary then
           (case identity_match preliminary (lev_name ev) (lev_value ev) (lev_description ev) (lev_identifiers ev) of
              Match \<Rightarrow> True
            | NoMatch \<Rightarrow> False
            | MatchUnknown \<Rightarrow>
                id_retained_object (identity preliminary) = None \<and>
                is_none_or expected (\<lambda>x. actual = Some x))
         else expected \<noteq> None \<and> expected = actual)"

definition preserve_verified_identity :: "ref_entry \<Rightarrow> observed_node \<Rightarrow> ref_entry \<Rightarrow> ref_entry" where
  "preserve_verified_identity preliminary n e =
     (let ev = on_evidence n; old = identity preliminary; i = identity e
      in e\<lparr>identity :=
             i\<lparr>id_name := (if field_is_unknown (lev_name ev) then id_name old else id_name i),
               id_description :=
                 (if field_is_unknown (lev_description ev) then id_description old else id_description i),
               id_value :=
                 (if field_is_unknown (lev_value ev) \<and> \<not> is_mutable_value_role (id_role i)
                  then id_value old else id_value i),
               id_native_id :=
                 (if ev_complete (lev_identifiers ev) then id_native_id i else id_native_id old)\<rparr>\<rparr>)"
section \<open>One match\<close>

text \<open>
  An error leaves the statistics gathered so far with the caller: actions of this section fail
  with both.
\<close>

type_synonym ('w, 'a) hydrating = "('w, locator_stats \<times> app_error, 'a) act"

definition keeping :: "locator_stats \<Rightarrow> ('w, app_error, 'a) act \<Rightarrow> ('w, 'a) hydrating" where
  "keeping s m = amap_err (\<lambda>e. (s, e)) m"

definition reject :: "locator_stats \<Rightarrow> adapter_error \<Rightarrow> ('w, 'a) hydrating" where
  "reject s e = fail_with (s, AppAdapter e)"

definition lift_opt :: "('e + 'a) option \<Rightarrow> ('w, 'e, 'a) act" where
  "lift_opt r w = map_option (\<lambda>x. (x, w)) r"

definition ensure_remaining :: "'w platform \<Rightarrow> deadline \<Rightarrow> ('w, app_error, unit) act" where
  "ensure_remaining pf d =
     abind (get_now pf) (\<lambda>t.
       if remaining t d = 0
       then fail_with (AppAdapter (timeout_error_msg ''Selected locator hydration exceeded its deadline''))
       else ret ())"

definition observed_once :: "observed_tree \<Rightarrow> observed_tree" where
  "observed_once tree =
     (let s = ot_stats tree; r = ls_reads s; c = rd_counts r
      in tree\<lparr>ot_stats :=
           s\<lparr>ls_reads := r\<lparr>rd_counts := c\<lparr>observation_attempts := max (observation_attempts c) 1\<rparr>\<rparr>\<rparr>\<rparr>)"

text \<open>The fresh observation of the element, and its single root.\<close>

definition reobserve ::
  "'w observer \<Rightarrow> deadline option \<Rightarrow> locator_query \<Rightarrow> resolve_request \<Rightarrow> locator_stats \<Rightarrow> ref_entry \<Rightarrow>
     ('w, observed_tree \<times> locator_stats) hydrating" where
  "reobserve ob inh q request s preliminary =
     (let d = rq_deadline request
      in abind (keeping s (amap_err AppAdapter (call (ob_resolve_locator_anchor ob preliminary d)))) (\<lambda>h.
         abind (keeping s (ensure_remaining (ob_platform ob) d)) (\<lambda>_.
         let r = RootElement h preliminary None
         in abind (keeping s (lift_res (res_map_err AppAdapter
                (validate_observation (selected_hydration q request r d))))) (\<lambda>observation.
            abind (keeping s (observe_tree ob inh r observation)) (\<lambda>tree.
            let tree = observed_once tree
            in ret (tree, merge_observation s (ot_stats tree)))))))"

definition hydrated_root ::
  "fx \<Rightarrow> locator_query \<Rightarrow> ref_entry \<Rightarrow> observed_tree \<Rightarrow> adapter_error + observed_node" where
  "hydrated_root fx q preliminary tree =
     (if length (ot_roots tree) \<noteq> 1 then Inl (evidence_incomplete tree None q)
      else
        (case list_get (ot_nodes tree) (ot_roots tree ! 0) of
           None \<Rightarrow> Inl (internal_error ''hydrated locator root is missing'')
         | Some n \<Rightarrow>
             if \<not> evidence_is_complete q n then Inl (evidence_incomplete tree (Some n) q)
             else if known (lev_role (on_evidence n)) \<noteq> Some (id_role (identity preliminary)) \<or>
                     \<not> anchor_matches fx preliminary n
             then Inl changed_during_hydration
             else Inr n))"

definition hydrated_entry :: "fx \<Rightarrow> locator_query \<Rightarrow> ref_entry \<Rightarrow> observed_tree \<Rightarrow> observed_node \<Rightarrow> ref_entry" where
  "hydrated_entry fx q preliminary tree n =
     preserve_verified_identity preliminary n (locator_ref_entry fx n (ot_source tree) q)"

definition has_anchor :: "ref_entry \<Rightarrow> bool" where
  "has_anchor e \<longleftrightarrow> has_meaningful_identity e \<or> geo_bounds_hash (geometry e) \<noteq> None"

definition revalidation_request :: "resolve_request \<Rightarrow> resolve_request" where
  "revalidation_request request =
     request\<lparr>rq_selection := First, rq_surface := None, rq_materialization := MatNone\<rparr>"

text \<open>The query is evaluated again on what was read: the root must still be its first match.\<close>

definition revalidate ::
  "lower_table \<Rightarrow> fx \<Rightarrow> locator_query \<Rightarrow> resolve_request \<Rightarrow> locator_stats \<Rightarrow> observed_tree \<Rightarrow> nat \<Rightarrow>
     ('w, locator_stats) hydrating" where
  "revalidate lc fx q request s tree order_of_root =
     abind (keeping s (amap_err AppAdapter
         (lift_opt (evaluate_locator_tree lc fx tree q (revalidation_request request))))) (\<lambda>v.
     let s = merge_evaluation s (lr_stats v)
     in if meta_selection_complete (lr_meta v) \<and>
           (case lr_matches v of c # _ \<Rightarrow> lm_document_order c = order_of_root | [] \<Rightarrow> False)
        then ret s
        else if meta_complete (lr_meta v) then reject s changed_during_hydration
        else reject s (query_incomplete v))"

definition hydrated_data :: "observed_node \<Rightarrow> ref_entry \<Rightarrow> match_data \<Rightarrow> match_data" where
  "hydrated_data n e d =
     d\<lparr>md_role := id_role (identity e),
       md_name := unwrap_or (field_meaningful_string (lev_name (on_evidence n))) [],
       md_value := field_meaningful_string (lev_value (on_evidence n)),
       md_states := cap_states (capabilities e),
       md_interactive :=
         is_ref_able_role_actions (id_role (identity e)) (cap_available_actions (capabilities e))\<rparr>"

definition take_ref ::
  "fx \<Rightarrow> locator_match \<Rightarrow> observed_node \<Rightarrow> ref_entry \<Rightarrow> ref_map \<Rightarrow> app_error + locator_match \<times> ref_map" where
  "take_ref fx m n e refmap =
     (let d = hydrated_data n e (lm_data m)
      in if md_interactive d then
           res_bind (try_allocate fx refmap e) (\<lambda>(rid, refmap).
             Inr (m\<lparr>lm_data := d\<lparr>md_ref_id := Some rid\<rparr>, lm_entry := e\<rparr>, refmap))
         else Inr (m\<lparr>lm_data := d, lm_entry := e\<rparr>, refmap))"

text \<open>The second half: what was read becomes the match's entry.\<close>

definition finish_match ::
  "lower_table \<Rightarrow> fx \<Rightarrow> locator_query \<Rightarrow> resolve_request \<Rightarrow> ref_map \<Rightarrow> locator_match \<Rightarrow>
     observed_tree \<Rightarrow> locator_stats \<Rightarrow> ('w, locator_match \<times> ref_map \<times> locator_stats) hydrating" where
  "finish_match lc fx q request refmap m tree s =
     (let preliminary = lm_entry m
      in abind (keeping s (lift_res (res_map_err AppAdapter (hydrated_root fx q preliminary tree)))) (\<lambda>n.
         let e = hydrated_entry fx q preliminary tree n
         in if \<not> has_anchor e then reject s (anchor_missing e)
            else
              abind (revalidate lc fx q request s tree (on_document_order n)) (\<lambda>s.
              abind (keeping s (lift_res (take_ref fx m n e refmap))) (\<lambda>(m, refmap).
              ret (m, refmap, s)))))"

definition hydrate_match ::
  "lower_table \<Rightarrow> fx \<Rightarrow> 'w observer \<Rightarrow> deadline option \<Rightarrow> locator_query \<Rightarrow> resolve_request \<Rightarrow>
     locator_stats \<Rightarrow> ref_map \<Rightarrow> locator_match \<Rightarrow> ('w, locator_match \<times> ref_map \<times> locator_stats) hydrating" where
  "hydrate_match lc fx ob inh q request s refmap m =
     (let preliminary = lm_entry m
      in abind (keeping s (ensure_remaining (ob_platform ob) (rq_deadline request))) (\<lambda>_.
         if \<not> has_anchor preliminary then reject s (anchor_missing preliminary)
         else
           abind (reobserve ob inh q request s preliminary) (\<lambda>(tree, s).
           finish_match lc fx q request refmap m tree s)))"

section \<open>All matches\<close>

fun hydrate_matches ::
  "lower_table \<Rightarrow> fx \<Rightarrow> 'w observer \<Rightarrow> deadline option \<Rightarrow> locator_query \<Rightarrow> resolve_request \<Rightarrow>
     locator_stats \<Rightarrow> ref_map \<Rightarrow> locator_match list \<Rightarrow>
     ('w, locator_match list \<times> ref_map \<times> locator_stats) hydrating"
where
  "hydrate_matches lc fx ob inh q request s refmap [] = ret ([], refmap, s)"
| "hydrate_matches lc fx ob inh q request s refmap (m # ms) =
     abind (hydrate_match lc fx ob inh q request s refmap m) (\<lambda>(m, refmap, s).
     abind (hydrate_matches lc fx ob inh q request s refmap ms) (\<lambda>(ms, refmap, s).
     ret (m # ms, refmap, s)))"

definition selected_matches ::
  "lower_table \<Rightarrow> fx \<Rightarrow> 'w observer \<Rightarrow> deadline option \<Rightarrow> locator_query \<Rightarrow> resolve_request \<Rightarrow>
     locator_resolution \<Rightarrow> ('w, locator_resolution) hydrating" where
  "selected_matches lc fx ob inh q request r =
     abind (hydrate_matches lc fx ob inh q request (lr_stats r) refmap_new (lr_matches r)) (\<lambda>(ms, refmap, s).
     ret (r\<lparr>lr_matches := ms, lr_refmap := Some refmap, lr_stats := s\<rparr>))"

section \<open>Hydrating returns\<close>

lemma keeping_Inr [simp]: "keeping s m w = Some (Inr x, w') \<longleftrightarrow> m w = Some (Inr x, w')"
  by (auto simp: keeping_def amap_err_Some_iff)

lemma runs_hoare: "terminates tm m \<Longrightarrow> hoare (\<lambda>_. True) m (\<lambda>r _. Q r) \<Longrightarrow> runs tm m (\<lambda>_ r _. Q r)"
  by (auto simp: runs_def hoare_def) (metis prod.exhaust)

lemma terminates_bind_if:
  assumes "terminates tm m" "\<And>x w w'. m w = Some (Inr x, w') \<Longrightarrow> terminates tm (f x)"
  shows "terminates tm (abind m f)"
  unfolding runs_def
proof
  fix w
  obtain r w1 where m: "m w = Some (r, w1)" "tm w \<le> tm w1" using runsD[OF assms(1)] by blast
  show "\<exists>r w'. abind m f w = Some (r, w') \<and> tm w \<le> tm w' \<and> True"
  proof (cases r)
    case (Inl e)
    then show ?thesis using m by (auto simp: abind_Some_iff)
  next
    case (Inr x)
    then obtain r2 w2 where "f x w1 = Some (r2, w2)" "tm w1 \<le> tm w2"
      using runsD[OF assms(2)[of w x w1], of w1] m by auto
    then show ?thesis using m Inr by (intro exI[of _ r2] exI[of _ w2]) (auto simp: abind_Some_iff)
  qed
qed

lemma terminates_keeping [terminating]: "terminates tm m \<Longrightarrow> terminates tm (keeping s m)"
  unfolding keeping_def by (intro terminating)

lemma terminates_reject [terminating]: "terminates tm (reject s e)"
  unfolding reject_def by (intro terminating)

lemma terminates_lift_opt: "r \<noteq> None \<Longrightarrow> terminates tm (lift_opt r)"
  by (auto simp: runs_def lift_opt_def)

lemma terminates_ensure_remaining [terminating]: "timed tm pf \<Longrightarrow> terminates tm (ensure_remaining pf d)"
  unfolding ensure_remaining_def by (intro terminating)

lemma terminates_reobserve [terminating]:
  "timed_observer tm ob \<Longrightarrow> terminates tm (reobserve ob inh q request s e)"
  unfolding reobserve_def Let_def by (intro terminating)

lemma observed_once_built [simp]: "built (observed_once tree) = built tree"
  by (simp add: observed_once_def Let_def)

lemma reobserve_built:
  assumes "builds ob" "reobserve ob inh q request s e w = Some (Inr (tree, s'), w')"
  shows "built tree"
proof -
  have "built t" if "observe_tree ob i r a v = Some (Inr t, v')" for i r a v t v'
    using hoareD[OF observe_tree_built[OF assms(1)] TrueI that] by simp
  then show ?thesis using assms(2) by (auto simp: reobserve_def Let_def abind_Some_iff)
qed

lemma terminates_revalidate [terminating]:
  assumes "built tree"
  shows "terminates tm (revalidate lc fx q request s tree k)"
proof -
  have "terminates tm (lift_opt (evaluate_locator_tree lc fx tree q (revalidation_request request)))"
    by (rule terminates_lift_opt) (rule evaluate_total[OF built_forward[OF assms]])
  then show ?thesis unfolding revalidate_def Let_def by (intro terminating)
qed

lemma terminates_finish_match: "built tree \<Longrightarrow> terminates tm (finish_match lc fx q request refmap m tree s)"
  unfolding finish_match_def Let_def by (intro terminating)

lemma terminates_hydrate_match [terminating]:
  assumes "timed_observer tm ob" "builds ob"
  shows "terminates tm (hydrate_match lc fx ob inh q request s refmap m)"
proof -
  have "terminates tm (case x of (tree, s) \<Rightarrow> finish_match lc fx q request refmap m tree s)"
    if "reobserve ob inh q request s (lm_entry m) w = Some (Inr x, w')" for x w w'
    using reobserve_built[OF assms(2)] that by (cases x) (auto intro: terminates_finish_match)
  then have "terminates tm (abind (reobserve ob inh q request s (lm_entry m))
      (\<lambda>(tree, s). finish_match lc fx q request refmap m tree s))"
    by (rule terminates_bind_if[OF terminates_reobserve[OF assms(1)]])
  then have rest: "terminates tm (if \<not> has_anchor (lm_entry m) then reject s (anchor_missing (lm_entry m))
      else abind (reobserve ob inh q request s (lm_entry m))
        (\<lambda>(tree, s). finish_match lc fx q request refmap m tree s))"
    by (simp add: terminates_reject)
  have first: "terminates tm (keeping s (ensure_remaining (ob_platform ob) (rq_deadline request)))"
    by (intro terminating assms)
  show ?thesis unfolding hydrate_match_def Let_def by (rule terminates_bind[OF first rest])
qed

lemma terminates_hydrate_matches [terminating]:
  assumes "timed_observer tm ob" "builds ob"
  shows "terminates tm (hydrate_matches lc fx ob inh q request s refmap ms)"
proof (induction ms arbitrary: s refmap)
  case Nil
  show ?case unfolding hydrate_matches.simps by (intro terminating)
next
  case (Cons m ms)
  show ?case unfolding hydrate_matches.simps by (intro terminating assms Cons)
qed

lemma terminates_selected_matches [terminating]:
  "timed_observer tm ob \<Longrightarrow> builds ob \<Longrightarrow> terminates tm (selected_matches lc fx ob inh q request r)"
  unfolding selected_matches_def by (intro terminating)

section \<open>What a hydrated match is\<close>

text \<open>
  There was an observation of the match alone, complete for the query, whose root carries the
  identity first seen and is the first match of the query; the entry was made from it.
\<close>

definition verified_match ::
  "lower_table \<Rightarrow> fx \<Rightarrow> locator_query \<Rightarrow> resolve_request \<Rightarrow> locator_match \<Rightarrow> bool" where
  "verified_match lc fx q request m \<longleftrightarrow>
     (\<exists>preliminary tree n v c cs. built tree \<and> hydrated_root fx q preliminary tree = Inr n \<and>
        lm_entry m = hydrated_entry fx q preliminary tree n \<and> has_anchor (lm_entry m) \<and>
        evaluate_locator_tree lc fx tree q (revalidation_request request) = Some (Inr v) \<and>
        meta_selection_complete (lr_meta v) \<and> lr_matches v = c # cs \<and>
        lm_document_order c = on_document_order n)"

definition holds_ref :: "ref_map \<Rightarrow> locator_match \<Rightarrow> bool" where
  "holds_ref refmap m \<longleftrightarrow>
     (case md_ref_id (lm_data m) of
        None \<Rightarrow> \<not> md_interactive (lm_data m)
      | Some rid \<Rightarrow> md_interactive (lm_data m) \<longrightarrow> refmap_get refmap rid = Some (lm_entry m))"

lemma revalidate_Inr:
  assumes "revalidate lc fx q request s tree k w = Some (Inr s', w')"
  shows "\<exists>v c cs. evaluate_locator_tree lc fx tree q (revalidation_request request) = Some (Inr v) \<and>
    meta_selection_complete (lr_meta v) \<and> lr_matches v = c # cs \<and> lm_document_order c = k"
  using assms
  by (auto simp: revalidate_def reject_def Let_def abind_Some_iff lift_opt_def amap_err_Some_iff
      split: if_split_asm list.split_asm)

lemma take_ref_Inr:
  assumes "take_ref fx m n e refmap = Inr (m', refmap')" "refmap_inv fx refmap"
  shows "lm_entry m' = e \<and> lm_document_order m' = lm_document_order m \<and> holds_ref refmap' m' \<and>
    refmap_inv fx refmap' \<and> (\<forall>rid x. refmap_get refmap rid = Some x \<longrightarrow> refmap_get refmap' rid = Some x)"
proof (cases "md_interactive (hydrated_data n e (lm_data m))")
  case True
  obtain rid where a: "valid_entry fx e" "allocate_validated refmap e = Inr (rid, refmap')"
    and m': "m' = m\<lparr>lm_data := (hydrated_data n e (lm_data m))\<lparr>md_ref_id := Some rid\<rparr>, lm_entry := e\<rparr>"
    using assms(1) True by (cases "try_allocate fx refmap e") (auto simp: take_ref_def Let_def try_allocate_Inr)
  show ?thesis
    using allocate_lookup[OF a(2)] allocate_fresh[OF assms(2) a(2)] allocate_inv[OF assms(2) a]
    by (auto simp: m' holds_ref_def)
next
  case False
  then show ?thesis using assms by (auto simp: take_ref_def Let_def holds_ref_def split: option.splits)
qed

lemma hydrate_match_Inr:
  assumes ob: "builds ob" and inv: "refmap_inv fx refmap"
    and run: "hydrate_match lc fx ob inh q request s refmap m w = Some (Inr (m', refmap', s'), w')"
  shows "verified_match lc fx q request m' \<and> lm_document_order m' = lm_document_order m \<and> holds_ref refmap' m' \<and>
    refmap_inv fx refmap' \<and> (\<forall>rid x. refmap_get refmap rid = Some x \<longrightarrow> refmap_get refmap' rid = Some x)"
proof -
  let ?p = "lm_entry m"
  obtain tree s1 w1 v1 where o: "reobserve ob inh q request s ?p w1 = Some (Inr (tree, s1), v1)"
    and f: "finish_match lc fx q request refmap m tree s1 v1 = Some (Inr (m', refmap', s'), w')"
    using run by (auto simp: hydrate_match_def reject_def Let_def abind_Some_iff split: if_split_asm)
  obtain n s2 w2 where n: "hydrated_root fx q ?p tree = Inr n"
    and anchor: "has_anchor (hydrated_entry fx q ?p tree n)"
    and v: "revalidate lc fx q request s1 tree (on_document_order n) v1 = Some (Inr s2, w2)"
    and t: "take_ref fx m n (hydrated_entry fx q ?p tree n) refmap = Inr (m', refmap')"
    using f
    by (auto simp: finish_match_def reject_def Let_def abind_Some_iff split: if_split_asm)
  note t' = take_ref_Inr[OF t inv]
  have "verified_match lc fx q request m'"
    unfolding verified_match_def
    using reobserve_built[OF ob o] n t' anchor revalidate_Inr[OF v] by metis
  then show ?thesis using t' by simp
qed

lemma holds_ref_mono:
  "holds_ref refmap m \<Longrightarrow> (\<And>rid x. refmap_get refmap rid = Some x \<Longrightarrow> refmap_get refmap' rid = Some x) \<Longrightarrow>
     holds_ref refmap' m"
  by (auto simp: holds_ref_def split: option.splits)

lemma hydrate_matches_Inr:
  assumes "builds ob"
  shows "refmap_inv fx refmap \<Longrightarrow>
    hydrate_matches lc fx ob inh q request s refmap ms w = Some (Inr (ms', refmap', s'), w') \<Longrightarrow>
    list_all (\<lambda>m. verified_match lc fx q request m \<and> holds_ref refmap' m) ms' \<and>
    map lm_document_order ms' = map lm_document_order ms \<and> refmap_inv fx refmap' \<and>
    (\<forall>rid x. refmap_get refmap rid = Some x \<longrightarrow> refmap_get refmap' rid = Some x)"
proof (induction ms arbitrary: refmap s w ms')
  case (Cons m ms)
  obtain m1 r1 s1 w1 ms2 where m: "hydrate_match lc fx ob inh q request s refmap m w = Some (Inr (m1, r1, s1), w1)"
    and ms: "hydrate_matches lc fx ob inh q request s1 r1 ms w1 = Some (Inr (ms2, refmap', s'), w')"
    and ms': "ms' = m1 # ms2"
    using Cons.prems(2) by (auto simp: abind_Some_iff)
  note one = hydrate_match_Inr[OF assms Cons.prems(1) m]
  note rest = Cons.IH[OF _ ms]
  show ?case using one rest by (auto simp: ms' intro: holds_ref_mono)
qed (auto simp: abind_Some_iff)

lemma refmap_new_inv: "refmap_inv fx refmap_new"
  by (simp add: refmap_inv_def refmap_new_def)

lemma selected_matches_Inr:
  assumes "builds ob" "selected_matches lc fx ob inh q request r w = Some (Inr r', w')"
  shows "\<exists>refmap. lr_refmap r' = Some refmap \<and>
    list_all (\<lambda>m. verified_match lc fx q request m \<and> holds_ref refmap m) (lr_matches r') \<and>
    map lm_document_order (lr_matches r') = map lm_document_order (lr_matches r) \<and> lr_meta r' = lr_meta r"
proof -
  obtain ms refmap s where h: "hydrate_matches lc fx ob inh q request (lr_stats r) refmap_new (lr_matches r) w =
      Some (Inr (ms, refmap, s), w')"
    and r': "r' = r\<lparr>lr_matches := ms, lr_refmap := Some refmap, lr_stats := s\<rparr>"
    using assms(2) by (auto simp: selected_matches_def abind_Some_iff)
  show ?thesis using hydrate_matches_Inr[OF assms(1) refmap_new_inv h] by (simp add: r')
qed

end
