(* ===== verification/LocatorResolve.thy ===== *)
theory LocatorResolve
  imports LocatorHydrate
begin

text \<open>
  Resolving a query (\<open>live_locator/resolve.rs\<close>): observe, evaluate and hydrate, again while the
  observation is unstable, until the answer is settled or the deadline passes.
\<close>

section \<open>Errors\<close>

definition requires_authoritative_result :: "resolve_request \<Rightarrow> bool" where
  "requires_authoritative_result r \<longleftrightarrow>
     rq_materialization r = SelectedMatches \<or>
     (case rq_selection r of SelectAll _ \<Rightarrow> False | SelectCount \<Rightarrow> False | _ \<Rightarrow> True)"

definition unknown_incomplete_error :: "locator_resolution \<Rightarrow> adapter_error" where
  "unknown_incomplete_error r =
     with_disposition NotDelivered
       (with_details
         (JObj [(''kind'', JStr ''locator_incomplete''), (''retryable'', JBool False),
                (''observed_matches'', jnat (meta_total_matches (lr_meta r))),
                (''query_stats'', stats_json (lr_stats r))])
         (with_suggestion ''Retry with a narrower locator or a larger observation budget''
           (timeout_error_msg ''Locator traversal returned incomplete evidence'')))"

definition has_transient_incompleteness :: "locator_stats \<Rightarrow> bool" where
  "has_transient_incompleteness s \<longleftrightarrow>
     child_count_changes (tr_limits (ls_traversal s)) > 0 \<or> cannot_complete (rd_health (ls_reads s)) > 0 \<or>
     deadline_exhausted (rd_health (ls_reads s)) > 0"

definition sug_budget :: string where
  "sug_budget =
     ''Use a narrower locator, a shallower scope, or increase the matching observation budget''"

definition deterministic_limit_error :: "locator_resolution \<Rightarrow> adapter_error" where
  "deterministic_limit_error r =
     with_disposition NotDelivered
       (with_details
         (JObj [(''kind'', JStr ''locator_budget_limit''), (''retryable'', JBool False),
                (''observed_matches'', jnat (meta_total_matches (lr_meta r))),
                (''limits'', limits_json (tr_limits (ls_traversal (lr_stats r)))),
                (''query_stats'', stats_json (lr_stats r))])
         (with_suggestion sug_budget
           (new_error Timeout ''Locator traversal reached a deterministic observation budget'')))"

definition incomplete_evidence :: "locator_resolution \<Rightarrow> json" where
  "incomplete_evidence r =
     JObj [(''observed_matches'', jnat (meta_total_matches (lr_meta r))),
           (''child_count_changes'', jnat (child_count_changes (tr_limits (ls_traversal (lr_stats r))))),
           (''cannot_complete'', jnat (cannot_complete (rd_health (ls_reads (lr_stats r))))),
           (''deadline_exhausted'', jnat (deadline_exhausted (rd_health (ls_reads (lr_stats r)))))]"

definition transient_incomplete_timeout :: "deadline \<Rightarrow> locator_stats \<Rightarrow> json option \<Rightarrow> adapter_error" where
  "transient_incomplete_timeout d s last_incomplete =
     with_disposition NotDelivered
       (with_details
         (JObj [(''kind'', JStr ''locator_transient_incomplete''), (''retryable'', JBool True),
                (''timeout_ms'', JInt (uint (dl_timeout_ms d))),
                (''observation_attempts'', jnat (observation_attempts (rd_counts (ls_reads s)))),
                (''last_incomplete'', json_opt id last_incomplete),
                (''query_stats'', stats_json s)])
         (with_suggestion ''Retry with a larger timeout or narrow the locator to a more stable subtree''
           (timeout_error_msg ''Locator observation did not stabilize before its deadline'')))"

definition hydration_evidence :: "adapter_error \<Rightarrow> json" where
  "hydration_evidence e =
     JObj [(''phase'', JStr ''hydration''), (''code'', JStr (error_code_as_str (err_code e))),
           (''details'', json_opt id (err_details e))]"

section \<open>One attempt\<close>

text \<open>Hydration is left half of what remains, but at most a second.\<close>

definition observation_deadline :: "'w platform \<Rightarrow> resolve_request \<Rightarrow> ('w, 'e, deadline) act" where
  "observation_deadline pf request =
     (if rq_materialization request \<noteq> SelectedMatches then ret (rq_deadline request)
      else
        abind (get_now pf) (\<lambda>t.
        let left = remaining t (rq_deadline request); reserve = min (left div 2) 1000000000
        in cap_deadline pf (left - reserve) (rq_deadline request)))"

definition evaluation_request :: "resolve_request \<Rightarrow> resolve_request" where
  "evaluation_request request =
     request\<lparr>rq_materialization :=
       (if rq_materialization request = SelectedMatches then MatNone else rq_materialization request)\<rparr>"

text \<open>
  The aggregate is changed by a failing hydration only: the result and the new aggregate are both
  returned.
\<close>

definition resolve_query_attempt ::
  "lower_table \<Rightarrow> fx \<Rightarrow> 'w observer \<Rightarrow> deadline option \<Rightarrow> locator_query \<Rightarrow> observation_root \<Rightarrow>
     resolve_request \<Rightarrow> locator_stats \<Rightarrow> ('w, 'e, (app_error + locator_resolution) \<times> locator_stats) act" where
  "resolve_query_attempt lc fx ob inh q r request aggregate =
     abind (attempt
       (abind (observation_deadline (ob_platform ob) request) (\<lambda>d.
        abind (lift_res (res_map_err AppAdapter (validate_observation (locator_for_root q request r d)))) (\<lambda>observation.
        abind (observe_tree ob inh r observation) (\<lambda>tree.
        amap_err AppAdapter (lift_opt (evaluate_locator_tree lc fx (observed_once tree) q (evaluation_request request)))))))) (\<lambda>first.
     case first of
       Inl e \<Rightarrow> ret (Inl e, aggregate)
     | Inr resolution \<Rightarrow>
         if rq_materialization request \<noteq> SelectedMatches then ret (Inr resolution, aggregate)
         else
           abind (attempt (selected_matches lc fx ob inh q request resolution)) (\<lambda>hydrated.
           ret (case hydrated of
                  Inl (stats, e) \<Rightarrow> (Inl e, merge_attempt aggregate stats)
                | Inr resolution \<Rightarrow> (Inr resolution, aggregate))))"

section \<open>The loop\<close>

record resolve_state =
  rs_aggregate :: locator_stats
  rs_last_incomplete :: "json option"
  rs_retry_used :: bool

definition resolution_once :: "locator_resolution \<Rightarrow> locator_resolution" where
  "resolution_once r =
     (let s = lr_stats r; rd = ls_reads s; c = rd_counts rd
      in r\<lparr>lr_stats :=
           s\<lparr>ls_reads := rd\<lparr>rd_counts := c\<lparr>observation_attempts := max (observation_attempts c) 1\<rparr>\<rparr>\<rparr>\<rparr>)"

definition elapsed_micros :: "nat \<Rightarrow> nat \<Rightarrow> nat" where
  "elapsed_micros started t = min ((t - started) div 1000) u64_max"

definition fail_unstable ::
  "deadline \<Rightarrow> resolve_state \<Rightarrow> ('w, app_error, 'a) act" where
  "fail_unstable d st =
     fail_with (AppAdapter (transient_incomplete_timeout d (rs_aggregate st) (rs_last_incomplete st)))"

definition short_pause :: "'w platform \<Rightarrow> deadline \<Rightarrow> ('w, 'e, unit) act" where
  "short_pause pf d =
     abind (get_now pf) (\<lambda>t. sleep_for pf (min (remaining t d) (10 * ns_per_ms)))"

definition settle_resolution ::
  "'w platform \<Rightarrow> resolve_request \<Rightarrow> nat \<Rightarrow> resolve_state \<Rightarrow> locator_resolution \<Rightarrow>
     ('w, app_error, (resolve_state, locator_resolution) flow) act" where
  "settle_resolution pf request started st resolution =
     (let r = resolution_once resolution; d = rq_deadline request;
          open_selection = (\<not> meta_selection_complete (lr_meta r));
          merged = merge_attempt (rs_aggregate st) (lr_stats r)
      in if open_selection \<and> has_deterministic_limit (lr_stats r)
         then fail_with (AppAdapter (deterministic_limit_error r))
         else if open_selection \<and> has_transient_incompleteness (lr_stats r)
         then
           let st = st\<lparr>rs_last_incomplete := Some (incomplete_evidence r), rs_aggregate := merged\<rparr>
           in abind (check_expired pf d) (\<lambda>expired.
              if expired then fail_unstable d st
              else abind (short_pause pf d) (\<lambda>_. ret (Continue st)))
         else if open_selection \<and> requires_authoritative_result request
         then fail_with (AppAdapter (unknown_incomplete_error r))
         else
           abind (get_now pf) (\<lambda>t.
           ret (Done (r\<lparr>lr_stats := merged\<lparr>elapsed_us := elapsed_micros started t\<rparr>\<rparr>))))"

text \<open>An error that may pass is retried once; the deadline is looked at last.\<close>

definition retry_after ::
  "'w platform \<Rightarrow> resolve_request \<Rightarrow> resolve_state \<Rightarrow> app_error \<Rightarrow>
     ('w, app_error, (resolve_state, locator_resolution) flow) act" where
  "retry_after pf request st e =
     (case e of
        AppAdapter ae \<Rightarrow>
          if rq_materialization request = SelectedMatches \<and> hydration_retryable ae \<and> \<not> rs_retry_used st
          then
            abind (check_expired pf (rq_deadline request)) (\<lambda>expired.
            if expired then fail_with e
            else
              abind (short_pause pf (rq_deadline request)) (\<lambda>_.
              ret (Continue (st\<lparr>rs_retry_used := True, rs_last_incomplete := Some (hydration_evidence ae)\<rparr>))))
          else fail_with e
      | _ \<Rightarrow> fail_with e)"

definition resolve_round ::
  "lower_table \<Rightarrow> fx \<Rightarrow> 'w observer \<Rightarrow> deadline option \<Rightarrow> locator_query \<Rightarrow> observation_root \<Rightarrow>
     resolve_request \<Rightarrow> nat \<Rightarrow> resolve_state \<Rightarrow> ('w, app_error, (resolve_state, locator_resolution) flow) act" where
  "resolve_round lc fx ob inh q r request started st =
     (let pf = ob_platform ob; d = rq_deadline request
      in abind (check_expired pf d) (\<lambda>expired.
         if expired then fail_unstable d st
         else
           abind (resolve_query_attempt lc fx ob inh q r request (rs_aggregate st)) (\<lambda>(result, aggregate).
           let st = st\<lparr>rs_aggregate := aggregate\<rparr>
           in case result of
                Inr resolution \<Rightarrow> settle_resolution pf request started st resolution
              | Inl e \<Rightarrow> retry_after pf request st e)))"

definition resolve_query ::
  "lower_table \<Rightarrow> fx \<Rightarrow> 'w observer \<Rightarrow> deadline option \<Rightarrow> locator_query \<Rightarrow> observation_root \<Rightarrow>
     resolve_request \<Rightarrow> ('w, app_error, locator_resolution) act" where
  "resolve_query lc fx ob inh q r request =
     abind (lift_res (res_map_err AppAdapter (validate_query q))) (\<lambda>_.
     abind (lift_res (res_map_err AppAdapter (validate_request request))) (\<lambda>_.
     abind (get_now (ob_platform ob)) (\<lambda>started.
     loop (resolve_round lc fx ob inh q r request started)
       \<lparr>rs_aggregate = default_stats, rs_last_incomplete = None, rs_retry_used = False\<rparr>)))"

section \<open>Resolving returns\<close>

lemma terminates_observation_deadline [terminating]:
  "timed tm pf \<Longrightarrow> terminates tm (observation_deadline pf request)"
  unfolding observation_deadline_def Let_def by (intro terminating)

lemma terminates_short_pause [terminating]: "timed tm pf \<Longrightarrow> terminates tm (short_pause pf d)"
  unfolding short_pause_def by (intro terminating)

lemma terminates_fail_unstable [terminating]: "terminates tm (fail_unstable d st)"
  unfolding fail_unstable_def by (intro terminating)

lemma terminates_settle [terminating]:
  "timed tm pf \<Longrightarrow> terminates tm (settle_resolution pf request started st r)"
  unfolding settle_resolution_def Let_def by (intro terminating)

lemma terminates_retry_after [terminating]: "timed tm pf \<Longrightarrow> terminates tm (retry_after pf request st e)"
  unfolding retry_after_def by (cases e; simp; intro terminating conjI impI)

lemma terminates_attempt_query [terminating]:
  assumes "timed_observer tm ob" "builds ob"
  shows "terminates tm (resolve_query_attempt lc fx ob inh q r request aggregate)"
proof -
  have "terminates tm (amap_err AppAdapter
      (lift_opt (evaluate_locator_tree lc fx (observed_once tree) q (evaluation_request request))))"
    if "observe_tree ob inh r a w = Some (Inr tree, w')" for tree a w w'
  proof -
    have "built (observed_once tree)" using hoareD[OF observe_tree_built[OF assms(2)] TrueI that] by simp
    then show ?thesis
      by (intro terminates_map_err terminates_lift_opt evaluate_total built_forward)
  qed
  then have read: "terminates tm (abind (observe_tree ob inh r a) (\<lambda>tree. amap_err AppAdapter
      (lift_opt (evaluate_locator_tree lc fx (observed_once tree) q (evaluation_request request)))))" for a
    by (rule terminates_bind_if[OF terminates_observe_tree[OF assms(1)]])
  have "terminates tm
      (abind (observation_deadline (ob_platform ob) request) (\<lambda>d.
       abind (lift_res (res_map_err AppAdapter (validate_observation (locator_for_root q request r d)))) (\<lambda>observation.
       abind (observe_tree ob inh r observation) (\<lambda>tree. amap_err AppAdapter
         (lift_opt (evaluate_locator_tree lc fx (observed_once tree) q (evaluation_request request)))))))"
    by (rule terminates_bind[OF terminates_observation_deadline[OF timed_observer_calls(1)[OF assms(1)]]],
        rule terminates_bind[OF terminates_pure(3)], rule read)
  note first = terminates_attempt[OF this]
  show ?thesis
    unfolding resolve_query_attempt_def
    by (rule terminates_bind[OF first]) (intro terminating assms)
qed

lemma terminates_resolve_round [terminating]:
  "timed_observer tm ob \<Longrightarrow> builds ob \<Longrightarrow> terminates tm (resolve_round lc fx ob inh q r request started st)"
  unfolding resolve_round_def Let_def by (intro terminating)

text \<open>A round that continues started before the deadline, and takes time.\<close>

lemma short_pause_moves:
  assumes "timed tm pf" "short_pause pf d w1 = Some (Inr u :: 'e + unit, w')"
  shows "tm w1 < expires_at d \<Longrightarrow> tm w1 < tm w'"
proof -
  obtain t w2 where t: "get_now pf w1 = Some (Inr t :: 'e + nat, w2)"
    and s: "sleep_for pf (min (remaining t d) (10 * ns_per_ms)) w2 = Some (Inr u :: 'e + unit, w')"
    using assms(2) unfolding short_pause_def by (rule abind_InrE)
  show "tm w1 < expires_at d \<Longrightarrow> tm w1 < tm w'"
    using now_bounds[OF assms(1) t] sleep_bound[OF assms(1) s]
    by (cases "remaining t d = 0") (auto simp: remaining_def ns_per_ms_def)
qed

lemma continues_after_pause:
  "settle_resolution pf request started st r w = Some (Inr (Continue st'), w') \<Longrightarrow>
     \<exists>w1. check_expired pf (rq_deadline request) w = Some (Inr False :: app_error + bool, w1) \<and>
       short_pause pf (rq_deadline request) w1 = Some (Inr () :: app_error + unit, w')"
  "retry_after pf request st e w = Some (Inr (Continue st'), w') \<Longrightarrow>
     \<exists>w1. check_expired pf (rq_deadline request) w = Some (Inr False :: app_error + bool, w1) \<and>
       short_pause pf (rq_deadline request) w1 = Some (Inr () :: app_error + unit, w')"
  by (auto simp: settle_resolution_def retry_after_def fail_unstable_def Let_def abind_Some_iff
      split: if_split_asm app_error.split_asm)

lemma not_expired_before:
  assumes "timed tm pf" "check_expired pf d w = Some (Inr False :: 'e + bool, w')"
  shows "tm w < expires_at d"
proof -
  obtain t where "get_now pf w = Some (Inr t :: 'e + nat, w')" "\<not> is_expired t d"
    using assms(2) by (auto simp: check_expired_def abind_Some_iff)
  then show ?thesis using now_bounds[OF assms(1)] by (fastforce simp: is_expired_def remaining_def)
qed

lemma resolve_round_moves:
  assumes ob: "timed_observer tm ob" "builds ob"
    and run: "resolve_round lc fx ob inh q r request started st w = Some (Inr (Continue st'), w')"
  shows "tm w < expires_at (rq_deadline request) \<and> tm w < tm w'"
proof -
  note pf = timed_observer_calls(1)[OF ob(1)]
  obtain w1 x w2 where c: "check_expired (ob_platform ob) (rq_deadline request) w = Some (Inr False :: app_error + bool, w1)"
    and a: "resolve_query_attempt lc fx ob inh q r request (rs_aggregate st) w1 =
      Some (Inr x :: app_error + (app_error + locator_resolution) \<times> locator_stats, w2)"
    and rest: "(case x of (result, aggregate) \<Rightarrow>
        case result of
          Inr resolution \<Rightarrow>
            settle_resolution (ob_platform ob) request started (st\<lparr>rs_aggregate := aggregate\<rparr>) resolution
        | Inl e \<Rightarrow> retry_after (ob_platform ob) request (st\<lparr>rs_aggregate := aggregate\<rparr>) e) w2 =
      Some (Inr (Continue st'), w')"
    using run unfolding resolve_round_def Let_def fail_unstable_def
    by (auto elim!: abind_InrE split: if_split_asm)
  obtain w3 where e: "check_expired (ob_platform ob) (rq_deadline request) w2 = Some (Inr False :: app_error + bool, w3)"
    and p: "short_pause (ob_platform ob) (rq_deadline request) w3 = Some (Inr () :: app_error + unit, w')"
    using rest by (auto split: prod.split_asm sum.split_asm dest!: continues_after_pause)
  have "tm w \<le> tm w1" by (rule runs_mono[OF terminates_check_expired[OF pf] c])
  moreover have "tm w1 \<le> tm w2" by (rule runs_mono[OF terminates_attempt_query[OF ob] a])
  moreover have "tm w2 \<le> tm w3" by (rule runs_mono[OF terminates_check_expired[OF pf] e])
  moreover have "tm w3 \<le> tm w'" by (rule runs_mono[OF terminates_short_pause[OF pf] p])
  ultimately show ?thesis
    using not_expired_before[OF pf c] short_pause_moves[OF pf p] by (cases "tm w3 < expires_at (rq_deadline request)") auto
qed

lemma terminates_resolve_query:
  assumes "timed_observer tm ob" "builds ob"
  shows "terminates tm (resolve_query lc fx ob inh q r request)"
proof -
  have "terminates tm (loop (resolve_round lc fx ob inh q r request started) st)" for started st
    by (rule terminates_loop[where bound = "expires_at (rq_deadline request)"])
      (use resolve_round_moves[OF assms] terminates_resolve_round[OF assms] in auto)
  then show ?thesis unfolding resolve_query_def by (intro terminating assms)
qed

section \<open>What is answered\<close>

text \<open>
  Either the selection is settled, or the caller asked for all matches or their number only, and
  then the observation hit no limit and was not disturbed.  Selected matches are verified ones.
\<close>

definition answer_ok ::
  "lower_table \<Rightarrow> fx \<Rightarrow> locator_query \<Rightarrow> resolve_request \<Rightarrow> locator_resolution \<Rightarrow> bool" where
  "answer_ok lc fx q request r \<longleftrightarrow>
     (meta_selection_complete (lr_meta r) \<or> \<not> requires_authoritative_result request) \<and>
     (rq_materialization request = SelectedMatches \<longrightarrow>
        (\<exists>refmap. lr_refmap r = Some refmap \<and>
           list_all (\<lambda>m. verified_match lc fx q request m \<and> holds_ref refmap m) (lr_matches r)))"

lemma attempt_answers:
  assumes "builds ob"
    and "resolve_query_attempt lc fx ob inh q r request aggregate w =
      Some (Inr (Inr resolution, aggregate') :: 'e + (app_error + locator_resolution) \<times> locator_stats, w')"
    and "rq_materialization request = SelectedMatches"
  shows "\<exists>refmap. lr_refmap resolution = Some refmap \<and>
    list_all (\<lambda>m. verified_match lc fx q request m \<and> holds_ref refmap m) (lr_matches resolution)"
proof -
  obtain found w1 where "selected_matches lc fx ob inh q request found w1 = Some (Inr resolution, w')"
    using assms(2,3) unfolding resolve_query_attempt_def
    by (auto simp: attempt_Some_iff elim!: abind_InrE split: sum.split_asm)
  from selected_matches_Inr[OF assms(1) this] show ?thesis by blast
qed

lemma resolution_once_simps [simp]:
  "lr_matches (resolution_once r) = lr_matches r" "lr_refmap (resolution_once r) = lr_refmap r"
  "lr_meta (resolution_once r) = lr_meta r"
  by (simp_all add: resolution_once_def Let_def)

lemma settle_Done:
  assumes "settle_resolution pf request started st r w = Some (Inr (Done r'), w')"
  shows "lr_matches r' = lr_matches r \<and> lr_refmap r' = lr_refmap r \<and> lr_meta r' = lr_meta r \<and>
    (meta_selection_complete (lr_meta r) \<or> \<not> requires_authoritative_result request)"
  using assms
  by (auto simp: settle_resolution_def fail_unstable_def Let_def abind_Some_iff split: if_split_asm)

lemma resolve_round_Done:
  assumes "builds ob"
    and run: "resolve_round lc fx ob inh q r request started st w = Some (Inr (Done answer), w')"
  shows "answer_ok lc fx q request answer"
proof -
  obtain resolution aggregate w1 w2 where
    a: "resolve_query_attempt lc fx ob inh q r request (rs_aggregate st) w1 =
      Some (Inr (Inr resolution, aggregate) :: app_error + (app_error + locator_resolution) \<times> locator_stats, w2)"
    and s: "settle_resolution (ob_platform ob) request started (st\<lparr>rs_aggregate := aggregate\<rparr>) resolution w2 =
      Some (Inr (Done answer), w')"
    using run unfolding resolve_round_def Let_def fail_unstable_def
    by (auto simp: retry_after_def elim!: abind_InrE split: if_split_asm sum.split_asm app_error.split_asm)
  from attempt_answers[OF assms(1) a] settle_Done[OF s] show ?thesis by (auto simp: answer_ok_def)
qed

section \<open>Properties\<close>

text \<open>
  C9.  Resolving a query comes to an end: as long as the clock of the platform does not go back,
  sleeping takes the time asked for and observed trees are built by their constructor, it returns
  an answer or an error, however often the application changes, asks for its renderer to be
  switched on or fails while matches are read again.
\<close>

theorem resolving_returns:
  assumes "timed_observer tm ob" "builds ob"
  shows "\<exists>r w'. resolve_query lc fx ob inh q place request w = Some (r, w') \<and> tm w \<le> tm w'"
  using runsD[OF terminates_resolve_query[OF assms]] by blast

lemma answers_hold:
  assumes "builds ob" "resolve_query lc fx ob inh q place request w = Some (Inr answer, w')"
  shows "validate_query q = Inr () \<and> validate_request request = Inr () \<and> answer_ok lc fx q request answer"
proof -
  obtain started w1 where v: "validate_query q = Inr ()" "validate_request request = Inr ()"
    and l: "loop (resolve_round lc fx ob inh q place request started)
      \<lparr>rs_aggregate = default_stats, rs_last_incomplete = None, rs_retry_used = False\<rparr> w1 = Some (Inr answer, w')"
    using assms(2) by (auto simp: resolve_query_def abind_Some_iff)
  have "case Inr answer of Inl e \<Rightarrow> True | Inr r \<Rightarrow> answer_ok lc fx q request r"
    using loop_invariant[OF l, of "\<lambda>_ _. True" "\<lambda>r _. case r of Inl e \<Rightarrow> True | Inr r \<Rightarrow> answer_ok lc fx q request r"]
      resolve_round_Done[OF assms(1)]
    by (fastforce simp: hoare_def split: sum.split flow.split)
  then show ?thesis using v by simp
qed

text \<open>
  C4.  An answer is never read off an observation that could still turn out otherwise: the
  selection is settled unless only all matches or their number were asked for; and when refs were
  asked for, every match returned was read once more, completely, is still the first match of the
  query where it stands and still carries the identity first seen, and its ref resolves in the
  returned map to the very entry made from that reading.
\<close>

theorem resolved_answer_holds:
  assumes "builds ob" "resolve_query lc fx ob inh q place request w = Some (Inr answer, w')"
  shows "(meta_selection_complete (lr_meta answer) \<or> \<not> requires_authoritative_result request) \<and>
    (rq_materialization request = SelectedMatches \<longrightarrow>
       (\<exists>refmap. lr_refmap answer = Some refmap \<and>
          list_all (\<lambda>m. verified_match lc fx q request m \<and> holds_ref refmap m) (lr_matches answer)))"
  using answers_hold[OF assms] by (simp add: answer_ok_def)

section \<open>A sample\<close>

definition sample_observer :: "nat observer" where
  "sample_observer =
     \<lparr>ob_platform = sample_platform (sample_live True),
      ob_observe_tree = (\<lambda>r q. tick (Inr (sample_observed True))),
      ob_resolve_locator_anchor = (\<lambda>e d. tick (Inr 7)),
      ob_activate_renderer = (\<lambda>p l. tick (Inr ()))\<rparr>"

lemma sample_observer_timed: "timed_observer (\<lambda>w. w) sample_observer"
  by (simp add: timed_observer_def sample_observer_def sample_platform_timed later_def tick_def)

lemma sample_observer_builds: "builds sample_observer"
  by (simp add: builds_def sample_observer_def tick_def sample_built)

definition sample_place :: observation_root where
  "sample_place = RootElement 7 (sample_entry [] [] None) None"

lemma sample_observation_valid:
  "validate_observation (locator_for_root sample_query (sample_request sel) r d) =
     Inr (locator_for_root sample_query (sample_request sel) r d)"
  by (simp add: validate_observation_def locator_for_root_def locator_observation_def validate_budget_def
      default_budget_def validate_limit_def validate_plan_def uniform_plan_def locator_requirements_def
      sample_request_def sample_query_def requirements_cover_def union_requirements_def union_ref_requirements_def
      MAX_OBSERVATION_NODES_def MAX_OBSERVATION_EDGES_def MAX_CHILDREN_PER_NODE_def
      MAX_OBSERVATION_FIELD_BYTES_def MAX_OBSERVATION_TEXT_BYTES_def)

lemma sample_observed_once: "observed_once (sample_observed w) = sample_observed w"
  by (simp add: observed_once_def sample_observed_def sample_stats_def)

lemma sample_resolves:
  "\<exists>answer w'. resolve_query (\<lambda>c. [c]) sum_hash sample_observer None sample_query sample_place
     (sample_request First) 0 = Some (Inr answer, w')"
proof -
  let ?rq = "sample_request First"
  obtain r where r: "evaluate_locator_tree (\<lambda>c. [c]) sum_hash (sample_observed True) sample_query ?rq = Some (Inr r)"
    and sel: "meta_selection_complete (lr_meta r)"
    using sample_conclusion[of First "\<lambda>c. [c]" sum_hash True] by (auto simp: take_matches_def)
  have eval: "evaluation_request ?rq = ?rq" by (simp add: evaluation_request_def sample_request_def)
  have observe: "observe_tree sample_observer None sample_place x 2 = Some (Inr (sample_observed True), 3)" for x
    unfolding observe_tree_def
    by (subst loop_unfold) (simp add: observe_round_def abind_def attempt_def sample_observer_def tick_def)
  have attempt: "resolve_query_attempt (\<lambda>c. [c]) sum_hash sample_observer None sample_query sample_place ?rq s 2 =
      Some (Inr (Inr r, s) :: app_error + (app_error + locator_resolution) \<times> locator_stats, 3)" for s
    by (simp add: resolve_query_attempt_def abind_def attempt_def observation_deadline_def sample_request_fields
        sample_observation_valid observe sample_observed_once eval r amap_err_def lift_opt_def)
  have clock: "get_now (ob_platform sample_observer) v = Some (Inr v :: 'e + nat, v + 1)" for v
    by (simp add: get_now_def sample_observer_def sample_platform_def)
  have early: "is_expired v (rq_deadline ?rq) = (9 \<le> v)" for v
    by (simp add: is_expired_def remaining_def sample_request_def)
  have settle: "\<exists>a. settle_resolution (ob_platform sample_observer) ?rq 0 st r 3 = Some (Inr (Done a), 4)" for st
    by (simp add: settle_resolution_def Let_def sel abind_def clock)
  have round: "\<exists>a. resolve_round (\<lambda>c. [c]) sum_hash sample_observer None sample_query sample_place ?rq 0 st 1 =
      Some (Inr (Done a), 4)" for st
    using settle by (simp add: resolve_round_def abind_def check_expired_def clock early attempt Let_def
        del: One_nat_def)
  obtain a where "resolve_round (\<lambda>c. [c]) sum_hash sample_observer None sample_query sample_place ?rq 0
      \<lparr>rs_aggregate = default_stats, rs_last_incomplete = None, rs_retry_used = False\<rparr> 1 = Some (Inr (Done a), 4)"
    using round by blast
  then show ?thesis
    unfolding resolve_query_def by (simp add: abind_def sample_valid clock loop_unfold del: One_nat_def)
qed

theorem resolving_returns_witness:
  "\<exists>r w'. resolve_query (\<lambda>c. [c]) sum_hash sample_observer None sample_query sample_place
     (sample_request Last) 0 = Some (r, w')"
  using resolving_returns[OF sample_observer_timed sample_observer_builds] by blast

theorem resolved_answer_holds_witness:
  "\<exists>answer w'. resolve_query (\<lambda>c. [c]) sum_hash sample_observer None sample_query sample_place
     (sample_request First) 0 = Some (Inr answer, w') \<and> meta_selection_complete (lr_meta answer)"
proof -
  obtain answer w' where a: "resolve_query (\<lambda>c. [c]) sum_hash sample_observer None sample_query sample_place
     (sample_request First) 0 = Some (Inr answer, w')" using sample_resolves by blast
  from resolved_answer_holds[OF sample_observer_builds a] a show ?thesis
    by (auto simp: requires_authoritative_result_def sample_request_fields)
qed

end
