(* ===== verification/LocatorLease.thy ===== *)
theory LocatorLease
  imports LocatorResolve RefActionLog
begin

text \<open>
  What resolving a query does to the outside: it only reads.  The lease is taken only after an
  observation found a renderer switched off, holds only while the renderer of that very process is
  switched on, and is returned before anything else happens.
\<close>

section \<open>The log of an observer\<close>

text \<open>An observation is logged with the process of its root and whether its renderer was found switched off.\<close>

definition observed_identity :: "observation_root \<Rightarrow> process_identity option" where
  "observed_identity r = (case root_process r of Inl _ \<Rightarrow> None | Inr p \<Rightarrow> Some p)"

definition found_off :: "adapter_error + observed_tree \<Rightarrow> bool" where
  "found_off x = (case x of Inl e \<Rightarrow> requires_renderer_activation e | Inr _ \<Rightarrow> False)"

definition logged_observer :: "'w observer \<Rightarrow> ('w \<times> event list) observer" where
  "logged_observer ob =
     \<lparr>ob_platform = logged (ob_platform ob),
      ob_observe_tree = (\<lambda>r q. log_op (\<lambda>x. [EvObserve (observed_identity r) (found_off x)]) (ob_observe_tree ob r q)),
      ob_resolve_locator_anchor = (\<lambda>e d. pass_op (ob_resolve_locator_anchor ob e d)),
      ob_activate_renderer = (\<lambda>p l. log_op (\<lambda>_. [EvActivate p]) (ob_activate_renderer ob p l))\<rparr>"

lemma logged_observer_simps [simp]:
  "ob_platform (logged_observer ob) = logged (ob_platform ob)"
  "ob_observe_tree (logged_observer ob) r q =
     log_op (\<lambda>x. [EvObserve (observed_identity r) (found_off x)]) (ob_observe_tree ob r q)"
  "ob_resolve_locator_anchor (logged_observer ob) e d = pass_op (ob_resolve_locator_anchor ob e d)"
  "ob_activate_renderer (logged_observer ob) p l = log_op (\<lambda>_. [EvActivate p]) (ob_activate_renderer ob p l)"
  by (simp_all add: logged_observer_def)

section \<open>Observations and leases\<close>

text \<open>
  Switching on the renderer of a process takes the lease, activates it and returns the lease; when
  the identity of the process is not known, it is only taken and returned.
\<close>

definition switching :: "process_identity option \<Rightarrow> event list" where
  "switching p = [EvAcquire] @ (case p of None \<Rightarrow> [] | Some i \<Rightarrow> [EvActivate i]) @ [EvRelease]"

text \<open>
  An observation of one process: a look at it and, only when that found the renderer switched off, at
  most one switching on, with further looks after it.
\<close>

inductive observation :: "process_identity option \<Rightarrow> event list \<Rightarrow> bool" for p where
  one_look: "observation p [EvObserve p off]"
| switched_on: "set looks \<subseteq> range (EvObserve p) \<Longrightarrow> observation p (EvObserve p True # switching p @ looks)"

inductive observing :: "event list \<Rightarrow> bool" where
  observing_nil: "observing []"
| observing_more: "observation p es \<Longrightarrow> observing fs \<Longrightarrow> observing (es @ fs)"

lemma observing_append: "observing es \<Longrightarrow> observing fs \<Longrightarrow> observing (es @ fs)"
  by (induction rule: observing.induct) (auto intro: observing.intros)

lemma observing_one: "observation p es \<Longrightarrow> observing es"
  using observing_more [of p es "[]"] observing_nil by simp

abbreviation calm :: "('w \<times> event list, 'e, 'a) act \<Rightarrow> bool" where
  "calm m \<equiv> emits m (\<lambda>_. observing)"

named_theorems calming \<open>actions that observe at most\<close>

lemma calm_quiet: "quiet m \<Longrightarrow> calm m"
  by (erule emits_weaken) (auto intro: observing_nil)

lemma calm_bind [calming]: "calm m \<Longrightarrow> (\<And>x. calm (f x)) \<Longrightarrow> calm (abind m f)"
  by (rule emits_bind[where S = "\<lambda>_. observing" and T = "\<lambda>_ _. observing"]) (auto intro: observing_append)

lemma calm_attempt [calming]: "calm m \<Longrightarrow> calm (attempt m)"
  by (fastforce simp: emits_def attempt_Some_iff)

lemma calm_map_err [calming]: "calm m \<Longrightarrow> calm (amap_err f m)"
  by (fastforce simp: emits_def amap_err_Some_iff)

lemma calm_small [calming]:
  "calm (ret x)" "calm (fail_with e)" "calm (lift_res r)" "calm (call (pass_op f))" "calm (effect (pass_eff g))"
  "calm (get_now (logged pf))" "calm (check_expired (logged pf) d)" "calm (make_timeout_error (logged pf) d)"
  "calm (cap_deadline (logged pf) n d)" "calm (sleep_for (logged pf) n)"
  by (intro calm_quiet quieting)+

lemma calm_lift_opt [calming]: "calm (lift_opt r)"
  by (auto simp: emits_def lift_opt_def intro: observing_nil)

lemma calm_if [calming]: "calm m \<Longrightarrow> calm n \<Longrightarrow> calm (if b then m else n)"
  by simp

lemma calm_cases [calming]:
  "(\<And>x. calm (f x)) \<Longrightarrow> (\<And>y. calm (g y)) \<Longrightarrow> calm (case_sum f g r)"
  "(\<And>x y. calm (k x y)) \<Longrightarrow> calm (case_prod k z)"
  by (simp_all split: sum.split prod.split)

lemma calm_loop [calming]:
  assumes "\<And>s. calm (body s)"
  shows "calm (loop body s)"
proof -
  have "\<exists>es. snd w' = l @ es \<and> observing es" if "loop body s (w, l) = Some (r, w')" for w l r w'
  proof -
    have "hoare (\<lambda>w. \<exists>es. snd w = l @ es \<and> observing es) (body s)
        (\<lambda>r w. case r of Inl e \<Rightarrow> \<exists>es. snd w = l @ es \<and> observing es
          | Inr (Continue s') \<Rightarrow> \<exists>es. snd w = l @ es \<and> observing es
          | Inr (Done x) \<Rightarrow> \<exists>es. snd w = l @ es \<and> observing es)" for s
      using emitsD[OF assms, of s]
      by (fastforce simp: hoare_def split: sum.splits flow.splits intro: observing_append)
    from loop_invariant[OF that, of "\<lambda>_ w. \<exists>es. snd w = l @ es \<and> observing es"
        "\<lambda>_ w. \<exists>es. snd w = l @ es \<and> observing es", OF this]
    show ?thesis by (auto intro: observing_nil)
  qed
  then show ?thesis by (fastforce simp: emits_def)
qed

section \<open>Reading\<close>

lemma emits_switch_on:
  "emits (switch_on (logged_observer ob) inh r)
     (\<lambda>res es. es = switching (observed_identity r) \<or> es = [] \<and> \<not> is_ok res)"
proof -
  let ?inner = "\<lambda>l. abind (lift_res (root_process r)) (\<lambda>p.
      amap_err AppAdapter (call (ob_activate_renderer (logged_observer ob) p l)))"
  let ?activation = "case observed_identity r of None \<Rightarrow> [] | Some i \<Rightarrow> [EvActivate i]"
  have inner: "emits (?inner l) (\<lambda>_ es. es = ?activation)" for l
    by (cases "root_process r")
      (auto simp: emits_def abind_Some_iff amap_err_Some_iff observed_identity_def log_op_def split_beta)
  have release: "emits (effect (pf_drop_lease (logged (ob_platform ob)) l)) (\<lambda>res es. es = [EvRelease])" for l
    by (auto simp: emits_def logged_def)
  have after: "emits (with_lease (logged (ob_platform ob)) l (?inner l)) (\<lambda>_ es. es = ?activation @ [EvRelease])" for l
    unfolding with_lease_def
    by (rule emits_bind [OF emits_attempt [OF inner], where T = "\<lambda>_ _ es. es = [EvRelease]"],
        rule emits_bind [OF release, where T = "\<lambda>_ _ es. es = []"]) (auto intro: emits_pure)
  have taken: "emits (abind (amap_err AppAdapter (call (pf_acquire_interaction_lease (logged (ob_platform ob)) d)))
      (\<lambda>l. with_lease (logged (ob_platform ob)) l (?inner l)))
      (\<lambda>res es. es = switching (observed_identity r) \<or> es = [] \<and> \<not> is_ok res)" for d
    by (rule emits_bind [where S = "\<lambda>r es. es = (if is_ok r then [EvAcquire] else [])", OF _ after])
      (auto simp: emits_def amap_err_Some_iff logged_def log_op_def switching_def split: prod.splits)
  show ?thesis
    unfolding switch_on_def Let_def logged_observer_simps(1)
    by (intro emits_quiet_bind taken quieting) auto
qed

lemma emits_activate:
  "emits (activate (logged_observer ob) inh r d)
     (\<lambda>res es. es = switching (observed_identity r) \<or> es = [] \<and> \<not> is_ok res)"
    (is "emits _ ?S")
proof -
  have rest: "emits (abind (case result of Inl e \<Rightarrow> switch_on_error (logged_observer ob) d e | Inr _ \<Rightarrow> ret ()) (\<lambda>_.
      abind (get_now (ob_platform (logged_observer ob))) (\<lambda>t. ret (extended_by inh (t - started) d))))
      (\<lambda>res es. es = [] \<and> (is_ok res \<longrightarrow> is_ok result))" for result started
  proof (cases result)
    case (Inl e)
    have "emits (switch_on_error (logged_observer ob) d e) (\<lambda>res es. es = [] \<and> \<not> is_ok res)"
      unfolding switch_on_error_def
      by (cases e) (auto intro!: emits_quiet_bind emits_pure quieting simp: logged_observer_simps(1))
    then show ?thesis unfolding Inl sum.case
      by (rule emits_bind [where T = "\<lambda>_ _ es. es = []"]) (auto intro!: quieting)
  next
    case (Inr u)
    have "quiet (abind (ret ()) (\<lambda>_.
      abind (get_now (ob_platform (logged_observer ob))) (\<lambda>t. ret (extended_by inh (t - started) d))))"
      unfolding logged_observer_simps by (intro quieting)
    then show ?thesis unfolding Inr sum.case by (rule emits_weaken) simp
  qed
  have switched: "emits (abind (attempt (switch_on (logged_observer ob) inh r)) (\<lambda>result.
      abind (case result of Inl e \<Rightarrow> switch_on_error (logged_observer ob) d e | Inr _ \<Rightarrow> ret ()) (\<lambda>_.
      abind (get_now (ob_platform (logged_observer ob))) (\<lambda>t. ret (extended_by inh (t - started) d))))) ?S" for started
    by (rule emits_bind [OF emits_attempt [OF emits_switch_on] rest]) auto
  show ?thesis
    unfolding activate_def by (rule emits_quiet_bind [OF _ switched]) (simp_all add: quieting)
qed

lemma quiet_retry_pause: "quiet (retry_pause (logged_observer ob) st d)"
  unfolding retry_pause_def logged_observer_simps by (intro quieting)

lemma emits_observe_round:
  "emits (observe_round (logged_observer ob) inh r st)
     (\<lambda>res es. let p = observed_identity r in case res of
        Inr (Continue st') \<Rightarrow> os_activated st' \<and>
          es = EvObserve p True # (if os_activated st then [] else switching p)
      | _ \<Rightarrow> (\<exists>off. es = [EvObserve p off]) \<or> \<not> os_activated st \<and> es = EvObserve p True # switching p)"
    (is "emits _ ?S")
proof -
  let ?p = "observed_identity r" and ?ob = "logged_observer ob"
  have look: "emits (attempt (call (ob_observe_tree ?ob r q)))
      (\<lambda>res es. \<exists>x. res = Inr x \<and> es = [EvObserve ?p (found_off x)])" for q
    by (rule emits_weaken [OF emits_attempt [OF emits_log_op [where S = "\<lambda>x es. es = [EvObserve ?p (found_off x)]"],
        of "\<lambda>x. [EvObserve ?p (found_off x)]" "ob_observe_tree ob r q", folded logged_observer_simps(2)]])
      (auto split: sum.splits)
  have pause: "emits (abind (retry_pause ?ob st d) (\<lambda>st'. ret (Continue st')))
      (\<lambda>res es. es = [] \<and> (case res of Inr (Continue st') \<Rightarrow> os_activated st' | Inr (Done _) \<Rightarrow> False | Inl _ \<Rightarrow> True))" for d
  proof -
    have "emits (retry_pause ?ob st d) (\<lambda>res es. es = [] \<and> (case res of Inr st' \<Rightarrow> os_activated st' | Inl _ \<Rightarrow> True))"
      using quiet_retry_pause [of ob st d] unfolding emits_def
      by (auto simp: retry_pause_def elim!: abind_InrE split: sum.splits if_splits)
    then show ?thesis by (rule emits_bind [where T = "\<lambda>st' res es. res = Inr (Continue st') \<and> es = []"])
        (auto intro!: emits_pure)
  qed
  show ?thesis
    unfolding observe_round_def
  proof (rule emits_bind [OF look])
    fix result
    show "emits (case result of Inr tree \<Rightarrow> ret (Done tree)
       | Inl e \<Rightarrow>
           if \<not> requires_renderer_activation e then fail_with (AppAdapter e)
           else
             abind (if os_activated st then ret (or_deadline (os_request st))
                    else activate ?ob inh r (or_deadline (os_request st))) (\<lambda>d.
             abind (retry_pause ?ob st d) (\<lambda>st'. ret (Continue st'))))
       (\<lambda>res es. case res of
          Inr (Continue st') \<Rightarrow> found_off result \<and> os_activated st' \<and> es = (if os_activated st then [] else switching ?p)
        | _ \<Rightarrow> es = [] \<or> found_off result \<and> \<not> os_activated st \<and> es = switching ?p)" (is "emits _ ?T")
    proof (cases result)
      case (Inr tree)
      then show ?thesis by (simp add: emits_pure)
    next
      case (Inl e)
      show ?thesis
      proof (cases "requires_renderer_activation e")
        case False
        then show ?thesis unfolding Inl by (simp add: emits_pure)
      next
        case True
        have "emits (if os_activated st then ret (or_deadline (os_request st))
            else activate ?ob inh r (or_deadline (os_request st)))
          (\<lambda>res es. if os_activated st then es = [] else es = switching ?p \<or> es = [] \<and> \<not> is_ok res)"
          using emits_activate [of ob inh r] by (simp add: emits_pure)
        then have "emits (abind (if os_activated st then ret (or_deadline (os_request st))
            else activate ?ob inh r (or_deadline (os_request st))) (\<lambda>d. abind (retry_pause ?ob st d) (\<lambda>st'. ret (Continue st')))) ?T"
          by (rule emits_bind [OF _ pause])
            (use True in \<open>auto simp: Inl found_off_def split: sum.splits flow.splits if_splits\<close>)
        then show ?thesis unfolding Inl using True by simp
      qed
    qed
  qed (auto simp: Let_def split: sum.splits flow.splits)
qed

lemma calm_observe_tree [calming]: "calm (observe_tree (logged_observer ob) inh r request)"
proof -
  let ?p = "observed_identity r" and ?ob = "logged_observer ob"
  define inv where "inv l st w \<longleftrightarrow> (if os_activated st
      then \<exists>looks. snd w = l @ EvObserve ?p True # switching ?p @ looks \<and> set looks \<subseteq> range (EvObserve ?p)
      else snd w = l)" for l :: "event list" and st :: observe_state and w :: "'a \<times> event list"
  have round: "hoare (inv l st) (observe_round ?ob inh r st) (\<lambda>res w. case res of
      Inr (Continue st') \<Rightarrow> inv l st' w | _ \<Rightarrow> \<exists>es. snd w = l @ es \<and> observation ?p es)" for l st
    unfolding hoare_def
  proof (intro allI impI)
    fix w res w' assume w: "inv l st w" and run: "observe_round ?ob inh r st w = Some (res, w')"
    from emitsD [OF emits_observe_round, of ob inh r st "fst w" "snd w" res "fst w'" "snd w'"] run
    obtain es where es: "snd w' = snd w @ es" and "case res of
        Inr (Continue st') \<Rightarrow> os_activated st' \<and> es = EvObserve ?p True # (if os_activated st then [] else switching ?p)
      | _ \<Rightarrow> (\<exists>off. es = [EvObserve ?p off]) \<or> \<not> os_activated st \<and> es = EvObserve ?p True # switching ?p"
      by (auto simp: Let_def)
    note es = this
    show "case res of Inr (Continue st') \<Rightarrow> inv l st' w' | _ \<Rightarrow> \<exists>es. snd w' = l @ es \<and> observation ?p es"
    proof (cases "os_activated st")
      case True
      with w obtain looks where l: "snd w = l @ EvObserve ?p True # switching ?p @ looks" "set looks \<subseteq> range (EvObserve ?p)"
        by (auto simp: inv_def)
      from es(2) True obtain off where e: "es = [EvObserve ?p off]" and act: "\<And>st'. res = Inr (Continue st') \<Longrightarrow> os_activated st'"
        by (auto split: sum.splits flow.splits)
      have "snd w' = l @ EvObserve ?p True # switching ?p @ (looks @ es)" "set (looks @ es) \<subseteq> range (EvObserve ?p)"
        using es(1) l e by simp_all
      then show ?thesis
        using act switched_on [of "looks @ es" ?p] unfolding inv_def by (auto split: sum.split flow.split)
    next
      case False
      then have l: "snd w' = l @ es" using es(1) w by (simp add: inv_def)
      have "observation ?p (EvObserve ?p True # switching ?p)" using switched_on [of "[]" ?p] by simp
      then show ?thesis
        using es(2) False l unfolding inv_def by (auto intro: one_look split: sum.splits flow.splits)
    qed
  qed
  have "\<exists>es. l' = l @ es \<and> observation ?p es" if run: "observe_tree ?ob inh r request (w, l) = Some (res, w', l')" for w l res w' l'
  proof -
    have "hoare (inv l st) (loop (observe_round ?ob inh r) st) (\<lambda>res w. \<exists>es. snd w = l @ es \<and> observation ?p es)" for st
      by (rule hoare_loop, rule hoare_weaken [OF round]) (auto split: sum.splits flow.splits)
    from hoareD [OF this _ run [unfolded observe_tree_def]] show ?thesis by (simp add: inv_def)
  qed
  then show ?thesis unfolding emits_def by (blast intro: observing_one)
qed

lemma calm_keeping [calming]: "calm m \<Longrightarrow> calm (keeping s m)"
  unfolding keeping_def by (intro calming)

lemma calm_reject [calming]: "calm (reject s e)"
  unfolding reject_def by (intro calming)

lemma calm_ensure_remaining [calming]: "calm (ensure_remaining (logged pf) d)"
  unfolding ensure_remaining_def by (intro calming)

lemma calm_reobserve [calming]: "calm (reobserve (logged_observer ob) inh q request s e)"
  unfolding reobserve_def Let_def logged_observer_simps by (intro calming)

lemma calm_finish_match [calming]: "calm (finish_match lc fx q request refmap m tree s)"
  unfolding finish_match_def revalidate_def Let_def by (intro calming)

lemma calm_hydrate_match [calming]: "calm (hydrate_match lc fx (logged_observer ob) inh q request s refmap m)"
  unfolding hydrate_match_def Let_def logged_observer_simps by (intro calming)

lemma calm_hydrate_matches [calming]:
  "calm (hydrate_matches lc fx (logged_observer ob) inh q request s refmap ms)"
proof (induction ms arbitrary: s refmap)
  case Nil
  show ?case unfolding hydrate_matches.simps by (intro calming)
next
  case (Cons m ms)
  show ?case unfolding hydrate_matches.simps by (intro calming Cons)
qed

lemma calm_selected_matches [calming]:
  "calm (selected_matches lc fx (logged_observer ob) inh q request r)"
  unfolding selected_matches_def by (intro calming)

lemma calm_observation_deadline [calming]: "calm (observation_deadline (logged pf) request)"
  unfolding observation_deadline_def Let_def by (intro calming)

lemma calm_attempt_query [calming]:
  "calm (resolve_query_attempt lc fx (logged_observer ob) inh q r request aggregate)"
  unfolding resolve_query_attempt_def logged_observer_simps by (intro calming)

lemma calm_settle [calming]: "calm (settle_resolution (logged pf) request started st r)"
  unfolding settle_resolution_def fail_unstable_def short_pause_def Let_def by (intro calming)

lemma calm_retry_after [calming]: "calm (retry_after (logged pf) request st e)"
  unfolding retry_after_def short_pause_def by (cases e; simp; intro calming conjI impI)






end
