(* ===== verification/LocatorValid.thy ===== *)
theory LocatorValid
  imports LocatorMatrix
begin

text \<open>
  Which queries are run (\<open>live_locator/validate.rs\<close>, \<open>locator.rs\<close>): the checks, clause by clause with
  running counters, accept exactly the queries within the bounds on the whole query.
\<close>

definition clause_states_known :: "locator_query \<Rightarrow> bool" where
  "clause_states_known q \<longleftrightarrow> list_all (\<lambda>p. sp_token p \<in> set STATE_VOCABULARY) (lq_states q)"

definition clause_role_valid :: "locator_query \<Rightarrow> bool" where
  "clause_role_valid q \<longleftrightarrow> is_none_or (ip_role (lq_identity q)) is_valid_role_query"

definition clause_bytes :: "locator_query \<Rightarrow> nat" where
  "clause_bytes q = sum_list (map length (query_fields q))"

definition query_bytes :: "locator_query \<Rightarrow> nat" where
  "query_bytes q = sum_list (map clause_bytes (query_clauses q))"

text \<open>The specification: five conditions on the list of all clauses.\<close>

definition query_within_bounds :: "locator_query \<Rightarrow> bool" where
  "query_within_bounds q \<longleftrightarrow>
     list_all clause_states_known (query_clauses q) \<and> length (query_clauses q) \<le> 64 \<and>
     list_all clause_role_valid (query_clauses q) \<and>
     list_all (\<lambda>c. list_all (\<lambda>v. length v \<le> 4096) (query_fields c)) (query_clauses q) \<and>
     query_bytes q \<le> 65536"

lemma is_none_or_not: "is_some_and x (\<lambda>r. \<not> P r) \<longleftrightarrow> \<not> is_none_or x P"
  by (cases x) simp_all

lemma validate_states_Inr: "validate_states q = Inr () \<longleftrightarrow> list_all clause_states_known (query_clauses q)"
proof (induction q rule: validate_states.induct)
  case (1 i t x states h n)
  show ?case
    using 1
    by (cases h; cases n)
      (auto simp: clause_states_known_def find_None_iff find_Some_iff list_all_iff split: option.splits)
qed

lemma validate_fields_Inr:
  "bytes \<le> 65536 \<Longrightarrow>
     validate_fields vs bytes = Inr bytes' \<longleftrightarrow>
       list_all (\<lambda>v. length v \<le> 4096) vs \<and> bytes' = bytes + sum_list (map length vs) \<and> bytes' \<le> 65536"
proof (induction vs arbitrary: bytes)
  case (Cons v vs)
  show ?case
    using Cons.IH[of "bytes + length v"] Cons.prems
    by (auto simp: MAX_QUERY_FIELD_BYTES_def MAX_QUERY_TOTAL_BYTES_def Let_def)
qed auto

definition within_limits :: "locator_query list \<Rightarrow> nat \<Rightarrow> nat \<Rightarrow> nat \<Rightarrow> nat \<Rightarrow> bool" where
  "within_limits qs clauses bytes clauses' bytes' \<longleftrightarrow>
     clauses + length qs \<le> 64 \<and> list_all clause_role_valid qs \<and>
     list_all (\<lambda>c. list_all (\<lambda>v. length v \<le> 4096) (query_fields c)) qs \<and>
     clauses' = clauses + length qs \<and> bytes' = bytes + sum_list (map clause_bytes qs) \<and> bytes' \<le> 65536"

lemma within_limits_append:
  "within_limits (ps @ qs) c b c' b' \<longleftrightarrow> (\<exists>c1 b1. within_limits ps c b c1 b1 \<and> within_limits qs c1 b1 c' b')"
  by (auto simp: within_limits_def)

lemma validate_clause_checked:
  "clauses \<le> 64 \<Longrightarrow> bytes \<le> 65536 \<Longrightarrow>
     validate_clause q clauses bytes = Inr (clauses', bytes') \<longleftrightarrow>
     within_limits (query_clauses q) clauses bytes clauses' bytes'"
proof (induction q arbitrary: clauses bytes clauses' bytes' rule: measure_induct_rule[where f = size])
  case (less q)
  obtain i t x states h n where q: "q = LocatorQuery i t x states (Containment h n)"
    by (metis containment_predicate.exhaust locator_query.exhaust)
  have opt: "(case c of Some q \<Rightarrow> validate_clause q k b | None \<Rightarrow> Inr (k, b)) = Inr (k', b') \<longleftrightarrow>
      within_limits (case c of None \<Rightarrow> [] | Some q \<Rightarrow> query_clauses q) k b k' b'"
    if "k \<le> 64" "b \<le> 65536" "c = h \<or> c = n" for c k b k' b'
    using less.IH that by (cases c) (auto simp: q within_limits_def[of "[]"])
  have own: "clauses + 1 \<le> 64 \<and> clause_role_valid q \<and>
      validate_fields (query_fields q) bytes = Inr b \<longleftrightarrow> within_limits [q] clauses bytes (Suc clauses) b" for b
    using validate_fields_Inr[OF less.prems(2)] by (auto simp: within_limits_def clause_bytes_def)
  have step: "validate_clause q clauses bytes = Inr (clauses', bytes') \<longleftrightarrow>
      (\<exists>b k1 b1. within_limits [q] clauses bytes (Suc clauses) b \<and>
         (case h of Some q \<Rightarrow> validate_clause q (Suc clauses) b | None \<Rightarrow> Inr (Suc clauses, b)) = Inr (k1, b1) \<and>
         (case n of Some q \<Rightarrow> validate_clause q k1 b1 | None \<Rightarrow> Inr (k1, b1)) = Inr (clauses', bytes'))"
    unfolding own[symmetric]
    by (auto simp: q Let_def MAX_QUERY_CLAUSES_def clause_role_valid_def is_none_or_not)
  let ?hs = "case h of None \<Rightarrow> [] | Some q \<Rightarrow> query_clauses q" and ?ns = "case n of None \<Rightarrow> [] | Some q \<Rightarrow> query_clauses q"
  have bounds: "k' \<le> 64 \<and> b' \<le> 65536" if "within_limits qs k b k' b'" for qs k b k' b'
    using that by (simp add: within_limits_def)
  have one: "within_limits [q] clauses bytes c1 b1 \<Longrightarrow> c1 = Suc clauses" for c1 b1
    by (simp add: within_limits_def)
  have "validate_clause q clauses bytes = Inr (clauses', bytes') \<longleftrightarrow>
      (\<exists>b k1 b1. within_limits [q] clauses bytes (Suc clauses) b \<and> within_limits ?hs (Suc clauses) b k1 b1 \<and>
         within_limits ?ns k1 b1 clauses' bytes')"
    unfolding step
  proof (intro ex_cong1 conj_cong refl)
    show "((case h of Some q \<Rightarrow> validate_clause q (Suc clauses) b | None \<Rightarrow> Inr (Suc clauses, b)) = Inr (k1, b1)) =
        within_limits ?hs (Suc clauses) b k1 b1" if "within_limits [q] clauses bytes (Suc clauses) b" for b k1 b1
      using bounds[OF that] by (intro opt) auto
    show "((case n of Some q \<Rightarrow> validate_clause q k1 b1 | None \<Rightarrow> Inr (k1, b1)) = Inr (clauses', bytes')) =
        within_limits ?ns k1 b1 clauses' bytes'" if "within_limits ?hs (Suc clauses) b k1 b1" for b k1 b1
      using bounds[OF that] by (intro opt) auto
  qed
  also have "\<dots> \<longleftrightarrow> within_limits ([q] @ ?hs @ ?ns) clauses bytes clauses' bytes'"
    unfolding within_limits_append[of "[q]"] within_limits_append[of ?hs] by (auto dest: one)
  also have "[q] @ ?hs @ ?ns = query_clauses q" by (simp add: q)
  finally show ?case .
qed

lemma validate_fields_Inl: "validate_fields vs bytes = Inl e \<Longrightarrow> err_code e = InvalidArgs"
  by (induction vs bytes rule: validate_fields.induct) (auto simp: Let_def split: if_splits)

lemma validate_states_Inl: "validate_states q = Inl e \<Longrightarrow> err_code e = InvalidArgs"
proof (induction q rule: validate_states.induct)
  case (1 i t x states h n)
  then show ?case
    by (auto simp: unknown_state_error_def res_bind_Inl_iff split: option.splits)
qed

lemma validate_clause_Inl: "validate_clause q clauses bytes = Inl e \<Longrightarrow> err_code e = InvalidArgs"
proof (induction q clauses bytes rule: validate_clause.induct)
  case (1 i t x states h n clauses bytes)
  then show ?case
    by (auto simp: Let_def res_bind_Inl_iff dest: validate_fields_Inl split: option.split_asm if_split_asm)
qed


text \<open>
  C32.  A query is run exactly when every state it names is in the vocabulary, it has at most 64
  clauses, every role is known, no text exceeds 4,096 bytes and all texts together do not exceed
  65,536 bytes, wherever in the nesting they stand.
  Every refusal is an invalid-argument error.
\<close>

theorem validate_query_exact:
  "case validate_query q of
     Inr _ \<Rightarrow> query_within_bounds q
   | Inl e \<Rightarrow> \<not> query_within_bounds q \<and> err_code e = InvalidArgs"
proof -
  have iff: "validate_query q = Inr () \<longleftrightarrow> query_within_bounds q"
    using validate_clause_checked[of 0 0 q]
    by (auto simp: validate_query_def validate_states_Inr query_within_bounds_def within_limits_def query_bytes_def)
  show ?thesis
  proof (cases "validate_query q")
    case (Inl e)
    then have "err_code e = InvalidArgs"
      by (auto simp: validate_query_def res_bind_Inl_iff dest: validate_states_Inl validate_clause_Inl)
    then show ?thesis using iff Inl by auto
  next
    case (Inr u)
    then show ?thesis using iff by auto
  qed
qed

end
