(* ===== verification/Signals.thy ===== *)
theory Signals
  imports Locator "HOL-Library.List_Lexorder" "HOL-Library.Char_ord" "HOL-Library.Option_ord"
    "HOL-Library.Product_Lexorder"
begin

text \<open>
  What changed on the desktop between two observations: applications (\<open>app_info.rs\<close>), surfaces
  (\<open>surface_signal.rs\<close>), an observation of the desktop and what of it is complete
  (\<open>signal_baseline.rs\<close>, \<open>signal_completeness.rs\<close>), events (\<open>event_kind.rs\<close>, \<open>ui_event.rs\<close>)
  and their computation and order (\<open>signals.rs\<close>).
\<close>

section \<open>Applications\<close>

definition eq_ignore_ascii_case :: "string \<Rightarrow> string \<Rightarrow> bool" where
  "eq_ignore_ascii_case a b \<longleftrightarrow> to_ascii_lowercase a = to_ascii_lowercase b"

definition lower_ascii_point :: "nat \<Rightarrow> nat" where
  "lower_ascii_point c = (if 65 \<le> c \<and> c \<le> 90 then c + 32 else c)"

fun app_name_loop :: "nat list \<Rightarrow> nat list \<Rightarrow> bool" where
  "app_name_loop (a # as) (e # es) \<longleftrightarrow> lower_ascii_point a = lower_ascii_point e \<and> app_name_loop as es"
| "app_name_loop [] [] \<longleftrightarrow> True"
| "app_name_loop _ _ \<longleftrightarrow> False"

definition app_name_matches :: "string \<Rightarrow> string \<Rightarrow> bool" where
  "app_name_matches actual expected =
     app_name_loop (filter (\<lambda>c. \<not> is_bidirectional_control c) (code_points actual))
       (filter (\<lambda>c. \<not> is_bidirectional_control c) (code_points expected))"

definition matches_identifier :: "app_info \<Rightarrow> string \<Rightarrow> bool" where
  "matches_identifier a i \<longleftrightarrow>
     app_name_matches (app_name a) i \<or> is_some_and (app_bundle_id a) (\<lambda>b. eq_ignore_ascii_case b i)"

section \<open>Observations of the desktop\<close>

record surface_signal =
  sg_kind :: snapshot_surface
  sg_app :: string
  sg_pid :: process_id
  sg_instance :: string
  sg_id :: string
  sg_title :: "string option"

record signal_completeness =
  sc_windows :: bool
  sc_apps :: bool
  sc_surfaces :: bool

definition complete_signals :: signal_completeness where
  "complete_signals = \<lparr>sc_windows = True, sc_apps = True, sc_surfaces = True\<rparr>"

record signal_baseline =
  sb_windows :: "window_info list"
  sb_apps :: "app_info list"
  sb_surfaces :: "surface_signal list"
  sb_completeness :: signal_completeness

section \<open>Events\<close>

datatype event_kind =
    WindowOpened | WindowClosed | AppLaunched | AppTerminated | FocusChangedWindow
  | SurfaceAppeared snapshot_surface | SurfaceDismissed snapshot_surface

fun same_variant :: "event_kind \<Rightarrow> event_kind \<Rightarrow> bool" where
  "same_variant WindowOpened k \<longleftrightarrow> k = WindowOpened"
| "same_variant WindowClosed k \<longleftrightarrow> k = WindowClosed"
| "same_variant AppLaunched k \<longleftrightarrow> k = AppLaunched"
| "same_variant AppTerminated k \<longleftrightarrow> k = AppTerminated"
| "same_variant FocusChangedWindow k \<longleftrightarrow> k = FocusChangedWindow"
| "same_variant (SurfaceAppeared _) k \<longleftrightarrow> (case k of SurfaceAppeared _ \<Rightarrow> True | _ \<Rightarrow> False)"
| "same_variant (SurfaceDismissed _) k \<longleftrightarrow> (case k of SurfaceDismissed _ \<Rightarrow> True | _ \<Rightarrow> False)"

fun cli_token :: "event_kind \<Rightarrow> string" where
  "cli_token WindowOpened = ''window-opened''"
| "cli_token WindowClosed = ''window-closed''"
| "cli_token AppLaunched = ''app-launched''"
| "cli_token AppTerminated = ''app-terminated''"
| "cli_token FocusChangedWindow = ''focus-changed''"
| "cli_token (SurfaceAppeared _) = ''surface-appeared''"
| "cli_token (SurfaceDismissed _) = ''surface-dismissed''"

definition all_tokens :: "string list" where
  "all_tokens =
     [''window-opened'', ''window-closed'', ''app-launched'', ''app-terminated'', ''focus-changed'',
      ''surface-appeared'', ''surface-dismissed'']"

definition parse_event :: "string \<Rightarrow> event_kind option" where
  "parse_event t =
     (if t = ''window-opened'' then Some WindowOpened
      else if t = ''window-closed'' then Some WindowClosed
      else if t = ''app-launched'' then Some AppLaunched
      else if t = ''app-terminated'' then Some AppTerminated
      else if t = ''focus-changed'' then Some FocusChangedWindow
      else if t = ''surface-appeared'' then Some (SurfaceAppeared SurfWindow)
      else if t = ''surface-dismissed'' then Some (SurfaceDismissed SurfWindow)
      else None)"

record ui_event =
  ue_kind :: event_kind
  ue_window_id :: "string option"
  ue_title :: "string option"
  ue_app :: "string option"
  ue_pid :: "process_id option"

section \<open>The order of events\<close>

datatype ordering = Less | Equal | Greater

definition cmp :: "'a::linorder \<Rightarrow> 'a \<Rightarrow> ordering" where
  "cmp x y = (if x < y then Less else if x = y then Equal else Greater)"

definition then_with :: "ordering \<Rightarrow> ordering \<Rightarrow> ordering" where
  "then_with o1 o2 = (if o1 = Equal then o2 else o1)"

text \<open>\<open>sort_by\<close> is stable.\<close>

fun insert_by :: "('a \<Rightarrow> 'a \<Rightarrow> ordering) \<Rightarrow> 'a \<Rightarrow> 'a list \<Rightarrow> 'a list" where
  "insert_by f x [] = [x]"
| "insert_by f x (y # ys) = (if f x y = Greater then y # insert_by f x ys else x # y # ys)"

definition sort_by :: "('a \<Rightarrow> 'a \<Rightarrow> ordering) \<Rightarrow> 'a list \<Rightarrow> 'a list" where
  "sort_by f xs = foldr (insert_by f) xs []"

fun event_rank :: "event_kind \<Rightarrow> nat" where
  "event_rank WindowClosed = 0"
| "event_rank AppTerminated = 1"
| "event_rank (SurfaceDismissed _) = 2"
| "event_rank WindowOpened = 3"
| "event_rank AppLaunched = 4"
| "event_rank (SurfaceAppeared _) = 5"
| "event_rank FocusChangedWindow = 6"

definition compare_events :: "ui_event \<Rightarrow> ui_event \<Rightarrow> ordering" where
  "compare_events l r =
     then_with (then_with (then_with (then_with (then_with
       (cmp (event_rank (ue_kind l)) (event_rank (ue_kind r)))
       (cmp (ue_app l) (ue_app r)))
       (cmp (ue_pid l) (ue_pid r)))
       (cmp (ue_window_id l) (ue_window_id r)))
       (cmp (ue_title l) (ue_title r)))
       (cmp (cli_token (ue_kind l)) (cli_token (ue_kind r)))"

section \<open>Differences\<close>

definition window_identity :: "window_info \<Rightarrow> (process_id \<times> string \<times> string) option" where
  "window_identity v = map_option (\<lambda>i. (win_pid v, i, win_id v)) (win_instance v)"

definition window_event :: "event_kind \<Rightarrow> window_info \<Rightarrow> ui_event" where
  "window_event k v =
     \<lparr>ue_kind = k, ue_window_id = Some (win_id v), ue_title = Some (win_title v),
      ue_app = Some (win_app v), ue_pid = Some (win_pid v)\<rparr>"

definition new_windows :: "event_kind \<Rightarrow> window_info list \<Rightarrow> window_info list \<Rightarrow> ui_event list" where
  "new_windows k before after =
     map (window_event k)
       (filter (\<lambda>v. is_some_and (window_identity v) (\<lambda>i. i \<notin> set (List.map_filter window_identity before))) after)"

definition diff_windows :: "signal_baseline \<Rightarrow> signal_baseline \<Rightarrow> ui_event list" where
  "diff_windows base current =
     new_windows WindowOpened (sb_windows base) (sb_windows current) @
     new_windows WindowClosed (sb_windows current) (sb_windows base)"

definition focused_of :: "signal_baseline \<Rightarrow> window_info option" where
  "focused_of b = find (\<lambda>v. is_focused (win_state v)) (sb_windows b)"

definition focus_lost :: ui_event where
  "focus_lost =
     \<lparr>ue_kind = FocusChangedWindow, ue_window_id = None, ue_title = None, ue_app = None, ue_pid = None\<rparr>"

definition diff_focus :: "signal_baseline \<Rightarrow> signal_baseline \<Rightarrow> ui_event list" where
  "diff_focus base current =
     (let focused_id = Option.bind (focused_of base) window_identity
      in case focused_of current of
           Some v \<Rightarrow>
             if is_some_and (window_identity v) (\<lambda>i. Some i \<noteq> focused_id) then [window_event FocusChangedWindow v]
             else []
         | None \<Rightarrow> if focused_id \<noteq> None then [focus_lost] else [])"

definition app_event :: "event_kind \<Rightarrow> app_info \<Rightarrow> ui_event" where
  "app_event k a =
     \<lparr>ue_kind = k, ue_window_id = None, ue_title = None, ue_app = Some (app_name a), ue_pid = Some (app_pid a)\<rparr>"

definition app_identity :: "app_info \<Rightarrow> (process_id \<times> string) option" where
  "app_identity a = map_option (\<lambda>i. (app_pid a, i)) (app_instance a)"

definition new_apps :: "event_kind \<Rightarrow> app_info list \<Rightarrow> app_info list \<Rightarrow> ui_event list" where
  "new_apps k before after =
     map (app_event k)
       (filter (\<lambda>a. is_some_and (app_identity a) (\<lambda>i. i \<notin> set (List.map_filter app_identity before))) after)"

definition diff_apps :: "signal_baseline \<Rightarrow> signal_baseline \<Rightarrow> ui_event list" where
  "diff_apps base current =
     new_apps AppLaunched (sb_apps base) (sb_apps current) @
     new_apps AppTerminated (sb_apps current) (sb_apps base)"

definition surface_identity :: "surface_signal \<Rightarrow> process_id \<times> string \<times> string \<times> string" where
  "surface_identity s = (sg_pid s, sg_instance s, sg_id s, surface_as_str (sg_kind s))"

definition surface_event :: "surface_signal \<Rightarrow> bool \<Rightarrow> ui_event" where
  "surface_event s appeared =
     \<lparr>ue_kind = (if appeared then SurfaceAppeared (sg_kind s) else SurfaceDismissed (sg_kind s)),
      ue_window_id = None, ue_title = sg_title s, ue_app = Some (sg_app s), ue_pid = Some (sg_pid s)\<rparr>"

definition new_surfaces :: "bool \<Rightarrow> surface_signal list \<Rightarrow> surface_signal list \<Rightarrow> ui_event list" where
  "new_surfaces appeared before after =
     map (\<lambda>s. surface_event s appeared) (filter (\<lambda>s. surface_identity s \<notin> surface_identity ` set before) after)"

definition diff_surfaces :: "signal_baseline \<Rightarrow> signal_baseline \<Rightarrow> ui_event list" where
  "diff_surfaces base current =
     new_surfaces True (sb_surfaces base) (sb_surfaces current) @
     new_surfaces False (sb_surfaces current) (sb_surfaces base)"

definition both_complete :: "(signal_completeness \<Rightarrow> bool) \<Rightarrow> signal_baseline \<Rightarrow> signal_baseline \<Rightarrow> bool" where
  "both_complete part b c \<longleftrightarrow> part (sb_completeness b) \<and> part (sb_completeness c)"

definition diff_signals :: "signal_baseline \<Rightarrow> signal_baseline \<Rightarrow> ui_event list" where
  "diff_signals base current =
     sort_by compare_events
       ((if both_complete sc_windows base current then diff_windows base current @ diff_focus base current else []) @
        (if both_complete sc_apps base current then diff_apps base current else []) @
        (if both_complete sc_surfaces base current then diff_surfaces base current else []))"

section \<open>Sorting by a comparison is sorting by a key\<close>

lemma cmp_iff [simp]:
  "cmp x y = Greater \<longleftrightarrow> y < x" "cmp x y = Less \<longleftrightarrow> x < y" "cmp x y = Equal \<longleftrightarrow> x = y"
  by (auto simp: cmp_def)

lemma then_with_iff:
  "then_with a b = Greater \<longleftrightarrow> a = Greater \<or> a = Equal \<and> b = Greater"
  "then_with a b = Equal \<longleftrightarrow> a = Equal \<and> b = Equal"
  by (cases a; simp add: then_with_def)+

lemma insert_by_key:
  "(\<And>x y. f x y = Greater \<longleftrightarrow> key y < key x) \<Longrightarrow> insert_by f x xs = insort_key key x xs"
  by (induction xs) auto

lemma sort_by_key:
  assumes "\<And>x y. f x y = Greater \<longleftrightarrow> key y < key x"
  shows "sort_by f xs = sort_key key xs"
proof -
  have "insert_by f = insort_key key" by (intro ext insert_by_key assms)
  then show ?thesis by (simp add: sort_by_def sort_key_def)
qed

definition event_key ::
  "ui_event \<Rightarrow> nat \<times> string option \<times> process_id option \<times> string option \<times> string option \<times> string" where
  "event_key e = (event_rank (ue_kind e), ue_app e, ue_pid e, ue_window_id e, ue_title e, cli_token (ue_kind e))"

lemma less_pair_iff: "(a, b) < (c, d) \<longleftrightarrow> a < c \<or> c = a \<and> b < (d :: 'b::linorder)" for a c :: "'a::linorder"
  by (auto simp: less_prod_simp)

lemma compare_events_key: "compare_events l r = Greater \<longleftrightarrow> event_key r < event_key l"
  unfolding compare_events_def event_key_def then_with_iff cmp_iff less_pair_iff
  by (simp only: conj_assoc disj_assoc conj_disj_distribL)

lemma sorted_events: "sort_by compare_events es = sort_key event_key es"
  by (rule sort_by_key) (rule compare_events_key)

lemma set_sort_events [simp]: "set (sort_by compare_events es) = set es"
  by (simp add: sorted_events)

section \<open>Properties\<close>

lemma in_map_filter_iff: "y \<in> set (List.map_filter f xs) \<longleftrightarrow> (\<exists>x \<in> set xs. f x = Some y)"
  by (force simp: map_filter_def)

text \<open>\<open>appears P f before after\<close>: an item of the second list whose identity the first does not have.\<close>

definition appears :: "('a \<Rightarrow> 'i option) \<Rightarrow> 'a list \<Rightarrow> 'a list \<Rightarrow> 'a \<Rightarrow> bool" where
  "appears key before after x \<longleftrightarrow>
     x \<in> set after \<and> key x \<noteq> None \<and> (\<forall>y \<in> set before. key y \<noteq> key x)"

lemma new_windows_iff: "e \<in> set (new_windows k before after) \<longleftrightarrow> (\<exists>v. appears window_identity before after v \<and> e = window_event k v)"
  by (fastforce simp: new_windows_def appears_def is_some_and_iff in_map_filter_iff)

lemma new_apps_iff: "e \<in> set (new_apps k before after) \<longleftrightarrow> (\<exists>a. appears app_identity before after a \<and> e = app_event k a)"
  by (fastforce simp: new_apps_def appears_def is_some_and_iff in_map_filter_iff)

lemma new_surfaces_iff:
  "e \<in> set (new_surfaces b before after) \<longleftrightarrow>
     (\<exists>s. appears (Some \<circ> surface_identity) before after s \<and> e = surface_event s b)"
  by (simp add: new_surfaces_def appears_def image_iff set_eq_iff Bex_def eq_commute) metis

definition focus_event :: "signal_baseline \<Rightarrow> signal_baseline \<Rightarrow> ui_event \<Rightarrow> bool" where
  "focus_event b c e \<longleftrightarrow>
     (let before = Option.bind (focused_of b) window_identity
      in case focused_of c of
           None \<Rightarrow> before \<noteq> None \<and> e = focus_lost
         | Some v \<Rightarrow> window_identity v \<noteq> None \<and> window_identity v \<noteq> before \<and> e = window_event FocusChangedWindow v)"

text \<open>
  C16. The events between two observations are exactly the windows, applications and surfaces that
  only one of them has, told apart by process, process instance and identifier, and the first focused window when it is
  another one than before; nothing is reported of a kind of thing that either observation could
  not list completely, and disappearances come before appearances and a change of focus last.
\<close>

theorem signal_diff_exact:
  "sorted (map event_key (diff_signals b c)) \<and>
   (e \<in> set (diff_signals b c) \<longleftrightarrow>
      (case ue_kind e of
         WindowOpened \<Rightarrow> both_complete sc_windows b c \<and>
           (\<exists>v. appears window_identity (sb_windows b) (sb_windows c) v \<and> e = window_event WindowOpened v)
       | WindowClosed \<Rightarrow> both_complete sc_windows b c \<and>
           (\<exists>v. appears window_identity (sb_windows c) (sb_windows b) v \<and> e = window_event WindowClosed v)
       | FocusChangedWindow \<Rightarrow> both_complete sc_windows b c \<and> focus_event b c e
       | AppLaunched \<Rightarrow> both_complete sc_apps b c \<and>
           (\<exists>a. appears app_identity (sb_apps b) (sb_apps c) a \<and> e = app_event AppLaunched a)
       | AppTerminated \<Rightarrow> both_complete sc_apps b c \<and>
           (\<exists>a. appears app_identity (sb_apps c) (sb_apps b) a \<and> e = app_event AppTerminated a)
       | SurfaceAppeared k \<Rightarrow> both_complete sc_surfaces b c \<and>
           (\<exists>s. appears (Some \<circ> surface_identity) (sb_surfaces b) (sb_surfaces c) s \<and> e = surface_event s True)
       | SurfaceDismissed k \<Rightarrow> both_complete sc_surfaces b c \<and>
           (\<exists>s. appears (Some \<circ> surface_identity) (sb_surfaces c) (sb_surfaces b) s \<and> e = surface_event s False))) \<and>
   diff_signals b b = []"
proof (intro conjI)
  show "sorted (map event_key (diff_signals b c))" by (simp add: diff_signals_def sorted_events)
next
  have kinds: "ue_kind (window_event k v) = k" "ue_kind (app_event k a) = k" "ue_kind focus_lost = FocusChangedWindow"
    "ue_kind (surface_event s True) = SurfaceAppeared (sg_kind s)"
    "ue_kind (surface_event s False) = SurfaceDismissed (sg_kind s)" for k v a s
    by (simp_all add: window_event_def app_event_def focus_lost_def surface_event_def)
  have f: "e \<in> set (diff_focus b c) \<longleftrightarrow> focus_event b c e \<and> ue_kind e = FocusChangedWindow"
    using kinds by (auto simp: diff_focus_def focus_event_def Let_def is_some_and_iff split: option.splits)
  show "e \<in> set (diff_signals b c) \<longleftrightarrow> (case ue_kind e of
         WindowOpened \<Rightarrow> both_complete sc_windows b c \<and>
           (\<exists>v. appears window_identity (sb_windows b) (sb_windows c) v \<and> e = window_event WindowOpened v)
       | WindowClosed \<Rightarrow> both_complete sc_windows b c \<and>
           (\<exists>v. appears window_identity (sb_windows c) (sb_windows b) v \<and> e = window_event WindowClosed v)
       | FocusChangedWindow \<Rightarrow> both_complete sc_windows b c \<and> focus_event b c e
       | AppLaunched \<Rightarrow> both_complete sc_apps b c \<and>
           (\<exists>a. appears app_identity (sb_apps b) (sb_apps c) a \<and> e = app_event AppLaunched a)
       | AppTerminated \<Rightarrow> both_complete sc_apps b c \<and>
           (\<exists>a. appears app_identity (sb_apps c) (sb_apps b) a \<and> e = app_event AppTerminated a)
       | SurfaceAppeared k \<Rightarrow> both_complete sc_surfaces b c \<and>
           (\<exists>s. appears (Some \<circ> surface_identity) (sb_surfaces b) (sb_surfaces c) s \<and> e = surface_event s True)
       | SurfaceDismissed k \<Rightarrow> both_complete sc_surfaces b c \<and>
           (\<exists>s. appears (Some \<circ> surface_identity) (sb_surfaces c) (sb_surfaces b) s \<and> e = surface_event s False))"
    using kinds
    by (auto simp: diff_signals_def diff_windows_def diff_apps_def diff_surfaces_def new_windows_iff new_apps_iff
        new_surfaces_iff f split: event_kind.splits)
next
  have "new_windows k ws ws = []" "new_apps k as as = []" "new_surfaces t ss ss = []" for k ws as t ss
    by (auto simp: new_windows_def new_apps_def new_surfaces_def filter_empty_conv is_some_and_iff in_map_filter_iff)
  moreover have "diff_focus b b = []"
    by (auto simp: diff_focus_def Let_def is_some_and_iff split: option.splits)
  ultimately show "diff_signals b b = []"
    by (simp add: diff_signals_def diff_windows_def diff_apps_def diff_surfaces_def sort_by_def)
qed

lemma parse_cli_token [simp]: "same_variant k (the (parse_event (cli_token k)))" "parse_event (cli_token k) \<noteq> None"
  by (cases k; simp add: parse_event_def)+

lemma parse_event_tokens: "parse_event t \<noteq> None \<longleftrightarrow> t \<in> set all_tokens"
  by (simp add: parse_event_def all_tokens_def)

lemma same_variant_iff: "same_variant k k' \<longleftrightarrow> cli_token k = cli_token k'"
  by (cases k; cases k'; simp)

end
