(* ===== verification/DesktopLookup.thy ===== *)
theory DesktopLookup
  imports Signals Waiting "HOL-Library.Multiset"
begin

text \<open>
  Finding what a command is about: the calls of the adapter trait that list windows and
  applications and read the desktop (\<open>adapter/observation.rs\<close>, \<open>adapter/system.rs\<close>), the
  application (\<open>app_lookup.rs\<close>), the window (\<open>window_lookup.rs\<close>), and the confirmation that a
  window has got the focus (\<open>window_focus.rs\<close>).  Wherever more than one candidate is left the code
  asks instead of guessing.
\<close>

section \<open>The desktop\<close>

record window_filter =
  wf_focused_only :: bool
  wf_app :: "string option"

record signal_filter =
  sf_app :: "string option"
  sf_process :: "process_identity option"

record notification_info =
  nt_index :: nat
  nt_app_name :: string
  nt_title :: string
  nt_body :: "string option"
  nt_actions :: "string list"

record notification_filter =
  nf_app :: "string option"
  nf_text :: "string option"
  nf_limit :: "nat option"

record 'w desktop =
  dk_platform :: "'w platform"
  dk_list_windows :: "window_filter \<Rightarrow> deadline \<Rightarrow> 'w \<Rightarrow> (adapter_error + window_info list) \<times> 'w"
  dk_list_apps_scoped :: "string \<Rightarrow> string option \<Rightarrow> deadline \<Rightarrow> 'w \<Rightarrow> (adapter_error + app_info list) \<times> 'w"
  dk_focused_window :: "deadline \<Rightarrow> 'w \<Rightarrow> (adapter_error + window_info option) \<times> 'w"
  dk_capture_signal_baseline :: "signal_filter \<Rightarrow> deadline \<Rightarrow> 'w \<Rightarrow> (adapter_error + signal_baseline) \<times> 'w"
  dk_wait_for_menu :: "process_identity \<Rightarrow> bool \<Rightarrow> deadline \<Rightarrow> 'w \<Rightarrow> (adapter_error + unit) \<times> 'w"
  dk_list_notifications ::
    "notification_filter \<Rightarrow> interaction_policy \<Rightarrow> deadline \<Rightarrow> lease option \<Rightarrow> 'w \<Rightarrow>
       (adapter_error + notification_info list) \<times> 'w"
  dk_get_live_value :: "handle \<Rightarrow> deadline \<Rightarrow> 'w \<Rightarrow> (adapter_error + string option) \<times> 'w"
  dk_get_live_state :: "handle \<Rightarrow> deadline \<Rightarrow> 'w \<Rightarrow> (adapter_error + element_state option) \<times> 'w"

text \<open>A call of the desktop in code whose errors are those of the application.\<close>

definition app_call :: "('w \<Rightarrow> (adapter_error + 'a) \<times> 'w) \<Rightarrow> ('w, app_error, 'a) act" where
  "app_call f = amap_err AppAdapter (call f)"

text \<open>What \<open>list_apps_scoped\<close> does on a platform that only lists all applications.\<close>

definition in_scope :: "string \<Rightarrow> string option \<Rightarrow> app_info \<Rightarrow> bool" where
  "in_scope name bundle a \<longleftrightarrow>
     matches_identifier a name \<and>
     is_none_or bundle (\<lambda>b. is_some_and (app_bundle_id a) (\<lambda>actual. eq_ignore_ascii_case actual b))"

definition list_apps_scoped ::
  "'w platform \<Rightarrow> string \<Rightarrow> string option \<Rightarrow> deadline \<Rightarrow> 'w \<Rightarrow> (adapter_error + app_info list) \<times> 'w" where
  "list_apps_scoped pf name bundle d w =
     (case pf_list_apps pf d w of
        (Inl e, w') \<Rightarrow> (Inl e, w')
      | (Inr apps, w') \<Rightarrow> (Inr (filter (in_scope name bundle) apps), w'))"

section \<open>Applications\<close>

text \<open>A process instance that is there and not empty.\<close>

definition exact_instance :: "string option \<Rightarrow> string option" where
  "exact_instance i = option_filter (\<lambda>s. s \<noteq> []) i"

definition lacks_instance :: "string option \<Rightarrow> bool" where
  "lacks_instance i = is_none_or i (\<lambda>s. s = [])"

definition reject_incomplete_app_identity :: "app_info list \<Rightarrow> string \<Rightarrow> app_error + unit" where
  "reject_incomplete_app_identity candidates label =
     (let incomplete = length (filter (\<lambda>a. lacks_instance (app_instance a)) candidates)
      in if incomplete = 0 then Inr ()
         else Inl (AppAdapter (with_details
           (JObj [(''candidate_count'', JInt (int (length candidates))),
                  (''incomplete_identity_count'', JInt (int incomplete))])
           (new_error ActionNotSupported
             (''Application inventory for '' @ quoted label @ '' has incomplete process identity'')))))"

definition app_summary :: "app_info \<Rightarrow> json" where
  "app_summary a =
     JObj [(''name'', JStr (app_name a)), (''pid'', JInt (uint (app_pid a))),
           (''process_instance'', json_opt JStr (app_instance a))]"

definition candidates_json :: "('a \<Rightarrow> json) \<Rightarrow> 'a list \<Rightarrow> json" where
  "candidates_json summary candidates =
     (let summaries = map summary (take 10 candidates)
      in JObj [(''candidate_count'', JInt (int (length candidates))),
               (''candidate_summaries_truncated'', JBool (length candidates > length summaries)),
               (''candidates'', JArr summaries)])"

definition select_unique_app :: "app_info list \<Rightarrow> string \<Rightarrow> app_error + app_info" where
  "select_unique_app candidates label =
     res_bind (reject_incomplete_app_identity candidates label) (\<lambda>_.
       case candidates of
         [] \<Rightarrow> Inl (AppAdapter (new_error AppNotFound
           (''Application '' @ quoted label @ '' was not found with exact process identity'')))
       | [a] \<Rightarrow> Inr a
       | _ \<Rightarrow> Inl (AppAdapter (with_details (candidates_json app_summary candidates)
           (ambiguous_target_error (''Multiple application instances matched '' @ quoted label)))))"

definition resolve_app_owning :: "'w desktop \<Rightarrow> window_info \<Rightarrow> deadline \<Rightarrow> ('w, app_error, app_info) act" where
  "resolve_app_owning dk v d =
     (case exact_instance (win_instance v) of
        None \<Rightarrow> fail_with (AppAdapter (new_error ActionNotSupported ''Window has no process-instance identity''))
      | Some i \<Rightarrow>
          abind (app_call (dk_list_apps_scoped dk (win_app v) None d)) (\<lambda>apps.
            let same_pid = filter (\<lambda>a. app_pid a = win_pid v) apps
            in abind (lift_res (reject_incomplete_app_identity same_pid (win_app v))) (\<lambda>_.
               lift_res (select_unique_app (filter (\<lambda>a. app_instance a = Some i) same_pid) (win_app v)))))"

definition resolve_app :: "'w desktop \<Rightarrow> string option \<Rightarrow> deadline \<Rightarrow> ('w, app_error, app_info) act" where
  "resolve_app dk app d =
     (case app of
        Some name \<Rightarrow>
          abind (app_call (dk_list_apps_scoped dk name None d)) (\<lambda>apps. lift_res (select_unique_app apps name))
      | None \<Rightarrow>
          abind (app_call (dk_list_windows dk \<lparr>wf_focused_only = True, wf_app = None\<rparr> d)) (\<lambda>focused.
            case focused of
              [] \<Rightarrow> fail_with (AppAdapter (new_error AppNotFound
                ''No focused application was found when --app was omitted''))
            | [v] \<Rightarrow> resolve_app_owning dk v d
            | _ \<Rightarrow> fail_with (AppAdapter (with_details
                (JObj [(''focused_window_count'', JInt (int (length focused)))])
                (ambiguous_target_error ''A unique focused window is required when --app is omitted'')))))"

definition process_identity_of :: "app_info \<Rightarrow> app_error + process_identity" where
  "process_identity_of a =
     (case exact_instance (app_instance a) of
        None \<Rightarrow> Inl (AppAdapter (new_error ActionNotSupported ''Application has no process-instance identity''))
      | Some i \<Rightarrow> Inr \<lparr>identity_pid = app_pid a, identity_instance = i\<rparr>)"

definition same_application :: "app_info \<Rightarrow> process_identity \<Rightarrow> app_info \<Rightarrow> bool" where
  "same_application expected p a \<longleftrightarrow>
     app_instance a = Some (identity_instance p) \<and> app_name_matches (app_name a) (app_name expected) \<and>
     is_none_or (app_bundle_id expected) (\<lambda>b.
       is_some_and (app_bundle_id a) (\<lambda>actual. eq_ignore_ascii_case actual b))"

definition revalidate_app_for_mutation :: "'w desktop \<Rightarrow> app_info \<Rightarrow> deadline \<Rightarrow> ('w, app_error, app_info) act" where
  "revalidate_app_for_mutation dk expected d =
     abind (lift_res (process_identity_of expected)) (\<lambda>p.
     abind (app_call (dk_list_apps_scoped dk (app_name expected) (app_bundle_id expected) d)) (\<lambda>apps.
       let same_pid = filter (\<lambda>a. app_pid a = app_pid expected) apps
       in abind (lift_res (reject_incomplete_app_identity same_pid (app_name expected))) (\<lambda>_.
          let exact = filter (same_application expected p) same_pid
          in case exact of
               [a] \<Rightarrow> ret a
             | [] \<Rightarrow> fail_with (AppAdapter (new_error StaleRef ''Application identity changed before mutation''))
             | _ \<Rightarrow> fail_with (AppAdapter (with_details
                 (JObj [(''candidate_count'', JInt (int (length exact)))])
                 (ambiguous_target_error ''Multiple exact application identities remained before mutation''))))))"

section \<open>Windows\<close>

definition window_focused :: "window_info \<Rightarrow> bool" where
  "window_focused v = is_focused (win_state v)"

definition window_visible :: "window_info \<Rightarrow> bool" where
  "window_visible v \<longleftrightarrow> win_visible (win_state v) = Some True"

definition window_summary :: "window_info \<Rightarrow> json" where
  "window_summary v =
     JObj [(''id'', JStr (win_id v)), (''title'', JStr (win_title v)), (''is_focused'', JBool (window_focused v)),
           (''visible'', json_opt JBool (win_visible (win_state v)))]"

text \<open>The candidates with a property, if any has it.\<close>

definition prefer_those :: "(window_info \<Rightarrow> bool) \<Rightarrow> window_info list \<Rightarrow> window_info list" where
  "prefer_those p candidates = (if list_ex p candidates then filter p candidates else candidates)"

definition sole :: "'a list \<Rightarrow> 'a option" where
  "sole xs = (case xs of [x] \<Rightarrow> Some x | _ \<Rightarrow> None)"

definition sug_pick_window :: string where
  "sug_pick_window = ''Run 'list-windows' and retry with --window-id <id>.''"

definition select_window :: "window_info list \<Rightarrow> adapter_error \<Rightarrow> string \<Rightarrow> app_error + window_info" where
  "select_window candidates empty_error ambiguous =
     (if candidates = [] then Inl (AppAdapter empty_error)
      else case sole candidates of
        Some v \<Rightarrow> Inr v
      | None \<Rightarrow>
          (let reachable = prefer_those (\<lambda>v. accessible (win_state v)) candidates
           in case sole reachable of
                Some v \<Rightarrow> Inr v
              | None \<Rightarrow>
                  (let shown = prefer_those window_visible reachable
                   in case sole shown of
                        Some v \<Rightarrow> Inr v
                      | None \<Rightarrow>
                          (case sole (filter window_focused shown) of
                             Some v \<Rightarrow> Inr v
                           | None \<Rightarrow> Inl (AppAdapter (with_details (candidates_json window_summary shown)
                               (with_suggestion sug_pick_window
                                 (ambiguous_target_error ambiguous))))))))"

definition find_window_for_process :: "'w desktop \<Rightarrow> process_identity \<Rightarrow> deadline \<Rightarrow> ('w, app_error, window_info) act" where
  "find_window_for_process dk p d =
     abind (app_call (dk_list_windows dk \<lparr>wf_focused_only = False, wf_app = None\<rparr> d)) (\<lambda>vs.
       let same_pid = filter (\<lambda>v. win_pid v = identity_pid p) vs;
           incomplete = length (filter (\<lambda>v. lacks_instance (win_instance v)) same_pid)
       in if incomplete > 0 then
            fail_with (AppAdapter (with_details
              (JObj [(''candidate_count'', JInt (int (length same_pid))),
                     (''incomplete_identity_count'', JInt (int incomplete))])
              (new_error ActionNotSupported ''Window inventory has incomplete process identity'')))
          else lift_res (select_window (filter (\<lambda>v. win_instance v = Some (identity_instance p)) same_pid)
            (new_error WindowNotFound ''No window found for the selected process instance'')
            ''Multiple windows matched the selected process instance''))"

text \<open>
  A menu or an alert belongs to the application: any window of it will do, the first focused one
  first, then the first visible one.
\<close>

definition select_surface_owner :: "window_info list \<Rightarrow> adapter_error \<Rightarrow> app_error + window_info" where
  "select_surface_owner candidates empty_error =
     (case candidates of
        [] \<Rightarrow> Inl (AppAdapter empty_error)
      | v # _ \<Rightarrow>
          (case find window_focused candidates of
             Some f \<Rightarrow> Inr f
           | None \<Rightarrow> (case find window_visible candidates of Some s \<Rightarrow> Inr s | None \<Rightarrow> Inr v)))"

definition surface_owner_order :: "window_info list \<Rightarrow> window_info list" where
  "surface_owner_order candidates = sort_key (\<lambda>v. (\<not> window_focused v, \<not> window_visible v)) candidates"

section \<open>Waiting for the focus\<close>

definition FOCUS_SETTLE_TIMEOUT :: nat where "FOCUS_SETTLE_TIMEOUT = 750 * ns_per_ms"
definition FOCUS_POLL_INTERVAL :: nat where "FOCUS_POLL_INTERVAL = 50 * ns_per_ms"
definition FOCUS_CONFIRMATIONS :: nat where "FOCUS_CONFIRMATIONS = 2"

definition observed_focused_window ::
  "'w desktop \<Rightarrow> string option \<Rightarrow> deadline \<Rightarrow> ('w, app_error, window_info option) act" where
  "observed_focused_window dk app d =
     abind (attempt (call (dk_focused_window dk d))) (\<lambda>r.
       case r of
         Inr v \<Rightarrow> ret v
       | Inl e \<Rightarrow>
           if err_code e = PlatformNotSupported then
             abind (app_call (dk_list_windows dk \<lparr>wf_focused_only = True, wf_app = app\<rparr> d)) (\<lambda>vs.
               ret (case vs of [] \<Rightarrow> None | v # _ \<Rightarrow> Some v))
           else fail_with (AppAdapter e))"

definition sug_refresh_windows :: string where
  "sug_refresh_windows = ''Run 'list-windows' to refresh window IDs, then retry.''"

definition focus_pause :: "'w platform \<Rightarrow> nat \<Rightarrow> deadline \<Rightarrow> nat \<Rightarrow> ('w, app_error, (nat, window_info) flow) act" where
  "focus_pause pf poll d confirmations =
     abind (check_expired pf d) (\<lambda>expired.
       if expired then
         fail_with (AppAdapter (with_suggestion sug_refresh_windows
           (new_error ActionFailed ''Window focus did not settle on the requested window'')))
       else abind (if poll \<noteq> 0 then sleep_left pf d poll else ret ()) (\<lambda>_. ret (Continue confirmations)))"

definition focus_round ::
  "'w desktop \<Rightarrow> string \<Rightarrow> string option \<Rightarrow> nat \<Rightarrow> deadline \<Rightarrow> nat \<Rightarrow> ('w, app_error, (nat, window_info) flow) act" where
  "focus_round dk window_id app poll d confirmations =
     abind (attempt (observed_focused_window dk app d)) (\<lambda>r.
       let again = focus_pause (dk_platform dk) poll d
       in case r of
            Inr (Some v) \<Rightarrow>
              if win_id v = window_id then
                if confirmations + 1 \<ge> FOCUS_CONFIRMATIONS then ret (Done v) else again (confirmations + 1)
              else again 0
          | Inr None \<Rightarrow> again 0
          | Inl (AppAdapter e) \<Rightarrow> if permits_retry_by_default e then again 0 else fail_with (AppAdapter e)
          | Inl e \<Rightarrow> fail_with e)"

definition wait_for_focused_window ::
  "'w desktop \<Rightarrow> string \<Rightarrow> string option \<Rightarrow> nat \<Rightarrow> deadline \<Rightarrow> ('w, app_error, window_info) act" where
  "wait_for_focused_window dk window_id app poll parent =
     abind (cap_deadline (dk_platform dk) FOCUS_SETTLE_TIMEOUT parent) (\<lambda>d.
       loop (focus_round dk window_id app poll d) 0)"

definition focus_and_confirm :: "'w desktop \<Rightarrow> window_info \<Rightarrow> lease \<Rightarrow> ('w, app_error, window_info) act" where
  "focus_and_confirm dk v l =
     abind (app_call (pf_focus_window (dk_platform dk) v l)) (\<lambda>_.
       wait_for_focused_window dk (win_id v) (Some (win_app v)) FOCUS_POLL_INTERVAL (lease_deadline l))"

section \<open>Unique applications\<close>

lemma lacks_instance_iff: "lacks_instance i \<longleftrightarrow> exact_instance i = None"
  by (cases i) (auto simp: lacks_instance_def exact_instance_def)

lemma complete_identities:
  "reject_incomplete_app_identity as label = Inr u \<longleftrightarrow> (\<forall>a \<in> set as. exact_instance (app_instance a) \<noteq> None)"
  by (auto simp: reject_incomplete_app_identity_def Let_def filter_empty_conv lacks_instance_iff)

lemma select_unique_app_Inr:
  "select_unique_app as label = Inr a \<longleftrightarrow> as = [a] \<and> exact_instance (app_instance a) \<noteq> None"
  by (auto simp: select_unique_app_def complete_identities split: list.splits)

section \<open>Unique windows\<close>

lemma sole_iff: "sole xs = Some x \<longleftrightarrow> xs = [x]"
  by (auto simp: sole_def split: list.splits)

lemma prefer_those_sole [simp]: "prefer_those p [v] = [v]"
  by (simp add: prefer_those_def)

lemma prefer_those_subset: "set (prefer_those p xs) \<subseteq> set xs"
  by (auto simp: prefer_those_def)

definition preferred :: "window_info list \<Rightarrow> window_info list" where
  "preferred cs = prefer_those window_visible (prefer_those (\<lambda>v. accessible (win_state v)) cs)"

lemma either_Inr: "(case x of None \<Rightarrow> r | Some u \<Rightarrow> Inr u) = Inr v \<longleftrightarrow> x = Some v \<or> x = None \<and> r = Inr v"
  by (cases x) auto

lemma if_not_Inr: "(if b then Inl e else r) = Inr v \<longleftrightarrow> \<not> b \<and> r = Inr v"
  by simp

lemma select_window_Inr:
  "select_window cs e m = Inr v \<longleftrightarrow>
     sole (preferred cs) = Some v \<or> sole (filter window_focused (preferred cs)) = Some v"
proof -
  let ?r = "prefer_those (\<lambda>v. accessible (win_state v)) cs"
  have 1: "sole ?r = Some u \<Longrightarrow> sole (preferred cs) = Some u" for u by (auto simp: preferred_def sole_iff)
  have 2: "sole cs = Some u \<Longrightarrow> sole ?r = Some u" for u by (auto simp: sole_iff)
  have 3: "sole xs = Some u \<Longrightarrow> sole (filter window_focused xs) = Some v \<Longrightarrow> u = v" for u and xs :: "window_info list"
    by (auto simp: sole_iff split: if_splits)
  have 4: "sole (preferred []) = None" "sole (filter window_focused (preferred [])) = None"
    by (simp_all add: preferred_def prefer_those_def sole_def)
  have "select_window cs e m = Inr v \<longleftrightarrow>
      cs \<noteq> [] \<and> (sole cs = Some v \<or> sole cs = None \<and> (sole ?r = Some v \<or> sole ?r = None \<and>
        (sole (preferred cs) = Some v \<or> sole (preferred cs) = None \<and>
          sole (filter window_focused (preferred cs)) = Some v)))"
    unfolding select_window_def Let_def preferred_def [symmetric] either_Inr if_not_Inr by simp
  then show ?thesis using 1 2 3 [of "preferred cs"] 4 by (metis not_None_eq option.sel)
qed

lemma select_window_Inl:
  "select_window cs e m = Inl err \<Longrightarrow>
     if cs = [] then err = AppAdapter e
     else \<exists>ae. err = AppAdapter ae \<and> err_code ae = AmbiguousTarget \<and>
       err_details ae = Some (candidates_json window_summary (preferred cs))"
  by (auto simp: select_window_def preferred_def ambiguous_target_error_def Let_def split: option.splits)

text \<open>
  Which windows are left after preferring accessible and then visible ones, as a multiset: how the
  platform orders the windows is not part of it.
\<close>

definition narrowed :: "(window_info \<Rightarrow> bool) \<Rightarrow> window_info multiset \<Rightarrow> window_info multiset" where
  "narrowed p C = (if \<exists>v. v \<in># C \<and> p v then filter_mset p C else C)"

definition eligible :: "window_info multiset \<Rightarrow> window_info multiset" where
  "eligible C = narrowed (\<lambda>v. win_visible (win_state v) = Some True) (narrowed (\<lambda>v. accessible (win_state v)) C)"

definition focused_among :: "window_info multiset \<Rightarrow> window_info multiset" where
  "focused_among C = filter_mset (\<lambda>v. is_focused (win_state v)) C"

lemma mset_preferred: "mset (preferred cs) = eligible (mset cs)"
proof -
  have "mset (prefer_those p xs) = narrowed p (mset xs)" for p xs
    by (auto simp: prefer_those_def narrowed_def list_ex_iff mset_filter)
  then show ?thesis by (simp add: preferred_def eligible_def window_visible_def [abs_def])
qed

lemma chosen_window:
  "select_window cs e m = Inr v \<longleftrightarrow>
     eligible (mset cs) = {#v#} \<or> focused_among (eligible (mset cs)) = {#v#}"
proof -
  have "mset (filter window_focused (preferred cs)) = focused_among (eligible (mset cs))"
    by (simp add: focused_among_def mset_preferred [symmetric] mset_filter window_focused_def [abs_def])
  then show ?thesis
    unfolding select_window_Inr sole_iff mset_preferred [symmetric] by (metis mset_single_iff)
qed

text \<open>
  C18. Which window a command is about does not depend on the order in which the platform lists the
  windows.  Accessible windows are preferred if there are any, and visible ones among those if there
  are any; a window is chosen exactly when it is the only one left or the only focused one left.
  Otherwise the answer is an error: the caller's when there was no window, and an ambiguous target
  that counts the windows left when there were several.
\<close>

theorem window_choice_ignores_order:
  "case select_window cs e m of
     Inr v \<Rightarrow> eligible (mset cs) = {#v#} \<or> focused_among (eligible (mset cs)) = {#v#}
   | Inl err \<Rightarrow>
       (\<forall>v. eligible (mset cs) \<noteq> {#v#} \<and> focused_among (eligible (mset cs)) \<noteq> {#v#}) \<and>
       (if mset cs = {#} then err = AppAdapter e
        else \<exists>ae j. err = AppAdapter ae \<and> err_code ae = AmbiguousTarget \<and> err_details ae = Some j \<and>
          json_index j ''candidate_count'' = JInt (int (size (eligible (mset cs)))))"
proof (cases "select_window cs e m")
  case (Inl err)
  have "size (eligible (mset cs)) = length (preferred cs)" by (metis mset_preferred size_mset)
  then have "json_index (candidates_json window_summary (preferred cs)) ''candidate_count'' =
      JInt (int (size (eligible (mset cs))))"
    by (simp add: candidates_json_def json_index_def Let_def)
  then show ?thesis
    using select_window_Inl [OF Inl] chosen_window [of cs e m] Inl by (auto split: if_splits)
next
  case (Inr v)
  then show ?thesis using chosen_window [of cs e m v] by simp
qed

definition sample_window :: "string \<Rightarrow> bool \<Rightarrow> window_info" where
  "sample_window i focused =
     \<lparr>win_id = i, win_title = ''Notes'', win_app = ''Notes'', win_pid = 7, win_instance = Some ''boot-1'',
      win_bounds = None, win_state = default_window_state\<lparr>is_focused := focused, win_visible := Some True\<rparr>\<rparr>"

theorem window_choice_ignores_order_witness:
  "select_window [sample_window ''w-1'' False, sample_window ''w-2'' True] (internal_error []) [] =
     Inr (sample_window ''w-2'' True)"
proof -
  let ?cs = "[sample_window ''w-1'' False, sample_window ''w-2'' True]"
  have e: "eligible (mset ?cs) = mset ?cs"
    by (simp add: eligible_def narrowed_def sample_window_def default_window_state_def)
  have f: "focused_among (eligible (mset ?cs)) = {#sample_window ''w-2'' True#}"
    unfolding e by (simp add: focused_among_def sample_window_def)
  have n: "eligible (mset ?cs) \<noteq> {#v#}" for v
    unfolding e by (metis One_nat_def length_Cons list.size(3) n_not_Suc_n size_mset size_single)
  show ?thesis
    using window_choice_ignores_order [of ?cs "internal_error []" "[]"] n f
    by (cases "select_window ?cs (internal_error []) []") auto
qed

section \<open>The focus is confirmed\<close>

definition timed_desktop :: "('w \<Rightarrow> nat) \<Rightarrow> 'w desktop \<Rightarrow> bool" where
  "timed_desktop tm dk \<longleftrightarrow>
     timed tm (dk_platform dk) \<and>
     (\<forall>f d. later tm (dk_list_windows dk f d)) \<and>
     (\<forall>n b d. later tm (dk_list_apps_scoped dk n b d)) \<and>
     (\<forall>d. later tm (dk_focused_window dk d)) \<and>
     (\<forall>f d. later tm (dk_capture_signal_baseline dk f d)) \<and>
     (\<forall>p b d. later tm (dk_wait_for_menu dk p b d)) \<and>
     (\<forall>f p d l. later tm (dk_list_notifications dk f p d l)) \<and>
     (\<forall>h d. later tm (dk_get_live_value dk h d)) \<and>
     (\<forall>h d. later tm (dk_get_live_state dk h d))"

lemma timed_desktop_calls [terminating]:
  assumes "timed_desktop tm dk"
  shows "timed tm (dk_platform dk)" "later tm (dk_list_windows dk f d)"
    "later tm (dk_list_apps_scoped dk n b d)" "later tm (dk_focused_window dk d)"
    "later tm (dk_capture_signal_baseline dk sf d)" "later tm (dk_wait_for_menu dk p opened d)"
    "later tm (dk_list_notifications dk nf pol d l)" "later tm (dk_get_live_value dk h d)"
    "later tm (dk_get_live_state dk h d)"
  using assms by (simp_all add: timed_desktop_def)

lemma terminates_app_call [terminating]: "later tm f \<Longrightarrow> terminates tm (app_call f)"
  unfolding app_call_def by (intro terminating)

lemma terminates_resolve_app [terminating]:
  assumes "timed_desktop tm dk"
  shows "terminates tm (resolve_app_owning dk v d)" "terminates tm (resolve_app dk app d)"
    "terminates tm (find_window_for_process dk p d)" "terminates tm (revalidate_app_for_mutation dk a d)"
  unfolding resolve_app_def resolve_app_owning_def find_window_for_process_def revalidate_app_for_mutation_def Let_def
  by (intro terminating assms)+

lemma terminates_observed_focus [terminating]:
  "timed_desktop tm dk \<Longrightarrow> terminates tm (observed_focused_window dk app d)"
  unfolding observed_focused_window_def by (intro terminating)

lemma terminates_focus_pause [terminating]: "timed tm pf \<Longrightarrow> terminates tm (focus_pause pf poll d n)"
  unfolding focus_pause_def by (intro terminating)

lemma terminates_focus_round [terminating]:
  "timed_desktop tm dk \<Longrightarrow> terminates tm (focus_round dk i app poll d n)"
  unfolding focus_round_def Let_def by (intro terminating) (auto intro!: terminating split: app_error.split)

lemma moves_focus_pause [moving]:
  "timed tm pf \<Longrightarrow> 0 < poll \<Longrightarrow> moves tm (expires_at d) (focus_pause pf poll d n)"
  unfolding focus_pause_def by simp (intro moving)

lemma moves_focus_round:
  assumes "timed_desktop tm dk" "0 < poll"
  shows "moves tm (expires_at d) (focus_round dk i app poll d n)"
proof -
  have p: "moves tm (expires_at d) (focus_pause (dk_platform dk) poll d n)" for n
    by (intro moving terminating assms)
  show ?thesis
    unfolding focus_round_def Let_def
    by (rule moves_bind, intro terminating assms)
      (auto intro!: moving p split: sum.split option.split app_error.split)
qed

lemma terminates_wait_focus [terminating]:
  "timed_desktop tm dk \<Longrightarrow> 0 < poll \<Longrightarrow> terminates tm (wait_for_focused_window dk i app poll parent)"
  unfolding wait_for_focused_window_def cap_deadline_def
  by (intro terminating terminates_waiting) (auto intro: moves_focus_round)

lemma terminates_focus_and_confirm:
  "timed_desktop tm dk \<Longrightarrow> terminates tm (focus_and_confirm dk v l)"
  unfolding focus_and_confirm_def
  by (intro terminating) (simp_all add: FOCUS_POLL_INTERVAL_def ns_per_ms_def)

text \<open>
  \<open>confirmed\<close>: two observations with nothing but a pause between them, made before the deadline had
  passed at the pause, both showing the window.
\<close>

definition confirmed :: "'w desktop \<Rightarrow> string \<Rightarrow> string option \<Rightarrow> nat \<Rightarrow> deadline \<Rightarrow> window_info \<Rightarrow> 'w \<Rightarrow> bool" where
  "confirmed dk i app poll d v w' \<longleftrightarrow>
     (\<exists>w1 w2 w3 u.
        observed_focused_window dk app d w1 = Some (Inr (Some u), w2) \<and> win_id u = i \<and>
        focus_pause (dk_platform dk) poll d 1 w2 = Some (Inr (Continue 1), w3) \<and>
        observed_focused_window dk app d w3 = Some (Inr (Some v), w') \<and> win_id v = i)"

definition seen_once :: "'w desktop \<Rightarrow> string \<Rightarrow> string option \<Rightarrow> nat \<Rightarrow> deadline \<Rightarrow> nat \<Rightarrow> 'w \<Rightarrow> bool" where
  "seen_once dk i app poll d n w \<longleftrightarrow>
     n = 0 \<or> n = 1 \<and>
       (\<exists>w1 w2 u. observed_focused_window dk app d w1 = Some (Inr (Some u), w2) \<and> win_id u = i \<and>
          focus_pause (dk_platform dk) poll d 1 w2 = Some (Inr (Continue 1), w))"

lemma focus_pause_continues: "focus_pause pf poll d n w = Some (Inr f, w') \<Longrightarrow> f = Continue n"
  unfolding focus_pause_def by (auto elim!: abind_InrE split: if_splits)

lemma focus_round_seen:
  "hoare (seen_once dk i app poll d n) (focus_round dk i app poll d n)
     (\<lambda>r w. case r of Inl _ \<Rightarrow> True | Inr (Continue n') \<Rightarrow> seen_once dk i app poll d n' w
       | Inr (Done v) \<Rightarrow> confirmed dk i app poll d v w)"
  unfolding hoare_def
proof (intro allI impI)
  fix w r w' assume seen: "seen_once dk i app poll d n w"
    and run: "focus_round dk i app poll d n w = Some (r, w')"
  show "case r of Inl _ \<Rightarrow> True | Inr (Continue n') \<Rightarrow> seen_once dk i app poll d n' w'
       | Inr (Done v) \<Rightarrow> confirmed dk i app poll d v w'"
  proof (cases r)
    case (Inr f)
    from run obtain x w1 where x: "observed_focused_window dk app d w = Some (x, w1)"
      and rest: "(case x of
            Inr (Some v) \<Rightarrow>
              if win_id v = i then
                if n + 1 \<ge> FOCUS_CONFIRMATIONS then ret (Done v) else focus_pause (dk_platform dk) poll d (n + 1)
              else focus_pause (dk_platform dk) poll d 0
          | Inr None \<Rightarrow> focus_pause (dk_platform dk) poll d 0
          | Inl (AppAdapter e) \<Rightarrow>
              if permits_retry_by_default e then focus_pause (dk_platform dk) poll d 0 else fail_with (AppAdapter e)
          | Inl e \<Rightarrow> fail_with e) w1 = Some (Inr f, w')"
      unfolding Inr focus_round_def Let_def by (elim abind_InrE) (auto simp: attempt_Some_iff)
    show ?thesis
    proof (cases "\<exists>v. x = Inr (Some v) \<and> win_id v = i")
      case True
      then obtain v where v: "x = Inr (Some v)" "win_id v = i" by blast
      from seen consider "n = 0" | "n = 1" by (auto simp: seen_once_def)
      then show ?thesis
      proof cases
        case 1
        then have p: "focus_pause (dk_platform dk) poll d 1 w1 = Some (Inr f, w')"
          using rest v by (simp add: FOCUS_CONFIRMATIONS_def)
        have "f = Continue 1" using focus_pause_continues [OF p] .
        then show ?thesis using p x v Inr by (auto simp: seen_once_def)
      next
        case 2
        then have "f = Done v \<and> w' = w1" using rest v by (simp add: FOCUS_CONFIRMATIONS_def)
        then show ?thesis using seen 2 x v Inr unfolding seen_once_def confirmed_def by auto
      qed
    next
      case False
      then have "focus_pause (dk_platform dk) poll d 0 w1 = Some (Inr f, w')"
        using rest by (auto split: sum.splits option.splits app_error.splits if_splits)
      then show ?thesis using Inr focus_pause_continues by (fastforce simp: seen_once_def)
    qed
  qed simp
qed

lemma focus_loop_confirmed:
  "hoare (seen_once dk i app poll d n) (loop (focus_round dk i app poll d) n)
     (\<lambda>r w. case r of Inl _ \<Rightarrow> True | Inr v \<Rightarrow> confirmed dk i app poll d v w)"
  by (rule hoare_loop, rule hoare_weaken [OF focus_round_seen]) (auto split: sum.splits flow.splits)

text \<open>
  C17. A window is reported as focused only when two consecutive observations show it so: the
  request to focus it has succeeded, and the last two looks at the desktop, with only a pause
  before the deadline between them, both found exactly that window focused.
\<close>

theorem focus_is_confirmed_twice:
  "case focus_and_confirm dk v l w of
     Some (Inr u, w') \<Rightarrow>
       (\<exists>d w1. pf_focus_window (dk_platform dk) v l w = (Inr (), w1) \<and>
          expires_at d \<le> expires_at (lease_deadline l) \<and>
          confirmed dk (win_id v) (Some (win_app v)) FOCUS_POLL_INTERVAL d u w')
   | _ \<Rightarrow> True"
proof -
  have "\<exists>d w1. pf_focus_window (dk_platform dk) v l w = (Inr (), w1) \<and>
      expires_at d \<le> expires_at (lease_deadline l) \<and>
      confirmed dk (win_id v) (Some (win_app v)) FOCUS_POLL_INTERVAL d u w'"
    if run: "focus_and_confirm dk v l w = Some (Inr u, w')" for u w'
  proof -
    from run obtain w1 d w2
      where f: "pf_focus_window (dk_platform dk) v l w = (Inr (), w1)"
        and d: "cap_deadline (dk_platform dk) FOCUS_SETTLE_TIMEOUT (lease_deadline l) w1 = Some (Inr d :: app_error + deadline, w2)"
        and lp: "loop (focus_round dk (win_id v) (Some (win_app v)) FOCUS_POLL_INTERVAL d) 0 w2 = Some (Inr u, w')"
      unfolding focus_and_confirm_def wait_for_focused_window_def app_call_def
      by (auto elim!: abind_InrE simp: amap_err_Some_iff)
    from d have "expires_at d \<le> expires_at (lease_deadline l)"
      unfolding cap_deadline_def
      by (auto elim!: abind_InrE simp: deadline_capped_def Let_def split: option.splits)
    moreover have "confirmed dk (win_id v) (Some (win_app v)) FOCUS_POLL_INTERVAL d u w'"
      using hoareD [OF focus_loop_confirmed _ lp] by (simp add: seen_once_def)
    ultimately show ?thesis using f by blast
  qed
  then show ?thesis by (auto split: option.split sum.split prod.split)
qed

end
