(* ===== verification/WaitElement.thy ===== *)
theory WaitElement
  imports DesktopLookup
begin

text \<open>
  Waiting for an element: the predicates and what reading them gives
  (\<open>commands/wait_predicate.rs\<close>), the timeouts of all waits (\<open>commands/wait_timeout.rs\<close>) and the
  loop (\<open>commands/wait_element.rs\<close>), which starts with the ref entry that the store has handed out.
\<close>

section \<open>Predicates\<close>

datatype element_predicate = Exists | Enabled | Visible | Actionable action_request | HasValue string

fun predicate_name :: "element_predicate \<Rightarrow> string" where
  "predicate_name Exists = ''exists''"
| "predicate_name Enabled = ''enabled''"
| "predicate_name Visible = ''visible''"
| "predicate_name (Actionable _) = ''actionable''"
| "predicate_name (HasValue _) = ''value''"

definition reject_unused_value :: "string option \<Rightarrow> app_error + unit" where
  "reject_unused_value v =
     (if v = None then Inr ()
      else Inl (invalid_input_with_suggestion ''--value is only valid with --predicate value''
        ''Remove --value or use --predicate value.''))"

definition reject_unused_action :: "string option \<Rightarrow> app_error + unit" where
  "reject_unused_action a =
     (if a = None then Inr ()
      else Inl (invalid_input_with_suggestion ''--action is only valid with --predicate actionable''
        ''Remove --action or use --predicate actionable.''))"

definition parse_actionability_action :: "string option \<Rightarrow> app_error + action_request" where
  "parse_actionability_action a =
     (let name = unwrap_or a ''click''
      in if name = ''click'' then Inr (headless_request Click)
         else if name = ''type'' then Inr (headless_request (TypeText []))
         else if name = ''set-value'' then Inr (headless_request (SetValue []))
         else if name = ''clear'' then Inr (headless_request Clear)
         else Inl (invalid_input_with_suggestion (''Unknown actionability action '' @ quoted name)
           ''Use one of: click, type, set-value, clear.''))"

definition parse_predicate :: "string option \<Rightarrow> string option \<Rightarrow> string option \<Rightarrow> app_error + element_predicate" where
  "parse_predicate predicate v a =
     (let name = unwrap_or predicate ''exists'';
          plain = (\<lambda>p. res_bind (reject_unused_value v) (\<lambda>_. res_bind (reject_unused_action a) (\<lambda>_. Inr p)))
      in if name = ''exists'' then plain Exists
         else if name = ''enabled'' then plain Enabled
         else if name = ''visible'' then plain Visible
         else if name = ''actionable'' then
           res_bind (reject_unused_value v) (\<lambda>_.
             res_bind (parse_actionability_action a) (\<lambda>r. Inr (Actionable r)))
         else if name = ''value'' then
           res_bind (reject_unused_action a) (\<lambda>_.
             ok_or (map_option HasValue v)
               (invalid_input_with_suggestion ''--predicate value requires --value''
                  ''Pass --value <expected> with --predicate value.''))
         else Inl (invalid_input_with_suggestion (''Unknown wait predicate '' @ quoted name)
           ''Use one of: exists, enabled, visible, actionable, value.''))"

section \<open>Reading a predicate\<close>

definition is_live_read_unsupported :: "adapter_error \<Rightarrow> bool" where
  "is_live_read_unsupported e \<longleftrightarrow> err_code e = PlatformNotSupported \<or> err_code e = ActionNotSupported"

definition optional_live_read :: "('w, adapter_error, 'a option) act \<Rightarrow> ('w, adapter_error, 'a option) act" where
  "optional_live_read m =
     abind (attempt m) (\<lambda>r.
       case r of
         Inr v \<Rightarrow> ret v
       | Inl e \<Rightarrow> if is_live_read_unsupported e then ret None else fail_with e)"

definition observe_enabled :: "'w desktop \<Rightarrow> handle \<Rightarrow> deadline \<Rightarrow> ('w, adapter_error, json) act" where
  "observe_enabled dk h d =
     abind (optional_live_read (call (dk_get_live_state dk h d))) (\<lambda>st.
       let enabled = Option.bind st st_enabled
       in ret (JObj [(''enabled'', json_opt JBool enabled), (''applicable'', JBool (enabled \<noteq> None))]))"

definition live_visibility :: "live_element \<Rightarrow> visibility_evidence" where
  "live_visibility live =
     \<lparr>vis_bounds = le_bounds live, vis_states = st_states (le_state live),
      vis_bounds_from_live = le_bounds live \<noteq> None, vis_states_from_live = True\<rparr>"

definition observe_visible :: "'w desktop \<Rightarrow> handle \<Rightarrow> deadline \<Rightarrow> ('w, adapter_error, json) act" where
  "observe_visible dk h d =
     abind (call (pf_get_live_element (dk_platform dk) h d)) (\<lambda>live.
       ret (JObj [(''visible'', JBool (visibility_result (live_visibility live))),
                  (''applicable'', JBool (visibility_applicable (live_visibility live)))]))"

definition observe_actionable ::
  "fx \<Rightarrow> 'w desktop \<Rightarrow> ref_entry \<Rightarrow> handle \<Rightarrow> action_request \<Rightarrow> deadline \<Rightarrow> stability_expectation \<Rightarrow>
     ('w, adapter_error, json) act" where
  "observe_actionable fx dk e h req d sx =
     abind (attempt (check_live_with_stability fx (dk_platform dk) e h d req sx)) (\<lambda>r.
       case r of
         Inr report \<Rightarrow> ret (report_json report)
       | Inl err \<Rightarrow>
           if err_code err = ActionFailed then
             (case err_details err of
                Some report \<Rightarrow> ret report
              | None \<Rightarrow> ret (JObj [(''actionable'', JBool False), (''error'', JStr (err_message err))]))
           else fail_with err)"

definition observe_value :: "'w desktop \<Rightarrow> handle \<Rightarrow> string \<Rightarrow> deadline \<Rightarrow> ('w, adapter_error, json) act" where
  "observe_value dk h expected d =
     abind (optional_live_read (call (dk_get_live_value dk h d))) (\<lambda>observed.
       ret (JObj [(''matched'', JBool (observed = Some expected)),
                  (''value_present'', JBool (observed \<noteq> None)),
                  (''value_chars'', json_opt (\<lambda>v. JInt (int (length (code_points v)))) observed),
                  (''expected_chars'', JInt (int (length (code_points expected))))]))"

fun observe ::
  "fx \<Rightarrow> 'w desktop \<Rightarrow> ref_entry \<Rightarrow> handle \<Rightarrow> element_predicate \<Rightarrow> deadline \<Rightarrow> stability_expectation \<Rightarrow>
     ('w, adapter_error, json) act" where
  "observe fx dk e h Exists d sx = ret (JObj [(''exists'', JBool True)])"
| "observe fx dk e h Enabled d sx = observe_enabled dk h d"
| "observe fx dk e h Visible d sx = observe_visible dk h d"
| "observe fx dk e h (Actionable req) d sx = observe_actionable fx dk e h req d sx"
| "observe fx dk e h (HasValue expected) d sx = observe_value dk h expected d"

fun satisfied :: "element_predicate \<Rightarrow> json \<Rightarrow> bool" where
  "satisfied Exists j \<longleftrightarrow> json_as_bool (json_index j ''exists'') = Some True"
| "satisfied Enabled j \<longleftrightarrow> json_as_bool (json_index j ''enabled'') = Some True"
| "satisfied Visible j \<longleftrightarrow> json_as_bool (json_index j ''visible'') = Some True"
| "satisfied (Actionable _) j \<longleftrightarrow> json_as_bool (json_index j ''actionable'') = Some True"
| "satisfied (HasValue _) j \<longleftrightarrow> json_as_bool (json_index j ''matched'') = Some True"

section \<open>Timeouts\<close>

definition wait_timeout_err :: "string \<Rightarrow> json \<Rightarrow> app_error" where
  "wait_timeout_err message details =
     AppAdapter (with_details (json_insert ''kind'' (JStr ''wait_timeout'') details) (timeout_error_msg message))"

definition ms_text :: "u64 \<Rightarrow> string" where
  "ms_text timeout_ms = show_nat (unat timeout_ms) @ ''ms''"

definition chars_text :: "string \<Rightarrow> string" where
  "chars_text s = '' ('' @ show_nat (length (code_points s)) @ '' chars) ''"

definition element_timeout :: "string \<Rightarrow> element_predicate \<Rightarrow> u64 \<Rightarrow> json \<Rightarrow> app_error" where
  "element_timeout ref_id predicate timeout_ms last_observed =
     wait_timeout_err
       (''Element '' @ ref_id @ '' did not satisfy predicate '' @ quoted (predicate_name predicate) @
        '' within '' @ ms_text timeout_ms)
       (JObj [(''ref'', JStr ref_id), (''predicate'', JStr (predicate_name predicate)),
              (''timeout_ms'', JInt (uint timeout_ms)), (''last_observed'', last_observed)])"

definition with_last_error :: "json \<Rightarrow> json option \<Rightarrow> json" where
  "with_last_error details last_error =
     (case last_error of None \<Rightarrow> details | Some e \<Rightarrow> json_insert ''last_error'' e details)"

definition window_timeout :: "string \<Rightarrow> string option \<Rightarrow> u64 \<Rightarrow> json option \<Rightarrow> json option \<Rightarrow> app_error" where
  "window_timeout title app timeout_ms last_error last_observed =
     (let details = JObj [(''predicate'', JStr ''window''), (''title'', JStr title), (''timeout_ms'', JInt (uint timeout_ms))];
          details = (case app of None \<Rightarrow> details | Some a \<Rightarrow> json_insert ''app'' (JStr a) details);
          details = (case last_observed of None \<Rightarrow> details | Some j \<Rightarrow> json_insert ''last_observed'' j details)
      in wait_timeout_err (''Window title'' @ chars_text title @ ''not found within '' @ ms_text timeout_ms)
           (with_last_error details last_error))"

definition window_observation :: "window_info list \<Rightarrow> json" where
  "window_observation windows =
     JObj [(''count'', JInt (int (length windows))),
           (''titles'', JArr (map (\<lambda>v. JStr (concat (map utf8_of (take 120 (code_points (win_title v)))))) (take 8 windows))),
           (''truncated'', JBool (length windows > 8 \<or>
              list_ex (\<lambda>v. length (code_points (win_title v)) > 120) (take 8 windows)))]"

definition text_timeout :: "string \<Rightarrow> u64 \<Rightarrow> nat option \<Rightarrow> json option \<Rightarrow> app_error" where
  "text_timeout txt timeout_ms expected_count last_error =
     wait_timeout_err (''Text'' @ chars_text txt @ ''did not match within '' @ ms_text timeout_ms)
       (with_last_error
         (JObj [(''predicate'', JStr ''text''), (''text_chars'', JInt (int (length (code_points txt)))),
                (''timeout_ms'', JInt (uint timeout_ms)), (''expected_count'', json_opt (\<lambda>n. JInt (int n)) expected_count)])
         last_error)"

definition notification_timeout :: "string option \<Rightarrow> string option \<Rightarrow> u64 \<Rightarrow> json option \<Rightarrow> app_error" where
  "notification_timeout app txt timeout_ms last_error =
     wait_timeout_err (''No new notification within '' @ ms_text timeout_ms)
       (with_last_error
         (JObj [(''predicate'', JStr ''notification''), (''timeout_ms'', JInt (uint timeout_ms)),
                (''app'', json_opt JStr app),
                (''text_chars'', json_opt (\<lambda>s. JInt (int (length (code_points s)))) txt)])
         last_error)"

definition selector_timeout :: "string \<Rightarrow> bool \<Rightarrow> u64 \<Rightarrow> json option \<Rightarrow> string option \<Rightarrow> app_error" where
  "selector_timeout selector gone timeout_ms last_error last_snapshot_id =
     (let details = with_last_error
            (JObj [(''predicate'', JStr ''selector''), (''selector'', JStr selector), (''gone'', JBool gone),
                   (''timeout_ms'', JInt (uint timeout_ms))]) last_error;
          details = (case last_snapshot_id of None \<Rightarrow> details | Some i \<Rightarrow> json_insert ''snapshot_id'' (JStr i) details)
      in wait_timeout_err
           (''Selector'' @ chars_text selector @ ''did not '' @ (if gone then ''disappear'' else ''appear'') @
            '' within '' @ ms_text timeout_ms) details)"

section \<open>The loop\<close>

record element_wait_state =
  last_observed_value :: json
  expected_bounds_hash :: "u64 option"

definition is_retryable_observe_error :: "adapter_error \<Rightarrow> bool" where
  "is_retryable_observe_error e \<longleftrightarrow>
     is_explicitly_retryable e \<or> err_code e = Timeout \<or> err_code e = ElementNotFound"

definition found_element_json :: "string \<Rightarrow> element_predicate \<Rightarrow> json \<Rightarrow> nat \<Rightarrow> json" where
  "found_element_json ref_id predicate observed ms =
     JObj [(''found'', JBool True), (''ref'', JStr ref_id), (''predicate'', JStr (predicate_name predicate)),
           (''observed'', observed), (''elapsed_ms'', JInt (int ms))]"

definition remember_hash :: "json \<Rightarrow> u64 option \<Rightarrow> u64 option" where
  "remember_hash observed expected =
     (case Option.bind (json_get ''observed_bounds_hash'' observed) json_as_u64 of
        Some n \<Rightarrow> Some (word_of_nat n) | None \<Rightarrow> expected)"

definition element_round ::
  "fx \<Rightarrow> 'w desktop \<Rightarrow> ref_entry \<Rightarrow> string \<Rightarrow> element_predicate \<Rightarrow> u64 \<Rightarrow> nat \<Rightarrow> deadline \<Rightarrow> element_wait_state \<Rightarrow>
     ('w, app_error, (element_wait_state, json) flow) act" where
  "element_round fx dk e ref_id predicate timeout_ms start d st =
     (let pf = dk_platform dk;
          timed_out = (\<lambda>observed. fail_with (element_timeout ref_id predicate timeout_ms observed));
          again = (\<lambda>st. pause_or pf d POLL_INTERVAL (timed_out (last_observed_value st)) st)
      in abind (resolve_within_deadline pf e d) (\<lambda>outcome.
         case outcome of
           DeadlinePassed \<Rightarrow> timed_out (last_observed_value st)
         | Resolved h \<Rightarrow>
             abind (attempt (observe fx dk e h predicate d (strict_hash (expected_bounds_hash st)))) (\<lambda>r.
               case r of
                 Inr observed \<Rightarrow>
                   abind (check_expired pf d) (\<lambda>expired.
                     if expired then timed_out observed
                     else if satisfied predicate observed then
                       abind (get_now pf) (\<lambda>t.
                         ret (Done (found_element_json ref_id predicate observed ((t - start) div ns_per_ms))))
                     else again \<lparr>last_observed_value = observed,
                       expected_bounds_hash = remember_hash observed (expected_bounds_hash st)\<rparr>)
               | Inl err \<Rightarrow>
                   if is_retryable_observe_error err then
                     again (st\<lparr>last_observed_value :=
                       JObj [(''error'', JStr (error_code_as_str (err_code err))), (''message'', JStr (err_message err)),
                             (''details'', json_opt id (err_details err))]\<rparr>)
                   else fail_with (AppAdapter err))
         | ResolveFailed err \<Rightarrow>
             if is_explicitly_retryable err then
               again (st\<lparr>last_observed_value :=
                 JObj [(''error'', JStr (error_code_as_str (err_code err))), (''message'', JStr (err_message err))]\<rparr>)
             else fail_with (AppAdapter err)))"

definition wait_for_loaded_element ::
  "fx \<Rightarrow> 'w desktop \<Rightarrow> ref_entry \<Rightarrow> string \<Rightarrow> element_predicate \<Rightarrow> u64 \<Rightarrow> nat \<Rightarrow> deadline \<Rightarrow> ('w, app_error, json) act" where
  "wait_for_loaded_element fx dk e ref_id predicate timeout_ms start d =
     loop (element_round fx dk e ref_id predicate timeout_ms start d)
       \<lparr>last_observed_value = JNull, expected_bounds_hash = None\<rparr>"

section \<open>The wait comes to an end\<close>

lemma terminates_observe [terminating]:
  assumes "timed_desktop tm dk"
  shows "terminates tm (observe fx dk e h p d sx)"
  by (cases p; simp add: observe_enabled_def observe_visible_def observe_actionable_def observe_value_def
      optional_live_read_def Let_def; intro terminating assms)

lemma terminates_element_round [terminating]:
  "timed_desktop tm dk \<Longrightarrow> terminates tm (element_round fx dk e i p ms start d st)"
  unfolding element_round_def Let_def
  by (intro terminating) (auto split: resolve_attempt_outcome.split intro!: terminating)

lemma moves_element_round:
  assumes "timed_desktop tm dk"
  shows "moves tm (expires_at d) (element_round fx dk e i p ms start d st)"
  unfolding element_round_def Let_def
  by (rule moves_bind, intro terminating assms)
    (auto split: resolve_attempt_outcome.split intro!: moving terminating assms poll_intervals_positive
      timed_desktop_calls(1) [OF assms])

lemma terminates_wait_element [terminating]:
  "timed_desktop tm dk \<Longrightarrow> terminates tm (wait_for_loaded_element fx dk e i p ms start d)"
  unfolding wait_for_loaded_element_def by (rule terminates_waiting [OF terminates_element_round moves_element_round])

section \<open>What has been found holds\<close>

text \<open>
  What the platform said of the element, from one world to the next: \<open>w\<close> is the world in which it was
  asked and \<open>w'\<close> the world in which the answer arrived.
\<close>

fun predicate_holds ::
  "fx \<Rightarrow> 'w desktop \<Rightarrow> ref_entry \<Rightarrow> handle \<Rightarrow> deadline \<Rightarrow> element_predicate \<Rightarrow> 'w \<Rightarrow> 'w \<Rightarrow> bool" where
  "predicate_holds fx dk e h d Exists w w' \<longleftrightarrow> w' = w"
| "predicate_holds fx dk e h d Enabled w w' \<longleftrightarrow>
     (\<exists>st. dk_get_live_state dk h d w = (Inr (Some st), w') \<and> st_enabled st = Some True)"
| "predicate_holds fx dk e h d Visible w w' \<longleftrightarrow>
     (\<exists>live b. pf_get_live_element (dk_platform dk) h d w = (Inr live, w') \<and> le_bounds live = Some b \<and>
        is_visible (Some b) (st_states (le_state live)))"
| "predicate_holds fx dk e h d (Actionable req) w w' \<longleftrightarrow>
     (\<exists>sx r. check_live_with_stability fx (dk_platform dk) e h d req sx w = Some (r, w') \<and>
        (case r of
           Inr report \<Rightarrow> rp_actionable report
         | Inl err \<Rightarrow> err_code err = ActionFailed \<and>
             is_some_and (err_details err) (\<lambda>j. json_index j ''actionable'' = JBool True)))"
| "predicate_holds fx dk e h d (HasValue v) w w' \<longleftrightarrow> dk_get_live_value dk h d w = (Inr (Some v), w')"

lemma json_as_bool_iff: "json_as_bool j = Some b \<longleftrightarrow> j = JBool b"
  by (cases j) auto

lemma optional_live_read_Some:
  "optional_live_read m w = Some (Inr (Some x), w') \<longleftrightarrow> m w = Some (Inr (Some x), w')"
  by (auto simp: optional_live_read_def abind_def attempt_def split: option.splits sum.splits if_splits prod.splits)

lemma observe_satisfied:
  assumes "observe fx dk e h p d sx w = Some (Inr j, w')" "satisfied p j"
  shows "predicate_holds fx dk e h d p w w'"
proof (cases p)
  case Enabled
  with assms obtain v where v: "optional_live_read (call (dk_get_live_state dk h d)) w = Some (Inr v, w')"
    and on: "Option.bind v st_enabled = Some True"
    by (auto simp: observe_enabled_def Let_def json_index_def json_as_bool_iff json_opt_def
        elim!: abind_InrE split: option.splits)
  from on obtain st where st: "v = Some st" "st_enabled st = Some True" by (auto simp: bind_eq_Some_conv)
  have "dk_get_live_state dk h d w = (Inr (Some st), w')"
    using v unfolding st optional_live_read_Some by simp
  then show ?thesis using Enabled st by auto
next
  case Visible
  with assms obtain live where live: "pf_get_live_element (dk_platform dk) h d w = (Inr live, w')"
    and "visibility_result (live_visibility live)"
    by (auto simp: observe_visible_def json_index_def json_as_bool_iff elim!: abind_InrE)
  then obtain b where b: "le_bounds live = Some b" "is_visible (Some b) (st_states (le_state live))"
    by (auto simp: live_visibility_def visibility_result_def visibility_applicable_def split: if_splits)
  show ?thesis using Visible live b by auto
next
  case (Actionable req)
  with assms obtain r where r: "check_live_with_stability fx (dk_platform dk) e h d req sx w = Some (r, w')"
    and j: "case r of Inr report \<Rightarrow> j = report_json report
      | Inl err \<Rightarrow> err_code err = ActionFailed \<and> (err_details err = Some j \<or>
          j = JObj [(''actionable'', JBool False), (''error'', JStr (err_message err))])"
    by (auto simp: observe_actionable_def attempt_Some_iff elim!: abind_InrE split: sum.splits if_splits option.splits)
  have on: "json_index j ''actionable'' = JBool True" using assms(2) Actionable by (simp add: json_as_bool_iff)
  have rep: "json_index (report_json rep) ''actionable'' = JBool (rp_actionable rep)" for rep
    by (simp add: report_json_def json_index_def)
  have off: "json_index (JObj [(''actionable'', JBool False), x]) ''actionable'' = JBool False" for x
    by (simp add: json_index_def)
  have "case r of Inr report \<Rightarrow> rp_actionable report
      | Inl err \<Rightarrow> err_code err = ActionFailed \<and>
          is_some_and (err_details err) (\<lambda>j. json_index j ''actionable'' = JBool True)"
    using j on rep off by (cases r) auto
  then show ?thesis using r unfolding Actionable predicate_holds.simps by blast
next
  case (HasValue v)
  with assms have "optional_live_read (call (dk_get_live_value dk h d)) w = Some (Inr (Some v), w')"
    by (auto simp: observe_value_def json_index_def json_as_bool_iff elim!: abind_InrE)
  then have "dk_get_live_value dk h d w = (Inr (Some v), w')" unfolding optional_live_read_Some by simp
  then show ?thesis using HasValue by auto
qed (use assms in simp)

text \<open>
  The last steps of the wait, one after the other, up to the world \<open>w'\<close> in which it ends: the element
  is resolved from its entry, the clock is read, the platform is asked about the element, the clock is
  read again, both times before the deadline, and once more for the time that has passed.
\<close>

definition found_in_time ::
  "fx \<Rightarrow> 'w desktop \<Rightarrow> ref_entry \<Rightarrow> string \<Rightarrow> element_predicate \<Rightarrow> nat \<Rightarrow> deadline \<Rightarrow> json \<Rightarrow> 'w \<Rightarrow> bool" where
  "found_in_time fx dk e ref_id p start d j w' \<longleftrightarrow>
     (\<exists>attempt_end h observed sx w0 w1 t1 w2 w3 t3 w4 t4.
        expires_at attempt_end \<le> expires_at d \<and>
        pf_resolve_element_strict (dk_platform dk) e attempt_end w0 = (Inr h, w1) \<and>
        pf_now (dk_platform dk) w1 = (t1, w2) \<and> t1 < expires_at d \<and>
        predicate_holds fx dk e h d p w2 w3 \<and> observe fx dk e h p d sx w2 = Some (Inr observed, w3) \<and>
        pf_now (dk_platform dk) w3 = (t3, w4) \<and> t3 < expires_at d \<and>
        pf_now (dk_platform dk) w4 = (t4, w') \<and> satisfied p observed \<and>
        j = found_element_json ref_id p observed ((t4 - start) div ns_per_ms))"

lemma pause_or_fails_continues:
  "pause_or pf d n (fail_with e) s w = Some (Inr x, w') \<Longrightarrow> x = Continue s"
  unfolding pause_or_def by (auto elim!: abind_InrE split: if_splits)

lemma resolved_in_time:
  assumes "resolve_within_deadline pf e d w = Some (Inr (Resolved h) :: app_error + resolve_attempt_outcome, w2)"
  obtains d' w0 w1 t where "expires_at d' \<le> expires_at d" "pf_resolve_element_strict pf e d' w0 = (Inr h, w1)"
    "pf_now pf w1 = (t, w2)" "t < expires_at d"
proof -
  from assms obtain d' u w0 w1 where
    cap: "cap_deadline pf RESOLVE_ATTEMPT d u = Some (Inr d' :: app_error + deadline, w0)"
    and r: "pf_resolve_element_strict pf e d' w0 = (Inr h, w1)"
    and x: "check_expired pf d w1 = Some (Inr False :: app_error + bool, w2)"
    unfolding resolve_within_deadline_def classify_error_def
    by (auto simp: attempt_Some_iff elim!: abind_InrE split: sum.splits if_splits)
  have "expires_at d' \<le> expires_at d"
    using cap unfolding cap_deadline_def
    by (auto elim!: abind_InrE simp: deadline_capped_def Let_def split: option.splits)
  then show ?thesis using that r not_expired_Some [OF x] by blast
qed

lemma element_round_found:
  assumes "element_round fx dk e i p timeout_ms start d st w = Some (Inr (Done j), w')"
  shows "found_in_time fx dk e i p start d j w'"
proof -
  from assms obtain outcome w2
    where out: "resolve_within_deadline (dk_platform dk) e d w = Some (Inr outcome :: app_error + resolve_attempt_outcome, w2)"
    and h: "\<exists>h. outcome = Resolved h"
    unfolding element_round_def Let_def
    by (elim abind_InrE) (auto split: resolve_attempt_outcome.splits if_splits dest: pause_or_fails_continues)
  then obtain h where h: "outcome = Resolved h" by blast
  from assms out h obtain observed w3 w4 t4
    where o: "observe fx dk e h p d (strict_hash (expected_bounds_hash st)) w2 = Some (Inr observed, w3)"
    and x: "check_expired (dk_platform dk) d w3 = Some (Inr False :: app_error + bool, w4)"
    and s: "satisfied p observed"
    and t4: "get_now (dk_platform dk) w4 = Some (Inr t4 :: app_error + nat, w')"
    and j: "j = found_element_json i p observed ((t4 - start) div ns_per_ms)"
    unfolding element_round_def Let_def
    by (auto simp: abind_Some_iff [of "resolve_within_deadline (dk_platform dk) e d"] attempt_Some_iff
        elim!: abind_InrE split: sum.splits if_splits dest!: pause_or_fails_continues)
  from out h obtain d' w0 w1 t1 where "expires_at d' \<le> expires_at d"
    "pf_resolve_element_strict (dk_platform dk) e d' w0 = (Inr h, w1)"
    "pf_now (dk_platform dk) w1 = (t1, w2)" "t1 < expires_at d"
    by (auto elim: resolved_in_time)
  moreover obtain t3 where "pf_now (dk_platform dk) w3 = (t3, w4)" "t3 < expires_at d"
    using not_expired_Some [OF x] by blast
  moreover have "pf_now (dk_platform dk) w4 = (t4, w')" using t4 by (simp only: get_now_Some)
  ultimately show ?thesis unfolding found_in_time_def using observe_satisfied [OF o s] o s j by blast
qed

text \<open>
  C15. A wait for an element ends with \<open>found\<close> only after these steps, the last ones it makes: the
  element was resolved from its entry before the deadline; then the platform itself said of it what
  was asked (its live state is enabled, its live bounds and states are visible, its live value is the
  expected one, or the preflight of the action reported it as actionable); and when that answer had
  arrived, the clock still showed a time before the deadline.
\<close>

theorem element_wait_reports_facts:
  "case wait_for_loaded_element fx dk e ref_id p timeout_ms start d w of
     Some (Inr j, w') \<Rightarrow> found_in_time fx dk e ref_id p start d j w'
   | _ \<Rightarrow> True"
proof -
  have "hoare (\<lambda>_. True) (element_round fx dk e ref_id p timeout_ms start d st)
      (\<lambda>r w. case r of Inl _ \<Rightarrow> True | Inr (Continue _) \<Rightarrow> True
         | Inr (Done j) \<Rightarrow> found_in_time fx dk e ref_id p start d j w)" for st
    unfolding hoare_def by (auto split: sum.splits flow.splits dest: element_round_found)
  then have "hoare (\<lambda>_. True) (wait_for_loaded_element fx dk e ref_id p timeout_ms start d)
      (\<lambda>r w. case r of Inl _ \<Rightarrow> True | Inr j \<Rightarrow> found_in_time fx dk e ref_id p start d j w)"
    unfolding wait_for_loaded_element_def
    by (rule hoare_loop [where I = "\<lambda>_ _. True", OF hoare_weaken]) (auto split: sum.splits flow.splits)
  then show ?thesis unfolding hoare_def by (auto split: option.split sum.split prod.split)
qed

end
