(* ===== verification/WaitEvents.thy ===== *)
theory WaitEvents
  imports DesktopLookup
begin

text \<open>
  Waiting for something to change on the desktop (\<open>commands/wait_event.rs\<close>,
  \<open>commands/wait_event_input.rs\<close>): the baseline is captured when the wait starts or given by the
  command that acted before, and every poll is compared with it.
\<close>

section \<open>What is waited for\<close>

record event_wait_input =
  ew_event :: string
  ew_app :: "string option"
  ew_window_id :: "string option"
  ew_window_title :: "string option"
  ew_timeout_ms :: u64

definition parse_event_kind :: "string \<Rightarrow> app_error + event_kind" where
  "parse_event_kind event =
     ok_or (parse_event event)
       (invalid_input_with_suggestion (''Unknown --event value: '' @ event)
          (''Use one of: '' @ join_with '', '' all_tokens))"

fun is_retryable_poll_code :: "error_code \<Rightarrow> bool" where
  "is_retryable_poll_code c \<longleftrightarrow> c = Timeout \<or> c = ElementNotFound \<or> c = AppUnresponsive"

definition error_evidence :: "adapter_error \<Rightarrow> json" where
  "error_evidence e =
     JObj [(''code'', JStr (error_code_as_str (err_code e))), (''message'', JStr (err_message e)),
           (''details'', unwrap_or (err_details e) JNull)]"

definition process_from_baseline :: "signal_baseline \<Rightarrow> string \<Rightarrow> app_error + process_identity option" where
  "process_from_baseline b app =
     (case filter (\<lambda>a. matches_identifier a app) (sb_apps b) of
        [] \<Rightarrow> Inr None
      | [a] \<Rightarrow> res_bind (process_identity_of a) (\<lambda>p. Inr (Some p))
      | _ \<Rightarrow> Inl (AppAdapter (ambiguous_target_error
          (''Multiple application instances matched '' @ quoted app @ '' in the event baseline''))))"

definition successful_seed :: "(adapter_error + signal_baseline) option \<Rightarrow> signal_baseline option" where
  "successful_seed seeded = Option.bind seeded (\<lambda>r. case r of Inl _ \<Rightarrow> None | Inr b \<Rightarrow> Some b)"

definition seeded_process :: "signal_baseline option \<Rightarrow> string \<Rightarrow> app_error + process_identity option" where
  "seeded_process seed app = (case seed of None \<Rightarrow> Inr None | Some b \<Rightarrow> process_from_baseline b app)"

definition signal_filter_for ::
  "'w desktop \<Rightarrow> event_wait_input \<Rightarrow> event_kind \<Rightarrow> (adapter_error + signal_baseline) option \<Rightarrow> deadline \<Rightarrow>
     ('w, app_error, signal_filter) act" where
  "signal_filter_for dk input requested seeded d =
     (case ew_app input of
        None \<Rightarrow> ret \<lparr>sf_app = None, sf_process = None\<rparr>
      | Some app \<Rightarrow>
          if requested = AppLaunched then ret \<lparr>sf_app = Some app, sf_process = None\<rparr>
          else
            abind (lift_res (seeded_process (successful_seed seeded) app)) (\<lambda>found.
            abind (case found of
                     Some p \<Rightarrow> ret (Some p)
                   | None \<Rightarrow>
                       if successful_seed seeded \<noteq> None \<and> requested = AppTerminated then ret None
                       else abind (resolve_app dk (Some app) d) (\<lambda>a.
                              abind (lift_res (process_identity_of a)) (\<lambda>p. ret (Some p)))) (\<lambda>p.
            ret \<lparr>sf_app = Some app, sf_process = p\<rparr>)))"

section \<open>One process only\<close>

text \<open>The processes an observation is about, in the order in which they are checked.\<close>

definition observed_processes :: "signal_baseline \<Rightarrow> (process_id \<times> string option) list" where
  "observed_processes b =
     map (\<lambda>a. (app_pid a, app_instance a)) (sb_apps b) @
     map (\<lambda>v. (win_pid v, win_instance v)) (sb_windows b) @
     map (\<lambda>s. (sg_pid s, Some (sg_instance s))) (sb_surfaces b)"

definition validate_signal_scope :: "signal_filter \<Rightarrow> signal_baseline \<Rightarrow> app_error + unit" where
  "validate_signal_scope f b =
     (case sf_process f of
        None \<Rightarrow> Inr ()
      | Some expected \<Rightarrow>
          (case find (\<lambda>(pid, i). pid \<noteq> identity_pid expected \<or> i \<noteq> Some (identity_instance expected))
             (observed_processes b) of
             None \<Rightarrow> Inr ()
           | Some (pid, i) \<Rightarrow>
               Inl (AppAdapter (with_disposition NotDelivered (with_details
                 (JObj [(''kind'', JStr ''process_changed''),
                        (''expected_pid'', JInt (uint (identity_pid expected))),
                        (''observed_pid'', JInt (uint pid)),
                        (''observed_instance_matches'', JBool (i = Some (identity_instance expected))),
                        (''retryable'', JBool False)])
                 (new_error StaleRef ''Target process identity changed during event observation''))))))"

section \<open>The event\<close>

definition event_matches :: "event_kind \<Rightarrow> string option \<Rightarrow> string option \<Rightarrow> ui_event \<Rightarrow> bool" where
  "event_matches requested window_id window_title e \<longleftrightarrow>
     same_variant requested (ue_kind e) \<and>
     is_none_or window_id (\<lambda>i. ue_window_id e = Some i) \<and>
     is_none_or window_title (\<lambda>t. t = [] \<or> ue_title e = Some t)"

definition find_match :: "ui_event list \<Rightarrow> event_kind \<Rightarrow> string option \<Rightarrow> string option \<Rightarrow> ui_event option" where
  "find_match es requested window_id window_title = find (event_matches requested window_id window_title) es"

text \<open>An event as it is printed.\<close>

fun event_kind_json :: "event_kind \<Rightarrow> (string \<times> json) list" where
  "event_kind_json WindowOpened = [(''kind'', JStr ''window_opened'')]"
| "event_kind_json WindowClosed = [(''kind'', JStr ''window_closed'')]"
| "event_kind_json AppLaunched = [(''kind'', JStr ''app_launched'')]"
| "event_kind_json AppTerminated = [(''kind'', JStr ''app_terminated'')]"
| "event_kind_json FocusChangedWindow = [(''kind'', JStr ''focus_changed_window'')]"
| "event_kind_json (SurfaceAppeared s) = [(''kind'', JStr ''surface_appeared''), (''surface'', JStr (surface_as_str s))]"
| "event_kind_json (SurfaceDismissed s) = [(''kind'', JStr ''surface_dismissed''), (''surface'', JStr (surface_as_str s))]"

definition ui_event_json :: "ui_event \<Rightarrow> json" where
  "ui_event_json e =
     JObj (event_kind_json (ue_kind e) @
       opt_field ''window_id'' JStr (ue_window_id e) @
       opt_field ''title'' JStr (ue_title e) @
       opt_field ''app'' JStr (ue_app e) @
       opt_field ''pid'' (\<lambda>p. JInt (uint p)) (ue_pid e))"

definition found_event_json :: "ui_event \<Rightarrow> nat \<Rightarrow> json" where
  "found_event_json e ms =
     JObj [(''found'', JBool True), (''event'', ui_event_json e), (''elapsed_ms'', JInt (int ms))]"

definition event_timeout_error ::
  "string \<Rightarrow> string option \<Rightarrow> u64 \<Rightarrow> signal_baseline option \<Rightarrow> json option \<Rightarrow> app_error" where
  "event_timeout_error event app timeout_ms baseline last_error =
     (let details = JObj
            [(''kind'', JStr ''wait_timeout''), (''predicate'', JStr ''event''), (''event'', JStr event),
             (''app'', json_opt JStr app), (''timeout_ms'', JInt (uint timeout_ms)),
             (''baseline_counts'', json_opt (\<lambda>b.
                JObj [(''windows'', JInt (int (length (sb_windows b)))), (''apps'', JInt (int (length (sb_apps b)))),
                      (''surfaces'', JInt (int (length (sb_surfaces b))))]) baseline)];
          details = (case last_error of None \<Rightarrow> details | Some j \<Rightarrow> json_insert ''last_error'' j details)
      in AppAdapter (with_details details
           (timeout_error_msg (''Event '' @ quoted event @ '' did not occur within '' @ show_nat (unat timeout_ms) @ ''ms''))))"

section \<open>The wait\<close>

definition EVENT_POLL_INTERVAL :: nat where "EVENT_POLL_INTERVAL = 200 * ns_per_ms"

type_synonym event_wait_state = "signal_baseline option \<times> json option"

definition event_timeout :: "event_wait_input \<Rightarrow> event_wait_state \<Rightarrow> ('w, app_error, 'a) act" where
  "event_timeout input st =
     fail_with (event_timeout_error (ew_event input) (ew_app input) (ew_timeout_ms input) (fst st) (snd st))"

definition event_round ::
  "'w desktop \<Rightarrow> event_wait_input \<Rightarrow> event_kind \<Rightarrow> signal_filter \<Rightarrow> nat \<Rightarrow> deadline \<Rightarrow> event_wait_state \<Rightarrow>
     ('w, app_error, (event_wait_state, json) flow) act" where
  "event_round dk input requested f start d st =
     (let pf = dk_platform dk; again = pause_or pf d EVENT_POLL_INTERVAL
      in abind (check_expired pf d) (\<lambda>expired.
         if expired then event_timeout input st
         else
           abind (attempt (call (dk_capture_signal_baseline dk f d))) (\<lambda>observation.
           abind (check_expired pf d) (\<lambda>expired.
             if expired then event_timeout input st
             else case observation of
                    Inr current \<Rightarrow>
                      abind (lift_res (validate_signal_scope f current)) (\<lambda>_.
                        case fst st of
                          None \<Rightarrow> again (event_timeout input (Some current, snd st)) (Some current, snd st)
                        | Some base \<Rightarrow>
                            (case find_match (diff_signals base current) requested (ew_window_id input)
                               (ew_window_title input) of
                               Some e \<Rightarrow>
                                 abind (get_now pf) (\<lambda>t. ret (Done (found_event_json e ((t - start) div ns_per_ms))))
                             | None \<Rightarrow> again (event_timeout input st) st))
                  | Inl e \<Rightarrow>
                      if is_retryable_poll_code (err_code e) then
                        (let st' = (fst st, Some (error_evidence e)) in again (event_timeout input st') st')
                      else fail_with (AppAdapter e)))))"

definition initial_baseline ::
  "signal_filter \<Rightarrow> (adapter_error + signal_baseline) option \<Rightarrow> app_error + event_wait_state" where
  "initial_baseline f seeded =
     (case seeded of
        Some (Inr b) \<Rightarrow> res_bind (validate_signal_scope f b) (\<lambda>_. Inr (Some b, None))
      | Some (Inl e) \<Rightarrow>
          if is_retryable_poll_code (err_code e) then Inr (None, Some (error_evidence e)) else Inl (AppAdapter e)
      | None \<Rightarrow> Inr (None, None))"

definition wait_for_event ::
  "'w desktop \<Rightarrow> deadline option \<Rightarrow> event_wait_input \<Rightarrow> (adapter_error + signal_baseline) option \<Rightarrow>
     ('w, app_error, json) act" where
  "wait_for_event dk inh input seeded =
     abind (lift_res (parse_event_kind (ew_event input))) (\<lambda>requested.
     abind (get_now (dk_platform dk)) (\<lambda>start.
     abind (lift_res (res_map_err AppAdapter (deadline_at inh start (ew_timeout_ms input)))) (\<lambda>d.
     abind (signal_filter_for dk input requested seeded d) (\<lambda>f.
     abind (lift_res (initial_baseline f seeded)) (\<lambda>st.
     loop (event_round dk input requested f start d) st)))))"

section \<open>The wait comes to an end\<close>

lemma terminates_signal_filter [terminating]:
  "timed_desktop tm dk \<Longrightarrow> terminates tm (signal_filter_for dk input k seeded d)"
  unfolding signal_filter_for_def by (intro terminating)

lemma terminates_event_timeout [terminating]: "terminates tm (event_timeout input st)"
  unfolding event_timeout_def by (intro terminating)

lemma moves_event_timeout [moving]: "moves tm b (event_timeout input st)"
  unfolding event_timeout_def by (intro moving)

lemma terminates_event_round [terminating]:
  "timed_desktop tm dk \<Longrightarrow> terminates tm (event_round dk input k f start d st)"
  unfolding event_round_def Let_def by (intro terminating)

lemma moves_event_round [moving]:
  "timed_desktop tm dk \<Longrightarrow> moves tm (expires_at d) (event_round dk input k f start d st)"
  unfolding event_round_def Let_def
  by (rule moves_bind, intro terminating, assumption, rule moves_if, intro moving,
      rule moves_bind, intro terminating, assumption, rule moves_bind, intro terminating, assumption)
    (intro moving terminating; simp add: EVENT_POLL_INTERVAL_def ns_per_ms_def)+

lemma terminates_event_loop [terminating]:
  "timed_desktop tm dk \<Longrightarrow> terminates tm (loop (event_round dk input k f start d) st)"
  by (rule terminates_waiting [OF terminates_event_round moves_event_round])

lemma terminates_wait_for_event [terminating]:
  "timed_desktop tm dk \<Longrightarrow> terminates tm (wait_for_event dk inh input seeded)"
  unfolding wait_for_event_def by (intro terminating)

section \<open>What is reported\<close>

lemma validate_signal_scope_Inr:
  "validate_signal_scope f b = Inr u \<longleftrightarrow>
     is_none_or (sf_process f) (\<lambda>p. \<forall>q \<in> set (observed_processes b). q = (identity_pid p, Some (identity_instance p)))"
  by (auto simp: validate_signal_scope_def find_None_iff find_Some_iff split: option.splits)
    (metis nth_mem prod.inject)+

text \<open>
  \<open>watched dk f d P w w'\<close>: from the world \<open>w\<close> to the world \<open>w'\<close> the wait has only read the clock,
  slept and looked at the desktop, and every look that succeeded has shown something with \<open>P\<close>.
\<close>

inductive watched ::
  "'w desktop \<Rightarrow> signal_filter \<Rightarrow> deadline \<Rightarrow> (signal_baseline \<Rightarrow> bool) \<Rightarrow> 'w \<Rightarrow> 'w \<Rightarrow> bool"
  for dk f d P w where
  watched_start: "watched dk f d P w w"
| watched_clock: "watched dk f d P w v \<Longrightarrow> pf_now (dk_platform dk) v = (t, v') \<Longrightarrow> watched dk f d P w v'"
| watched_sleep: "watched dk f d P w v \<Longrightarrow> watched dk f d P w (pf_sleep (dk_platform dk) n v)"
| watched_failed: "watched dk f d P w v \<Longrightarrow> dk_capture_signal_baseline dk f d v = (Inl e, v') \<Longrightarrow> watched dk f d P w v'"
| watched_look: "watched dk f d P w v \<Longrightarrow> dk_capture_signal_baseline dk f d v = (Inr b, v') \<Longrightarrow> P b \<Longrightarrow>
     watched dk f d P w v'"

definition in_process :: "signal_filter \<Rightarrow> signal_baseline \<Rightarrow> bool" where
  "in_process f b \<longleftrightarrow> is_none_or (sf_process f) (\<lambda>p.
     \<forall>q \<in> set (observed_processes b). q = (identity_pid p, Some (identity_instance p)))"

text \<open>The event that the command line asked for.\<close>

definition asked_for :: "event_wait_input \<Rightarrow> ui_event \<Rightarrow> bool" where
  "asked_for input e \<longleftrightarrow>
     cli_token (ue_kind e) = ew_event input \<and>
     (\<forall>i. ew_window_id input = Some i \<longrightarrow> ue_window_id e = Some i) \<and>
     (\<forall>t. ew_window_title input = Some t \<longrightarrow> t \<noteq> [] \<longrightarrow> ue_title e = Some t)"

definition unremarkable :: "event_wait_input \<Rightarrow> signal_filter \<Rightarrow> signal_baseline \<Rightarrow> signal_baseline \<Rightarrow> bool" where
  "unremarkable input f base b \<longleftrightarrow> in_process f b \<and> (\<forall>e \<in> set (diff_signals base b). \<not> asked_for input e)"

text \<open>
  The baseline is the one handed in, or the first one that was captured; \<open>since\<close> is the world from
  which on the desktop is compared with it.
\<close>

definition baseline_of ::
  "'w desktop \<Rightarrow> (adapter_error + signal_baseline) option \<Rightarrow> signal_filter \<Rightarrow> deadline \<Rightarrow> 'w \<Rightarrow> signal_baseline \<Rightarrow> 'w \<Rightarrow> bool" where
  "baseline_of dk seeded f d w base since \<longleftrightarrow>
     in_process f base \<and>
     (case successful_seed seeded of
        Some b \<Rightarrow> base = b \<and> since = w
      | None \<Rightarrow> \<exists>v. watched dk f d (\<lambda>_. False) w v \<and> dk_capture_signal_baseline dk f d v = (Inr base, since))"

text \<open>
  What leads to an answer, one step after the other from the world \<open>w\<close> in which the polling starts to
  the world \<open>w'\<close> in which it ends.
\<close>

definition reported ::
  "'w desktop \<Rightarrow> event_wait_input \<Rightarrow> (adapter_error + signal_baseline) option \<Rightarrow> nat \<Rightarrow> signal_filter \<Rightarrow>
     deadline \<Rightarrow> 'w \<Rightarrow> json \<Rightarrow> 'w \<Rightarrow> bool" where
  "reported dk input seeded start f d w j w' \<longleftrightarrow>
     (\<exists>base since w1 current w2 t2 w3 t3 before e after.
        baseline_of dk seeded f d w base since \<and>
        watched dk f d (unremarkable input f base) since w1 \<and>
        dk_capture_signal_baseline dk f d w1 = (Inr current, w2) \<and> in_process f current \<and>
        diff_signals base current = before @ e # after \<and> asked_for input e \<and> \<not> list_ex (asked_for input) before \<and>
        pf_now (dk_platform dk) w2 = (t2, w3) \<and> t2 < expires_at d \<and>
        pf_now (dk_platform dk) w3 = (t3, w') \<and> j = found_event_json e ((t3 - start) div ns_per_ms))"

definition based_on ::
  "'w desktop \<Rightarrow> event_wait_input \<Rightarrow> (adapter_error + signal_baseline) option \<Rightarrow> signal_filter \<Rightarrow> deadline \<Rightarrow> 'w \<Rightarrow>
     event_wait_state \<Rightarrow> 'w \<Rightarrow> bool" where
  "based_on dk input seeded f d w0 st w \<longleftrightarrow>
     (case fst st of
        None \<Rightarrow> successful_seed seeded = None \<and> watched dk f d (\<lambda>_. False) w0 w
      | Some base \<Rightarrow> \<exists>since. baseline_of dk seeded f d w0 base since \<and> watched dk f d (unremarkable input f base) since w)"

lemma event_matches_asked:
  assumes "parse_event (ew_event input) = Some k"
  shows "event_matches k (ew_window_id input) (ew_window_title input) e \<longleftrightarrow> asked_for input e"
proof -
  have "cli_token k = ew_event input" using assms by (auto simp: parse_event_def split: if_splits)
  then show ?thesis
    by (cases "ew_window_id input"; cases "ew_window_title input")
      (auto simp: event_matches_def asked_for_def same_variant_iff)
qed

lemma find_first: "find P xs = Some x \<Longrightarrow> \<exists>ys zs. xs = ys @ x # zs \<and> P x \<and> \<not> list_ex P ys"
proof (induction xs)
  case (Cons y xs)
  show ?case
  proof (cases "P y")
    case True
    with Cons.prems show ?thesis by (intro exI [of _ "[]"] exI [of _ xs]) simp
  next
    case False
    with Cons obtain ys zs where "xs = ys @ x # zs" "P x" "\<not> list_ex P ys" by auto
    with False show ?thesis by (intro exI [of _ "y # ys"] exI [of _ zs]) simp
  qed
qed simp

text \<open>A round that goes on has read the clock and slept.\<close>

lemma event_timeout_fails [simp]: "event_timeout input st w \<noteq> Some (Inr x, w')"
  by (simp add: event_timeout_def)

lemma pause_or_watched:
  assumes "pause_or (dk_platform dk) d n (event_timeout input st) s w = Some (Inr x, w')" "watched dk f d' P w0 w"
  shows "x = Continue s \<and> watched dk f d' P w0 w'"
proof -
  from assms(1) obtain t w1 m where "pf_now (dk_platform dk) w = (t, w1)"
    "w' = pf_sleep (dk_platform dk) m w1" "x = Continue s"
    unfolding pause_or_def by (auto simp: get_now_Some sleep_for_def elim!: abind_InrE split: if_splits)
  then show ?thesis using watched_clock [OF assms(2)] watched_sleep by metis
qed

text \<open>
  The ways a round goes on: a look that failed, the first look, a look that shows nothing that was
  asked for, and one that does.
\<close>

definition looked ::
  "'w desktop \<Rightarrow> signal_filter \<Rightarrow> deadline \<Rightarrow> 'w \<Rightarrow> adapter_error + signal_baseline \<Rightarrow> 'w \<Rightarrow> 'w \<Rightarrow> bool" where
  "looked dk f d w observation w2 w3 \<longleftrightarrow>
     (\<exists>t1 w1 t2. pf_now (dk_platform dk) w = (t1, w1) \<and> dk_capture_signal_baseline dk f d w1 = (observation, w2) \<and>
        pf_now (dk_platform dk) w2 = (t2, w3) \<and> t2 < expires_at d)"

lemma looked_watched:
  assumes "looked dk f d w observation w2 w3" "watched dk f d P v w" "case observation of Inl _ \<Rightarrow> True | Inr b \<Rightarrow> P b"
  shows "watched dk f d P v w3"
proof -
  from assms(1) obtain t1 w1 t2 where l: "pf_now (dk_platform dk) w = (t1, w1)"
    "dk_capture_signal_baseline dk f d w1 = (observation, w2)" "pf_now (dk_platform dk) w2 = (t2, w3)"
    unfolding looked_def by blast
  have "watched dk f d P v w1" using assms(2) l(1) by (rule watched_clock)
  then have "watched dk f d P v w2"
    using l(2) assms(3) by (cases observation) (auto intro: watched_failed watched_look)
  then show ?thesis using l(3) by (rule watched_clock)
qed

lemma event_round_ways:
  assumes k: "parse_event (ew_event input) = Some k"
    and run: "event_round dk input k f start d st w = Some (Inr x, w')"
  obtains (failed) e w2 w3 where "looked dk f d w (Inl e) w2 w3"
      "pause_or (dk_platform dk) d EVENT_POLL_INTERVAL (event_timeout input (fst st, Some (error_evidence e)))
         (fst st, Some (error_evidence e)) w3 = Some (Inr x, w')"
  | (first) current w2 w3 where "looked dk f d w (Inr current) w2 w3" "in_process f current" "fst st = None"
      "pause_or (dk_platform dk) d EVENT_POLL_INTERVAL (event_timeout input (Some current, snd st))
         (Some current, snd st) w3 = Some (Inr x, w')"
  | (uneventful) base current w2 w3 where "looked dk f d w (Inr current) w2 w3" "fst st = Some base"
      "unremarkable input f base current"
      "pause_or (dk_platform dk) d EVENT_POLL_INTERVAL (event_timeout input st) st w3 = Some (Inr x, w')"
  | (seen) base current w2 w3 e t3 where "looked dk f d w (Inr current) w2 w3" "in_process f current"
      "fst st = Some base" "find (asked_for input) (diff_signals base current) = Some e"
      "pf_now (dk_platform dk) w3 = (t3, w')" "x = Done (found_event_json e ((t3 - start) div ns_per_ms))"
proof -
  let ?again = "pause_or (dk_platform dk) d EVENT_POLL_INTERVAL"
  have matches: "event_matches k (ew_window_id input) (ew_window_title input) = asked_for input"
    using event_matches_asked [OF k] by blast
  from run obtain observation w2 w3
    where o: "looked dk f d w observation w2 w3"
      and rest: "(case observation of
                  Inr current \<Rightarrow>
                    abind (lift_res (validate_signal_scope f current)) (\<lambda>_.
                      case fst st of
                        None \<Rightarrow> ?again (event_timeout input (Some current, snd st)) (Some current, snd st)
                      | Some base \<Rightarrow>
                          (case find_match (diff_signals base current) k (ew_window_id input) (ew_window_title input) of
                             Some e \<Rightarrow> abind (get_now (dk_platform dk)) (\<lambda>t.
                               ret (Done (found_event_json e ((t - start) div ns_per_ms))))
                           | None \<Rightarrow> ?again (event_timeout input st) st))
                | Inl e \<Rightarrow>
                    if is_retryable_poll_code (err_code e) then
                      (let st' = (fst st, Some (error_evidence e)) in ?again (event_timeout input st') st')
                    else fail_with (AppAdapter e)) w3 = Some (Inr x, w')"
    unfolding event_round_def Let_def looked_def
    by (elim abind_InrE) (auto simp: attempt_Some_iff not_le elim!: abind_InrE split: if_splits dest!: check_expired_Some)
  show thesis
  proof (cases observation)
    case (Inl e)
    with o rest show ?thesis by (auto intro: failed simp: Let_def split: if_splits)
  next
    case (Inr current)
    from rest Inr have v: "in_process f current"
      by (auto simp: validate_signal_scope_Inr in_process_def elim!: abind_InrE)
    show ?thesis
    proof (cases "fst st")
      case None
      with rest Inr o v show ?thesis by (auto intro: first elim!: abind_InrE)
    next
      case (Some base)
      show ?thesis
      proof (cases "find (asked_for input) (diff_signals base current)")
        case None
        then have "unremarkable input f base current" using v by (auto simp: unremarkable_def find_None_iff)
        moreover have "?again (event_timeout input st) st w3 = Some (Inr x, w')"
          using rest Inr Some None by (auto simp: find_match_def matches elim!: abind_InrE)
        ultimately show ?thesis using o [unfolded Inr] Some by (intro uneventful)
      next
        case (Some e)
        with rest Inr o v \<open>fst st = Some base\<close> show ?thesis
          by (auto intro: seen simp: find_match_def matches get_now_Some elim!: abind_InrE)
      qed
    qed
  qed
qed

lemma event_round_reports:
  assumes k: "parse_event (ew_event input) = Some k"
    and st: "based_on dk input seeded f d w0 st w"
    and run: "event_round dk input k f start d st w = Some (Inr x, w')"
  shows "case x of Continue st' \<Rightarrow> based_on dk input seeded f d w0 st' w' | Done j \<Rightarrow> reported dk input seeded start f d w0 j w'"
  using k run
proof (cases rule: event_round_ways)
  case (failed e w2 w3)
  have to: "watched dk f d P v w3" if "watched dk f d P v w" for P v
    using looked_watched [OF failed(1) that] by simp
  show ?thesis
    using st pause_or_watched [OF failed(2) to] by (fastforce simp: based_on_def split: option.splits)
next
  case (first current w2 w3)
  from first(1) obtain t1 w1 t2 where l: "pf_now (dk_platform dk) w = (t1, w1)"
    "dk_capture_signal_baseline dk f d w1 = (Inr current, w2)" "pf_now (dk_platform dk) w2 = (t2, w3)"
    unfolding looked_def by blast
  have un: "successful_seed seeded = None" "watched dk f d (\<lambda>_. False) w0 w"
    using st first(3) by (simp_all add: based_on_def)
  have "baseline_of dk seeded f d w0 current w2"
    using un(1) first(2) l(2) watched_clock [OF un(2) l(1)] by (auto simp: baseline_of_def)
  moreover have "watched dk f d (unremarkable input f current) w2 w3" using watched_start l(3) by (rule watched_clock)
  ultimately show ?thesis using pause_or_watched [OF first(4)] by (auto simp: based_on_def)
next
  case (uneventful base current w2 w3)
  then obtain since where "baseline_of dk seeded f d w0 base since" "watched dk f d (unremarkable input f base) since w"
    using st by (auto simp: based_on_def)
  then show ?thesis
    using pause_or_watched [OF uneventful(4) looked_watched [OF uneventful(1)]] uneventful(2,3) by (auto simp: based_on_def)
next
  case (seen base current w2 w3 e t3)
  then obtain since where b: "baseline_of dk seeded f d w0 base since"
    and to: "watched dk f d (unremarkable input f base) since w"
    using st by (auto simp: based_on_def)
  from seen(1) obtain t1 w1 t2 where l: "pf_now (dk_platform dk) w = (t1, w1)"
    "dk_capture_signal_baseline dk f d w1 = (Inr current, w2)" "pf_now (dk_platform dk) w2 = (t2, w3)" "t2 < expires_at d"
    unfolding looked_def by blast
  have "reported dk input seeded start f d w0 (found_event_json e ((t3 - start) div ns_per_ms)) w'"
    using b watched_clock [OF to l(1)] l(2-4) seen(2,5) find_first [OF seen(4)] unfolding reported_def by blast
  then show ?thesis by (simp add: seen(6))
qed

lemma event_loop_reports:
  assumes "parse_event (ew_event input) = Some k"
  shows "hoare (based_on dk input seeded f d w0 st) (loop (event_round dk input k f start d) st)
     (\<lambda>r w'. case r of Inl _ \<Rightarrow> True | Inr j \<Rightarrow> reported dk input seeded start f d w0 j w')"
  by (rule hoare_loop)
    (auto simp: hoare_def dest!: event_round_reports [OF assms] split: sum.splits flow.splits)

text \<open>
  C14. A wait for an event reports only what happened while it waited: the baseline is the one handed
  in or else the first observation of this wait; every observation after it shows no event of the
  kind, the window and the title asked for, until one, made before the deadline and the last thing
  the wait does apart from reading the clock, does; the answer is the first such event of the
  difference to the baseline; and when the wait is about one process, no observation used contains
  anything of another process or process instance.
\<close>

theorem event_wait_reports_changes:
  "case wait_for_event dk inh input seeded w of
     Some (Inr j, w') \<Rightarrow>
       (\<exists>k start w1 d f w2. parse_event (ew_event input) = Some k \<and>
          pf_now (dk_platform dk) w = (start, w1) \<and> deadline_at inh start (ew_timeout_ms input) = Inr d \<and>
          signal_filter_for dk input k seeded d w1 = Some (Inr f, w2) \<and> sf_app f = ew_app input \<and>
          reported dk input seeded start f d w2 j w')
   | _ \<Rightarrow> True"
proof -
  have app: "sf_app f = ew_app input" if "signal_filter_for dk input k seeded d v = Some (Inr f, v')" for k d v f v'
    using that unfolding signal_filter_for_def
    by (auto split: option.splits if_splits elim!: abind_InrE)
  have "\<exists>k start w1 d f w2. parse_event (ew_event input) = Some k \<and>
          pf_now (dk_platform dk) w = (start, w1) \<and> deadline_at inh start (ew_timeout_ms input) = Inr d \<and>
          signal_filter_for dk input k seeded d w1 = Some (Inr f, w2) \<and> sf_app f = ew_app input \<and>
          reported dk input seeded start f d w2 j w'"
    if "wait_for_event dk inh input seeded w = Some (Inr j, w')" for j w'
  proof -
    from that obtain k start w1 d f w2 st
      where k: "parse_event (ew_event input) = Some k"
        and t: "pf_now (dk_platform dk) w = (start, w1)" "deadline_at inh start (ew_timeout_ms input) = Inr d"
        and f: "signal_filter_for dk input k seeded d w1 = Some (Inr f, w2)"
        and st: "initial_baseline f seeded = Inr st"
        and lp: "loop (event_round dk input k f start d) st w2 = Some (Inr j, w')"
      unfolding wait_for_event_def parse_event_kind_def
      by (auto simp: get_now_Some elim!: abind_InrE)
    have "based_on dk input seeded f d w2 st w2"
      using st unfolding initial_baseline_def
      by (auto simp: based_on_def baseline_of_def successful_seed_def in_process_def validate_signal_scope_Inr
          intro: watched_start split: option.splits sum.splits if_splits)
    then show ?thesis using hoareD [OF event_loop_reports [OF k] _ lp] k t f app [OF f] by auto
  qed
  then show ?thesis by (auto split: option.split sum.split prod.split)
qed

end
