(* ===== verification/Waits.thy ===== *)
theory Waits
  imports WaitElement WaitEvents
begin

text \<open>
  The \<open>wait\<close> command: which of its modes is asked for (\<open>commands/wait_mode.rs\<close>,
  \<open>commands/wait_surface.rs\<close>), sleeping and waiting for a menu, a window or a notification
  (\<open>commands/wait.rs\<close>, \<open>commands/notification_policy.rs\<close>).
\<close>

section \<open>Modes\<close>

datatype surface_wait = WaitMenu | WaitMenuClosed | WaitNotification

record wait_mode_args =
  wm_ms :: "u64 option"
  wm_element :: "string option"
  wm_window :: "string option"
  wm_text :: "string option"
  wm_surface :: "surface_wait option"
  wm_event :: "string option"
  wm_window_id :: "string option"

record wait_predicate_args =
  wp_snapshot_id :: "string option"
  wp_predicate :: "string option"
  wp_value :: "string option"
  wp_action :: "string option"
  wp_count :: "nat option"

record wait_args =
  wa_mode :: wait_mode_args
  wa_predicate :: wait_predicate_args
  wa_timeout_ms :: u64
  wa_app :: "string option"


definition sug_wait_modes :: string where
  "sug_wait_modes = ''Use one of: ms, --element, --window, --text, --menu, --menu-closed, --notification, or --event.''"

definition ambiguous_wait_mode :: app_error where
  "ambiguous_wait_mode = invalid_input_with_suggestion ''wait accepts exactly one mode'' sug_wait_modes"



definition surface_wait_from_flags :: "bool \<Rightarrow> bool \<Rightarrow> bool \<Rightarrow> app_error + surface_wait option" where
  "surface_wait_from_flags menu menu_closed notification =
     (case (menu, menu_closed, notification) of
        (False, False, False) \<Rightarrow> Inr None
      | (True, False, False) \<Rightarrow> Inr (Some WaitMenu)
      | (False, True, False) \<Rightarrow> Inr (Some WaitMenuClosed)
      | (False, False, True) \<Rightarrow> Inr (Some WaitNotification)
      | _ \<Rightarrow> Inl ambiguous_wait_mode)"







section \<open>Sleeping and menus\<close>

definition wait_sleep :: "'w platform \<Rightarrow> deadline option \<Rightarrow> u64 \<Rightarrow> ('w, app_error, json) act" where
  "wait_sleep pf inh ms =
     abind (get_now pf) (\<lambda>t0.
     abind (lift_res (res_map_err AppAdapter (deadline_after inh t0 ms))) (\<lambda>d.
     abind (get_now pf) (\<lambda>t.
     abind (sleep_for pf (remaining t d)) (\<lambda>_.
       if dl_capped d then abind (make_timeout_error pf d) (\<lambda>e. fail_with (AppAdapter e))
       else ret (JObj [(''waited_ms'', JInt (uint ms))])))))"

definition elapsed_since :: "'w platform \<Rightarrow> nat \<Rightarrow> ('w, 'e, json) act" where
  "elapsed_since pf start = abind (get_now pf) (\<lambda>t. ret (JInt (int ((t - start) div ns_per_ms))))"

definition wait_for_menu :: "'w desktop \<Rightarrow> deadline option \<Rightarrow> string option \<Rightarrow> bool \<Rightarrow> u64 \<Rightarrow> ('w, app_error, json) act" where
  "wait_for_menu dk inh app opened timeout_ms =
     abind (get_now (dk_platform dk)) (\<lambda>start.
     abind (lift_res (res_map_err AppAdapter (deadline_at inh start timeout_ms))) (\<lambda>d.
     abind (resolve_app dk app d) (\<lambda>target.
     abind (lift_res (process_identity_of target)) (\<lambda>p.
     abind (app_call (dk_wait_for_menu dk p opened d)) (\<lambda>_.
     abind (elapsed_since (dk_platform dk) start) (\<lambda>ms.
       ret (JObj [(''found'', JBool True), (''elapsed_ms'', ms)])))))))"

section \<open>Windows\<close>

definition window_json :: "window_info \<Rightarrow> json" where
  "window_json v =
     JObj ([(''id'', JStr (win_id v)), (''title'', JStr (win_title v)), (''app_name'', JStr (win_app v)),
            (''pid'', JInt (uint (win_pid v)))] @
       opt_field ''process_instance'' JStr (win_instance v) @ opt_field ''bounds'' rect_json (win_bounds v) @
       [(''is_focused'', JBool (is_focused (win_state v))), (''accessible'', JBool (accessible (win_state v)))] @
       opt_field ''minimized'' JBool (minimized (win_state v)) @ opt_field ''visible'' JBool (win_visible (win_state v)))"

definition WINDOW_POLL_INTERVAL :: nat where "WINDOW_POLL_INTERVAL = 100 * ns_per_ms"

definition is_retryable_wait_poll_error :: "error_code \<Rightarrow> bool" where
  "is_retryable_wait_poll_error c \<longleftrightarrow> c = Timeout \<or> c = ElementNotFound"

definition poll_evidence :: "adapter_error \<Rightarrow> json" where
  "poll_evidence e =
     JObj [(''code'', JStr (error_code_as_str (err_code e))), (''message'', JStr (err_message e))]"

type_synonym window_wait_state = "json option \<times> json option"

definition window_round ::
  "'w desktop \<Rightarrow> string \<Rightarrow> window_filter \<Rightarrow> u64 \<Rightarrow> nat \<Rightarrow> deadline \<Rightarrow> window_wait_state \<Rightarrow>
     ('w, app_error, (window_wait_state, json) flow) act" where
  "window_round dk title f timeout_ms start d st =
     (let pf = dk_platform dk;
          again = (\<lambda>st. abind (sleep_left pf d WINDOW_POLL_INTERVAL) (\<lambda>_. ret (Continue st)))
      in abind (check_expired pf d) (\<lambda>expired.
         if expired then fail_with (window_timeout title (wf_app f) timeout_ms (fst st) (snd st))
         else
           abind (attempt (call (dk_list_windows dk f d))) (\<lambda>r.
             case r of
               Inr windows \<Rightarrow>
                 (case find (\<lambda>v. str_contains title (win_title v)) windows of
                    Some v \<Rightarrow>
                      abind (elapsed_since pf start) (\<lambda>ms.
                        ret (Done (JObj [(''found'', JBool True), (''window'', window_json v), (''elapsed_ms'', ms)])))
                  | None \<Rightarrow> again (fst st, Some (window_observation windows)))
             | Inl e \<Rightarrow>
                 if is_retryable_wait_poll_error (err_code e) then again (Some (poll_evidence e), snd st)
                 else fail_with (AppAdapter e))))"

definition wait_for_window ::
  "'w desktop \<Rightarrow> deadline option \<Rightarrow> string \<Rightarrow> string option \<Rightarrow> u64 \<Rightarrow> ('w, app_error, json) act" where
  "wait_for_window dk inh title app timeout_ms =
     abind (get_now (dk_platform dk)) (\<lambda>start.
     abind (lift_res (res_map_err AppAdapter (deadline_at inh start timeout_ms))) (\<lambda>d.
     loop (window_round dk title \<lparr>wf_focused_only = False, wf_app = app\<rparr> timeout_ms start d) (None, None)))"

section \<open>Notifications\<close>

record notification_fingerprint =
  fp_app_name :: string
  fp_title :: string
  fp_body :: "string option"
  fp_actions :: "string list"

definition fingerprint :: "notification_info \<Rightarrow> notification_fingerprint" where
  "fingerprint n =
     \<lparr>fp_app_name = nt_app_name n, fp_title = nt_title n, fp_body = nt_body n, fp_actions = nt_actions n\<rparr>"

type_synonym fingerprint_counts = "(notification_fingerprint \<times> nat) list"

definition count_of :: "fingerprint_counts \<Rightarrow> notification_fingerprint \<Rightarrow> nat" where
  "count_of m k = unwrap_or (map_of m k) 0"

definition count_one :: "notification_fingerprint \<Rightarrow> fingerprint_counts \<Rightarrow> fingerprint_counts" where
  "count_one k m = alist_insert k (count_of m k + 1) m"

definition notification_counts :: "notification_info list \<Rightarrow> fingerprint_counts" where
  "notification_counts ns = fold (\<lambda>n. count_one (fingerprint n)) ns []"

fun new_notification_loop ::
  "fingerprint_counts \<Rightarrow> notification_info list \<Rightarrow> fingerprint_counts \<Rightarrow> notification_info option" where
  "new_notification_loop seen [] baseline = None"
| "new_notification_loop seen (n # ns) baseline =
     (let seen = count_one (fingerprint n) seen
      in if count_of seen (fingerprint n) > count_of baseline (fingerprint n) then Some n
         else new_notification_loop seen ns baseline)"

definition first_new_notification :: "notification_info list \<Rightarrow> fingerprint_counts \<Rightarrow> notification_info option" where
  "first_new_notification current baseline = new_notification_loop [] current baseline"

text \<open>\<open>policy\<close> is the command's interaction policy joined with the headless one.\<close>

definition physical_input_policy :: "interaction_policy \<Rightarrow> interaction_policy" where
  "physical_input_policy p = join_policy headless p"

definition list_with_foreground_lease ::
  "'w desktop \<Rightarrow> notification_filter \<Rightarrow> deadline \<Rightarrow> interaction_policy \<Rightarrow> ('w, app_error, notification_info list) act" where
  "list_with_foreground_lease dk f d command_policy =
     (let policy = physical_input_policy command_policy; pf = dk_platform dk
      in if allow_focus_steal policy then
           abind (app_call (pf_acquire_interaction_lease pf d)) (\<lambda>l.
             with_lease pf l (app_call (dk_list_notifications dk f policy d (Some l))))
         else app_call (dk_list_notifications dk f policy d None))"

definition notification_json :: "notification_info \<Rightarrow> json" where
  "notification_json n =
     JObj ([(''index'', JInt (int (nt_index n))), (''app_name'', JStr (nt_app_name n)), (''title'', JStr (nt_title n))] @
       opt_field ''body'' JStr (nt_body n) @
       (if nt_actions n = [] then [] else [(''actions'', JArr (map JStr (nt_actions n)))]))"

definition NOTIFICATION_POLL_INTERVAL :: nat where "NOTIFICATION_POLL_INTERVAL = 500 * ns_per_ms"

type_synonym notification_wait_state = "fingerprint_counts option \<times> json option"

definition found_notification_json :: "notification_info \<Rightarrow> json \<Rightarrow> json" where
  "found_notification_json n ms =
     JObj [(''condition'', JStr ''notification''), (''matched'', JBool True),
           (''notification'', notification_json n), (''elapsed_ms'', ms)]"

definition notification_round ::
  "'w desktop \<Rightarrow> interaction_policy \<Rightarrow> notification_filter \<Rightarrow> u64 \<Rightarrow> nat \<Rightarrow> deadline \<Rightarrow> notification_wait_state \<Rightarrow>
     ('w, app_error, (notification_wait_state, json) flow) act" where
  "notification_round dk policy f timeout_ms start d st =
     (let pf = dk_platform dk;
          timed_out = (\<lambda>st. fail_with (notification_timeout (nf_app f) (nf_text f) timeout_ms (snd st)));
          again = (\<lambda>st. pause_or pf d NOTIFICATION_POLL_INTERVAL (timed_out st) st)
      in abind (check_expired pf d) (\<lambda>expired.
         if expired then timed_out st
         else
           abind (attempt (list_with_foreground_lease dk f d policy)) (\<lambda>r.
             case r of
               Inr current \<Rightarrow>
                 (case fst st of
                    None \<Rightarrow> again (Some (notification_counts current), snd st)
                  | Some baseline \<Rightarrow>
                      (case first_new_notification current baseline of
                         Some n \<Rightarrow>
                           abind (elapsed_since pf start) (\<lambda>ms. ret (Done (found_notification_json n ms)))
                       | None \<Rightarrow> again st))
             | Inl e \<Rightarrow>
                 (case e of
                    AppAdapter ae \<Rightarrow>
                      if is_retryable_wait_poll_error (err_code ae) then again (fst st, Some (poll_evidence ae))
                      else fail_with e
                  | _ \<Rightarrow> fail_with e))))"

definition wait_for_notification ::
  "'w desktop \<Rightarrow> deadline option \<Rightarrow> interaction_policy \<Rightarrow> string option \<Rightarrow> string option \<Rightarrow> u64 \<Rightarrow>
     ('w, app_error, json) act" where
  "wait_for_notification dk inh policy app txt timeout_ms =
     abind (get_now (dk_platform dk)) (\<lambda>start.
     abind (lift_res (res_map_err AppAdapter (deadline_at inh start timeout_ms))) (\<lambda>d.
     loop (notification_round dk policy \<lparr>nf_app = app, nf_text = txt, nf_limit = None\<rparr> timeout_ms start d) (None, None)))"

section \<open>Counting fingerprints\<close>

lemma count_of_one: "count_of (count_one k m) k' = count_of m k' + (if k = k' then 1 else 0)"
  by (simp add: count_of_def count_one_def)

lemma notification_counts_mset: "count_of (notification_counts ns) k = count (image_mset fingerprint (mset ns)) k"
proof -
  have "count_of (fold (\<lambda>n. count_one (fingerprint n)) ns m) k = count_of m k + count (image_mset fingerprint (mset ns)) k" for m
    by (induction ns arbitrary: m) (simp_all add: count_of_one)
  from this [of "[]"] show ?thesis by (simp add: notification_counts_def count_of_def)
qed

lemma new_notification_loop_None:
  "(\<forall>k. count_of seen k \<le> count_of base k) \<Longrightarrow>
     new_notification_loop seen ns base = None \<longleftrightarrow>
       (\<forall>k. count_of seen k + count (image_mset fingerprint (mset ns)) k \<le> count_of base k)"
proof (induction ns arbitrary: seen)
  case (Cons n ns)
  let ?s = "count_one (fingerprint n) seen"
  show ?case
  proof (cases "count_of ?s (fingerprint n) > count_of base (fingerprint n)")
    case True
    then have "\<not> (\<forall>k. count_of seen k + count (image_mset fingerprint (mset (n # ns))) k \<le> count_of base k)"
      by (auto simp: count_of_one intro!: exI [of _ "fingerprint n"])
    then show ?thesis using True by (simp add: Let_def)
  next
    case False
    then have "\<forall>k. count_of ?s k \<le> count_of base k" using Cons(2) by (auto simp: count_of_one)
    from Cons(1) [OF this] show ?thesis using False by (auto simp: Let_def count_of_one)
  qed
qed simp

lemma new_notification_loop_Some:
  "new_notification_loop seen ns base = Some n \<Longrightarrow>
     \<exists>us vs. ns = us @ n # vs \<and>
       count_of seen (fingerprint n) + count (image_mset fingerprint (mset (us @ [n]))) (fingerprint n) >
         count_of base (fingerprint n)"
proof (induction ns arbitrary: seen)
  case (Cons m ns)
  let ?s = "count_one (fingerprint m) seen"
  show ?case
  proof (cases "count_of ?s (fingerprint m) > count_of base (fingerprint m)")
    case True
    then have "n = m" using Cons(2) by (simp add: Let_def)
    then show ?thesis using True by (intro exI [of _ "[]"] exI [of _ ns]) (simp add: count_of_one)
  next
    case False
    then have "new_notification_loop ?s ns base = Some n" using Cons(2) by (simp add: Let_def)
    from Cons(1) [OF this] obtain us vs where "ns = us @ n # vs"
      "count_of ?s (fingerprint n) + count (image_mset fingerprint (mset (us @ [n]))) (fingerprint n) > count_of base (fingerprint n)"
      by blast
    then show ?thesis by (intro exI [of _ "m # us"] exI [of _ vs]) (auto simp: count_of_one split: if_splits)
  qed
qed simp

text \<open>
  C19. A wait for a notification tells a new notification from the ones that were there by counting:
  nothing is new exactly when the notifications of now, each read as application, title, body and
  actions, are a sub-multiset of those of the baseline; and one that is reported occurs more often
  up to its place in the list than it did in the baseline.
\<close>

theorem new_notification_by_count:
  "(case first_new_notification current (notification_counts baseline) of
      None \<Rightarrow> image_mset fingerprint (mset current) \<subseteq># image_mset fingerprint (mset baseline)
    | Some n \<Rightarrow>
        \<not> image_mset fingerprint (mset current) \<subseteq># image_mset fingerprint (mset baseline) \<and>
        (\<exists>us vs. current = us @ n # vs \<and>
           count (image_mset fingerprint (mset (us @ [n]))) (fingerprint n) >
           count (image_mset fingerprint (mset baseline)) (fingerprint n)))"
proof -
  have z: "count_of [] k = 0" for k by (simp add: count_of_def)
  have "first_new_notification current (notification_counts baseline) = None \<longleftrightarrow>
      image_mset fingerprint (mset current) \<subseteq># image_mset fingerprint (mset baseline)"
    unfolding first_new_notification_def
    by (subst new_notification_loop_None) (simp_all add: z notification_counts_mset subseteq_mset_def)
  moreover have "\<exists>us vs. current = us @ n # vs \<and>
           count (image_mset fingerprint (mset (us @ [n]))) (fingerprint n) >
           count (image_mset fingerprint (mset baseline)) (fingerprint n)"
    if "first_new_notification current (notification_counts baseline) = Some n" for n
    using new_notification_loop_Some [OF that [unfolded first_new_notification_def]]
    unfolding z notification_counts_mset by simp
  ultimately show ?thesis by (auto split: option.split)
qed

section \<open>One mode\<close>




section \<open>The waits come to an end\<close>

lemma terminates_elapsed [terminating]: "timed tm pf \<Longrightarrow> terminates tm (elapsed_since pf start)"
  unfolding elapsed_since_def by (intro terminating)

lemma terminates_list_notifications [terminating]:
  "timed_desktop tm dk \<Longrightarrow> terminates tm (list_with_foreground_lease dk f d policy)"
  unfolding list_with_foreground_lease_def Let_def by (intro terminating)

lemma terminates_window_round [terminating]:
  "timed_desktop tm dk \<Longrightarrow> terminates tm (window_round dk title f ms start d st)"
  unfolding window_round_def Let_def by (intro terminating)

lemma moves_window_round [moving]:
  assumes "timed_desktop tm dk"
  shows "moves tm (expires_at d) (window_round dk title f ms start d st)"
proof -
  note pf = timed_desktop_calls(1) [OF assms]
  have p: "0 < WINDOW_POLL_INTERVAL" by (simp add: WINDOW_POLL_INTERVAL_def ns_per_ms_def)
  show ?thesis
    unfolding window_round_def Let_def
    by (rule moves_check [OF pf]) (intro moving terminating assms p)+
qed

lemma terminates_notification_round [terminating]:
  "timed_desktop tm dk \<Longrightarrow> terminates tm (notification_round dk policy f ms start d st)"
  unfolding notification_round_def Let_def by (intro terminating) (auto split: app_error.split intro!: terminating)

lemma moves_notification_round [moving]:
  assumes "timed_desktop tm dk"
  shows "moves tm (expires_at d) (notification_round dk policy f ms start d st)"
proof -
  note pf = timed_desktop_calls(1) [OF assms]
  have p: "0 < NOTIFICATION_POLL_INTERVAL" by (simp add: NOTIFICATION_POLL_INTERVAL_def ns_per_ms_def)
  show ?thesis
    unfolding notification_round_def Let_def
    by (rule moves_bind, intro terminating pf, rule moves_if, intro moving, rule moves_bind, intro terminating assms)
      (auto split: app_error.split sum.split option.split intro!: moving terminating pf p)
qed

lemma terminates_wait_loops [terminating]:
  assumes "timed_desktop tm dk"
  shows "terminates tm (loop (window_round dk title f ms start d) st)"
    "terminates tm (loop (notification_round dk policy nf ms start d) st')"
  by (rule terminates_waiting [OF terminates_window_round moves_window_round, OF assms assms],
      rule terminates_waiting [OF terminates_notification_round moves_notification_round, OF assms assms])

lemma terminates_waits [terminating]:
  assumes "timed_desktop tm dk"
  shows "terminates tm (wait_for_window dk inh title app ms)"
    "terminates tm (wait_for_notification dk inh policy app txt ms)"
    "terminates tm (wait_for_menu dk inh app opened ms)"
  unfolding wait_for_window_def wait_for_notification_def wait_for_menu_def
  by (intro terminating assms)+

end
