(* ===== verification/Commands.thy ===== *)
theory Commands
  imports Waits RefActionLog
begin

text \<open>
  Commands that change windows, applications and notifications directly
  (\<open>commands/window_target.rs\<close>, \<open>commands/resize_window.rs\<close>, \<open>commands/move_window.rs\<close>,
  \<open>commands/focus_window.rs\<close>, \<open>commands/close_app.rs\<close>, \<open>commands/dismiss_notification.rs\<close> and its
  siblings, \<open>notification_identity.rs\<close>), and the parsing and refusal of key combinations
  (\<open>commands/combo.rs\<close>).  Each finds its target first, takes the lease, looks at the target again
  and only then asks the platform, once.
\<close>

section \<open>What the platform can be asked to do\<close>

record notification_identity =
  ni_expected_app :: "string option"
  ni_expected_title :: "string option"

record dismiss_request =
  dr_index :: nat
  dr_app_filter :: "string option"
  dr_identity :: notification_identity
  dr_policy :: interaction_policy

record dismiss_all_request =
  da_app_filter :: "string option"
  da_policy :: interaction_policy

record notification_action_request =
  na_index :: nat
  na_identity :: notification_identity
  na_action_name :: string
  na_policy :: interaction_policy

record 'w hands =
  hd_desktop :: "'w desktop"
  hd_window_op :: "window_info \<Rightarrow> window_op \<Rightarrow> lease \<Rightarrow> 'w \<Rightarrow> (adapter_error + unit) \<times> 'w"
  hd_close_app :: "app_info \<Rightarrow> bool \<Rightarrow> lease \<Rightarrow> 'w \<Rightarrow> (adapter_error + unit) \<times> 'w"
  hd_dismiss_notification :: "dismiss_request \<Rightarrow> lease \<Rightarrow> 'w \<Rightarrow> (adapter_error + notification_info) \<times> 'w"
  hd_dismiss_all :: "dismiss_all_request \<Rightarrow> lease \<Rightarrow> 'w \<Rightarrow> (adapter_error + (notification_info list \<times> string list)) \<times> 'w"
  hd_notification_action :: "notification_action_request \<Rightarrow> lease \<Rightarrow> 'w \<Rightarrow> (adapter_error + action_result) \<times> 'w"
  hd_is_protected_process :: "string \<Rightarrow> bool"
  hd_is_blocked_combo :: "key_combo \<Rightarrow> bool"

abbreviation hd_platform :: "'w hands \<Rightarrow> 'w platform" where
  "hd_platform hn \<equiv> dk_platform (hd_desktop hn)"

definition standard_deadline :: "'w platform \<Rightarrow> deadline option \<Rightarrow> ('w, app_error, deadline) act" where
  "standard_deadline pf inh =
     abind (get_now pf) (\<lambda>t. lift_res (res_map_err AppAdapter (deadline_standard inh t)))"

text \<open>The lease is held until the function ends.\<close>

definition under_lease :: "'w platform \<Rightarrow> deadline \<Rightarrow> (lease \<Rightarrow> ('w, app_error, 'a) act) \<Rightarrow> ('w, app_error, 'a) act" where
  "under_lease pf d body =
     abind (app_call (pf_acquire_interaction_lease pf d)) (\<lambda>l. with_lease pf l (body l))"


section \<open>Windows\<close>

definition resolve_window ::
  "'w desktop \<Rightarrow> string option \<Rightarrow> string option \<Rightarrow> deadline \<Rightarrow> ('w, app_error, window_info) act" where
  "resolve_window dk app window_id d =
     (case window_id of
        Some i \<Rightarrow>
          abind (app_call (dk_list_windows dk \<lparr>wf_focused_only = False, wf_app = app\<rparr> d)) (\<lambda>windows.
            lift_res (select_window (filter (\<lambda>v. win_id v = i) windows)
              (with_suggestion sug_refresh_windows
                (new_error WindowNotFound (''Window '' @ quoted i @ '' was not found'')))
              ''Multiple windows matched the requested window ID''))
      | None \<Rightarrow>
          abind (resolve_app dk app d) (\<lambda>a.
          abind (lift_res (process_identity_of a)) (\<lambda>p. find_window_for_process dk p d)))"

definition resolve_window_for_app ::
  "'w desktop \<Rightarrow> deadline option \<Rightarrow> string option \<Rightarrow> string option \<Rightarrow> ('w, app_error, window_info) act" where
  "resolve_window_for_app dk inh app window_id =
     abind (standard_deadline (dk_platform dk) inh) (\<lambda>d. resolve_window dk app window_id d)"

definition revalidate_window_for_mutation :: "'w desktop \<Rightarrow> window_info \<Rightarrow> lease \<Rightarrow> ('w, app_error, window_info) act" where
  "revalidate_window_for_mutation dk expected l =
     abind (app_call (pf_resolve_window_strict (dk_platform dk) expected (lease_deadline l))) (\<lambda>live.
       if win_id live \<noteq> win_id expected \<or> win_pid live \<noteq> win_pid expected \<or> win_instance live \<noteq> win_instance expected
       then fail_with (AppAdapter (new_error StaleRef ''Window identity changed before mutation''))
       else ret live)"

definition operate_window :: "'w hands \<Rightarrow> window_info \<Rightarrow> window_op \<Rightarrow> json \<Rightarrow> lease \<Rightarrow> ('w, app_error, json) act" where
  "operate_window hn v op answer l =
     abind (revalidate_window_for_mutation (hd_desktop hn) v l) (\<lambda>live.
     abind (app_call (hd_window_op hn live op l)) (\<lambda>_. ret answer))"

definition window_op_command ::
  "'w hands \<Rightarrow> deadline option \<Rightarrow> string option \<Rightarrow> string option \<Rightarrow> window_op \<Rightarrow> string \<Rightarrow> ('w, app_error, json) act" where
  "window_op_command hn inh app window_id op response_key =
     abind (standard_deadline (hd_platform hn) inh) (\<lambda>d.
     abind (resolve_window (hd_desktop hn) app window_id d) (\<lambda>v.
     under_lease (hd_platform hn) d (operate_window hn v op (JObj [(response_key, JBool True)]))))"

definition minimize_command :: "'w hands \<Rightarrow> deadline option \<Rightarrow> string option \<Rightarrow> string option \<Rightarrow> ('w, app_error, json) act" where
  "minimize_command hn inh app window_id = window_op_command hn inh app window_id Minimize ''minimized''"

definition maximize_command :: "'w hands \<Rightarrow> deadline option \<Rightarrow> string option \<Rightarrow> string option \<Rightarrow> ('w, app_error, json) act" where
  "maximize_command hn inh app window_id = window_op_command hn inh app window_id Maximize ''maximized''"

definition restore_command :: "'w hands \<Rightarrow> deadline option \<Rightarrow> string option \<Rightarrow> string option \<Rightarrow> ('w, app_error, json) act" where
  "restore_command hn inh app window_id = window_op_command hn inh app window_id Restore ''restored''"






section \<open>Closing an application\<close>





section \<open>Notifications\<close>


definition notification_matches :: "notification_identity \<Rightarrow> notification_info \<Rightarrow> bool" where
  "notification_matches i n \<longleftrightarrow>
     is_none_or (ni_expected_app i) (\<lambda>s. s = nt_app_name n) \<and> is_none_or (ni_expected_title i) (\<lambda>s. s = nt_title n)"







definition list_notifications ::
  "'w hands \<Rightarrow> deadline option \<Rightarrow> interaction_policy \<Rightarrow> notification_filter \<Rightarrow> ('w, app_error, json) act" where
  "list_notifications hn inh command_policy f =
     abind (standard_deadline (hd_platform hn) inh) (\<lambda>d.
     abind (list_with_foreground_lease (hd_desktop hn) f d command_policy) (\<lambda>ns.
       ret (JObj [(''count'', JInt (int (length ns))), (''notifications'', JArr (map notification_json ns))])))"

section \<open>Key combinations\<close>

fun split_on :: "char \<Rightarrow> string \<Rightarrow> string list" where
  "split_on c [] = [[]]"
| "split_on c (x # xs) =
     (if x = c then [] # split_on c xs
      else (case split_on c xs of [] \<Rightarrow> [[x]] | p # ps \<Rightarrow> (x # p) # ps))"

definition modifier_of :: "string \<Rightarrow> app_error + modifier" where
  "modifier_of part =
     (if part \<in> {''meta'', ''cmd'', ''command''} then Inr Meta
      else if part \<in> {''ctrl'', ''control''} then Inr Ctrl
      else if part \<in> {''alt'', ''option''} then Inr Alt
      else if part = ''shift'' then Inr Shift
      else Inl (invalid_input (''Unknown modifier: '' @ quoted part)))"

fun modifiers_of :: "string list \<Rightarrow> app_error + modifier list" where
  "modifiers_of [] = Inr []"
| "modifiers_of (p # ps) = res_bind (modifier_of p) (\<lambda>m. res_bind (modifiers_of ps) (\<lambda>ms. Inr (m # ms)))"

definition parse_combo :: "string \<Rightarrow> app_error + key_combo" where
  "parse_combo s =
     (let parts = split_on CHR ''+'' s
      in res_bind (ok_or (option_filter (\<lambda>k. k \<noteq> []) (Some (last parts))) (invalid_input ''Empty key combo'')) (\<lambda>key.
         res_bind (modifiers_of (butlast parts)) (\<lambda>ms.
         Inr \<lparr>combo_key = key, combo_modifiers = ms\<rparr>)))"

text \<open>\<open>lower\<close> is Rust's \<open>to_lowercase\<close>.\<close>

definition parse_combo_normalized :: "(string \<Rightarrow> string) \<Rightarrow> string \<Rightarrow> app_error + key_combo" where
  "parse_combo_normalized lower raw = parse_combo (filter (\<lambda>c. c \<noteq> CHR '' '') (lower raw))"

definition ensure_combo_allowed :: "'w hands \<Rightarrow> key_combo \<Rightarrow> string \<Rightarrow> bool \<Rightarrow> app_error + unit" where
  "ensure_combo_allowed hn combo raw force =
     (if \<not> force \<and> hd_is_blocked_combo hn combo then
        Inl (AppAdapter (policy_denied_error
          (''Key combo '' @ quoted raw @ '' is blocked for safety; pass --force to override'')))
      else Inr ())"

text \<open>\<open>key-down\<close> and \<open>key-up\<close> never press anything.\<close>

definition input_hold_reject :: "string \<Rightarrow> string \<Rightarrow> app_error" where
  "input_hold_reject command replacement =
     AppAdapter (with_suggestion
       (''Use the atomic '' @ replacement @ '' command; held input requires a daemon-owned transaction that can guarantee release'')
       (new_error ActionNotSupported (command @ '' is unavailable in stateless mode'')))"

definition key_down :: "(string \<Rightarrow> string) \<Rightarrow> 'w hands \<Rightarrow> string \<Rightarrow> bool \<Rightarrow> app_error + json" where
  "key_down lower hn raw force =
     res_bind (parse_combo_normalized lower raw) (\<lambda>combo.
     res_bind (ensure_combo_allowed hn combo raw force) (\<lambda>_.
     Inl (input_hold_reject ''key-down'' ''press'')))"

definition key_up :: "(string \<Rightarrow> string) \<Rightarrow> 'w hands \<Rightarrow> string \<Rightarrow> bool \<Rightarrow> app_error + json" where
  "key_up lower hn raw force =
     res_bind (parse_combo_normalized lower raw) (\<lambda>combo.
     res_bind (ensure_combo_allowed hn combo raw force) (\<lambda>_.
     Inl (input_hold_reject ''key-up'' ''press'')))"

section \<open>What the commands do to the outside\<close>

definition logged_desktop :: "'w desktop \<Rightarrow> ('w \<times> event list) desktop" where
  "logged_desktop dk =
     \<lparr>dk_platform = logged (dk_platform dk),
      dk_list_windows = (\<lambda>f d. pass_op (dk_list_windows dk f d)),
      dk_list_apps_scoped = (\<lambda>n b d. pass_op (dk_list_apps_scoped dk n b d)),
      dk_focused_window = (\<lambda>d. pass_op (dk_focused_window dk d)),
      dk_capture_signal_baseline = (\<lambda>f d. pass_op (dk_capture_signal_baseline dk f d)),
      dk_wait_for_menu = (\<lambda>p b d. pass_op (dk_wait_for_menu dk p b d)),
      dk_list_notifications = (\<lambda>f p d l. pass_op (dk_list_notifications dk f p d l)),
      dk_get_live_value = (\<lambda>h d. pass_op (dk_get_live_value dk h d)),
      dk_get_live_state = (\<lambda>h d. pass_op (dk_get_live_state dk h d))\<rparr>"


lemma logged_desktop_simps [simp]:
  "dk_platform (logged_desktop dk) = logged (dk_platform dk)"
  "dk_list_windows (logged_desktop dk) f d = pass_op (dk_list_windows dk f d)"
  "dk_list_apps_scoped (logged_desktop dk) n b d = pass_op (dk_list_apps_scoped dk n b d)"
  "dk_focused_window (logged_desktop dk) d = pass_op (dk_focused_window dk d)"
  by (simp_all add: logged_desktop_def)


text \<open>
  \<open>one_under_lease ok\<close>: nothing happened, or the lease was taken and returned with nothing in
  between, and then there is no success; or exactly one thing happened between taking and returning
  the lease, and that is as \<open>ok\<close> says.
\<close>

definition attempted_one :: "(event \<Rightarrow> bool) \<Rightarrow> 'e + 'a \<Rightarrow> event list \<Rightarrow> bool" where
  "attempted_one ok r es \<longleftrightarrow> es = [] \<and> \<not> is_ok r \<or> (\<exists>ev. ok ev \<and> es = [ev])"


named_theorems leasing \<open>actions that do one thing under the lease\<close>

lemma quiet_app_call [quieting]: "quiet (app_call (pass_op f))"
  unfolding app_call_def by (intro quieting)


lemma attempted_bind [leasing]:
  "quiet m \<Longrightarrow> (\<And>x. emits (f x) (attempted_one ok)) \<Longrightarrow> emits (abind m f) (attempted_one ok)"
  by (rule emits_quiet_bind) (auto simp: attempted_one_def)








lemma quiet_list_case [quieting]:
  "quiet a \<Longrightarrow> (\<And>x xs. quiet (g x xs)) \<Longrightarrow> quiet (case xs of [] \<Rightarrow> a | x # xs \<Rightarrow> g x xs)"
  by (simp split: list.split)

lemma quiet_lookup [quieting]:
  "quiet (resolve_app_owning (logged_desktop dk) v d)" "quiet (resolve_app (logged_desktop dk) app d)"
  "quiet (find_window_for_process (logged_desktop dk) p d)" "quiet (revalidate_app_for_mutation (logged_desktop dk) a d)"
  unfolding resolve_app_def resolve_app_owning_def find_window_for_process_def revalidate_app_for_mutation_def
    Let_def logged_desktop_simps
  by (intro quieting)+

lemma quiet_resolve_window [quieting]:
  "quiet (standard_deadline (logged pf) inh)" "quiet (resolve_window (logged_desktop dk) app i d)"
  "quiet (resolve_window_for_app (logged_desktop dk) inh app i)"
  unfolding standard_deadline_def resolve_window_def resolve_window_for_app_def logged_desktop_simps
  by (intro quieting)+

lemma quiet_revalidate_window [quieting]: "quiet (revalidate_window_for_mutation (logged_desktop dk) v l)"
  unfolding revalidate_window_for_mutation_def logged_desktop_simps logged_calls by (intro quieting)

lemma quiet_focus_wait [quieting]: "quiet (wait_for_focused_window (logged_desktop dk) i app poll d)"
proof -
  have p: "quiet (focus_pause (logged pf) poll d n)" for pf :: "'w platform" and d n
    unfolding focus_pause_def sleep_left_def by (intro quieting)
  have "quiet (focus_round (logged_desktop dk) i app poll d n)" for d n
    unfolding focus_round_def observed_focused_window_def Let_def logged_desktop_simps
    by (intro quieting) (auto split: app_error.split intro: p quieting)
  then show ?thesis unfolding wait_for_focused_window_def logged_desktop_simps by (intro quieting)
qed



















section \<open>Key combinations\<close>

lemma split_on_no: "CHR ''+'' \<notin> set s \<Longrightarrow> split_on CHR ''+'' s = [s]"
  by (induction s) auto

lemma split_on_append: "CHR ''+'' \<notin> set p \<Longrightarrow> split_on CHR ''+'' (p @ CHR ''+'' # s) = p # split_on CHR ''+'' s"
proof (induction p)
  case (Cons x p)
  then show ?case by auto
qed simp

lemma split_on_nonempty [simp]: "split_on c s \<noteq> []"
  by (induction s) (auto split: list.split)

fun modifier_text :: "modifier \<Rightarrow> string" where
  "modifier_text Meta = ''cmd''"
| "modifier_text Ctrl = ''ctrl''"
| "modifier_text Alt = ''alt''"
| "modifier_text Shift = ''shift''"

definition combo_text :: "key_combo \<Rightarrow> string" where
  "combo_text c = concat (map (\<lambda>m. modifier_text m @ ''+'') (combo_modifiers c)) @ combo_key c"

lemma split_combo_text:
  "CHR ''+'' \<notin> set k \<Longrightarrow>
     split_on CHR ''+'' (concat (map (\<lambda>m. modifier_text m @ ''+'') ms) @ k) = map modifier_text ms @ [k]"
proof (induction ms)
  case (Cons m ms)
  have "CHR ''+'' \<notin> set (modifier_text m)" by (cases m) simp_all
  then show ?case using Cons split_on_append by simp
qed (simp add: split_on_no)

lemma modifier_of_text: "modifier_of (modifier_text m) = Inr m"
  by (cases m) (simp_all add: modifier_of_def)

lemma modifiers_of_text: "modifiers_of (map modifier_text ms) = Inr ms"
  by (induction ms) (simp_all add: modifier_of_text)

lemma parse_combo_text:
  "combo_key c \<noteq> [] \<Longrightarrow> CHR ''+'' \<notin> set (combo_key c) \<Longrightarrow> parse_combo (combo_text c) = Inr c"
  by (cases c) (simp add: parse_combo_def combo_text_def split_combo_text modifiers_of_text)

end
