(* ===== verification/Files.thy ===== *)
theory Files
  imports DesktopLookup
begin

text \<open>
  Files that outlive the process: the calls the core makes of the file system (\<open>private_file.rs\<close>
  and the standard library, as the fields of a record over the abstract world), and locks on files
  (\<open>file_lock.rs\<close>, \<open>refs_lock.rs\<close>).  A path is the list of its components, so that joining
  appends.  \<open>keeps_files\<close> states what is relied on: reading returns what is there, writing and
  removing change one thing, and the lock only brackets.
\<close>

section \<open>The file system\<close>

type_synonym path = "string list"

definition path_text :: "path \<Rightarrow> string" where
  "path_text p = concat (map (\<lambda>c. CHR ''/'' # c) p)"

datatype io_kind = IoNotFound | IoInvalidData | IoOther

record io_error =
  io_kind_of :: io_kind
  io_text :: string

datatype try_lock = TakenLock | WouldBlock | LockBroken string

datatype entry_kind = PlainFile | Directory | Symlink | OtherEntry

record dir_entry =
  de_name :: string
  de_kind :: "entry_kind option"

text \<open>
  \<open>fl_mixed\<close> is the randomly seeded hash a new snapshot id is made of, \<open>fl_age\<close> the time since a
  file was last written and \<open>fl_modified\<close> the moment, where the system tells; \<open>fl_stat\<close> is the kind
  and size of an entry, without following links.
\<close>

record 'w files =
  fl_platform :: "'w platform"
  fl_state_root :: "'w \<Rightarrow> (app_error + path) \<times> 'w"
  fl_mixed :: "'w \<Rightarrow> u64 \<times> 'w"
  fl_open_lock :: "path \<Rightarrow> bool \<Rightarrow> 'w \<Rightarrow> (io_error + nat) \<times> 'w"
  fl_try_lock :: "nat \<Rightarrow> 'w \<Rightarrow> try_lock \<times> 'w"
  fl_close :: "nat \<Rightarrow> 'w \<Rightarrow> 'w"
  fl_read :: "path \<Rightarrow> nat \<Rightarrow> 'w \<Rightarrow> (io_error + string) \<times> 'w"
  fl_write :: "path \<Rightarrow> string \<Rightarrow> 'w \<Rightarrow> (io_error + unit) \<times> 'w"
  fl_read_dir :: "path \<Rightarrow> 'w \<Rightarrow> (io_error + (io_error + dir_entry) list) \<times> 'w"
  fl_age :: "path \<Rightarrow> 'w \<Rightarrow> nat option \<times> 'w"
  fl_modified :: "path \<Rightarrow> 'w \<Rightarrow> nat option \<times> 'w"
  fl_is_file :: "path \<Rightarrow> 'w \<Rightarrow> bool \<times> 'w"
  fl_is_dir :: "path \<Rightarrow> 'w \<Rightarrow> bool \<times> 'w"
  fl_stat :: "path \<Rightarrow> 'w \<Rightarrow> (io_error + entry_kind \<times> nat) \<times> 'w"
  fl_create_dir :: "path \<Rightarrow> 'w \<Rightarrow> (io_error + unit) \<times> 'w"
  fl_remove_file :: "path \<Rightarrow> 'w \<Rightarrow> (io_error + unit) \<times> 'w"
  fl_remove_dir_all :: "path \<Rightarrow> 'w \<Rightarrow> (io_error + unit) \<times> 'w"

text \<open>A call without an error, and one whose error becomes the application's.\<close>

definition ask :: "('w \<Rightarrow> 'a \<times> 'w) \<Rightarrow> ('w, 'e, 'a) act" where
  "ask f w = (let (x, w') = f w in Some (Inr x, w'))"

definition io_call :: "('w \<Rightarrow> (io_error + 'a) \<times> 'w) \<Rightarrow> ('w, app_error, 'a) act" where
  "io_call f = amap_err (\<lambda>e. AppIo (io_text e)) (call f)"

section \<open>Locks\<close>

record file_lock =
  lock_handle :: nat
  lock_contention :: u64

definition io_adapter_error :: "io_error \<Rightarrow> adapter_error" where
  "io_adapter_error e = new_error Internal (io_text e)"

definition lock_timeout :: "'w files \<Rightarrow> deadline \<Rightarrow> string \<Rightarrow> path \<Rightarrow> u64 \<Rightarrow> ('w, adapter_error, 'a) act" where
  "lock_timeout fs d purpose p contended =
     abind (make_timeout_error (fl_platform fs) d) (\<lambda>e.
       fail_with (with_details
         (JObj [(''kind'', JStr ''lock_timeout''), (''purpose'', JStr purpose),
                (''path'', JStr (path_text p)), (''contention_count'', JInt (uint contended))]) e))"

definition LOCK_POLL :: nat where "LOCK_POLL = 10 * ns_per_ms"

definition lock_round ::
  "'w files \<Rightarrow> nat \<Rightarrow> deadline \<Rightarrow> string \<Rightarrow> path \<Rightarrow> u64 \<Rightarrow> ('w, adapter_error, (u64, file_lock) flow) act" where
  "lock_round fs h d purpose p contended =
     (let pf = fl_platform fs
      in abind (check_expired pf d) (\<lambda>expired.
         if expired then lock_timeout fs d purpose p contended
         else
           abind (ask (fl_try_lock fs h)) (\<lambda>r.
             case r of
               TakenLock \<Rightarrow>
                 abind (check_expired pf d) (\<lambda>expired.
                   if expired then lock_timeout fs d purpose p contended
                   else ret (Done \<lparr>lock_handle = h, lock_contention = contended\<rparr>))
             | WouldBlock \<Rightarrow>
                 (let contended = saturating_inc contended
                  in pause_or pf d LOCK_POLL (lock_timeout fs d purpose p contended) contended)
             | LockBroken e \<Rightarrow>
                 fail_with (new_error Internal (''Failed to acquire '' @ purpose @ '': '' @ e)))))"

text \<open>The file is closed, and with it the lock given back, when the lock is not returned.\<close>

definition lock_file ::
  "'w files \<Rightarrow> nat \<Rightarrow> deadline \<Rightarrow> string \<Rightarrow> path \<Rightarrow> ('w, adapter_error, file_lock) act" where
  "lock_file fs h d purpose p =
     abind (attempt (loop (lock_round fs h d purpose p) 0)) (\<lambda>r.
       case r of
         Inr l \<Rightarrow> ret l
       | Inl e \<Rightarrow> abind (effect (fl_close fs h)) (\<lambda>_. fail_with e))"

definition acquire_file_lock :: "'w files \<Rightarrow> path \<Rightarrow> deadline \<Rightarrow> string \<Rightarrow> ('w, adapter_error, file_lock) act" where
  "acquire_file_lock fs p d purpose =
     abind (amap_err io_adapter_error (call (fl_open_lock fs p True))) (\<lambda>h. lock_file fs h d purpose p)"

definition lock_is_held :: "'w files \<Rightarrow> path \<Rightarrow> ('w, 'e, bool) act" where
  "lock_is_held fs p =
     abind (attempt (call (fl_open_lock fs p False))) (\<lambda>r.
       case r of
         Inl e \<Rightarrow> ret False
       | Inr h \<Rightarrow>
           abind (ask (fl_try_lock fs h)) (\<lambda>t.
           abind (effect (fl_close fs h)) (\<lambda>_. ret (t \<noteq> TakenLock))))"

definition LOCK_TIMEOUT_MS :: u64 where "LOCK_TIMEOUT_MS = 2000"

definition store_lock_within :: "'w files \<Rightarrow> path \<Rightarrow> deadline \<Rightarrow> ('w, app_error, file_lock) act" where
  "store_lock_within fs p d = amap_err AppAdapter (acquire_file_lock fs p d ''ref store lock'')"

definition store_lock :: "'w files \<Rightarrow> deadline option \<Rightarrow> path \<Rightarrow> ('w, app_error, file_lock) act" where
  "store_lock fs inh p =
     abind (get_now (fl_platform fs)) (\<lambda>t.
     abind (lift_res (res_map_err AppAdapter (deadline_after inh t LOCK_TIMEOUT_MS))) (store_lock_within fs p))"

definition store_lock_detached :: "'w files \<Rightarrow> path \<Rightarrow> ('w, app_error, file_lock) act" where
  "store_lock_detached fs p =
     abind (get_now (fl_platform fs)) (\<lambda>t.
     abind (lift_res (res_map_err AppAdapter (detached_after t LOCK_TIMEOUT_MS))) (store_lock_within fs p))"

text \<open>The lock is dropped when the function that holds it ends.\<close>

definition holding_lock :: "'w files \<Rightarrow> file_lock \<Rightarrow> ('w, 'e, 'a) act \<Rightarrow> ('w, 'e, 'a) act" where
  "holding_lock fs l m =
     abind (attempt m) (\<lambda>r. abind (effect (fl_close fs (lock_handle l))) (\<lambda>_. lift_res r))"

section \<open>What files keep\<close>

definition is_orphaned_tmp_file :: "path \<Rightarrow> bool" where
  "is_orphaned_tmp_file p \<longleftrightarrow>
     p \<noteq> [] \<and> is_some_and (rsplit_once ''.'' (last p)) (\<lambda>(stem, ext). stem \<noteq> [] \<and> ext = ''tmp'')"

text \<open>
  \<open>view w p\<close> is the content of the file \<open>p\<close> in the world \<open>w\<close>.  A write may leave temporary files
  and, when it fails, may have replaced the file or not.
\<close>

definition keeps_files :: "('w \<Rightarrow> path \<Rightarrow> string option) \<Rightarrow> 'w files \<Rightarrow> bool" where
  "keeps_files view fs \<longleftrightarrow>
     (\<forall>p n w. view (snd (fl_read fs p n w)) = view w \<and>
        (case fst (fl_read fs p n w) of
           Inr s \<Rightarrow> view w p = Some s \<and> length s \<le> n
         | Inl e \<Rightarrow> io_kind_of e = IoNotFound \<longrightarrow> view w p = None)) \<and>
     (\<forall>p s w q. q \<noteq> p \<and> \<not> is_orphaned_tmp_file q \<longrightarrow> view (snd (fl_write fs p s w)) q = view w q) \<and>
     (\<forall>p s w. view (snd (fl_write fs p s w)) p \<in> {view w p, Some s} \<and>
        (is_ok (fst (fl_write fs p s w)) \<longrightarrow> view (snd (fl_write fs p s w)) p = Some s)) \<and>
     (\<forall>p w. view (snd (fl_read_dir fs p w)) = view w) \<and>
     (\<forall>p w. view (snd (fl_age fs p w)) = view w) \<and>
     (\<forall>p w. view (snd (fl_modified fs p w)) = view w) \<and>
     (\<forall>p w. view (snd (fl_is_file fs p w)) = view w) \<and>
     (\<forall>p w. view (snd (fl_is_dir fs p w)) = view w) \<and>
     (\<forall>p w. view (snd (fl_stat fs p w)) = view w) \<and>
     (\<forall>p w. view (snd (fl_create_dir fs p w)) = view w) \<and>
     (\<forall>w. view (snd (fl_mixed fs w)) = view w) \<and>
     (\<forall>p w q. q \<noteq> p \<longrightarrow> view (snd (fl_remove_file fs p w)) q = view w q) \<and>
     (\<forall>p w q. take (length p) q \<noteq> p \<longrightarrow> view (snd (fl_remove_dir_all fs p w)) q = view w q) \<and>
     (\<forall>h w. view (fl_close fs h w) = view w) \<and>
     (\<forall>p b w q. q \<noteq> p \<longrightarrow> view (snd (fl_open_lock fs p b w)) q = view w q) \<and>
     (\<forall>h w. view (snd (fl_try_lock fs h w)) = view w) \<and>
     (\<forall>w. view (snd (fl_state_root fs w)) = view w) \<and>
     (\<forall>w. view (snd (pf_now (fl_platform fs) w)) = view w) \<and>
     (\<forall>n w. view (pf_sleep (fl_platform fs) n w) = view w)"

lemma keeps_filesD:
  assumes keeps: "keeps_files view fs"
  shows "view (snd (fl_read fs p n w)) = view w"
    "fst (fl_read fs p n w) = Inr s \<Longrightarrow> view w p = Some s \<and> length s \<le> n"
    "fst (fl_read fs p n w) = Inl e \<Longrightarrow> io_kind_of e = IoNotFound \<Longrightarrow> view w p = None"
    "q \<noteq> p \<Longrightarrow> \<not> is_orphaned_tmp_file q \<Longrightarrow> view (snd (fl_write fs p t w)) q = view w q"
    "view (snd (fl_write fs p t w)) p \<in> {view w p, Some t}"
    "fst (fl_write fs p t w) = Inr u \<Longrightarrow> view (snd (fl_write fs p t w)) p = Some t"
    "view (snd (fl_read_dir fs p w)) = view w" "view (snd (fl_age fs p w)) = view w"
    "view (snd (fl_modified fs p w)) = view w" "view (snd (fl_is_file fs p w)) = view w"
    "view (snd (fl_is_dir fs p w)) = view w" "view (snd (fl_mixed fs w)) = view w"
    "q \<noteq> p \<Longrightarrow> view (snd (fl_remove_file fs p w)) q = view w q"
    "take (length p) q \<noteq> p \<Longrightarrow> view (snd (fl_remove_dir_all fs p w)) q = view w q"
    "view (fl_close fs h w) = view w"
    "view (snd (fl_stat fs p w)) = view w" "view (snd (fl_create_dir fs p w)) = view w"
    "q \<noteq> p \<Longrightarrow> view (snd (fl_open_lock fs p b w)) q = view w q" "view (snd (fl_try_lock fs h w)) = view w"
    "view (snd (fl_state_root fs w)) = view w" "view (snd (pf_now (fl_platform fs) w)) = view w"
    "view (pf_sleep (fl_platform fs) m w) = view w"
proof -
  note k = keeps [unfolded keeps_files_def]
  have r: "case fst (fl_read fs p n w) of
       Inr s \<Rightarrow> view w p = Some s \<and> length s \<le> n
     | Inl e \<Rightarrow> io_kind_of e = IoNotFound \<longrightarrow> view w p = None" using conjunct1 [OF k] by simp
  show "fst (fl_read fs p n w) = Inr s \<Longrightarrow> view w p = Some s \<and> length s \<le> n"
    "fst (fl_read fs p n w) = Inl e \<Longrightarrow> io_kind_of e = IoNotFound \<Longrightarrow> view w p = None" using r by simp_all
  show "fst (fl_write fs p t w) = Inr u \<Longrightarrow> view (snd (fl_write fs p t w)) p = Some t"
    using conjunct1 [OF conjunct2 [OF conjunct2 [OF k]]] by simp
qed (insert keeps [unfolded keeps_files_def]; (elim conjE)?; simp)+

section \<open>Taking a lock comes to an end\<close>

definition timed_files :: "('w \<Rightarrow> nat) \<Rightarrow> 'w files \<Rightarrow> bool" where
  "timed_files tm fs \<longleftrightarrow>
     timed tm (fl_platform fs) \<and> later tm (fl_state_root fs) \<and> later tm (fl_mixed fs) \<and>
     (\<forall>p b. later tm (fl_open_lock fs p b)) \<and> (\<forall>h. later tm (fl_try_lock fs h)) \<and>
     (\<forall>h w. tm w \<le> tm (fl_close fs h w)) \<and>
     (\<forall>p n. later tm (fl_read fs p n)) \<and> (\<forall>p s. later tm (fl_write fs p s)) \<and>
     (\<forall>p. later tm (fl_read_dir fs p)) \<and> (\<forall>p. later tm (fl_age fs p)) \<and> (\<forall>p. later tm (fl_modified fs p)) \<and>
     (\<forall>p. later tm (fl_is_file fs p)) \<and> (\<forall>p. later tm (fl_is_dir fs p)) \<and>
     (\<forall>p. later tm (fl_stat fs p)) \<and> (\<forall>p. later tm (fl_create_dir fs p)) \<and>
     (\<forall>p. later tm (fl_remove_file fs p)) \<and> (\<forall>p. later tm (fl_remove_dir_all fs p))"

lemma timed_files_calls [terminating]:
  assumes "timed_files tm fs"
  shows "timed tm (fl_platform fs)" "later tm (fl_state_root fs)" "later tm (fl_mixed fs)"
    "later tm (fl_open_lock fs p b)" "later tm (fl_try_lock fs h)"
    "later tm (fl_read fs p n)" "later tm (fl_write fs p s)" "later tm (fl_read_dir fs p)"
    "later tm (fl_age fs p)" "later tm (fl_modified fs p)" "later tm (fl_is_file fs p)" "later tm (fl_is_dir fs p)"
    "later tm (fl_remove_file fs p)" "later tm (fl_remove_dir_all fs p)"
    "later tm (fl_stat fs p)" "later tm (fl_create_dir fs p)"
  using assms by (simp_all add: timed_files_def)

lemma terminates_close [terminating]: "timed_files tm fs \<Longrightarrow> terminates tm (effect (fl_close fs h))"
  by (rule terminates_effect) (simp add: timed_files_def)

lemma terminates_ask [terminating]: "later tm f \<Longrightarrow> terminates tm (ask f)"
  by (auto simp: ask_def later_def runs_def case_prod_beta)

lemma terminates_io_call [terminating]: "later tm f \<Longrightarrow> terminates tm (io_call f)"
  unfolding io_call_def by (intro terminating)

lemma terminates_lock_timeout [terminating]: "timed_files tm fs \<Longrightarrow> terminates tm (lock_timeout fs d purpose p n)"
  unfolding lock_timeout_def by (intro terminating)

lemma moves_lock_timeout [moving]: "timed_files tm fs \<Longrightarrow> moves tm bound (lock_timeout fs d purpose p n)"
  unfolding lock_timeout_def by (intro moving terminating)

lemma terminates_lock_round [terminating]:
  "timed_files tm fs \<Longrightarrow> terminates tm (lock_round fs h d purpose p n)"
  unfolding lock_round_def Let_def by (intro terminating) (auto split: try_lock.split intro!: terminating)

lemma moves_lock_round:
  assumes "timed_files tm fs"
  shows "moves tm (expires_at d) (lock_round fs h d purpose p n)"
proof -
  have "0 < LOCK_POLL" by (simp add: LOCK_POLL_def ns_per_ms_def)
  then show ?thesis
    unfolding lock_round_def Let_def
    by - (rule moves_bind, intro terminating assms, rule moves_if, intro moving assms,
      rule moves_bind, intro terminating assms, auto split: try_lock.split intro!: moving terminating assms)
qed

lemma terminates_acquire_lock [terminating]:
  assumes "timed_files tm fs"
  shows "terminates tm (acquire_file_lock fs p d purpose)" "terminates tm (store_lock fs inh p)"
    "terminates tm (store_lock_detached fs p)"
proof -
  have [terminating]: "terminates tm (loop (lock_round fs h d purpose p) n)" for h d purpose p n
    by (rule terminates_waiting [OF terminates_lock_round moves_lock_round, OF assms assms])
  show acq [terminating]: "terminates tm (acquire_file_lock fs p d purpose)" for p d purpose
    unfolding acquire_file_lock_def lock_file_def by (intro terminating assms)
  show "terminates tm (store_lock fs inh p)" "terminates tm (store_lock_detached fs p)"
    unfolding store_lock_def store_lock_detached_def store_lock_within_def by (intro terminating assms)+
qed

lemma terminates_holding_lock [terminating]:
  "timed_files tm fs \<Longrightarrow> terminates tm m \<Longrightarrow> terminates tm (holding_lock fs l m)"
  unfolding holding_lock_def by (intro terminating)

end
