(* ===== verification/RefStore.thy ===== *)
theory RefStore
  imports Files
begin

text \<open>
  The store of snapshots (\<open>refs_store.rs\<close>, \<open>refs_store_prune.rs\<close>): each snapshot's ref map is a file
  of its own under the session's directory, a pointer names the latest one, writers hold the
  store's lock, and old snapshots are pruned.  Writing JSON and reading it back are the functions
  of a \<open>codec\<close>.
\<close>

section \<open>The store\<close>

record codec =
  cd_fx :: fx
  cd_to_json :: "ref_map \<Rightarrow> string + string"
  cd_of_json :: "string \<Rightarrow> string + ref_map"
  cd_print :: "json \<Rightarrow> string option"
  cd_parse :: "string \<Rightarrow> json option"

record ref_store =
  rs_base :: path
  rs_legacy :: bool

definition MAX_SAVED_SNAPSHOTS :: nat where "MAX_SAVED_SNAPSHOTS = 128"
definition PRUNE_LOW_WATER :: nat where "PRUNE_LOW_WATER = 96"
definition STALE_TMP_MAX_AGE :: nat where "STALE_TMP_MAX_AGE = 60000 * ns_per_ms"

definition validate_session_id :: "string \<Rightarrow> app_error + unit" where
  "validate_session_id i =
     (if i \<noteq> [] \<and> length i \<le> 64 \<and>
         list_all (\<lambda>c. is_ascii_alphanumeric c \<or> c = CHR ''-'' \<or> c = CHR ''_'') i
      then Inr ()
      else Inl (invalid_input_with_suggestion
        (''Session id must be 1-64 chars using letters, numbers, '' @ quoted ''-'' @ '' or '' @ quoted ''_'')
        ''Use a short filesystem-safe session id such as run_1 or agent-a.''))"

definition store_for_session :: "'w files \<Rightarrow> string option \<Rightarrow> ('w, app_error, ref_store) act" where
  "store_for_session fs session =
     abind (call (fl_state_root fs)) (\<lambda>state_root.
       case session of
         Some i \<Rightarrow>
           abind (lift_res (validate_session_id i)) (\<lambda>_.
             ret \<lparr>rs_base = state_root @ [''sessions'', i], rs_legacy = False\<rparr>)
       | None \<Rightarrow> ret \<lparr>rs_base = state_root, rs_legacy = True\<rparr>)"

definition latest_path :: "ref_store \<Rightarrow> path" where
  "latest_path st = rs_base st @ [''latest_snapshot_id'']"

definition snapshots_dir :: "ref_store \<Rightarrow> path" where
  "snapshots_dir st = rs_base st @ [''snapshots'']"

definition snapshot_path :: "ref_store \<Rightarrow> string \<Rightarrow> path" where
  "snapshot_path st i = rs_base st @ [''snapshots'', i, ''refmap.json'']"

definition lock_path :: "ref_store \<Rightarrow> path" where
  "lock_path st = rs_base st @ [''refstore.lock'']"

definition trace_dir :: "ref_store \<Rightarrow> path" where
  "trace_dir st = rs_base st @ [''trace'']"

definition with_write_lock ::
  "'w files \<Rightarrow> deadline option \<Rightarrow> ref_store \<Rightarrow> ('w, app_error, 'a) act \<Rightarrow> ('w, app_error, 'a) act" where
  "with_write_lock fs inh st m = abind (store_lock fs inh (lock_path st)) (\<lambda>l. holding_lock fs l m)"

definition with_write_lock_detached ::
  "'w files \<Rightarrow> ref_store \<Rightarrow> ('w, app_error, 'a) act \<Rightarrow> ('w, app_error, 'a) act" where
  "with_write_lock_detached fs st m = abind (store_lock_detached fs (lock_path st)) (\<lambda>l. holding_lock fs l m)"

section \<open>Reading\<close>

definition read_snapshot_if_present ::
  "codec \<Rightarrow> 'w files \<Rightarrow> ref_store \<Rightarrow> string \<Rightarrow> ('w, app_error, ref_map option) act" where
  "read_snapshot_if_present cx fs st i =
     abind (attempt (call (fl_read fs (snapshot_path st i) MAX_REFMAP_BYTES))) (\<lambda>r.
       case r of
         Inl e \<Rightarrow> if io_kind_of e = IoNotFound then ret None else fail_with (AppIo (io_text e))
       | Inr json \<Rightarrow>
           abind (lift_res (res_map_err AppJson (cd_of_json cx json))) (\<lambda>m.
           abind (lift_res (refmap_validate (cd_fx cx) m)) (\<lambda>_. ret (Some m))))"

definition load_snapshot_from_base ::
  "codec \<Rightarrow> 'w files \<Rightarrow> ref_store \<Rightarrow> string \<Rightarrow> ('w, app_error, ref_map) act" where
  "load_snapshot_from_base cx fs st i =
     abind (lift_res (validate_snapshot_id i)) (\<lambda>_.
     abind (read_snapshot_if_present cx fs st i) (\<lambda>r.
       lift_res (ok_or r (AppAdapter (snapshot_not_found_error i)))))"

definition load_snapshot :: "codec \<Rightarrow> 'w files \<Rightarrow> ref_store \<Rightarrow> string \<Rightarrow> ('w, app_error, ref_map) act" where
  "load_snapshot cx fs st i =
     abind (lift_res (validate_snapshot_id i)) (\<lambda>_. load_snapshot_from_base cx fs st i)"

definition load_ref ::
  "codec \<Rightarrow> 'w files \<Rightarrow> ref_store \<Rightarrow> string \<Rightarrow> string option \<Rightarrow> ('w, app_error, ref_entry) act" where
  "load_ref cx fs st r snapshot =
     abind (lift_res (resolve_ref_target r snapshot)) (\<lambda>(i, local).
     abind (load_snapshot cx fs st i) (\<lambda>m. lift_res (ok_or (refmap_get m local) (app_stale_ref r))))"

text \<open>\<open>str::from_utf8\<close>: the bytes are the encoding of code points that are not surrogates.\<close>

definition str_from_utf8 :: "string \<Rightarrow> string option" where
  "str_from_utf8 s =
     (if list_all (\<lambda>p. p < 0xD800 \<or> 0xE000 \<le> p \<and> p \<le> 0x10FFFF) (code_points s) \<and>
         concat (map utf8_of (code_points s)) = s
      then Some s else None)"

definition read_latest_snapshot_id :: "'w files \<Rightarrow> ref_store \<Rightarrow> ('w, app_error, string option) act" where
  "read_latest_snapshot_id fs st =
     abind (attempt (call (fl_read fs (latest_path st) 65))) (\<lambda>r.
       case r of
         Inl e \<Rightarrow> if io_kind_of e = IoNotFound then ret None else fail_with (AppIo (io_text e))
       | Inr bytes \<Rightarrow>
           abind (lift_res (ok_or (str_from_utf8 bytes) (invalid_input ''latest_snapshot_id must be UTF-8''))) (\<lambda>s.
             let i = trim s
             in if i = [] then ret None
                else abind (lift_res (validate_snapshot_id i)) (\<lambda>_. ret (Some i))))"

section \<open>Writing\<close>

definition save_snapshot_unlocked ::
  "codec \<Rightarrow> 'w files \<Rightarrow> ref_store \<Rightarrow> string \<Rightarrow> ref_map \<Rightarrow> ('w, app_error, unit) act" where
  "save_snapshot_unlocked cx fs st i m =
     abind (lift_res (validate_snapshot_id i)) (\<lambda>_.
     abind (lift_res (serialize_with_size_check (cd_fx cx) (cd_to_json cx) m)) (\<lambda>json.
       io_call (fl_write fs (snapshot_path st i) json)))"

definition set_latest_unlocked :: "'w files \<Rightarrow> ref_store \<Rightarrow> string \<Rightarrow> ('w, app_error, unit) act" where
  "set_latest_unlocked fs st i =
     abind (lift_res (validate_snapshot_id i)) (\<lambda>_. io_call (fl_write fs (latest_path st) i))"

definition new_snapshot_id :: "'w files \<Rightarrow> ('w, 'e, string) act" where
  "new_snapshot_id fs = abind (ask (fl_mixed fs)) (\<lambda>mixed. ret (snapshot_id_of mixed))"

section \<open>Pruning\<close>

text \<open>A \<open>for\<close> loop whose body cannot leave it.\<close>

fun each :: "('a \<Rightarrow> ('w, 'e, unit) act) \<Rightarrow> 'a list \<Rightarrow> ('w, 'e, unit) act" where
  "each f [] = ret ()"
| "each f (x # xs) = abind (f x) (\<lambda>_. each f xs)"

definition quietly :: "('w \<Rightarrow> (io_error + 'a) \<times> 'w) \<Rightarrow> ('w, 'e, unit) act" where
  "quietly f = abind (attempt (call f :: ('w, io_error, 'a) act)) (\<lambda>_. ret ())"

definition oks :: "('e + 'a) list \<Rightarrow> 'a list" where
  "oks rs = List.map_filter (\<lambda>r. case r of Inl _ \<Rightarrow> None | Inr x \<Rightarrow> Some x) rs"

definition remove_if_stale ::
  "'w files \<Rightarrow> path \<Rightarrow> nat \<Rightarrow> (path \<Rightarrow> bool) \<Rightarrow> dir_entry \<Rightarrow> ('w, 'e, unit) act" where
  "remove_if_stale fs dir max_age matching de =
     (let p = dir @ [de_name de]
      in if \<not> matching p then ret ()
         else if de_kind de \<noteq> Some PlainFile then ret ()
         else abind (ask (fl_age fs p)) (\<lambda>age.
           if is_some_and age (\<lambda>n. n \<ge> max_age) then quietly (fl_remove_file fs p) else ret ()))"

definition remove_stale_files_in_dir ::
  "'w files \<Rightarrow> path \<Rightarrow> nat \<Rightarrow> (path \<Rightarrow> bool) \<Rightarrow> ('w, 'e, unit) act" where
  "remove_stale_files_in_dir fs dir max_age matching =
     abind (attempt (call (fl_read_dir fs dir))) (\<lambda>r.
       case r of
         Inl _ \<Rightarrow> ret ()
       | Inr entries \<Rightarrow> each (remove_if_stale fs dir max_age matching) (oks entries))"

definition remove_reachable_tmp_files :: "'w files \<Rightarrow> ref_store \<Rightarrow> string \<Rightarrow> ('w, 'e, unit) act" where
  "remove_reachable_tmp_files fs st latest =
     (let sweep = (\<lambda>dir. remove_stale_files_in_dir fs dir STALE_TMP_MAX_AGE is_orphaned_tmp_file)
      in abind (sweep (rs_base st)) (\<lambda>_.
         abind (sweep (snapshots_dir st)) (\<lambda>_.
           if latest = [] then ret () else sweep (snapshots_dir st @ [latest]))))"

definition snapshot_entries :: "(io_error + dir_entry) list \<Rightarrow> string list" where
  "snapshot_entries entries =
     map de_name (filter (\<lambda>de. de_kind de = Some Directory \<and> is_ok (validate_snapshot_id (de_name de))) (oks entries))"

fun with_dates :: "'w files \<Rightarrow> ref_store \<Rightarrow> string list \<Rightarrow> ('w, 'e, (nat \<times> string) list) act" where
  "with_dates fs st [] = ret []"
| "with_dates fs st (i # ids) =
     abind (ask (fl_modified fs (snapshots_dir st @ [i]))) (\<lambda>modified.
     abind (with_dates fs st ids) (\<lambda>rest. ret ((unwrap_or modified 0, i) # rest)))"

definition compare_dated :: "nat \<times> string \<Rightarrow> nat \<times> string \<Rightarrow> ordering" where
  "compare_dated l r = then_with (cmp (fst l) (fst r)) (cmp (snd l) (snd r))"

definition remove_snapshot_dir :: "'w files \<Rightarrow> ref_store \<Rightarrow> string \<Rightarrow> ('w, 'e, unit) act" where
  "remove_snapshot_dir fs st i = quietly (fl_remove_dir_all fs (snapshots_dir st @ [i]))"

fun remove_loop :: "'w files \<Rightarrow> ref_store \<Rightarrow> string \<Rightarrow> nat \<Rightarrow> (nat \<times> string) list \<Rightarrow> ('w, 'e, unit) act" where
  "remove_loop fs st latest remove_count [] = ret ()"
| "remove_loop fs st latest remove_count ((_, i) # rest) =
     (if remove_count = 0 then ret ()
      else if i \<noteq> latest then
        abind (remove_snapshot_dir fs st i) (\<lambda>_. remove_loop fs st latest (remove_count - 1) rest)
      else remove_loop fs st latest remove_count rest)"

definition remove_oldest :: "'w files \<Rightarrow> ref_store \<Rightarrow> string \<Rightarrow> (nat \<times> string) list \<Rightarrow> ('w, 'e, unit) act" where
  "remove_oldest fs st latest dated =
     remove_loop fs st latest (length dated - PRUNE_LOW_WATER) (sort_by compare_dated dated)"

definition prune_old_snapshots :: "'w files \<Rightarrow> ref_store \<Rightarrow> string \<Rightarrow> ('w, app_error, unit) act" where
  "prune_old_snapshots fs st latest =
     abind (remove_reachable_tmp_files fs st latest) (\<lambda>_.
     abind (attempt (call (fl_read_dir fs (snapshots_dir st)))) (\<lambda>r.
       case r of
         Inl _ \<Rightarrow> ret ()
       | Inr entries \<Rightarrow>
           let retained = snapshot_entries entries
           in if length retained \<le> MAX_SAVED_SNAPSHOTS then ret ()
              else
                abind (each (\<lambda>i. remove_stale_files_in_dir fs (snapshots_dir st @ [i]) STALE_TMP_MAX_AGE
                  is_orphaned_tmp_file) retained) (\<lambda>_.
                abind (with_dates fs st retained) (\<lambda>dated. remove_oldest fs st latest dated))))"

section \<open>The operations\<close>

definition save_new_snapshot_unlocked ::
  "codec \<Rightarrow> 'w files \<Rightarrow> ref_store \<Rightarrow> ref_map \<Rightarrow> ('w, app_error, string) act" where
  "save_new_snapshot_unlocked cx fs st m =
     abind (new_snapshot_id fs) (\<lambda>i.
     abind (save_snapshot_unlocked cx fs st i m) (\<lambda>_.
     abind (set_latest_unlocked fs st i) (\<lambda>_.
     abind (prune_old_snapshots fs st i) (\<lambda>_. ret i))))"

definition save_new_snapshot ::
  "codec \<Rightarrow> 'w files \<Rightarrow> deadline option \<Rightarrow> ref_store \<Rightarrow> ref_map \<Rightarrow> ('w, app_error, string) act" where
  "save_new_snapshot cx fs inh st m = with_write_lock fs inh st (save_new_snapshot_unlocked cx fs st m)"

definition save_new_snapshot_detached ::
  "codec \<Rightarrow> 'w files \<Rightarrow> ref_store \<Rightarrow> ref_map \<Rightarrow> ('w, app_error, string) act" where
  "save_new_snapshot_detached cx fs st m =
     with_write_lock_detached fs st (save_new_snapshot_unlocked cx fs st m)"

definition save_snapshot ::
  "codec \<Rightarrow> 'w files \<Rightarrow> deadline option \<Rightarrow> ref_store \<Rightarrow> string \<Rightarrow> ref_map \<Rightarrow> ('w, app_error, unit) act" where
  "save_snapshot cx fs inh st i m = with_write_lock fs inh st (save_snapshot_unlocked cx fs st i m)"

definition set_latest :: "'w files \<Rightarrow> deadline option \<Rightarrow> ref_store \<Rightarrow> string \<Rightarrow> ('w, app_error, unit) act" where
  "set_latest fs inh st i = with_write_lock fs inh st (set_latest_unlocked fs st i)"

definition update_existing_snapshot ::
  "codec \<Rightarrow> 'w files \<Rightarrow> deadline option \<Rightarrow> ref_store \<Rightarrow> string \<Rightarrow> string \<Rightarrow> ref_entry \<Rightarrow>
     (ref_map \<Rightarrow> app_error + 'a \<times> ref_map) \<Rightarrow> ('w, app_error, 'a \<times> ref_map) act" where
  "update_existing_snapshot cx fs inh st i expected_ref expected_entry upd =
     abind (lift_res (validate_snapshot_id i)) (\<lambda>_.
       with_write_lock fs inh st
         (abind (load_snapshot_from_base cx fs st i) (\<lambda>m.
            if refmap_get m expected_ref \<noteq> Some expected_entry then
              fail_with (AppAdapter (stale_ref_error expected_ref))
            else
              abind (lift_res (upd m)) (\<lambda>(v, m').
              abind (save_snapshot_unlocked cx fs st i m') (\<lambda>_. ret (v, m'))))))"

fun collect_tokens ::
  "codec \<Rightarrow> 'w files \<Rightarrow> ref_store \<Rightarrow> nat \<Rightarrow> string list \<Rightarrow> (io_error + dir_entry) list \<Rightarrow>
     ('w, app_error, string list) act" where
  "collect_tokens cx fs st candidates tokens [] = ret tokens"
| "collect_tokens cx fs st candidates tokens (Inl e # rest) = fail_with (AppIo (io_text e))"
| "collect_tokens cx fs st candidates tokens (Inr de # rest) =
     (if \<not> is_ok (validate_snapshot_id (de_name de)) then collect_tokens cx fs st candidates tokens rest
      else if candidates + 1 > MAX_SAVED_SNAPSHOTS then
        fail_with (invalid_input ''Snapshot inventory exceeds retention limit'')
      else
        abind (load_snapshot cx fs st (de_name de)) (\<lambda>m.
          collect_tokens cx fs st (candidates + 1) (List.union tokens (retained_object_tokens m)) rest))"

definition retained_tokens ::
  "codec \<Rightarrow> 'w files \<Rightarrow> deadline option \<Rightarrow> ref_store \<Rightarrow> ('w, app_error, string list) act" where
  "retained_tokens cx fs inh st =
     with_write_lock fs inh st
       (abind (attempt (call (fl_read_dir fs (snapshots_dir st)))) (\<lambda>r.
          case r of
            Inl e \<Rightarrow> if io_kind_of e = IoNotFound then ret [] else fail_with (AppIo (io_text e))
          | Inr entries \<Rightarrow> collect_tokens cx fs st 0 [] entries))"

text \<open>\<open>RefMap::load\<close>, the single map of older versions.\<close>

definition load_legacy_map :: "codec \<Rightarrow> 'w files \<Rightarrow> ('w, app_error, ref_map) act" where
  "load_legacy_map cx fs =
     abind (call (fl_state_root fs)) (\<lambda>state_root.
     abind (io_call (fl_read fs (state_root @ [''last_refmap.json'']) MAX_REFMAP_BYTES)) (\<lambda>json.
     abind (lift_res (res_map_err AppJson (cd_of_json cx json))) (\<lambda>m.
     abind (lift_res (refmap_validate (cd_fx cx) m)) (\<lambda>_. ret m))))"

definition migrate_legacy_latest ::
  "codec \<Rightarrow> 'w files \<Rightarrow> deadline option \<Rightarrow> ref_store \<Rightarrow> ('w, app_error, ref_map option) act" where
  "migrate_legacy_latest cx fs inh st =
     (if \<not> rs_legacy st then ret None
      else
        with_write_lock fs inh st
          (abind (read_latest_snapshot_id fs st) (\<lambda>latest.
             case latest of
               Some i \<Rightarrow> abind (load_snapshot_from_base cx fs st i) (\<lambda>m. ret (Some m))
             | None \<Rightarrow>
                 abind (attempt (load_legacy_map cx fs)) (\<lambda>r.
                   case r of
                     Inl e \<Rightarrow> ret None
                   | Inr m \<Rightarrow>
                       abind (new_snapshot_id fs) (\<lambda>i.
                       abind (save_snapshot_unlocked cx fs st i m) (\<lambda>_.
                       abind (set_latest_unlocked fs st i) (\<lambda>_. ret (Some m))))))))"

definition load_latest :: "codec \<Rightarrow> 'w files \<Rightarrow> deadline option \<Rightarrow> ref_store \<Rightarrow> ('w, app_error, ref_map) act" where
  "load_latest cx fs inh st =
     abind (read_latest_snapshot_id fs st) (\<lambda>latest.
       case latest of
         Some i \<Rightarrow> load_snapshot_from_base cx fs st i
       | None \<Rightarrow>
           abind (migrate_legacy_latest cx fs inh st) (\<lambda>r.
             lift_res (ok_or r (AppAdapter (snapshot_not_found_error ''latest'')))))"

definition load_map ::
  "codec \<Rightarrow> 'w files \<Rightarrow> deadline option \<Rightarrow> ref_store \<Rightarrow> string option \<Rightarrow> ('w, app_error, ref_map) act" where
  "load_map cx fs inh st snapshot =
     (case snapshot of Some i \<Rightarrow> load_snapshot cx fs st i | None \<Rightarrow> load_latest cx fs inh st)"

text \<open>\<open>discard_duplicated_ref_scaffolding\<close>.\<close>

definition discard_if_duplicated :: "'w files \<Rightarrow> ref_store \<Rightarrow> path \<Rightarrow> string \<Rightarrow> ('w, 'e, unit) act" where
  "discard_if_duplicated fs st duplicates i =
     abind (ask (fl_is_file fs (duplicates @ [i @ ''.json'']))) (\<lambda>copied.
       if copied then remove_snapshot_dir fs st i else ret ())"

definition discard_duplicated_ref_scaffolding :: "'w files \<Rightarrow> ref_store \<Rightarrow> ('w, 'e, unit) act" where
  "discard_duplicated_ref_scaffolding fs st =
     abind (attempt (call (fl_read_dir fs (snapshots_dir st)))) (\<lambda>r.
       case r of
         Inl _ \<Rightarrow> ret ()
       | Inr entries \<Rightarrow>
           abind (each (discard_if_duplicated fs st (trace_dir st @ [''refmaps''])) (snapshot_entries entries)) (\<lambda>_.
           abind (attempt (read_latest_snapshot_id fs st)) (\<lambda>latest.
             case latest of
               Inr (Some i) \<Rightarrow>
                 abind (ask (fl_is_dir fs (snapshots_dir st @ [i]))) (\<lambda>there.
                   if \<not> there then quietly (fl_remove_file fs (latest_path st)) else ret ())
             | _ \<Rightarrow> ret ())))"

end
