(* ===== verification/RefStoreSpec.thy ===== *)
theory RefStoreSpec
  imports RefStore
begin

text \<open>
  What the snapshot store promises: a snapshot that was saved is the one that is read back, under
  its own id and as the latest one; pruning removes the oldest snapshots only and never the
  latest.
\<close>

section \<open>Actions that keep a property of the world\<close>

abbreviation preserves :: "('w \<Rightarrow> bool) \<Rightarrow> ('w, 'e, 'a) act \<Rightarrow> bool" where
  "preserves P m \<equiv> hoare P m (\<lambda>_. P)"

named_theorems preserving \<open>actions that keep a property\<close>

lemma preserves_pure [preserving]:
  "preserves P (ret x)" "preserves P (fail_with e)" "preserves P (lift_res r)"
  by (simp_all add: hoare_def)

lemma preserves_bind [preserving]: "preserves P m \<Longrightarrow> (\<And>x. preserves P (f x)) \<Longrightarrow> preserves P (abind m f)"
  by (erule hoare_bind [where R = "\<lambda>_. P", OF hoare_weaken]) (auto split: sum.splits)

lemma preserves_attempt [preserving]: "preserves P m \<Longrightarrow> preserves P (attempt m)"
  by (auto simp: hoare_def attempt_Some_iff)

lemma preserves_map_err [preserving]: "preserves P m \<Longrightarrow> preserves P (amap_err g m)"
  by (auto simp: hoare_def amap_err_Some_iff)

lemma preserves_call [preserving]: "(\<And>w. P w \<Longrightarrow> P (snd (f w))) \<Longrightarrow> preserves P (call f)"
  unfolding hoare_def by (metis act_simps(4) option.inject snd_conv)

lemma preserves_ask [preserving]: "(\<And>w. P w \<Longrightarrow> P (snd (f w))) \<Longrightarrow> preserves P (ask f)"
  unfolding hoare_def ask_def by (metis (no_types, lifting) case_prod_beta option.inject snd_conv)

lemma preserves_effect [preserving]: "(\<And>w. P w \<Longrightarrow> P (f w)) \<Longrightarrow> preserves P (effect f)"
  by (simp add: hoare_def)

lemma preserves_cases [preserving]:
  "(b \<Longrightarrow> preserves P m) \<Longrightarrow> (\<not> b \<Longrightarrow> preserves P m') \<Longrightarrow> preserves P (if b then m else m')"
  "(\<And>x. preserves P (f x)) \<Longrightarrow> (\<And>y. preserves P (g y)) \<Longrightarrow> preserves P (case r of Inl x \<Rightarrow> f x | Inr y \<Rightarrow> g y)"
  "preserves P n \<Longrightarrow> (\<And>y. preserves P (h y)) \<Longrightarrow> preserves P (case v of None \<Rightarrow> n | Some y \<Rightarrow> h y)"
  by (simp_all split: sum.split option.split)

lemma preserves_each [preserving]: "(\<And>x. preserves P (f x)) \<Longrightarrow> preserves P (each f xs)"
  by (induction xs) (auto intro: preserving)

lemma each_preserves: "(\<And>x. x \<in> set xs \<Longrightarrow> preserves P (f x)) \<Longrightarrow> preserves P (each f xs)"
  by (induction xs) (auto intro!: preserving)

lemma preserves_quietly [preserving]: "(\<And>w. P w \<Longrightarrow> P (snd (f w))) \<Longrightarrow> preserves P (quietly f)"
  unfolding quietly_def by (intro preserving)

section \<open>Pruning\<close>

lemma remove_loop_each:
  "remove_loop fs st latest n dated =
     each (remove_snapshot_dir fs st) (take n (filter (\<lambda>i. i \<noteq> latest) (map snd dated)))"
  by (induction fs st latest n dated rule: remove_loop.induct) (auto simp: take_Cons')

lemma compare_dated_key: "compare_dated l r = Greater \<longleftrightarrow> (fst r, snd r) < (fst l, snd l)"
  unfolding compare_dated_def then_with_iff cmp_iff less_pair_iff by auto

lemma sort_dated: "sort_by compare_dated dated = sort dated"
  using sort_by_key [of compare_dated "\<lambda>d. (fst d, snd d)"] compare_dated_key by simp

lemma snapshot_paths:
  "take (length (snapshots_dir st @ [i])) (snapshot_path st j) = snapshots_dir st @ [i] \<longleftrightarrow> i = j"
  "take (length (snapshots_dir st @ [i])) (latest_path st) \<noteq> snapshots_dir st @ [i]"
  "snapshot_path st i \<noteq> latest_path st" "snapshot_path st i \<noteq> lock_path st"
  "snapshot_path st i = snapshot_path st j \<longleftrightarrow> i = j"
  by (auto simp: snapshots_dir_def snapshot_path_def latest_path_def lock_path_def)

lemma not_tmp [simp]: "\<not> is_orphaned_tmp_file (snapshot_path st i)" "\<not> is_orphaned_tmp_file (latest_path st)"
  by (simp_all add: is_orphaned_tmp_file_def snapshot_path_def latest_path_def strip_prefix_def)

text \<open>What pruning must not touch: the file of one snapshot, and the pointer to it.\<close>

definition latest_is :: "('w \<Rightarrow> path \<Rightarrow> string option) \<Rightarrow> ref_store \<Rightarrow> string \<Rightarrow> string \<Rightarrow> 'w \<Rightarrow> bool" where
  "latest_is view st i json w \<longleftrightarrow>
     view w (snapshot_path st i) = Some json \<and> view w (latest_path st) = Some i"

lemma stale_files_keep:
  assumes "keeps_files view fs"
  shows "preserves (latest_is view st i json) (remove_stale_files_in_dir fs dir age is_orphaned_tmp_file)"
proof -
  note k = keeps_filesD [OF assms]
  have "preserves (latest_is view st i json) (remove_if_stale fs dir age is_orphaned_tmp_file de)" for de
  proof (cases "is_orphaned_tmp_file (dir @ [de_name de])")
    case True
    then have "snapshot_path st i \<noteq> dir @ [de_name de]" "latest_path st \<noteq> dir @ [de_name de]"
      using not_tmp by metis+
    then show ?thesis
      unfolding remove_if_stale_def Let_def by (intro preserving) (simp_all add: latest_is_def k)
  qed (simp add: remove_if_stale_def preserving)
  then show ?thesis
    unfolding remove_stale_files_in_dir_def by (intro preserving) (simp_all add: latest_is_def k)
qed

lemma with_dates_keep:
  "keeps_files view fs \<Longrightarrow> preserves (latest_is view st i json) (with_dates fs st' ids)"
  by (induction ids) (auto intro!: preserving simp: latest_is_def keeps_filesD)

lemma remove_snapshot_keep:
  assumes "keeps_files view fs" "j \<noteq> i"
  shows "preserves (latest_is view st i json) (remove_snapshot_dir fs st j)"
proof -
  have "take (length (snapshots_dir st @ [j])) (snapshot_path st i) \<noteq> snapshots_dir st @ [j]"
    using assms(2) snapshot_paths(1) by metis
  then show ?thesis
    unfolding remove_snapshot_dir_def
    by (intro preserving) (simp add: latest_is_def keeps_filesD [OF assms(1)] snapshot_paths(2) del: length_append)
qed

lemma prune_keeps_latest:
  assumes "keeps_files view fs"
  shows "preserves (latest_is view st i json) (prune_old_snapshots fs st i)"
proof -
  have "preserves (latest_is view st i json) (remove_oldest fs st i dated)" for dated
    unfolding remove_oldest_def remove_loop_each
    by (rule each_preserves) (auto dest!: in_set_takeD intro!: remove_snapshot_keep assms)
  then show ?thesis
    unfolding prune_old_snapshots_def remove_reachable_tmp_files_def Let_def
    by (intro preserving stale_files_keep with_dates_keep assms)
      (simp_all add: latest_is_def keeps_filesD [OF assms])
qed

section \<open>Saving\<close>

lemma save_unlocked:
  assumes "keeps_files view fs" "save_snapshot_unlocked cx fs st i m w = Some (Inr u, w')"
  obtains json where "validate_snapshot_id i = Inr ()"
    "serialize_with_size_check (cd_fx cx) (cd_to_json cx) m = Inr json"
    "view w' (snapshot_path st i) = Some json"
    "\<And>q. q \<noteq> snapshot_path st i \<Longrightarrow> \<not> is_orphaned_tmp_file q \<Longrightarrow> view w' q = view w q"
proof -
  from assms(2) obtain json where json: "validate_snapshot_id i = Inr ()"
      "serialize_with_size_check (cd_fx cx) (cd_to_json cx) m = Inr json"
    and wr: "fl_write fs (snapshot_path st i) json w = (Inr u, w')"
    by (auto simp: save_snapshot_unlocked_def io_call_def amap_err_Some_iff elim!: abind_InrE)
  from keeps_filesD(4,6) [OF assms(1), where p = "snapshot_path st i" and t = json and w = w] wr
  have "view w' (snapshot_path st i) = Some json"
    "\<And>q. q \<noteq> snapshot_path st i \<Longrightarrow> \<not> is_orphaned_tmp_file q \<Longrightarrow> view w' q = view w q" by auto
  with json that show ?thesis by blast
qed

lemma set_latest_keeps:
  assumes "keeps_files view fs" "set_latest_unlocked fs st i w = Some (Inr u, w')"
  shows "view w' (latest_path st) = Some i" "view w' (snapshot_path st j) = view w (snapshot_path st j)"
proof -
  from assms(2) have "fl_write fs (latest_path st) i w = (Inr u, w')"
    by (auto simp: set_latest_unlocked_def io_call_def amap_err_Some_iff elim!: abind_InrE)
  with keeps_filesD(4,6) [OF assms(1), where p = "latest_path st" and t = i and w = w] snapshot_paths(3)
  show "view w' (latest_path st) = Some i" "view w' (snapshot_path st j) = view w (snapshot_path st j)"
    by (auto simp: not_tmp)
qed

text \<open>The snapshot is stored, and the pointer names it.\<close>

definition stored :: "codec \<Rightarrow> ('w \<Rightarrow> path \<Rightarrow> string option) \<Rightarrow> ref_store \<Rightarrow> string \<Rightarrow> ref_map \<Rightarrow> 'w \<Rightarrow> bool" where
  "stored cx view st i m w \<longleftrightarrow>
     (\<exists>json. validate_snapshot_id i = Inr () \<and>
        serialize_with_size_check (cd_fx cx) (cd_to_json cx) m = Inr json \<and> latest_is view st i json w)"

text \<open>The snapshot is stored, whether or not it is the latest.\<close>

definition saved_as :: "codec \<Rightarrow> ('w \<Rightarrow> path \<Rightarrow> string option) \<Rightarrow> ref_store \<Rightarrow> string \<Rightarrow> ref_map \<Rightarrow> 'w \<Rightarrow> bool" where
  "saved_as cx view st i m w \<longleftrightarrow>
     (\<exists>json. validate_snapshot_id i = Inr () \<and>
        serialize_with_size_check (cd_fx cx) (cd_to_json cx) m = Inr json \<and> view w (snapshot_path st i) = Some json)"

lemma stored_saved: "stored cx view st i m w \<Longrightarrow> saved_as cx view st i m w"
  by (auto simp: stored_def saved_as_def latest_is_def)

lemma holding_lock_InrE:
  assumes "holding_lock fs l m w = Some (Inr x, w')"
  obtains w1 where "m w = Some (Inr x, w1)" "w' = fl_close fs (lock_handle l) w1"
  using assms by (auto simp: holding_lock_def attempt_Some_iff elim!: abind_InrE)

lemma with_write_lock_InrE:
  assumes "with_write_lock fs inh st m w = Some (Inr x, w')"
  obtains w0 w1 l where "m w0 = Some (Inr x, w1)" "w' = fl_close fs (lock_handle l) w1"
    "store_lock fs inh (lock_path st) w = Some (Inr l, w0)"
  using assms unfolding with_write_lock_def by (elim abind_InrE holding_lock_InrE)

lemma save_new_unlocked_stored:
  assumes k: "keeps_files view fs" and run: "save_new_snapshot_unlocked cx fs st m w = Some (Inr i, w')"
  shows "stored cx view st i m w'"
proof -
  from run obtain w1 w2 w3 where
    save: "save_snapshot_unlocked cx fs st i m w1 = Some (Inr (), w2)"
    and latest: "set_latest_unlocked fs st i w2 = Some (Inr (), w3)"
    and prune: "prune_old_snapshots fs st i w3 = Some (Inr (), w')"
    by (auto simp: save_new_snapshot_unlocked_def elim!: abind_InrE)
  from k save obtain json where j: "validate_snapshot_id i = Inr ()"
      "serialize_with_size_check (cd_fx cx) (cd_to_json cx) m = Inr json" "view w2 (snapshot_path st i) = Some json"
    by (rule save_unlocked)
  with set_latest_keeps [OF k latest] have "latest_is view st i json w3" by (simp add: latest_is_def)
  then have "latest_is view st i json w'" using prune by (rule hoareD [OF prune_keeps_latest [OF k]])
  with j show ?thesis by (auto simp: stored_def)
qed

lemma save_new_stored:
  assumes k: "keeps_files view fs" and run: "save_new_snapshot cx fs inh st m w = Some (Inr i, w')"
  shows "stored cx view st i m w'"
  using run unfolding save_new_snapshot_def
  by (elim with_write_lock_InrE) (auto simp: stored_def latest_is_def keeps_filesD(15) [OF k]
      dest!: save_new_unlocked_stored [OF k])

section \<open>Loading\<close>

definition same_map :: "ref_map \<Rightarrow> ref_map \<Rightarrow> bool" where
  "same_map m m' \<longleftrightarrow> counter m = counter m' \<and> (\<forall>r. refmap_get m r = refmap_get m' r)"

text \<open>
  What is relied on of the JSON library: a map that is read has every key once, and a valid map that
  was written is read back, with its entries in any order.  It is not said of other maps: a bound
  that is not a finite number is written as null and read back as zero.  The store writes valid maps
  only.
\<close>

definition codec_ok :: "codec \<Rightarrow> bool" where
  "codec_ok cx \<longleftrightarrow>
     (\<forall>json m. cd_of_json cx json = Inr m \<longrightarrow> distinct (map fst (inner m))) \<and>
     (\<forall>m json. distinct (map fst (inner m)) \<longrightarrow> refmap_validate (cd_fx cx) m = Inr () \<longrightarrow> cd_to_json cx m = Inr json \<longrightarrow>
        (\<exists>m'. cd_of_json cx json = Inr m' \<and> mset (inner m') = mset (inner m) \<and> counter m' = counter m))"

lemma same_map_mset:
  assumes "distinct (map fst (inner m))" "mset (inner m') = mset (inner m)" "counter m' = counter m"
  shows "same_map m' m" "refmap_validate fx m' = Inr () \<longleftrightarrow> refmap_validate fx m = Inr ()" "distinct (map fst (inner m'))"
proof -
  have s: "set (inner m') = set (inner m)" using assms(2) by (rule mset_eq_setD)
  show d: "distinct (map fst (inner m'))"
    using assms(1,2) mset_eq_imp_distinct_iff [of "map fst (inner m')" "map fst (inner m)"] by simp
  have "map_of (inner m') = map_of (inner m)" using s d assms(1) by (simp add: map_of_inject_set)
  then show "same_map m' m" using assms(3) by (simp add: same_map_def refmap_get_def)
  show "refmap_validate fx m' = Inr () \<longleftrightarrow> refmap_validate fx m = Inr ()"
    by (simp add: refmap_validate_iff s assms(3))
qed

lemma serialize_Inr:
  "serialize_with_size_check fx to_json m = Inr json \<longleftrightarrow>
     refmap_validate fx m = Inr () \<and> to_json m = Inr json \<and> length json \<le> MAX_REFMAP_BYTES"
  by (cases "to_json m") (auto simp: serialize_with_size_check_def res_bind_Inr_iff)

text \<open>Reading gives what is stored, unless the system fails.\<close>

definition io_failure :: "app_error + 'a \<Rightarrow> bool" where
  "io_failure r \<longleftrightarrow> (case r of Inl (AppIo _) \<Rightarrow> True | _ \<Rightarrow> False)"

definition read_as :: "('w, app_error, 'a) act \<Rightarrow> 'w \<Rightarrow> ('a \<Rightarrow> bool) \<Rightarrow> bool" where
  "read_as act w P \<longleftrightarrow>
     (case act w of None \<Rightarrow> False | Some (Inr x, _) \<Rightarrow> P x | Some (Inl e, _) \<Rightarrow> io_failure (Inl e :: app_error + unit))"

lemma read_saved:
  assumes k: "keeps_files view fs" and cx: "codec_ok cx" and d: "distinct (map fst (inner m))"
    and st: "saved_as cx view st i m w"
  shows "read_as (load_snapshot cx fs st i) w (\<lambda>m'. same_map m' m)"
proof -
  from st obtain json where j: "validate_snapshot_id i = Inr ()" "refmap_validate (cd_fx cx) m = Inr ()"
      "cd_to_json cx m = Inr json" "view w (snapshot_path st i) = Some json"
    by (auto simp: saved_as_def serialize_Inr)
  from cx d j(2,3) obtain m' where m': "cd_of_json cx json = Inr m'" "mset (inner m') = mset (inner m)" "counter m' = counter m"
    unfolding codec_ok_def by blast
  note same = same_map_mset [OF d m'(2,3)]
  have v: "refmap_validate (cd_fx cx) m' = Inr ()" using same(2) j(2) by blast
  obtain r w' where r: "fl_read fs (snapshot_path st i) MAX_REFMAP_BYTES w = (r, w')" by force
  show ?thesis
  proof (cases r)
    case (Inl e)
    then have "io_kind_of e \<noteq> IoNotFound"
      using keeps_filesD(3) [OF k, of "snapshot_path st i" MAX_REFMAP_BYTES w e] r j(4) by auto
    then show ?thesis
      using j(1) r Inl by (simp add: read_as_def load_snapshot_def load_snapshot_from_base_def
        read_snapshot_if_present_def abind_def attempt_def io_failure_def)
  next
    case (Inr s)
    then have "s = json" using keeps_filesD(2) [OF k, of "snapshot_path st i" MAX_REFMAP_BYTES w s] r j(4) by auto
    then show ?thesis
      using j(1) v r Inr m'(1) same(1) by (simp add: read_as_def load_snapshot_def load_snapshot_from_base_def
        read_snapshot_if_present_def abind_def attempt_def)
  qed
qed

lemma read_stored:
  assumes "keeps_files view fs" "codec_ok cx" "distinct (map fst (inner m))" "stored cx view st i m w"
  shows "read_as (load_snapshot cx fs st i) w (\<lambda>m'. same_map m' m)"
  using assms(1-3) stored_saved [OF assms(4)] by (rule read_saved)

lemma load_ref_from:
  assumes "validate_snapshot_id i = Inr ()" "is_local_ref r" "refmap_get m r = Some e"
    and read: "read_as (load_snapshot cx fs st i) w (\<lambda>m'. same_map m' m)"
  shows "read_as (load_ref cx fs st (qualify_ref_id i r) None) w (\<lambda>e'. e' = e)"
proof -
  have "resolve_ref_target (qualify_ref_id i r) None = Inr (i, r)" using assms(1,2) by (simp add: resolve_qualified)
  then show ?thesis
    using read assms(3) unfolding load_ref_def read_as_def
    by (auto simp: abind_def same_map_def split: option.splits sum.splits prod.splits)
qed

section \<open>The pointer\<close>

lemma id_bytes:
  assumes "validate_snapshot_id i = Inr ()" "c \<in> set i"
  shows "byte c < 0x80" "[c] \<notin> set ws_tokens"
proof -
  have "is_ascii_alphanumeric c \<or> c = CHR ''-'' \<or> c = CHR ''_''"
    using assms by (auto simp: validate_snapshot_id_Inr list_all_iff)
  then show "byte c < 0x80" "[c] \<notin> set ws_tokens"
    by (auto simp: is_ascii_alphanumeric_def byte_def Let_def ws_tokens_def)
qed

lemma code_points_ascii: "(\<And>c. c \<in> set s \<Longrightarrow> byte c < 0x80) \<Longrightarrow> code_points s = map byte s"
  by (induction s rule: code_points.induct) auto

lemma str_from_utf8_ascii: "(\<And>c. c \<in> set s \<Longrightarrow> byte c < 0x80) \<Longrightarrow> str_from_utf8 s = Some s"
proof -
  assume a: "\<And>c. c \<in> set s \<Longrightarrow> byte c < 0x80"
  then have "concat (map (\<lambda>c. utf8_of (byte c)) s) = s"
    by (induction s) (auto simp: utf8_of_def byte_def)
  moreover have "list_all (\<lambda>p. p < 0xD800 \<or> 0xE000 \<le> p \<and> p \<le> 0x10FFFF) (map byte s)"
    using a by (fastforce simp: list_all_iff)
  ultimately show ?thesis by (simp add: str_from_utf8_def code_points_ascii [OF a] comp_def)
qed

lemma ws_heads: "t \<in> set ws_tokens \<Longrightarrow> t \<noteq> [] \<and> (byte (hd t) \<ge> 0x80 \<and> byte (last t) \<ge> 0x80 \<or> t = [hd t])"
  by (auto simp: ws_tokens_def byte_def)

lemma trim_id:
  assumes "validate_snapshot_id i = Inr ()"
  shows "trim i = i"
proof -
  have no: "strip_prefix t s = None" if t: "t \<in> set ws_tokens \<or> rev t \<in> set ws_tokens" and s: "set s = set i" for t s
  proof (rule ccontr)
    assume "strip_prefix t s \<noteq> None"
    then obtain r where r: "s = t @ r" by (auto simp: strip_prefix_Some_iff)
    have "t \<noteq> [] \<and> (byte (hd t) \<ge> 0x80 \<or> t = [hd t] \<and> t \<in> set ws_tokens)"
      using t ws_heads [of t] ws_heads [of "rev t"] by (auto simp: hd_rev last_rev) (metis rev_singleton_conv rev_rev_ident)+
    moreover have "hd t \<in> set i" if "t \<noteq> []" using r s that by (cases t) auto
    ultimately show False using id_bytes [OF assms] by (metis leD)
  qed
  have "strip_any ws_tokens i = None" "strip_any (map rev ws_tokens) (rev i) = None"
    unfolding strip_any_None_iff using no by auto
  then show ?thesis by (simp add: trim_def trim_start_def trim_end_def strip_all_fix)
qed

lemma read_latest_stored:
  assumes k: "keeps_files view fs" and cx: "codec_ok cx" and d: "distinct (map fst (inner m))"
    and st: "stored cx view st i m w"
  shows "read_as (load_latest cx fs inh st) w (\<lambda>m'. same_map m' m)"
proof -
  have v: "validate_snapshot_id i = Inr ()" and p: "view w (latest_path st) = Some i"
    using st by (auto simp: stored_def latest_is_def)
  obtain r w' where r: "fl_read fs (latest_path st) 65 w = (r, w')" by force
  show ?thesis
  proof (cases r)
    case (Inl e)
    then have "io_kind_of e \<noteq> IoNotFound"
      using keeps_filesD(3) [OF k, of "latest_path st" 65 w e] r p by auto
    then show ?thesis
      using r Inl by (simp add: read_as_def load_latest_def read_latest_snapshot_id_def abind_def attempt_def io_failure_def)
  next
    case (Inr s)
    then have s: "s = i" using keeps_filesD(2) [OF k, of "latest_path st" 65 w s] r p by auto
    have "view w' = view w" using keeps_filesD(1) [OF k, of "latest_path st" 65 w] r by simp
    then have "stored cx view st i m w'" using st by (simp add: stored_def latest_is_def)
    from read_stored [OF k cx d this]
    have "read_as (load_snapshot_from_base cx fs st i) w' (\<lambda>m'. same_map m' m)"
      by (simp add: load_snapshot_def read_as_def abind_def v)
    moreover have "i \<noteq> []" using v by (auto simp: validate_snapshot_id_Inr)
    moreover have "str_from_utf8 i = Some i" using id_bytes(1) [OF v] by (rule str_from_utf8_ascii)
    ultimately show ?thesis
      using r Inr s v trim_id [OF v]
      by (simp add: read_as_def load_latest_def read_latest_snapshot_id_def abind_def attempt_def)
  qed
qed

section \<open>Files in memory\<close>

text \<open>A platform whose world has files beside it, and files that are an association list.\<close>

definition on_first :: "('w \<Rightarrow> 'a \<times> 'w) \<Rightarrow> 'w \<times> 'v \<Rightarrow> 'a \<times> ('w \<times> 'v)" where
  "on_first f w = (let (x, v) = f (fst w) in (x, (v, snd w)))"

definition beside :: "'w platform \<Rightarrow> ('w \<times> 'v) platform" where
  "beside pf =
     \<lparr>pf_now = on_first (pf_now pf),
      pf_sleep = (\<lambda>n. map_prod (pf_sleep pf n) id),
      pf_resolve_element_strict = (\<lambda>e d. on_first (pf_resolve_element_strict pf e d)),
      pf_get_live_element = (\<lambda>h d. on_first (pf_get_live_element pf h d)),
      pf_get_element_bounds = (\<lambda>h d. on_first (pf_get_element_bounds pf h d)),
      pf_get_text_selection = (\<lambda>h d. on_first (pf_get_text_selection pf h d)),
      pf_hit_test = (\<lambda>h p d. on_first (pf_hit_test pf h p d)),
      pf_list_surfaces = (\<lambda>p d. on_first (pf_list_surfaces pf p d)),
      pf_list_apps = (\<lambda>d. on_first (pf_list_apps pf d)),
      pf_process_state = (\<lambda>p d. on_first (pf_process_state pf p d)),
      pf_resolve_window_strict = (\<lambda>v d. on_first (pf_resolve_window_strict pf v d)),
      pf_acquire_interaction_lease = (\<lambda>d. on_first (pf_acquire_interaction_lease pf d)),
      pf_drop_lease = (\<lambda>l. map_prod (pf_drop_lease pf l) id),
      pf_focus_window = (\<lambda>v l. on_first (pf_focus_window pf v l)),
      pf_scroll_into_view = (\<lambda>h l. on_first (pf_scroll_into_view pf h l)),
      pf_execute_action = (\<lambda>h req l. on_first (pf_execute_action pf h req l)),
      pf_trace = (\<lambda>ev j. on_first (pf_trace pf ev j)),
      pf_cursor_travel = (\<lambda>p l. map_prod (pf_cursor_travel pf p l) id),
      pf_cursor_submit = (\<lambda>p b c ph. map_prod (pf_cursor_submit pf p b c ph) id),
      pf_capture_screenshot = (\<lambda>e ph d. on_first (pf_capture_screenshot pf e ph d)),
      pf_emit_artifacts = (\<lambda>r a b. map_prod (pf_emit_artifacts pf r a b) id)\<rparr>"

type_synonym disk = "nat \<times> (path \<times> string) list"

definition disk_view :: "disk \<Rightarrow> path \<Rightarrow> string option" where
  "disk_view w = map_of (snd w)"

definition children :: "path \<Rightarrow> (path \<times> string) list \<Rightarrow> dir_entry list" where
  "children p kvs =
     map (\<lambda>q. \<lparr>de_name = q ! length p, de_kind = Some (if length q = length p + 1 then PlainFile else Directory)\<rparr>)
       (filter (\<lambda>q. take (length p) q = p \<and> length q > length p) (map fst kvs))"

definition disk_files :: "disk files" where
  "disk_files =
     \<lparr>fl_platform = beside (sample_platform (sample_live True)),
      fl_state_root = (\<lambda>w. (Inr [''state''], w)),
      fl_mixed = (\<lambda>w. (7, w)),
      fl_open_lock = (\<lambda>p create w. (Inr 1, w)),
      fl_try_lock = (\<lambda>h w. (TakenLock, w)),
      fl_close = (\<lambda>h w. w),
      fl_read = (\<lambda>p n w.
        (case disk_view w p of
           None \<Rightarrow> Inl \<lparr>io_kind_of = IoNotFound, io_text = ''not found''\<rparr>
         | Some s \<Rightarrow>
             if length s \<le> n then Inr s
             else Inl \<lparr>io_kind_of = IoInvalidData, io_text = ''file exceeds its read limit''\<rparr>, w)),
      fl_write = (\<lambda>p s w. (Inr (), (fst w, alist_insert p s (snd w)))),
      fl_read_dir = (\<lambda>p w. (Inr (map Inr (children p (snd w))), w)),
      fl_age = (\<lambda>p w. (None, w)),
      fl_modified = (\<lambda>p w. (None, w)),
      fl_is_file = (\<lambda>p w. (disk_view w p \<noteq> None, w)),
      fl_is_dir = (\<lambda>p w. (children p (snd w) \<noteq> [], w)),
      fl_stat = (\<lambda>p w.
        (case disk_view w p of
           None \<Rightarrow> Inl \<lparr>io_kind_of = IoNotFound, io_text = ''not found''\<rparr>
         | Some s \<Rightarrow> Inr (PlainFile, length s), w)),
      fl_create_dir = (\<lambda>p w. (Inr (), w)),
      fl_remove_file = (\<lambda>p w. (Inr (), (fst w, filter (\<lambda>(q, s). q \<noteq> p) (snd w)))),
      fl_remove_dir_all = (\<lambda>p w. (Inr (), (fst w, filter (\<lambda>(q, s). take (length p) q \<noteq> p) (snd w))))\<rparr>"

lemma map_of_filter_keys: "map_of (filter (\<lambda>(k, v). P k) kvs) k = (if P k then map_of kvs k else None)"
  by (induction kvs) auto

lemma disk_keeps: "keeps_files disk_view disk_files"
  unfolding keeps_files_def
  by (intro conjI allI)
    (auto simp: disk_files_def disk_view_def map_of_filter_keys beside_def on_first_def sample_platform_def
      split: option.splits)

definition sample_map :: ref_map where
  "sample_map = \<lparr>inner = [(''@e1'', sample_entry [] [0] None)], counter = 1\<rparr>"

definition sample_codec :: codec where
  "sample_codec =
     \<lparr>cd_fx = sum_hash,
      cd_to_json = (\<lambda>m. if m = sample_map then Inr ''{}'' else Inl ''unsupported''),
      cd_of_json = (\<lambda>s. if s = ''{}'' then Inr sample_map else Inl ''unsupported''),
      cd_print = (\<lambda>j. None), cd_parse = (\<lambda>s. None)\<rparr>"

lemma sample_codec_ok: "codec_ok sample_codec"
  by (auto simp: codec_ok_def sample_codec_def sample_map_def split: if_splits)

definition sample_store :: ref_store where
  "sample_store = \<lparr>rs_base = [''state''], rs_legacy = True\<rparr>"

lemma disk_now [simp]: "get_now (fl_platform disk_files) w = Some (Inr (fst w), (fst w + 1, snd w))"
  by (simp add: get_now_def disk_files_def beside_def on_first_def sample_platform_def)

lemma disk_calls [simp]:
  "fl_try_lock disk_files h w = (TakenLock, w)" "fl_close disk_files h w = w" "fl_mixed disk_files w = (7, w)"
  "fl_write disk_files p s w = (Inr (), (fst w, alist_insert p s (snd w)))"
  "fl_read_dir disk_files p w = (Inr (map Inr (children p (snd w))), w)"
  by (simp_all add: disk_files_def)

lemma disk_lock:
  assumes "t + 1 < expires_at d"
  shows "acquire_file_lock disk_files p d purpose (t, kvs) = Some (Inr \<lparr>lock_handle = 1, lock_contention = 0\<rparr>, (t + 2, kvs))"
proof -
  have "lock_round disk_files 1 d purpose p 0 (t, kvs) =
      Some (Inr (Done \<lparr>lock_handle = 1, lock_contention = 0\<rparr>), (t + 2, kvs))"
    using assms
    by (simp add: lock_round_def Let_def abind_def check_expired_def is_expired_def remaining_def ask_def)
  then have "loop (lock_round disk_files 1 d purpose p) 0 (t, kvs) =
      Some (Inr \<lparr>lock_handle = 1, lock_contention = 0\<rparr>, (t + 2, kvs))" by (simp add: loop_unfold)
  moreover have "fl_open_lock disk_files p True (t, kvs) = (Inr 1, (t, kvs))" by (simp add: disk_files_def)
  ultimately show ?thesis
    by (simp add: acquire_file_lock_def lock_file_def abind_def attempt_def amap_err_def)
qed

lemma rs_base_sample: "rs_base sample_store = [''state'']"
  by (simp add: sample_store_def)

lemma disk_store_lock:
  assumes "t < 1000"
  shows "store_lock disk_files None p (t, kvs) = Some (Inr \<lparr>lock_handle = 1, lock_contention = 0\<rparr>, (t + 3, kvs))"
proof -
  obtain d where d: "deadline_after None t LOCK_TIMEOUT_MS = Inr d" "expires_at d = t + 2000 * ns_per_ms"
    using assms by (simp add: deadline_after_def detached_after_def detached_at_def wait_timeout_duration_def LOCK_TIMEOUT_MS_def
        MAX_WAIT_TIMEOUT_MS_def instant_checked_add_def instant_max_def ns_per_ms_def bound_by_def)
  then have "acquire_file_lock disk_files p d purpose (t + 1, kvs) =
      Some (Inr \<lparr>lock_handle = 1, lock_contention = 0\<rparr>, (t + 3, kvs))" for purpose
    using disk_lock [of "t + 1" d] by (simp add: ns_per_ms_def numeral_3_eq_3)
  then show ?thesis by (simp add: store_lock_def store_lock_within_def abind_def amap_err_def d(1))
qed

lemma disk_holding: "m (t, kvs) = Some (r, w) \<Longrightarrow> holding_lock disk_files l m (t, kvs) = Some (r, w)"
  by (simp add: holding_lock_def abind_def attempt_def)

text \<open>Files in memory after a snapshot was saved in an empty store.\<close>

definition one_snapshot :: "nat \<Rightarrow> string \<Rightarrow> disk" where
  "one_snapshot t json =
     (t, [([''state'', ''snapshots'', ''s0007'', ''refmap.json''], json), ([''state'', ''latest_snapshot_id''], ''s0007'')])"

lemma disk_saves:
  assumes j: "serialize_with_size_check (cd_fx cx) (cd_to_json cx) m = Inr json" and t: "t < 1000"
  shows "save_new_snapshot cx disk_files None sample_store m (t, []) = Some (Inr ''s0007'', one_snapshot (t + 3) json)"
proof -
  let ?w = "one_snapshot (t + 3) json"
  have i: "snapshot_id_of 7 = ''s0007''" "validate_snapshot_id ''s0007'' = Inr ()" by code_simp+
  have p: "prune_old_snapshots disk_files sample_store ''s0007'' ?w = Some (Inr (), ?w)"
    by (simp add: prune_old_snapshots_def remove_reachable_tmp_files_def remove_stale_files_in_dir_def abind_def
      attempt_def children_def sample_store_def snapshots_dir_def oks_def List.map_filter_def remove_if_stale_def
      is_orphaned_tmp_file_def strip_prefix_def snapshot_entries_def i(2) MAX_SAVED_SNAPSHOTS_def one_snapshot_def)
  have "save_new_snapshot_unlocked cx disk_files sample_store m (t + 3, []) = Some (Inr ''s0007'', ?w)"
    using p
    by (simp add: save_new_snapshot_unlocked_def new_snapshot_id_def ask_def abind_def i j
      save_snapshot_unlocked_def set_latest_unlocked_def io_call_def amap_err_def snapshot_path_def latest_path_def
      rs_base_sample one_snapshot_def)
  then show ?thesis
    by (simp add: save_new_snapshot_def with_write_lock_def abind_def disk_store_lock [OF t] disk_holding)
qed

lemma sample_serialized: "serialize_with_size_check (cd_fx sample_codec) (cd_to_json sample_codec) sample_map = Inr ''{}''"
proof -
  have "ref_key 1 = ''@e1''" by code_simp
  then have "issued_key 1 ''@e1''" using issued_ref_key [of 1] by simp
  then show ?thesis
    by (simp add: serialize_Inr refmap_validate_iff sample_codec_def sample_map_def MAX_REFMAP_BYTES_def)
qed

section \<open>Properties\<close>

text \<open>
  C21. A snapshot that was saved is found again: right after the save its ref map is read back under
  the new id and as the latest snapshot, and every one of its refs, qualified with that id, is
  loaded as the entry it stands for; only a failure of the file system can get in between.
\<close>

theorem saved_snapshot_loads:
  assumes "keeps_files view fs" "codec_ok cx" "distinct (map fst (inner m))"
    and saved: "save_new_snapshot cx fs inh st m w = Some (Inr i, w')"
  shows "read_as (load_snapshot cx fs st i) w' (\<lambda>m'. same_map m' m) \<and>
    read_as (load_latest cx fs inh' st) w' (\<lambda>m'. same_map m' m) \<and>
    (refmap_get m r = Some e \<longrightarrow> read_as (load_ref cx fs st (qualify_ref_id i r) None) w' (\<lambda>e'. e' = e))"
proof (intro conjI impI)
  note stored = save_new_stored [OF assms(1) saved]
  show load: "read_as (load_snapshot cx fs st i) w' (\<lambda>m'. same_map m' m)"
    using stored by (rule read_stored [OF assms(1-3)])
  show "read_as (load_latest cx fs inh' st) w' (\<lambda>m'. same_map m' m)"
    using stored by (rule read_latest_stored [OF assms(1-3)])
  assume e: "refmap_get m r = Some e"
  have v: "validate_snapshot_id i = Inr ()" "refmap_validate (cd_fx cx) m = Inr ()"
    using stored by (auto simp: stored_def serialize_Inr)
  then have "issued_key (counter m) r"
    using e assms(3) by (auto simp: refmap_validate_inv dest: refmap_get_issued)
  then have "is_local_ref r"
    using unat_u32_max [of "counter m"] by (auto simp: issued_key_def intro!: local_ref_name)
  then show "read_as (load_ref cx fs st (qualify_ref_id i r) None) w' (\<lambda>e'. e' = e)"
    using load_ref_from [OF v(1) _ e load] by blast
qed

theorem saved_snapshot_loads_witness:
  "\<exists>w'. save_new_snapshot sample_codec disk_files None sample_store sample_map (0, []) = Some (Inr ''s0007'', w') \<and>
     read_as (load_snapshot sample_codec disk_files sample_store ''s0007'') w' (\<lambda>m'. same_map m' sample_map) \<and>
     read_as (load_ref sample_codec disk_files sample_store (qualify_ref_id ''s0007'' ''@e1'') None) w'
       (\<lambda>e'. e' = sample_entry [] [0] None)"
proof -
  have d: "distinct (map fst (inner sample_map))" and e: "refmap_get sample_map ''@e1'' = Some (sample_entry [] [0] None)"
    by (simp_all add: sample_map_def refmap_get_def)
  note found = saved_snapshot_loads [OF disk_keeps sample_codec_ok d disk_saves [OF sample_serialized], of 0 None "''@e1''"]
  show ?thesis
    by (rule exI, intro conjI, rule disk_saves [OF sample_serialized]) (use found e in simp_all)
qed

text \<open>
  C24. Pruning removes the oldest snapshots and only them: the directories removed are a beginning of
  the snapshots ordered by the time they were last written and then by id, without the latest one,
  and as many as there are above the low-water mark.
\<close>

theorem prune_removes_oldest:
  "\<exists>removed kept.
     remove_oldest fs st latest dated = each (remove_snapshot_dir fs st) (map snd removed) \<and>
     filter (\<lambda>d. snd d \<noteq> latest) (sort dated) = removed @ kept \<and>
     length removed = min (length dated - PRUNE_LOW_WATER) (length (filter (\<lambda>d. snd d \<noteq> latest) dated))"
proof -
  let ?old = "filter (\<lambda>d. snd d \<noteq> latest) (sort dated)" and ?n = "length dated - PRUNE_LOW_WATER"
  have "mset ?old = mset (filter (\<lambda>d. snd d \<noteq> latest) dated)" by (simp only: mset_filter mset_sort)
  from mset_eq_length [OF this] have len: "length ?old = length (filter (\<lambda>d. snd d \<noteq> latest) dated)" .
  have "map snd (take ?n ?old) = take ?n (filter (\<lambda>i. i \<noteq> latest) (map snd (sort dated)))"
    by (simp add: take_map filter_map comp_def)
  then have "remove_oldest fs st latest dated = each (remove_snapshot_dir fs st) (map snd (take ?n ?old))"
    by (simp add: remove_oldest_def remove_loop_each sort_dated)
  moreover have "?old = take ?n ?old @ drop ?n ?old" by (rule append_take_drop_id [symmetric])
  moreover have "length (take ?n ?old) = min ?n (length (filter (\<lambda>d. snd d \<noteq> latest) dated))"
    by (simp only: length_take len min.commute)
  ultimately show ?thesis by blast
qed

end
