(* ===== verification/ArtifactBudget.thy ===== *)
theory ArtifactBudget
  imports RefStoreSpec
begin

text \<open>
  What a session keeps of its work (\<open>trace_artifact_budget.rs\<close>, and \<open>trace_artifacts.rs\<close> with
  \<open>ensure_trace_dir\<close> of \<open>trace.rs\<close>): screenshots and copies of ref maps are written below the trace
  directory under a lock, and a ledger file records how much has been written so that the
  directories need not be scanned each time.
\<close>

section \<open>The ledger\<close>

record usage =
  us_screenshot_bytes :: nat
  us_screenshot_count :: nat
  us_refmap_bytes :: nat

definition SCREENSHOT_BYTE_BUDGET :: nat where "SCREENSHOT_BYTE_BUDGET = 128 * 1024 * 1024"
definition SCREENSHOT_COUNT_BUDGET :: nat where "SCREENSHOT_COUNT_BUDGET = 200"
definition REFMAP_BYTE_BUDGET :: nat where "REFMAP_BYTE_BUDGET = 64 * 1024 * 1024"
definition USAGE_LEDGER_MAX_BYTES :: nat where "USAGE_LEDGER_MAX_BYTES = 256"

definition ledger_path :: "path \<Rightarrow> path" where
  "ledger_path dir = dir @ [''.artifact-usage.json'']"

definition artifact_lock_path :: "path \<Rightarrow> path" where
  "artifact_lock_path dir = dir @ [''.artifact-budget.lock'']"

text \<open>Sums are saturating at the width of the counter.\<close>

definition add64 :: "nat \<Rightarrow> nat \<Rightarrow> nat" where "add64 a b = min (a + b) u64_max"
definition add32 :: "nat \<Rightarrow> nat \<Rightarrow> nat" where "add32 a b = min (a + b) u32_max"

definition usage_json :: "usage \<Rightarrow> json" where
  "usage_json u =
     JObj [(''screenshot_bytes'', JInt (int (us_screenshot_bytes u))),
           (''screenshot_count'', JInt (int (us_screenshot_count u))),
           (''refmap_bytes'', JInt (int (us_refmap_bytes u)))]"

definition decode_usage :: "codec \<Rightarrow> string \<Rightarrow> usage option" where
  "decode_usage cx bytes =
     Option.bind (cd_parse cx bytes) (\<lambda>v.
     Option.bind (Option.bind (json_get ''screenshot_bytes'' v) json_as_u64) (\<lambda>sb.
     Option.bind (Option.bind (json_get ''screenshot_count'' v) json_as_u64) (\<lambda>sc.
     Option.bind (if sc \<le> u32_max then Some sc else None) (\<lambda>sc.
     Option.bind (Option.bind (json_get ''refmap_bytes'' v) json_as_u64) (\<lambda>rb.
       Some \<lparr>us_screenshot_bytes = sb, us_screenshot_count = sc, us_refmap_bytes = rb\<rparr>)))))"

definition persist_usage :: "codec \<Rightarrow> 'w files \<Rightarrow> path \<Rightarrow> usage \<Rightarrow> ('w, string, unit) act" where
  "persist_usage cx fs dir u =
     abind (lift_res (ok_or (cd_print cx (usage_json u)) ''ledger_failed'')) (\<lambda>bytes.
       amap_err (\<lambda>_. ''ledger_failed'') (call (fl_write fs (ledger_path dir) bytes)))"

fun add_entries ::
  "'w files \<Rightarrow> path \<Rightarrow> nat \<Rightarrow> nat \<Rightarrow> (io_error + dir_entry) list \<Rightarrow> ('w, string, nat \<times> nat) act" where
  "add_entries fs dir bytes n [] = ret (bytes, n)"
| "add_entries fs dir bytes n (Inl e # rest) = fail_with ''scan_failed''"
| "add_entries fs dir bytes n (Inr de # rest) =
     abind (amap_err (\<lambda>_. ''scan_failed'') (call (fl_stat fs (dir @ [de_name de])))) (\<lambda>(kind, len).
       if kind = Symlink then fail_with ''scan_failed''
       else if kind = PlainFile then add_entries fs dir (add64 bytes len) (add32 n 1) rest
       else add_entries fs dir bytes n rest)"

definition directory_usage :: "'w files \<Rightarrow> path \<Rightarrow> ('w, string, nat \<times> nat) act" where
  "directory_usage fs dir =
     abind (attempt (call (fl_read_dir fs dir))) (\<lambda>r.
       case r of
         Inl e \<Rightarrow> if io_kind_of e = IoNotFound then ret (0, 0) else fail_with ''scan_failed''
       | Inr entries \<Rightarrow> add_entries fs dir 0 0 entries)"

definition scan_usage :: "codec \<Rightarrow> 'w files \<Rightarrow> path \<Rightarrow> ('w, string, usage) act" where
  "scan_usage cx fs dir =
     abind (directory_usage fs (dir @ [''screens''])) (\<lambda>screens.
     abind (directory_usage fs (dir @ [''refmaps''])) (\<lambda>refmaps.
       let u = \<lparr>us_screenshot_bytes = fst screens, us_screenshot_count = snd screens, us_refmap_bytes = fst refmaps\<rparr>
       in abind (persist_usage cx fs dir u) (\<lambda>_. ret u)))"

definition load_usage :: "codec \<Rightarrow> 'w files \<Rightarrow> path \<Rightarrow> ('w, string, usage) act" where
  "load_usage cx fs dir =
     abind (attempt (call (fl_read fs (ledger_path dir) USAGE_LEDGER_MAX_BYTES))) (\<lambda>r.
       case (case r of Inl _ \<Rightarrow> None | Inr bytes \<Rightarrow> decode_usage cx bytes) of
         Some u \<Rightarrow> ret u
       | None \<Rightarrow> scan_usage cx fs dir)"

definition rollback_reservation_if_absent :: "codec \<Rightarrow> 'w files \<Rightarrow> path \<Rightarrow> path \<Rightarrow> usage \<Rightarrow> ('w, string, unit) act" where
  "rollback_reservation_if_absent cx fs dir p u =
     abind (attempt (call (fl_stat fs p))) (\<lambda>r.
       if (case r of Inl _ \<Rightarrow> False | Inr (kind, len) \<Rightarrow> kind = PlainFile \<or> kind = Symlink) then ret ()
       else abind (attempt (persist_usage cx fs dir u)) (\<lambda>_. ret ()))"

section \<open>Writing an artifact\<close>

definition artifact_lock :: "'w files \<Rightarrow> deadline option \<Rightarrow> path \<Rightarrow> ('w, string, file_lock) act" where
  "artifact_lock fs inh dir = amap_err (\<lambda>_. ''lock_failed'') (store_lock fs inh (artifact_lock_path dir))"

definition artifact_lock_within :: "'w files \<Rightarrow> path \<Rightarrow> deadline \<Rightarrow> ('w, string, file_lock) act" where
  "artifact_lock_within fs dir d = amap_err (\<lambda>_. ''lock_failed'') (store_lock_within fs (artifact_lock_path dir) d)"

text \<open>The reservation is recorded first; it is taken back when the artifact could not be written.\<close>

definition write_reserved ::
  "codec \<Rightarrow> 'w files \<Rightarrow> path \<Rightarrow> path \<Rightarrow> string \<Rightarrow> usage \<Rightarrow> usage \<Rightarrow> ('w, string, unit) act" where
  "write_reserved cx fs dir p bytes before reserved =
     abind (persist_usage cx fs dir reserved) (\<lambda>_.
     abind (attempt (call (fl_write fs p bytes))) (\<lambda>r.
       case r of
         Inl _ \<Rightarrow> abind (rollback_reservation_if_absent cx fs dir p before) (\<lambda>_. fail_with ''write_failed'')
       | Inr _ \<Rightarrow> ret ()))"

definition reserve_screenshot :: "codec \<Rightarrow> 'w files \<Rightarrow> path \<Rightarrow> path \<Rightarrow> string \<Rightarrow> ('w, string, unit) act" where
  "reserve_screenshot cx fs dir p bytes =
     abind (load_usage cx fs dir) (\<lambda>u.
       if us_screenshot_count u \<ge> SCREENSHOT_COUNT_BUDGET then fail_with ''count_budget''
       else if add64 (us_screenshot_bytes u) (length bytes) > SCREENSHOT_BYTE_BUDGET then fail_with ''budget''
       else write_reserved cx fs dir p bytes u
         (u\<lparr>us_screenshot_bytes := add64 (us_screenshot_bytes u) (length bytes),
            us_screenshot_count := add32 (us_screenshot_count u) 1\<rparr>))"

definition write_screenshot ::
  "codec \<Rightarrow> 'w files \<Rightarrow> path \<Rightarrow> path \<Rightarrow> string \<Rightarrow> deadline \<Rightarrow> ('w, string, unit) act" where
  "write_screenshot cx fs dir p bytes d =
     abind (artifact_lock_within fs dir d) (\<lambda>l. holding_lock fs l (reserve_screenshot cx fs dir p bytes))"

definition reserve_refmap :: "codec \<Rightarrow> 'w files \<Rightarrow> path \<Rightarrow> path \<Rightarrow> string \<Rightarrow> ('w, string, unit) act" where
  "reserve_refmap cx fs dir p bytes =
     abind (ask (fl_is_file fs p)) (\<lambda>there.
       if there then ret ()
       else
         abind (load_usage cx fs dir) (\<lambda>u.
           if add64 (us_refmap_bytes u) (length bytes) > REFMAP_BYTE_BUDGET then fail_with ''budget''
           else write_reserved cx fs dir p bytes u
             (u\<lparr>us_refmap_bytes := add64 (us_refmap_bytes u) (length bytes)\<rparr>)))"

definition write_refmap_if_absent ::
  "codec \<Rightarrow> 'w files \<Rightarrow> deadline option \<Rightarrow> path \<Rightarrow> path \<Rightarrow> string \<Rightarrow> ('w, string, unit) act" where
  "write_refmap_if_absent cx fs inh dir p bytes =
     abind (artifact_lock fs inh dir) (\<lambda>l. holding_lock fs l (reserve_refmap cx fs dir p bytes))"

section \<open>Artifacts of a command\<close>

text \<open>
  What a command knows of its session (\<open>context.rs\<close>): its id, whether a trace is written, and
  whether artifacts are kept.
\<close>

record command_context =
  cc_session :: "string option"
  cc_trace_enabled :: bool
  cc_artifacts_full :: bool

definition artifacts_enabled :: "command_context \<Rightarrow> bool" where
  "artifacts_enabled c \<longleftrightarrow> cc_trace_enabled c \<and> cc_artifacts_full c"

definition ensure_trace_dir :: "'w files \<Rightarrow> path \<Rightarrow> ('w, app_error, unit) act" where
  "ensure_trace_dir fs dir =
     abind (attempt (call (fl_stat fs dir))) (\<lambda>r.
       if (case r of Inl _ \<Rightarrow> False | Inr (kind, len) \<Rightarrow> kind = Symlink) then
         fail_with (invalid_input_with_suggestion
           ''Refusing to write trace segments through a symlinked trace directory''
           (''Remove the symlink under the session'' @ CHR 0x27 # ''s trace/ directory.''))
       else
         abind (ask (fl_is_dir fs dir)) (\<lambda>there.
           if there then ret () else io_call (fl_create_dir fs dir)))"

definition session_trace_dir :: "'w files \<Rightarrow> command_context \<Rightarrow> ('w, 'e, path option) act" where
  "session_trace_dir fs c =
     (case cc_session c of
        None \<Rightarrow> ret None
      | Some i \<Rightarrow>
          abind (attempt (store_for_session fs (Some i))) (\<lambda>r.
            ret (case r of Inl _ \<Rightarrow> None | Inr st \<Rightarrow> Some (trace_dir st))))"

definition copy_refmap_if_full ::
  "codec \<Rightarrow> 'w files \<Rightarrow> deadline option \<Rightarrow> command_context \<Rightarrow> ref_store \<Rightarrow> string \<Rightarrow> ref_map \<Rightarrow> ('w, 'e, unit) act" where
  "copy_refmap_if_full cx fs inh c st i m =
     (if \<not> artifacts_enabled c then ret ()
      else
        (let dir = trace_dir st; refmaps = dir @ [''refmaps'']
         in abind (attempt (ensure_trace_dir fs refmaps)) (\<lambda>r.
              case r of
                Inl _ \<Rightarrow> ret ()
              | Inr _ \<Rightarrow>
                  (case serialize_with_size_check (cd_fx cx) (cd_to_json cx) m of
                     Inl _ \<Rightarrow> ret ()
                   | Inr json \<Rightarrow>
                       abind (attempt (write_refmap_if_absent cx fs inh dir (refmaps @ [i @ ''.json'']) json)) (\<lambda>r.
                         case r of
                           Inl _ \<Rightarrow> trace_quietly (fl_platform fs) ''action.artifacts.refmap_skipped''
                             (JObj [(''snapshot_id'', JStr i)])
                         | Inr _ \<Rightarrow> ret ())))))"


text \<open>Screenshots before and after an action; \<open>at_seq\<close> numbers the captures of the process.\<close>

record 'w artist =
  at_files :: "'w files"
  at_screenshot :: "window_info \<Rightarrow> deadline \<Rightarrow> 'w \<Rightarrow> (adapter_error + string) \<times> 'w"
  at_seq :: "'w \<Rightarrow> nat \<times> 'w"
  at_start_ms :: nat

definition relative_to_trace :: "path \<Rightarrow> path \<Rightarrow> string" where
  "relative_to_trace dir p =
     (if take (length dir) p = dir
      then map (\<lambda>c. if c = CHR 0x5C then CHR ''/'' else c) (drop 1 (path_text (drop (length dir) p)))
      else path_text p)"

definition exact_window :: "ref_entry \<Rightarrow> window_info option" where
  "exact_window e =
     (case (option_filter (\<lambda>i. i \<noteq> []) (src_window_id (source e)), option_filter (\<lambda>i. i \<noteq> []) (rp_instance (process e))) of
        (Some i, Some inst) \<Rightarrow>
          Some \<lparr>win_id = i, win_title = unwrap_or (src_window_title (source e)) [],
                win_app = unwrap_or (src_app (source e)) [], win_pid = rp_pid (process e), win_instance = Some inst,
                win_bounds = None, win_state = default_window_state\<rparr>
      | _ \<Rightarrow> None)"

definition screenshot_name :: "process_id \<Rightarrow> nat \<Rightarrow> nat \<Rightarrow> string \<Rightarrow> string" where
  "screenshot_name p start_ms sequence phase =
     show_nat (unat p) @ ''-'' @ show_nat start_ms @ ''-'' @ show_nat sequence @ ''-'' @ phase @ ''.png''"

definition capture_action_screenshot ::
  "codec \<Rightarrow> 'w artist \<Rightarrow> command_context \<Rightarrow> ref_entry \<Rightarrow> string \<Rightarrow> deadline \<Rightarrow> ('w, 'e, artifact_outcome) act" where
  "capture_action_screenshot cx ar c e phase d =
     (if \<not> artifacts_enabled c then ret (ArtSkipped ''disabled'')
      else
        (let fs = at_files ar
         in abind (check_expired (fl_platform fs) d) (\<lambda>expired.
              if expired then ret (ArtSkipped ''deadline'')
              else case exact_window e of
                None \<Rightarrow> ret (ArtSkipped ''exact_target_unavailable'')
              | Some v \<Rightarrow>
                  abind (session_trace_dir fs c) (\<lambda>dir.
                    case dir of
                      None \<Rightarrow> ret (ArtSkipped ''no_session'')
                    | Some dir \<Rightarrow>
                        abind (attempt (ensure_trace_dir fs (dir @ [''screens'']))) (\<lambda>r.
                          case r of
                            Inl err \<Rightarrow> ret (ArtSkipped (''dir: '' @ app_error_text err))
                          | Inr _ \<Rightarrow>
                              abind (attempt (call (at_screenshot ar v d))) (\<lambda>shot.
                                case shot of
                                  Inl err \<Rightarrow> ret (ArtSkipped (''adapter: '' @ error_code_as_str (err_code err)))
                                | Inr png \<Rightarrow>
                                    abind (ask (at_seq ar)) (\<lambda>sequence.
                                      let p = dir @ [''screens'',
                                        screenshot_name (rp_pid (process e)) (at_start_ms ar) sequence phase]
                                      in abind (attempt (write_screenshot cx fs dir p png d)) (\<lambda>r.
                                           ret (case r of
                                             Inl reason \<Rightarrow> ArtSkipped reason
                                           | Inr _ \<Rightarrow> Captured (relative_to_trace dir p))))))))))"

definition same_skip :: "artifact_outcome \<Rightarrow> artifact_outcome \<Rightarrow> string option" where
  "same_skip pre post =
     (case (pre, post) of
        (ArtSkipped a, ArtSkipped b) \<Rightarrow> if a = b \<and> a \<noteq> ''disabled'' then Some a else None
      | _ \<Rightarrow> None)"

definition artifact_fields :: "string \<Rightarrow> artifact_outcome \<Rightarrow> json \<Rightarrow> json" where
  "artifact_fields phase a payload =
     (case a of
        Captured p \<Rightarrow> json_insert (''screenshot_'' @ phase) (JStr p) payload
      | ArtSkipped reason \<Rightarrow>
          if reason \<noteq> ''disabled'' then json_insert (''skipped_'' @ phase) (JStr reason) payload else payload)"

definition emit_action_artifacts ::
  "'w platform \<Rightarrow> command_context \<Rightarrow> string \<Rightarrow> artifact_outcome \<Rightarrow> artifact_outcome \<Rightarrow> ('w, app_error, unit) act" where
  "emit_action_artifacts pf c r pre post =
     (if \<not> artifacts_enabled c then ret ()
      else case same_skip pre post of
        Some reason \<Rightarrow> trace pf ''action.artifacts'' (JObj [(''ref'', JStr r), (''skipped'', JStr reason)])
      | None \<Rightarrow>
          trace pf ''action.artifacts''
            (artifact_fields ''post'' post (artifact_fields ''pre'' pre (JObj [(''ref'', JStr r)]))))"


section \<open>The budget is kept\<close>

text \<open>
  The artifacts of a directory, without the temporary files of interrupted writes, and the bytes
  they hold; \<open>v\<close> is what the files hold.
\<close>

definition kept :: "(path \<Rightarrow> string option) \<Rightarrow> path \<Rightarrow> string set" where
  "kept v d = {n. \<not> is_orphaned_tmp_file (d @ [n]) \<and> v (d @ [n]) \<noteq> None}"

definition kept_bytes :: "(path \<Rightarrow> string option) \<Rightarrow> path \<Rightarrow> nat" where
  "kept_bytes v d = (\<Sum>n \<in> kept v d. length (the (v (d @ [n]))))"

definition covered :: "(path \<Rightarrow> string option) \<Rightarrow> path \<Rightarrow> usage \<Rightarrow> bool" where
  "covered v dir u \<longleftrightarrow>
     kept_bytes v (dir @ [''screens'']) \<le> us_screenshot_bytes u \<and>
     card (kept v (dir @ [''screens''])) \<le> us_screenshot_count u \<and>
     kept_bytes v (dir @ [''refmaps'']) \<le> us_refmap_bytes u"

definition bounded :: "(path \<Rightarrow> string option) \<Rightarrow> path \<Rightarrow> bool" where
  "bounded v dir \<longleftrightarrow>
     finite (kept v (dir @ [''screens''])) \<and> finite (kept v (dir @ [''refmaps''])) \<and>
     kept_bytes v (dir @ [''screens'']) \<le> SCREENSHOT_BYTE_BUDGET \<and>
     card (kept v (dir @ [''screens''])) \<le> SCREENSHOT_COUNT_BUDGET \<and>
     kept_bytes v (dir @ [''refmaps'']) \<le> REFMAP_BYTE_BUDGET"

definition ledger_covers :: "codec \<Rightarrow> (path \<Rightarrow> string option) \<Rightarrow> path \<Rightarrow> bool" where
  "ledger_covers cx v dir \<longleftrightarrow>
     (\<forall>s u. v (ledger_path dir) = Some s \<longrightarrow> decode_usage cx s = Some u \<longrightarrow> covered v dir u)"

definition within_budget :: "codec \<Rightarrow> (path \<Rightarrow> string option) \<Rightarrow> path \<Rightarrow> bool" where
  "within_budget cx v dir \<longleftrightarrow> bounded v dir \<and> ledger_covers cx v dir"

text \<open>
  What is relied on of directory listings and of \<open>symlink_metadata\<close>: every file is listed and its
  size is told; and of the JSON library: a ledger that was written is read back.
\<close>

definition lists_files :: "('w \<Rightarrow> path \<Rightarrow> string option) \<Rightarrow> 'w files \<Rightarrow> bool" where
  "lists_files view fs \<longleftrightarrow>
     (\<forall>p w s. view w p = Some s \<longrightarrow> fst (fl_stat fs p w) = Inr (PlainFile, length s)) \<and>
     (\<forall>p w n. view w (p @ [n]) \<noteq> None \<longrightarrow>
        (case fst (fl_read_dir fs p w) of
           Inl e \<Rightarrow> io_kind_of e \<noteq> IoNotFound
         | Inr es \<Rightarrow> (\<exists>de. Inr de \<in> set es \<and> de_name de = n) \<or> (\<exists>e. Inl e \<in> set es)))"

lemma lists_filesD:
  assumes "lists_files view fs"
  shows "view w p = Some s \<Longrightarrow> fl_stat fs p w = (x, v) \<Longrightarrow> x = Inr (PlainFile, length s)"
    "view w (p @ [n]) \<noteq> None \<Longrightarrow> fl_read_dir fs p w = (Inl e, v) \<Longrightarrow> io_kind_of e \<noteq> IoNotFound"
    "view w (p @ [n]) \<noteq> None \<Longrightarrow> fl_read_dir fs p w = (Inr es, v) \<Longrightarrow>
       (\<exists>de. Inr de \<in> set es \<and> de_name de = n) \<or> (\<exists>e. Inl e \<in> set es)"
proof -
  note l = assms [unfolded lists_files_def]
  show "view w p = Some s \<Longrightarrow> fl_stat fs p w = (x, v) \<Longrightarrow> x = Inr (PlainFile, length s)"
    using conjunct1 [OF l] by (metis fst_conv)
  show "view w (p @ [n]) \<noteq> None \<Longrightarrow> fl_read_dir fs p w = (Inl e, v) \<Longrightarrow> io_kind_of e \<noteq> IoNotFound"
    using conjunct2 [OF l, THEN spec, THEN spec, THEN spec, of w p n] by simp
  show "view w (p @ [n]) \<noteq> None \<Longrightarrow> fl_read_dir fs p w = (Inr es, v) \<Longrightarrow>
       (\<exists>de. Inr de \<in> set es \<and> de_name de = n) \<or> (\<exists>e. Inl e \<in> set es)"
    using conjunct2 [OF l, THEN spec, THEN spec, THEN spec, of w p n] by simp
qed

definition ledger_ok :: "codec \<Rightarrow> bool" where
  "ledger_ok cx \<longleftrightarrow> (\<forall>u s. cd_print cx (usage_json u) = Some s \<longrightarrow> cd_parse cx s = Some (usage_json u))"

definition same_files :: "path \<Rightarrow> (path \<Rightarrow> string option) \<Rightarrow> (path \<Rightarrow> string option) \<Rightarrow> bool" where
  "same_files dir v v' \<longleftrightarrow> (\<forall>q. q \<noteq> ledger_path dir \<longrightarrow> \<not> is_orphaned_tmp_file q \<longrightarrow> v' q = v q)"

lemma same_kept:
  assumes "same_files dir v v'"
  shows "kept v' (dir @ [s]) = kept v (dir @ [s])" "kept_bytes v' (dir @ [s]) = kept_bytes v (dir @ [s])"
proof -
  have "v' ((dir @ [s]) @ [n]) = v ((dir @ [s]) @ [n])" if "\<not> is_orphaned_tmp_file ((dir @ [s]) @ [n])" for n
    using assms that by (simp add: same_files_def ledger_path_def)
  then show "kept v' (dir @ [s]) = kept v (dir @ [s])" "kept_bytes v' (dir @ [s]) = kept_bytes v (dir @ [s])"
    unfolding kept_bytes_def kept_def by (auto intro!: sum.cong)
qed

lemma same_covered: "same_files dir v v' \<Longrightarrow> covered v' dir u = covered v dir u"
  by (simp add: covered_def same_kept)

lemma same_bounded: "same_files dir v v' \<Longrightarrow> bounded v' dir = bounded v dir"
  by (simp add: bounded_def same_kept)

lemma decode_usage_json:
  "ledger_ok cx \<Longrightarrow> cd_print cx (usage_json u) = Some s \<Longrightarrow> decode_usage cx s = Some u' \<Longrightarrow> u' = u"
  by (fastforce simp: ledger_ok_def decode_usage_def usage_json_def Option.bind_eq_Some_conv split: if_splits)

lemma ledger_not_tmp: "\<not> is_orphaned_tmp_file (ledger_path dir)"
  by (simp add: is_orphaned_tmp_file_def ledger_path_def strip_prefix_def)

text \<open>Writing the ledger leaves the artifacts alone, and it says \<open>u\<close> or what it said before.\<close>

lemma persist_writes:
  assumes k: "keeps_files view fs" and cx: "ledger_ok cx"
    and run: "persist_usage cx fs dir u w = Some (r, w')"
  shows "same_files dir (view w) (view w') \<and>
    (view w' (ledger_path dir) = view w (ledger_path dir) \<and> \<not> is_ok r \<or>
     (\<forall>s u'. view w' (ledger_path dir) = Some s \<longrightarrow> decode_usage cx s = Some u' \<longrightarrow> u' = u))"
proof (cases "cd_print cx (usage_json u)")
  case None
  then show ?thesis using run by (auto simp: persist_usage_def abind_Some_iff same_files_def)
next
  case (Some s)
  obtain x v where w: "fl_write fs (ledger_path dir) s w = (x, v)" by fastforce
  have "v = w'" "r = res_map_err (\<lambda>_. ''ledger_failed'') x"
    using run w Some by (auto simp: persist_usage_def abind_Some_iff amap_err_Some_iff)
  moreover have "view v (ledger_path dir) \<in> {view w (ledger_path dir), Some s}"
    "is_ok x \<longrightarrow> view v (ledger_path dir) = Some s" "same_files dir (view w) (view v)"
    using keeps_filesD(4,5,6) [OF k, where p = "ledger_path dir" and t = s and w = w] w
    by (cases x; force simp: same_files_def)+
  ultimately show ?thesis
    using decode_usage_json [OF cx Some] by (cases x) auto
qed

definition says :: "codec \<Rightarrow> path \<Rightarrow> (path \<Rightarrow> string option) \<Rightarrow> usage \<Rightarrow> bool" where
  "says cx dir v u \<longleftrightarrow> (\<forall>s u'. v (ledger_path dir) = Some s \<longrightarrow> decode_usage cx s = Some u' \<longrightarrow> u' = u)"

lemma persist_within:
  assumes "keeps_files view fs" "ledger_ok cx" "persist_usage cx fs dir u w = Some (r, w')"
    and "within_budget cx (view w) dir" "covered (view w) dir u"
  shows "within_budget cx (view w') dir" "same_files dir (view w) (view w')" "is_ok r \<Longrightarrow> says cx dir (view w') u"
proof -
  from persist_writes [OF assms(1-3)] have s: "same_files dir (view w) (view w')"
    and l: "view w' (ledger_path dir) = view w (ledger_path dir) \<and> \<not> is_ok r \<or> says cx dir (view w') u"
    by (auto simp: says_def)
  show "same_files dir (view w) (view w')" by (rule s)
  show "is_ok r \<Longrightarrow> says cx dir (view w') u" using l by blast
  have "ledger_covers cx (view w') dir"
    using l assms(4,5) same_covered [OF s] unfolding ledger_covers_def within_budget_def says_def by metis
  then show "within_budget cx (view w') dir" using same_bounded [OF s] assms(4) by (simp add: within_budget_def)
qed

text \<open>A scan counts every artifact, up to the width of the counters.\<close>

lemma add_entries_counts:
  assumes k: "keeps_files view fs" and l: "lists_files view fs"
  shows "add_entries fs d b n es w = Some (Inr (b', n'), w') \<Longrightarrow> finite N \<Longrightarrow>
    (\<And>x. x \<in> N \<Longrightarrow> view w (d @ [x]) \<noteq> None \<and> (\<exists>de. Inr de \<in> set es \<and> de_name de = x)) \<Longrightarrow>
    view w' = view w \<and> min (b + (\<Sum>x\<in>N. length (the (view w (d @ [x]))))) u64_max \<le> b' \<and>
      min (n + card N) u32_max \<le> n'"
proof (induction es arbitrary: b n w N)
  case (Cons r rest)
  show ?case
  proof (cases r)
    case (Inl e)
    then show ?thesis using Cons.prems(1) by simp
  next
    case (Inr de)
    obtain x v where st: "fl_stat fs (d @ [de_name de]) w = (x, v)" by fastforce
    have v: "view v = view w" using keeps_filesD(16) [OF k, of "d @ [de_name de]" w] st by simp
    from Cons.prems(1) Inr st obtain kind len where x: "x = Inr (kind, len)"
      by (cases x) (auto simp: abind_Some_iff amap_err_Some_iff)
    let ?size = "\<lambda>x. length (the (view w (d @ [x])))" and ?N = "N - {de_name de}"
    have mem: "kind = PlainFile \<and> len = ?size (de_name de)" if "de_name de \<in> N"
      using Cons.prems(3) [OF that] lists_filesD(1) [OF l _ st] x by auto
    have N: "y \<in> ?N \<Longrightarrow> view v (d @ [y]) \<noteq> None \<and> (\<exists>de. Inr de \<in> set rest \<and> de_name de = y)" for y
      using Cons.prems(3) Inr v by auto
    have split: "(\<Sum>x\<in>N. ?size x) = (\<Sum>x\<in>?N. ?size x) + (if de_name de \<in> N then len else 0)"
      "card N = card ?N + (if de_name de \<in> N then 1 else 0)"
      using Cons.prems(2) mem sum.remove [of N "de_name de" ?size] card_Suc_Diff1 [of N "de_name de"] by auto
    show ?thesis
    proof (cases "kind = PlainFile")
      case True
      then have "add_entries fs d (add64 b len) (add32 n 1) rest v = Some (Inr (b', n'), w')"
        using Cons.prems(1) st x Inr by (auto simp: abind_Some_iff amap_err_Some_iff)
      from Cons.IH [where N = ?N, OF this finite_Diff [OF Cons.prems(2)] N] have "view w' = view w"
        "min (add64 b len + (\<Sum>x\<in>?N. ?size x)) u64_max \<le> b'" "min (add32 n 1 + card ?N) u32_max \<le> n'"
        using v by simp_all
      then show ?thesis unfolding split add64_def add32_def by (auto simp: min_def split: if_splits)
    next
      case False
      then have "add_entries fs d b n rest v = Some (Inr (b', n'), w')"
        using Cons.prems(1) st x Inr by (auto simp: abind_Some_iff amap_err_Some_iff split: if_splits)
      from Cons.IH [where N = ?N, OF this finite_Diff [OF Cons.prems(2)] N] have "view w' = view w"
        "min (b + (\<Sum>x\<in>?N. ?size x)) u64_max \<le> b'" "min (n + card ?N) u32_max \<le> n'"
        using v by simp_all
      then show ?thesis using False mem unfolding split by auto
    qed
  qed
next
  case Nil
  then have "N = {}" by auto
  with Nil show ?case by simp
qed

lemma add_entries_no_error:
  "add_entries fs d b n es w = Some (Inr q, w') \<Longrightarrow> Inl e \<notin> set es"
proof (induction es arbitrary: b n w)
  case (Cons r rest)
  then show ?case by (cases r) (auto simp: abind_Some_iff split: if_splits)
qed simp

lemma directory_usage_counts:
  assumes k: "keeps_files view fs" and l: "lists_files view fs" and fin: "finite (kept (view w) d)"
    and run: "directory_usage fs d w = Some (Inr (b, n), w')"
  shows "view w' = view w \<and> min (kept_bytes (view w) d) u64_max \<le> b \<and> min (card (kept (view w) d)) u32_max \<le> n"
proof -
  obtain x v where rd: "fl_read_dir fs d w = (x, v)" by fastforce
  have v: "view v = view w" using keeps_filesD(7) [OF k, of d w] rd by simp
  show ?thesis
  proof (cases x)
    case (Inl e)
    with run rd have "io_kind_of e = IoNotFound" "b = 0" "n = 0" "w' = v"
      by (auto simp: directory_usage_def abind_Some_iff attempt_Some_iff split: if_splits)
    moreover from this lists_filesD(2) [OF l, of w d] rd Inl have "kept (view w) d = {}" by (auto simp: kept_def)
    ultimately show ?thesis using v by (simp add: kept_bytes_def)
  next
    case (Inr es)
    with run rd have run': "add_entries fs d 0 0 es v = Some (Inr (b, n), w')"
      by (auto simp: directory_usage_def abind_Some_iff attempt_Some_iff)
    have "view w (d @ [y]) \<noteq> None \<and> (\<exists>de. Inr de \<in> set es \<and> de_name de = y)" if "y \<in> kept (view w) d" for y
      using that lists_filesD(3) [OF l, of w d y] rd Inr add_entries_no_error [OF run'] by (auto simp: kept_def)
    with add_entries_counts [OF k l run' fin] v show ?thesis by (simp add: kept_bytes_def)
  qed
qed


lemma directory_usage_only_reads:
  assumes k: "keeps_files view fs"
  shows "preserves (\<lambda>w. view w = v) (directory_usage fs d)"
proof -
  have "preserves (\<lambda>w. view w = v) (add_entries fs d b n es)" for b n es
  proof (induction es arbitrary: b n)
    case (Cons r rest)
    then show ?case
      by (cases r)
        (auto intro!: preserving simp: keeps_filesD [OF k] case_prod_beta simp del: act_simps)
  qed (auto intro: preserving)
  then show ?thesis
    unfolding directory_usage_def by (intro preserving) (simp_all add: keeps_filesD [OF k])
qed

definition loaded :: "codec \<Rightarrow> ('w \<Rightarrow> path \<Rightarrow> string option) \<Rightarrow> path \<Rightarrow> 'w \<Rightarrow> 'e + usage \<Rightarrow> 'w \<Rightarrow> bool" where
  "loaded cx view dir w r w' \<longleftrightarrow>
     within_budget cx (view w') dir \<and> same_files dir (view w) (view w') \<and>
     (case r of Inl _ \<Rightarrow> True | Inr u \<Rightarrow> covered (view w') dir u)"

lemma scan_usage_within:
  assumes k: "keeps_files view fs" and l: "lists_files view fs" and cx: "ledger_ok cx"
    and within: "within_budget cx (view w) dir" and run: "scan_usage cx fs dir w = Some (r, w')"
  shows "loaded cx view dir w r w'"
proof -
  let ?scan = "\<lambda>d. directory_usage fs (dir @ [d])"
  have reads: "view w2 = view w1" if "?scan d w1 = Some (q, w2)" for d q w1 w2
    using hoareD [OF directory_usage_only_reads [OF k] refl that] .
  have fin: "finite (kept (view w) (dir @ [''screens'']))" "finite (kept (view w) (dir @ [''refmaps'']))"
    and small: "bounded (view w) dir" using within by (simp_all add: within_budget_def bounded_def)
  have failed: "loaded cx view dir w (Inl e) w1" if "view w1 = view w" for e w1
    using within that by (simp add: loaded_def same_files_def)
  from run obtain q1 w1 where s1: "?scan ''screens'' w = Some (q1, w1)"
    by (cases "?scan ''screens'' w") (auto simp: scan_usage_def abind_def)
  show ?thesis
  proof (cases q1)
    case (Inl e)
    then show ?thesis using run s1 failed reads [OF s1] by (auto simp: scan_usage_def abind_def)
  next
    case (Inr screens)
    with run s1 obtain q2 w2 where s2: "?scan ''refmaps'' w1 = Some (q2, w2)"
      by (cases "?scan ''refmaps'' w1") (auto simp: scan_usage_def abind_def)
    note views = reads [OF s1] reads [OF s2]
    show ?thesis
    proof (cases q2)
      case (Inl e)
      then show ?thesis using run s1 s2 Inr failed views by (auto simp: scan_usage_def abind_def)
    next
      case (Inr refmaps)
      let ?u = "\<lparr>us_screenshot_bytes = fst screens, us_screenshot_count = snd screens, us_refmap_bytes = fst refmaps\<rparr>"
      from run s1 s2 \<open>q1 = Inr screens\<close> Inr obtain q where q: "persist_usage cx fs dir ?u w2 = Some (q, w')"
        "r = (case q of Inl e \<Rightarrow> Inl e | Inr _ \<Rightarrow> Inr ?u)"
        by (cases "persist_usage cx fs dir ?u w2") (auto simp: scan_usage_def abind_def Let_def split: sum.splits)
      have "?scan ''screens'' w = Some (Inr (fst screens, snd screens), w1)"
        "?scan ''refmaps'' w1 = Some (Inr (fst refmaps, snd refmaps), w2)" using s1 s2 \<open>q1 = Inr screens\<close> Inr by simp_all
      from directory_usage_counts [OF k l _ this(1)] directory_usage_counts [OF k l _ this(2)] fin views small
      have c: "covered (view w) dir ?u"
        by (auto simp: covered_def bounded_def SCREENSHOT_BYTE_BUDGET_def SCREENSHOT_COUNT_BUDGET_def REFMAP_BYTE_BUDGET_def)
      with persist_within [OF k cx q(1)] within views
      have "within_budget cx (view w') dir" "same_files dir (view w) (view w')" by simp_all
      with c same_covered show ?thesis by (auto simp: q(2) loaded_def split: sum.split)
    qed
  qed
qed

lemma load_usage_within:
  assumes k: "keeps_files view fs" and l: "lists_files view fs" and cx: "ledger_ok cx"
    and within: "within_budget cx (view w) dir" and run: "load_usage cx fs dir w = Some (r, w')"
  shows "loaded cx view dir w r w'"
proof -
  obtain x v where rd: "fl_read fs (ledger_path dir) USAGE_LEDGER_MAX_BYTES w = (x, v)" by fastforce
  have v: "view v = view w" using keeps_filesD(1) [OF k] rd by (metis snd_conv)
  show ?thesis
  proof (cases "case x of Inl _ \<Rightarrow> None | Inr bytes \<Rightarrow> decode_usage cx bytes")
    case (Some u)
    then obtain s where s: "x = Inr s" "decode_usage cx s = Some u" by (cases x) auto
    then have "view w (ledger_path dir) = Some s" using keeps_filesD(2) [OF k] rd by (metis fst_conv)
    moreover have "r = Inr u" "w' = v" using run rd Some by (auto simp: load_usage_def abind_def attempt_def)
    ultimately show ?thesis
      using within s(2) v by (auto simp: loaded_def within_budget_def ledger_covers_def same_files_def)
  next
    case None
    then have scan: "scan_usage cx fs dir v = Some (r, w')" using run rd by (simp add: load_usage_def abind_def attempt_def)
    show ?thesis using scan_usage_within [OF k l cx _ scan] within v by (simp add: loaded_def)
  qed
qed


text \<open>One artifact more, or another content of the same artifact.\<close>

lemma kept_update:
  assumes "finite (kept v d)"
  shows "finite (kept (v(d @ [n] \<mapsto> s)) d)" "card (kept (v(d @ [n] \<mapsto> s)) d) \<le> card (kept v d) + 1"
    "kept_bytes (v(d @ [n] \<mapsto> s)) d \<le> kept_bytes v d + length s"
proof -
  let ?v = "v(d @ [n] \<mapsto> s)" and ?size = "\<lambda>v n. length (the (v (d @ [n])))"
  have sub: "kept ?v d \<subseteq> insert n (kept v d)" by (auto simp: kept_def)
  then show fin: "finite (kept ?v d)" by (rule finite_subset) (simp add: assms)
  show "card (kept ?v d) \<le> card (kept v d) + 1"
    using card_mono [OF _ sub] assms card_insert_le_m1 by (auto simp: card_insert_if split: if_splits)
  have "kept_bytes ?v d = (\<Sum>m \<in> kept ?v d. ?size ?v m)" by (simp only: kept_bytes_def)
  also have "\<dots> \<le> (\<Sum>m \<in> insert n (kept v d - {n}). ?size ?v m)"
    using sub assms by (intro sum_mono2) auto
  also have "\<dots> = length s + (\<Sum>m \<in> kept v d - {n}. ?size ?v m)"
    using assms by (subst sum.insert) simp_all
  also have "(\<Sum>m \<in> kept v d - {n}. ?size ?v m) = (\<Sum>m \<in> kept v d - {n}. ?size v m)" by (rule sum.cong) auto
  also have "length s + \<dots> \<le> kept_bytes v d + length s"
    unfolding kept_bytes_def using assms by (simp add: sum_mono2)
  finally show "kept_bytes ?v d \<le> kept_bytes v d + length s" .
qed

lemma kept_other:
  assumes "s \<noteq> t"
  shows "kept (v(dir @ [s, n] \<mapsto> x)) (dir @ [t]) = kept v (dir @ [t])"
    "kept_bytes (v(dir @ [s, n] \<mapsto> x)) (dir @ [t]) = kept_bytes v (dir @ [t])"
  using assms by (simp_all add: kept_bytes_def kept_def)

text \<open>\<open>room\<close>: with the artifact written, \<open>u\<close> still covers everything and stays in the bounds.\<close>

definition room :: "(path \<Rightarrow> string option) \<Rightarrow> path \<Rightarrow> path \<Rightarrow> string \<Rightarrow> usage \<Rightarrow> bool" where
  "room v dir p bytes u \<longleftrightarrow>
     covered v dir u \<and> covered (v(p \<mapsto> bytes)) dir u \<and> bounded (v(p \<mapsto> bytes)) dir"

lemma same_update: "same_files dir v v' \<Longrightarrow> same_files dir (v(p \<mapsto> s)) (v'(p \<mapsto> s))"
  by (simp add: same_files_def)

lemma same_room: "same_files dir v v' \<Longrightarrow> room v' dir p s u = room v dir p s u"
  using same_covered [of dir v v'] same_covered [OF same_update] same_bounded [OF same_update]
  by (simp add: room_def)

lemma write_reserved_within:
  assumes k: "keeps_files view fs" and l: "lists_files view fs" and cx: "ledger_ok cx"
    and within: "within_budget cx (view w) dir" and room: "room (view w) dir p bytes u'" and cov: "covered (view w) dir u"
    and p: "p \<noteq> ledger_path dir"
    and run: "write_reserved cx fs dir p bytes u u' w = Some (r, w')"
  shows "within_budget cx (view w') dir"
proof -
  from run obtain q w1 where s1: "persist_usage cx fs dir u' w = Some (q, w1)"
    by (cases "persist_usage cx fs dir u' w") (auto simp: write_reserved_def abind_def)
  have "covered (view w) dir u'" using room by (simp add: room_def)
  note first = persist_within [OF k cx s1 within this]
  show ?thesis
  proof (cases q)
    case (Inl e)
    then show ?thesis using run s1 first(1) by (auto simp: write_reserved_def abind_def)
  next
    case (Inr u0)
    then have says: "says cx dir (view w1) u'" using first(3) by simp
    have room1: "room (view w1) dir p bytes u'" and cov1: "covered (view w1) dir u"
      using room same_room [OF first(2)] cov same_covered [OF first(2)] by simp_all
    obtain x w2 where wr: "fl_write fs p bytes w1 = (x, w2)" by fastforce
    have others: "view w2 q = view w1 q" if "q \<noteq> p" "\<not> is_orphaned_tmp_file q" for q
      using keeps_filesD(4) [OF k that, of bytes w1] wr by simp
    have here: "view w2 p \<in> {view w1 p, Some bytes}" using keeps_filesD(5) [OF k, of p bytes w1] wr by simp
    have ledger: "view w2 (ledger_path dir) = view w1 (ledger_path dir)"
      by (rule others) (use p ledger_not_tmp in auto)
    have ok2: "within_budget cx (view w2) dir"
    proof (cases "view w2 p = Some bytes")
      case True
      then have s2: "same_files dir ((view w1)(p \<mapsto> bytes)) (view w2)" using others by (auto simp: same_files_def)
      then show ?thesis
        using room1 same_bounded [OF s2] same_covered [OF s2] says ledger
        by (auto simp: within_budget_def room_def ledger_covers_def says_def)
    next
      case False
      then have "view w2 q = view w1 q" if "\<not> is_orphaned_tmp_file q" for q
        using others [OF _ that] here by (cases "q = p") auto
      then have s2: "same_files dir (view w1) (view w2)" by (simp add: same_files_def)
      then show ?thesis
        using first(1) same_bounded [OF s2] same_covered [OF s2] ledger
        by (auto simp: within_budget_def ledger_covers_def)
    qed
    show ?thesis
    proof (cases x)
      case (Inr y)
      then have "w' = w2" using run s1 \<open>q = Inr u0\<close> wr by (auto simp: write_reserved_def abind_def attempt_def)
      then show ?thesis using ok2 by simp
    next
      case (Inl e)
      obtain y w3 where st: "fl_stat fs p w2 = (y, w3)" by fastforce
      have v3: "view w3 = view w2" using keeps_filesD(16) [OF k, of p w2] st by simp
      show ?thesis
      proof (cases "view w2 p")
        case (Some s)
        then have "y = Inr (PlainFile, length s)" using lists_filesD(1) [OF l _ st] by blast
        then have "w' = w3" using run s1 \<open>q = Inr u0\<close> wr Inl st
          by (auto simp: write_reserved_def rollback_reservation_if_absent_def abind_def attempt_def)
        then show ?thesis using ok2 v3 by simp
      next
        case None
        then have "view w2 q = view w1 q" if "\<not> is_orphaned_tmp_file q" for q
          using others [OF _ that] here by (cases "q = p") auto
        then have "same_files dir (view w1) (view w2)" by (simp add: same_files_def)
        then have cov3: "covered (view w3) dir u" using cov1 same_covered v3 by simp
        have "w' = w3 \<or> (\<exists>q. persist_usage cx fs dir u w3 = Some (q, w'))"
          using run s1 \<open>q = Inr u0\<close> wr Inl st
          by (cases "persist_usage cx fs dir u w3")
            (auto simp: write_reserved_def rollback_reservation_if_absent_def abind_def attempt_def split: if_splits)
        then show ?thesis
          using ok2 v3 persist_within(1) [OF k cx _ _ cov3, of _ w'] by auto
      qed
    qed
  qed
qed


section \<open>Under the lock\<close>

lemma preserves_loop [preserving]:
  assumes "\<And>s. preserves P (body s)"
  shows "preserves P (loop body s)"
  by (rule hoare_loop [where I = "\<lambda>_. P"], rule hoare_weaken [OF assms]) (auto split: sum.splits flow.splits)

definition lock_steps_keep :: "('w \<Rightarrow> bool) \<Rightarrow> 'w files \<Rightarrow> path \<Rightarrow> bool" where
  "lock_steps_keep P fs p \<longleftrightarrow>
     (\<forall>b w. P w \<longrightarrow> P (snd (fl_open_lock fs p b w))) \<and> (\<forall>h w. P w \<longrightarrow> P (snd (fl_try_lock fs h w))) \<and>
     (\<forall>h w. P w \<longrightarrow> P (fl_close fs h w)) \<and> (\<forall>w. P w \<longrightarrow> P (snd (pf_now (fl_platform fs) w))) \<and>
     (\<forall>n w. P w \<longrightarrow> P (pf_sleep (fl_platform fs) n w))"

lemma preserves_now: "(\<And>w. P w \<Longrightarrow> P (snd (pf_now pf w))) \<Longrightarrow> preserves P (get_now pf)"
  unfolding get_now_def by (rule preserves_call) (simp add: case_prod_beta)

lemma lock_preserves:
  assumes "lock_steps_keep P fs p"
  shows "preserves P (store_lock_within fs p d)" "preserves P (store_lock fs inh p)"
    "preserves P m \<Longrightarrow> preserves P (holding_lock fs l m)"
proof -
  note steps = assms [unfolded lock_steps_keep_def]
  have now [preserving]: "preserves P (get_now (fl_platform fs))" using steps by (intro preserves_now) blast
  have out [preserving]: "preserves P (lock_timeout fs d q p n)" for d q n
    unfolding lock_timeout_def make_timeout_error_def by (intro preserving)
  have [preserving]: "preserves P (lock_round fs h d q p n)" for h d q n
    unfolding lock_round_def Let_def check_expired_def pause_or_def sleep_for_def
    by (intro preserving) (use steps in \<open>auto split: try_lock.split intro!: preserving\<close>)
  then have acq [preserving]: "preserves P (store_lock_within fs p d)" for d
    unfolding store_lock_within_def acquire_file_lock_def lock_file_def
    by (intro preserving) (use steps in blast)+
  then show "preserves P (store_lock_within fs p d)" .
  show "preserves P (store_lock fs inh p)" unfolding store_lock_def by (intro preserving)
  show "preserves P m \<Longrightarrow> preserves P (holding_lock fs l m)"
    unfolding holding_lock_def by (intro preserving) (use steps in blast)+
qed

lemma budget_lock_steps:
  assumes "keeps_files view fs"
  shows "lock_steps_keep (\<lambda>w. within_budget cx (view w) dir) fs (artifact_lock_path dir)"
proof -
  note k = keeps_filesD [OF assms]
  have "within_budget cx v' dir" if "within_budget cx v dir" "\<And>q. q \<noteq> artifact_lock_path dir \<Longrightarrow> v' q = v q" for v v'
  proof -
    have s: "same_files dir (v(artifact_lock_path dir := v' (artifact_lock_path dir))) v'"
      using that(2) by (simp add: same_files_def)
    have "kept (v(artifact_lock_path dir := x)) (dir @ [d]) = kept v (dir @ [d])"
      "kept_bytes (v(artifact_lock_path dir := x)) (dir @ [d]) = kept_bytes v (dir @ [d])" for d x
      by (simp_all add: kept_bytes_def kept_def artifact_lock_path_def)
    then have "bounded v' dir = bounded v dir" "covered v' dir u = covered v dir u" for u
      using same_bounded [OF s] same_covered [OF s] by (simp_all add: bounded_def covered_def)
    moreover have "v' (ledger_path dir) = v (ledger_path dir)"
      using that(2) by (simp add: ledger_path_def artifact_lock_path_def)
    ultimately show ?thesis using that(1) by (simp add: within_budget_def ledger_covers_def)
  qed
  then show ?thesis
    unfolding lock_steps_keep_def using k(18) by (auto simp: k)
qed

lemma reserve_screenshot_within:
  assumes k: "keeps_files view fs" and l: "lists_files view fs" and cx: "ledger_ok cx"
  shows "preserves (\<lambda>w. within_budget cx (view w) dir) (reserve_screenshot cx fs dir (dir @ [''screens'', n]) bytes)"
  unfolding hoare_def
proof (intro allI impI)
  let ?p = "dir @ [''screens'', n]"
  fix w r w'
  assume p: "within_budget cx (view w) dir" and run: "reserve_screenshot cx fs dir ?p bytes w = Some (r, w')"
  from run obtain q w1 where s1: "load_usage cx fs dir w = Some (q, w1)"
    by (cases "load_usage cx fs dir w") (auto simp: reserve_screenshot_def abind_def)
  note first = load_usage_within [OF k l cx p s1, unfolded loaded_def]
  show "within_budget cx (view w') dir"
  proof (cases q)
    case (Inl e)
    then show ?thesis using first run s1 by (auto simp: reserve_screenshot_def abind_def)
  next
    case (Inr u)
    let ?u = "u\<lparr>us_screenshot_bytes := add64 (us_screenshot_bytes u) (length bytes),
            us_screenshot_count := add32 (us_screenshot_count u) 1\<rparr>"
    have in1: "within_budget cx (view w1) dir" and cov: "covered (view w1) dir u" using first Inr by simp_all
    consider "w' = w1"
      | "us_screenshot_count u < SCREENSHOT_COUNT_BUDGET" "add64 (us_screenshot_bytes u) (length bytes) \<le> SCREENSHOT_BYTE_BUDGET"
        "write_reserved cx fs dir ?p bytes u ?u w1 = Some (r, w')"
      using run s1 Inr by (auto simp: reserve_screenshot_def abind_def split: if_splits)
    then show ?thesis
    proof cases
      case 1
      then show ?thesis using in1 by simp
    next
      case 2
      have fin: "finite (kept (view w1) (dir @ [''screens'']))" using in1 by (simp add: within_budget_def bounded_def)
      have upd: "(view w1)(?p \<mapsto> bytes) = (view w1)((dir @ [''screens'']) @ [n] \<mapsto> bytes)" by simp
      note kept_update [OF fin, of n bytes, folded upd] kept_other [of "''screens''" "''refmaps''"]
      then have "room (view w1) dir ?p bytes ?u"
        using cov in1 2(1,2)
        by (auto simp: room_def covered_def bounded_def within_budget_def add64_def add32_def SCREENSHOT_BYTE_BUDGET_def
            SCREENSHOT_COUNT_BUDGET_def)
      then show ?thesis using write_reserved_within [OF k l cx in1 _ cov _ 2(3)] by (simp add: ledger_path_def)
    qed
  qed
qed


lemma reserve_refmap_within:
  assumes k: "keeps_files view fs" and l: "lists_files view fs" and cx: "ledger_ok cx"
  shows "preserves (\<lambda>w. within_budget cx (view w) dir) (reserve_refmap cx fs dir (dir @ [''refmaps'', n]) bytes)"
  unfolding hoare_def
proof (intro allI impI)
  let ?p = "dir @ [''refmaps'', n]"
  fix w r w'
  assume p: "within_budget cx (view w) dir" and run: "reserve_refmap cx fs dir ?p bytes w = Some (r, w')"
  obtain x v where st: "fl_is_file fs ?p w = (x, v)" by fastforce
  have v: "within_budget cx (view v) dir" using p keeps_filesD(10) [OF k, of ?p w] st by simp
  show "within_budget cx (view w') dir"
  proof (cases x)
    case True
    then show ?thesis using run st v by (auto simp: reserve_refmap_def abind_def ask_def)
  next
    case False
    with run st obtain q w1 where s1: "load_usage cx fs dir v = Some (q, w1)"
      by (cases "load_usage cx fs dir v") (auto simp: reserve_refmap_def abind_def ask_def)
    note first = load_usage_within [OF k l cx v s1, unfolded loaded_def]
    show ?thesis
    proof (cases q)
      case (Inl e)
      then show ?thesis using first run st False s1 by (auto simp: reserve_refmap_def abind_def ask_def)
    next
      case (Inr u)
      let ?u = "u\<lparr>us_refmap_bytes := add64 (us_refmap_bytes u) (length bytes)\<rparr>"
      have in1: "within_budget cx (view w1) dir" and cov: "covered (view w1) dir u" using first Inr by simp_all
      consider "w' = w1"
        | "add64 (us_refmap_bytes u) (length bytes) \<le> REFMAP_BYTE_BUDGET"
          "write_reserved cx fs dir ?p bytes u ?u w1 = Some (r, w')"
        using run st False s1 Inr by (auto simp: reserve_refmap_def abind_def ask_def split: if_splits)
      then show ?thesis
      proof cases
        case 1
        then show ?thesis using in1 by simp
      next
        case 2
        have fin: "finite (kept (view w1) (dir @ [''refmaps'']))" using in1 by (simp add: within_budget_def bounded_def)
        have upd: "(view w1)(?p \<mapsto> bytes) = (view w1)((dir @ [''refmaps'']) @ [n] \<mapsto> bytes)" by simp
        note kept_update [OF fin, of n bytes, folded upd] kept_other [of "''refmaps''" "''screens''"]
        then have "room (view w1) dir ?p bytes ?u"
          using cov in1 2(1)
          by (auto simp: room_def covered_def bounded_def within_budget_def add64_def REFMAP_BYTE_BUDGET_def)
        then show ?thesis using write_reserved_within [OF k l cx in1 _ cov _ 2(2)] by (simp add: ledger_path_def)
      qed
    qed
  qed
qed

section \<open>The budget holds\<close>

text \<open>Files in memory, with a ledger that can be printed.\<close>

definition sample_usage :: usage where
  "sample_usage = \<lparr>us_screenshot_bytes = 3, us_screenshot_count = 1, us_refmap_bytes = 0\<rparr>"

definition ledger_codec :: codec where
  "ledger_codec =
     sample_codec\<lparr>
       cd_print := (\<lambda>j. if j = usage_json sample_usage then Some ''one''
         else if j = usage_json (sample_usage\<lparr>us_screenshot_bytes := 0, us_screenshot_count := 0\<rparr>) then Some ''none'' else None),
       cd_parse := (\<lambda>s. if s = ''one'' then Some (usage_json sample_usage)
         else if s = ''none'' then Some (usage_json (sample_usage\<lparr>us_screenshot_bytes := 0, us_screenshot_count := 0\<rparr>)) else None)\<rparr>"

lemma ledger_codec_ok: "ledger_ok ledger_codec"
  by (auto simp: ledger_ok_def ledger_codec_def usage_json_def sample_usage_def)

lemma children_listed: "map_of kvs (p @ [n]) = Some s \<Longrightarrow> \<exists>de \<in> set (children p kvs). de_name de = n"
  unfolding children_def
  by (rule bexI [of _ "\<lparr>de_name = n, de_kind = Some PlainFile\<rparr>"])
    (auto simp: image_iff dest!: map_of_SomeD intro!: bexI [of _ "(p @ [n], s)"])

lemma disk_lists: "lists_files disk_view disk_files"
  by (auto simp: lists_files_def disk_files_def disk_view_def image_iff dest!: children_listed)

text \<open>
  C25. What a session keeps stays within its budget: however often screenshots and copies of ref maps
  are written, with or without success, the directory of the screenshots holds at most 200 files
  of together 128 MiB and the directory of the ref maps at most 64 MiB, and the ledger never says
  less than what is there; files that an interrupted write left behind are not counted.
\<close>

theorem artifacts_within_budget:
  assumes k: "keeps_files view fs" and l: "lists_files view fs" and cx: "ledger_ok cx"
  shows "preserves (\<lambda>w. within_budget cx (view w) dir) (write_screenshot cx fs dir (dir @ [''screens'', n]) bytes d) \<and>
    preserves (\<lambda>w. within_budget cx (view w) dir) (write_refmap_if_absent cx fs inh dir (dir @ [''refmaps'', n]) bytes)"
proof -
  note locks = lock_preserves [OF budget_lock_steps [OF k]]
  show ?thesis
    unfolding write_screenshot_def write_refmap_if_absent_def artifact_lock_def artifact_lock_within_def
    by (intro conjI preserving locks reserve_screenshot_within [OF k l cx] reserve_refmap_within [OF k l cx])
qed

theorem artifacts_within_budget_witness:
  "\<exists>w'. write_screenshot ledger_codec disk_files [''trace''] [''trace'', ''screens'', ''shot.png''] ''png''
       \<lparr>started_at = 0, expires_at = 10, dl_timeout_ms = 1, dl_capped = False\<rparr> (0, []) = Some (Inr (), w') \<and>
     disk_view w' [''trace'', ''screens'', ''shot.png''] = Some ''png'' \<and>
     within_budget ledger_codec (disk_view w') [''trace'']"
proof -
  let ?d = "\<lparr>started_at = 0, expires_at = 10, dl_timeout_ms = 1, dl_capped = False\<rparr> :: deadline"
    and ?p = "[''trace'', ''screens'', ''shot.png'']"
  let ?none = "sample_usage\<lparr>us_screenshot_bytes := 0, us_screenshot_count := 0\<rparr>"
    and ?w = "(2, [([''trace'', ''.artifact-usage.json''], ''one''), (?p, ''png'')])"
  have prints: "cd_print ledger_codec (usage_json ?none) = Some ''none''"
    "cd_print ledger_codec (usage_json sample_usage) = Some ''one''"
    by (simp_all add: ledger_codec_def usage_json_def sample_usage_def)
  have reads: "fl_read disk_files p n (t, []) = (Inl \<lparr>io_kind_of = IoNotFound, io_text = ''not found''\<rparr>, (t, []))" for p n t
    by (simp add: disk_files_def disk_view_def)
  have "scan_usage ledger_codec disk_files [''trace''] (2, []) =
      Some (Inr ?none, (2, [([''trace'', ''.artifact-usage.json''], ''none'')]))"
    using prints
    by (simp add: scan_usage_def directory_usage_def abind_def attempt_def children_def persist_usage_def amap_err_def
        ledger_path_def sample_usage_def del: One_nat_def)
  then have "reserve_screenshot ledger_codec disk_files [''trace''] ?p ''png'' (2, []) = Some (Inr (), ?w)"
    using prints
    by (simp add: reserve_screenshot_def load_usage_def reads abind_def attempt_def write_reserved_def persist_usage_def
        amap_err_def sample_usage_def add64_def add32_def SCREENSHOT_COUNT_BUDGET_def SCREENSHOT_BYTE_BUDGET_def
        ledger_path_def numeral_3_eq_3 del: One_nat_def)
  moreover have "acquire_file_lock disk_files p ?d q (0, []) = Some (Inr \<lparr>lock_handle = 1, lock_contention = 0\<rparr>, (2, []))"
    for p q using disk_lock [of 0 ?d p q "[]"] by (simp del: One_nat_def)
  ultimately have run: "write_screenshot ledger_codec disk_files [''trace''] ?p ''png'' ?d (0, []) = Some (Inr (), ?w)"
    by (simp add: write_screenshot_def artifact_lock_within_def store_lock_within_def abind_def amap_err_def
        holding_lock_def attempt_def)
  have "within_budget ledger_codec (disk_view (0, [])) [''trace'']"
    by (simp add: within_budget_def bounded_def ledger_covers_def kept_def kept_bytes_def disk_view_def)
  from hoareD [OF conjunct1 [OF artifacts_within_budget [OF disk_keeps disk_lists ledger_codec_ok,
      where dir = "[''trace'']" and n = "''shot.png''", simplified]] this run]
  show ?thesis using run by (intro exI [of _ ?w]) (simp add: disk_view_def)
qed

end
