(* ===== verification/Snapshots.thy ===== *)
theory Snapshots
  imports ArtifactBudget LocatorObserve
begin

text \<open>
  Taking a snapshot (\<open>snapshot.rs\<close>, \<open>snapshot_ref.rs\<close>, \<open>hints.rs\<close>): the window is chosen, its tree is
  observed, refs are allocated over what was read, and the map of refs is saved before the tree
  that shows them is returned.  A drill-down observes below one ref of a saved snapshot and
  replaces the refs below it in the stored map.
\<close>

section \<open>What a snapshot works with\<close>

record 'w engine =
  en_desktop :: "'w desktop"
  en_observer :: "'w observer"
  en_files :: "'w files"
  en_codec :: codec

record snapshot_result =
  sn_tree :: node
  sn_refmap :: ref_map
  sn_window :: window_info
  sn_snapshot_id :: "string option"
  sn_complete :: bool
  sn_nodes_observed :: nat

definition bind_snapshot_id :: "string \<Rightarrow> snapshot_result \<Rightarrow> snapshot_result" where
  "bind_snapshot_id i r = r\<lparr>sn_tree := qualify_tree_refs i (sn_tree r), sn_snapshot_id := Some i\<rparr>"

section \<open>Structural hints\<close>

definition set_hint :: "string \<Rightarrow> node \<Rightarrow> node" where
  "set_hint h n =
     Node (node_ref_id n) (node_role n) (node_id n) ((node_pres n)\<lparr>np_hint := Some h\<rparr>) (node_children_count n)
       (node_truncated n) (node_children n)"

text \<open>
  The columns of a splitter are numbered; how many there are is only told when all were read.  A
  child's own hint is set by its parent alone, so it makes no difference whether that comes before
  or after its children's.
\<close>

definition column_hint :: "nat option \<Rightarrow> nat \<Rightarrow> string" where
  "column_hint total_columns i =
     (case total_columns of
        Some n \<Rightarrow> ''column '' @ show_nat (i + 1) @ '' of '' @ show_nat n
      | None \<Rightarrow> ''column '' @ show_nat (i + 1))"

fun number_columns :: "nat option \<Rightarrow> nat \<Rightarrow> node list \<Rightarrow> node list" where
  "number_columns total_columns i [] = []"
| "number_columns total_columns i (c # cs) =
     set_hint (column_hint total_columns i) c # number_columns total_columns (i + 1) cs"

fun add_structural_hints :: "node \<Rightarrow> node" where
  "add_structural_hints (Node r role i p cc t cs) =
     (let cs' = map add_structural_hints cs
      in Node r role i p cc t
           (if role = ''splitter'' \<and> length cs > 1
            then number_columns (if t then None else Some (length cs)) 0 cs' else cs'))"

section \<open>The window\<close>

definition windows_for_app :: "'w desktop \<Rightarrow> string option \<Rightarrow> deadline \<Rightarrow> ('w, app_error, window_info list) act" where
  "windows_for_app dk app d = app_call (dk_list_windows dk \<lparr>wf_focused_only = (app = None), wf_app = app\<rparr> d)"

definition sug_see_windows :: string where
  "sug_see_windows = ''Run '' @ quoted ''list-windows'' @ '' to see available window IDs.''"

definition sug_present_window :: string where
  "sug_present_window =
     ''Wait for the app to present a window, or run '' @ quoted ''list-windows --app'' @ ''.''"

definition snapshot_window ::
  "'w desktop \<Rightarrow> string option \<Rightarrow> string option \<Rightarrow> deadline \<Rightarrow> ('w, app_error, window_info) act" where
  "snapshot_window dk app window_id d =
     abind (app_call (dk_list_windows dk
       \<lparr>wf_focused_only = (app = None \<and> window_id = None), wf_app = app\<rparr> d)) (\<lambda>windows.
       case window_id of
         Some i \<Rightarrow>
           lift_res (ok_or (find (\<lambda>v. win_id v = i) windows)
             (AppAdapter (with_suggestion sug_see_windows (new_error WindowNotFound (''No window with id '' @ i)))))
       | None \<Rightarrow>
           (case app of
              Some a \<Rightarrow>
                lift_res (select_window windows
                  (with_suggestion sug_present_window
                    (new_error WindowNotFound (''Application '' @ quoted a @ '' is running but has no matching window'')))
                  ''More than one window matches the target'')
            | None \<Rightarrow>
                lift_res (select_window windows (new_error WindowNotFound ''No focused window found'')
                  ''More than one window matches the target'')))"

definition resolve_window_for_surface ::
  "'w desktop \<Rightarrow> string option \<Rightarrow> string option \<Rightarrow> snapshot_surface \<Rightarrow> deadline \<Rightarrow> ('w, app_error, window_info) act" where
  "resolve_window_for_surface dk app window_id surface d =
     (if window_id \<noteq> None \<or> surface = SurfWindow then snapshot_window dk app window_id d
      else
        abind (windows_for_app dk app d) (\<lambda>windows.
          lift_res (select_surface_owner windows
            (new_error WindowNotFound
              (''No window found to identify the application owning surface '' @ quoted (surface_as_str surface))))))"

definition frontmost_process_windows ::
  "'w desktop \<Rightarrow> snapshot_surface \<Rightarrow> deadline \<Rightarrow> ('w, app_error, window_info list) act" where
  "frontmost_process_windows dk surface d =
     abind (resolve_window_for_surface dk None None surface d) (\<lambda>owner.
     abind (windows_for_app dk (Some (win_app owner)) d) (\<lambda>windows.
       let same = filter (\<lambda>v. win_pid v = win_pid owner) windows
       in ret (if same = [] then [owner] else same)))"

definition surface_windows ::
  "'w desktop \<Rightarrow> string option \<Rightarrow> string option \<Rightarrow> snapshot_surface \<Rightarrow> deadline \<Rightarrow> ('w, app_error, window_info list) act" where
  "surface_windows dk app window_id surface d =
     abind (if window_id = None \<and> surface \<in> {SurfSheet, SurfPopover, SurfAlert} then
         abind (if app \<noteq> None then windows_for_app dk app d else frontmost_process_windows dk surface d) (\<lambda>windows.
           ret (surface_owner_order (filter (\<lambda>v. accessible (win_state v)) windows)))
       else ret []) (\<lambda>owners.
       if owners \<noteq> [] then ret owners
       else abind (resolve_window_for_surface dk app window_id surface d) (\<lambda>v. ret [v]))"

text \<open>The next candidate is tried only when the surface was not found on this one.\<close>

definition is_element_not_found :: "app_error \<Rightarrow> bool" where
  "is_element_not_found e = (case e of AppAdapter ae \<Rightarrow> err_code ae = ElementNotFound | _ \<Rightarrow> False)"

fun observe_first_owner ::
  "'w observer \<Rightarrow> deadline option \<Rightarrow> observation_request \<Rightarrow> window_info list \<Rightarrow>
     ('w, app_error, window_info \<times> observed_tree) act" where
  "observe_first_owner ob inh request [] =
     fail_with (AppAdapter (new_error WindowNotFound ''No window to observe''))"
| "observe_first_owner ob inh request (v # vs) =
     abind (attempt (observe_tree ob inh (RootWindow v) request)) (\<lambda>r.
       case r of
         Inl e \<Rightarrow> if is_element_not_found e \<and> vs \<noteq> [] then observe_first_owner ob inh request vs else fail_with e
       | Inr observed \<Rightarrow> ret (v, observed))"

section \<open>A full snapshot\<close>

definition with_ref_identity_bounds :: "tree_options \<Rightarrow> tree_options" where
  "with_ref_identity_bounds opts = opts\<lparr>to_include_bounds := True\<rparr>"

definition alloc_options :: "tree_options \<Rightarrow> ref_alloc_options" where
  "alloc_options opts =
     \<lparr>opt_include_bounds = to_include_bounds opts, opt_interactive_only = to_interactive_only opts,
      opt_compact = to_compact opts\<rparr>"

definition window_config :: "fx \<Rightarrow> tree_options \<Rightarrow> window_info \<Rightarrow> ref_alloc_config" where
  "window_config fx opts v =
     \<lparr>cfg_options = alloc_options opts,
      cfg_source =
        \<lparr>ras_pid = win_pid v, ras_app = Some (win_app v), ras_window_id = Some (win_id v),
         ras_window_title = Some (win_title v), ras_window_bounds_hash = Option.bind (win_bounds v) (bounds_hash fx),
         ras_process_instance = win_instance v, ras_surface = to_surface opts\<rparr>,
      cfg_scope = \<lparr>root_ref_id = None, path_prefix = []\<rparr>\<rparr>"

definition validated_request :: "tree_options \<Rightarrow> deadline \<Rightarrow> ('w, app_error, observation_request) act" where
  "validated_request opts d =
     lift_res (res_map_err AppAdapter (validate_observation (snapshot_observation (with_ref_identity_bounds opts) d)))"

definition read_tree :: "(adapter_error + 'a) option \<Rightarrow> ('w, app_error, 'a) act" where
  "read_tree r w = map_option (\<lambda>x. (res_map_err AppAdapter x, w)) r"

definition build_snapshot ::
  "'w engine \<Rightarrow> deadline option \<Rightarrow> tree_options \<Rightarrow> string option \<Rightarrow> string option \<Rightarrow> deadline \<Rightarrow>
     ('w, app_error, snapshot_result) act" where
  "build_snapshot en inh opts app window_id d =
     (let fx = cd_fx (en_codec en)
      in abind (surface_windows (en_desktop en) app window_id (to_surface opts) d) (\<lambda>windows.
         abind (validated_request opts d) (\<lambda>request.
         abind (observe_first_owner (en_observer en) inh request windows) (\<lambda>(v, observed).
         abind (read_tree (into_accessibility_tree_partial observed)) (\<lambda>(raw, whole_tree, n).
         abind (lift_res (allocate_refs fx raw refmap_new (window_config fx opts v))) (\<lambda>(tree, m).
           ret \<lparr>sn_tree = add_structural_hints tree, sn_refmap = m, sn_window = v, sn_snapshot_id = None,
                sn_complete = whole_tree, sn_nodes_observed = n\<rparr>))))))"

definition snapshot_saved_json :: "snapshot_result \<Rightarrow> json" where
  "snapshot_saved_json r =
     (let obj = JObj [(''snapshot_id'', json_opt JStr (sn_snapshot_id r)),
                      (''ref_count'', JInt (int (length (inner (sn_refmap r)))))]
      in if win_app (sn_window r) \<noteq> [] then json_insert ''app'' (JStr (win_app (sn_window r))) obj else obj)"

definition emit_snapshot_saved :: "'w platform \<Rightarrow> snapshot_result \<Rightarrow> ('w, app_error, unit) act" where
  "emit_snapshot_saved pf r = trace pf ''snapshot.saved'' (snapshot_saved_json r)"

definition snapshot_deadline :: "'w platform \<Rightarrow> deadline option \<Rightarrow> ('w, app_error, deadline) act" where
  "snapshot_deadline pf inh =
     abind (get_now pf) (\<lambda>t. lift_res (res_map_err AppAdapter (deadline_after inh t 3000)))"

definition run_snapshot ::
  "'w engine \<Rightarrow> deadline option \<Rightarrow> command_context \<Rightarrow> tree_options \<Rightarrow> string option \<Rightarrow> string option \<Rightarrow>
     ('w, app_error, snapshot_result) act" where
  "run_snapshot en inh c opts app window_id =
     (let fs = en_files en; cx = en_codec en
      in abind (snapshot_deadline (fl_platform fs) inh) (\<lambda>d.
         abind (build_snapshot en inh opts app window_id d) (\<lambda>r.
         abind (store_for_session fs (cc_session c)) (\<lambda>st.
         abind (save_new_snapshot cx fs inh st (sn_refmap r)) (\<lambda>i.
         abind (copy_refmap_if_full cx fs inh c st i (sn_refmap r)) (\<lambda>_.
         let r = bind_snapshot_id i r
         in abind (emit_snapshot_saved (fl_platform fs) r) (\<lambda>_. ret r)))))))"

section \<open>A drill-down\<close>

definition resolve_result_window :: "'w desktop \<Rightarrow> ref_entry \<Rightarrow> deadline \<Rightarrow> ('w, app_error, window_info) act" where
  "resolve_result_window dk e d =
     (case src_window_id (source e) of
        None \<Rightarrow>
          (case rp_instance (process e) of
             None \<Rightarrow> fail_with (AppAdapter (stale_ref_error ''root ref has no process-instance identity''))
           | Some instance_id \<Rightarrow>
               find_window_for_process dk \<lparr>identity_pid = rp_pid (process e), identity_instance = instance_id\<rparr> d)
      | Some i \<Rightarrow>
          abind (app_call (dk_list_windows dk \<lparr>wf_focused_only = False, wf_app = src_app (source e)\<rparr> d)) (\<lambda>windows.
            lift_res (select_window (filter (\<lambda>v. win_id v = i \<and> win_pid v = rp_pid (process e)) windows)
              (with_suggestion (''Run '' @ quoted ''snapshot'' @ '' to refresh, then retry with an updated ref'')
                (new_error WindowNotFound (''Source window '' @ quoted i @ '' was not found'')))
              ''Multiple windows matched the source window ID'')))"

definition ref_config :: "tree_options \<Rightarrow> string \<Rightarrow> ref_entry \<Rightarrow> ref_alloc_config" where
  "ref_config opts root_ref e =
     \<lparr>cfg_options = alloc_options opts,
      cfg_source =
        \<lparr>ras_pid = rp_pid (process e), ras_app = src_app (source e), ras_window_id = src_window_id (source e),
         ras_window_title = src_window_title (source e), ras_window_bounds_hash = src_window_bounds_hash (source e),
         ras_process_instance = rp_instance (process e), ras_surface = src_surface (source e)\<rparr>,
      cfg_scope = \<lparr>root_ref_id = Some root_ref, path_prefix = scope_path (scope e)\<rparr>\<rparr>"

text \<open>The refs below the root are replaced; an error leaves the stored map as it was.\<close>

definition replace_below :: "fx \<Rightarrow> ref_alloc_config \<Rightarrow> string \<Rightarrow> node \<Rightarrow> ref_map \<Rightarrow> app_error + node \<times> ref_map" where
  "replace_below fx cfg root_ref raw current =
     res_bind (allocate_refs fx raw (remove_by_root_ref root_ref current) cfg) (\<lambda>(tree, m).
       Inr (add_structural_hints tree, m))"

definition run_from_ref ::
  "'w engine \<Rightarrow> deadline option \<Rightarrow> command_context \<Rightarrow> tree_options \<Rightarrow> string \<Rightarrow> string option \<Rightarrow>
     ('w, app_error, snapshot_result) act" where
  "run_from_ref en inh c opts root_ref snapshot =
     (let fs = en_files en; cx = en_codec en; fx = cd_fx cx; pf = fl_platform fs; ob = en_observer en
      in abind (store_for_session fs (cc_session c)) (\<lambda>st.
         abind (lift_res (resolve_ref_target root_ref snapshot)) (\<lambda>(active, local).
         abind (load_snapshot cx fs st active) (\<lambda>refmap.
         abind (lift_res (ok_or (refmap_get refmap local) (app_stale_ref root_ref))) (\<lambda>e.
         abind (snapshot_deadline pf inh) (\<lambda>d.
         abind (resolve_result_window (en_desktop en) e d) (\<lambda>v.
         abind (app_call (pf_resolve_element_strict (ob_platform ob) e d)) (\<lambda>h.
         abind (validated_request opts d) (\<lambda>request.
         abind (observe_tree ob inh (RootElement h e (Some local)) request) (\<lambda>observed.
         abind (read_tree (into_accessibility_tree observed)) (\<lambda>raw.
         abind (update_existing_snapshot cx fs inh st active local e
           (replace_below fx (ref_config opts local e) local raw)) (\<lambda>(tree, m).
         abind (copy_refmap_if_full cx fs inh c st active m) (\<lambda>_.
         abind (trace pf ''snapshot.root.saved''
           (JObj [(''root_ref'', JStr root_ref), (''snapshot_id'', JStr active),
                  (''ref_count'', JInt (int (length (inner m))))])) (\<lambda>_.
           ret \<lparr>sn_tree = qualify_tree_refs active tree, sn_refmap = m, sn_window = v, sn_snapshot_id = Some active,
                sn_complete = True, sn_nodes_observed = count_nodes raw\<rparr>))))))))))))))"


section \<open>Refs of a snapshot\<close>

lemma set_hint_refs [simp]: "tree_refs (set_hint h n) = tree_refs n"
  by (cases n) (simp add: set_hint_def)

lemma number_columns_refs [simp]: "map tree_refs (number_columns k i cs) = map tree_refs cs"
  by (induction k i cs rule: number_columns.induct) simp_all

lemma hints_keep_refs [simp]: "tree_refs (add_structural_hints n) = tree_refs n"
  by (induction n rule: add_structural_hints.induct) (simp add: Let_def comp_def cong: map_cong)

text \<open>Where an entry says its element lives, and below which ref it was found.\<close>

definition lives_in :: "ref_alloc_config \<Rightarrow> ref_entry \<Rightarrow> bool" where
  "lives_in cfg e \<longleftrightarrow>
     rp_pid (process e) = ras_pid (cfg_source cfg) \<and> rp_instance (process e) = ras_process_instance (cfg_source cfg) \<and>
     src_window_id (source e) = ras_window_id (cfg_source cfg) \<and> src_surface (source e) = ras_surface (cfg_source cfg) \<and>
     scope_root_ref (scope e) = root_ref_id (cfg_scope cfg)"

lemma planned_lives_in:
  "(root_ref_id (cfg_scope cfg) \<noteq> None \<longrightarrow> A = {}) \<Longrightarrow> list_all (lives_in cfg) (planned_entries fx cfg A path n)"
  "(root_ref_id (cfg_scope cfg) \<noteq> None \<longrightarrow> A = {}) \<Longrightarrow> list_all (lives_in cfg) (planned_children fx cfg A path k cs)"
  by (induction fx cfg A path n and fx cfg A path k cs rule: planned_entries_planned_children.induct)
    (auto simp: node_entries_def lives_in_def action_entry_def anchor_entry_def ref_entry_from_node_def drop_bounds_def
      Let_def)

lemma entries_live_in: "list_all (lives_in cfg) (tree_entries fx cfg n)"
  unfolding tree_entries_def by (rule planned_lives_in) (simp add: skeleton_anchors_def)

lemma alloc_all_not_issued:
  "alloc_all allocate_validated m es = Inr (ks, m') \<Longrightarrow> k \<in> set ks \<Longrightarrow> \<not> issued_key (counter m) k"
proof (induction es arbitrary: m ks)
  case (Cons e es)
  then obtain k1 m1 ks1 where a: "allocate_validated m e = Inr (k1, m1)"
      "alloc_all allocate_validated m1 es = Inr (ks1, m')" "ks = k1 # ks1" by auto
  note c = allocate_counter [OF a(1)]
  have "\<not> issued_key (counter m) k1" using c by (simp add: allocate_key [OF a(1)] fresh_key_not_issued)
  moreover have "\<not> issued_key (counter m) k" if "k \<in> set ks1"
    using Cons.IH [OF a(2) that] issued_key_mono [of "counter m" k "counter m1"] c by auto
  ultimately show ?case using Cons.prems(2) a(3) by auto
qed simp

lemma refs_allocated:
  assumes inv: "refmap_inv fx m" and "tree_refs raw = []" "rooted cfg"
    and run: "allocate_refs fx raw m cfg = Inr (n, m')"
  shows "refmap_inv fx m'" "distinct (tree_refs n)"
    "\<And>k. k \<in> set (tree_refs n) \<Longrightarrow> \<not> issued_key (counter m) k \<and> (\<exists>e. refmap_get m' k = Some e \<and> lives_in cfg e)"
    "refmap_get m' k = (if k \<in> set (tree_refs n) then refmap_get m' k else refmap_get m k)"
proof -
  note al = allocate_refs_alloc_all [OF assms(2,3) run]
  have v: "list_all (valid_entry fx) (tree_entries fx cfg raw)" by (simp add: tree_entries_def planned_valid)
  show "refmap_inv fx m'" by (rule refmap_store.alloc_all_inv [OF al inv v])
  note fresh = refmap_store.alloc_all_fresh [OF al inv v]
  show "distinct (tree_refs n)" using fresh by blast
  show "\<not> issued_key (counter m) k \<and> (\<exists>e. refmap_get m' k = Some e \<and> lives_in cfg e)" if "k \<in> set (tree_refs n)" for k
  proof -
    from that obtain j where j: "j < length (tree_refs n)" "tree_refs n ! j = k" by (auto simp: in_set_conv_nth)
    with fresh have "refmap_get m' k = Some (tree_entries fx cfg raw ! j)" "j < length (tree_entries fx cfg raw)"
      by (auto simp: list_all2_conv_all_nth)
    moreover from this have "lives_in cfg (tree_entries fx cfg raw ! j)"
      using entries_live_in [of cfg fx raw] by (simp add: list_all_length)
    ultimately show ?thesis using alloc_all_not_issued [OF al that] by blast
  qed
  have "map_of (zip (tree_refs n) (tree_entries fx cfg raw)) k = None" if "k \<notin> set (tree_refs n)"
    using that by (auto simp: map_of_eq_None_iff dest: set_zip_leftD)
  then show "refmap_get m' k = (if k \<in> set (tree_refs n) then refmap_get m' k else refmap_get m k)"
    using refmap_store.alloc_all_lookup [OF al inv v] by (auto simp: map_add_def)
qed

section \<open>What is saved stays saved\<close>

text \<open>The trace is written elsewhere than the snapshots.\<close>

definition trace_apart :: "('w \<Rightarrow> path \<Rightarrow> string option) \<Rightarrow> 'w files \<Rightarrow> bool" where
  "trace_apart view fs \<longleftrightarrow>
     (\<forall>ev j w st i. view (snd (pf_trace (fl_platform fs) ev j w)) (snapshot_path st i) = view w (snapshot_path st i))"

lemma copy_keeps_snapshot:
  assumes k: "keeps_files view fs" and tr: "trace_apart view fs"
  shows "preserves (\<lambda>w. view w (snapshot_path st i) = x) (copy_refmap_if_full cx fs inh c st j m)"
proof -
  let ?P = "\<lambda>w. view w (snapshot_path st i) = x"
  note kf = keeps_filesD [OF k]
  have apart: "snapshot_path st i \<noteq> trace_dir st @ q" for q by (simp add: snapshot_path_def trace_dir_def)
  have [preserving]: "preserves ?P (persist_usage cx fs (trace_dir st) u)" for u
    unfolding persist_usage_def by (intro preserving) (simp add: kf(4) ledger_path_def apart)
  have scan [preserving]: "preserves ?P (directory_usage fs d)" for d
    unfolding hoare_def using hoareD [OF directory_usage_only_reads [OF k] refl] by (intro allI impI) simp
  have [preserving]: "preserves ?P (load_usage cx fs (trace_dir st))"
    unfolding load_usage_def scan_usage_def Let_def by (intro preserving) (simp add: kf)
  have [preserving]: "preserves ?P (write_reserved cx fs (trace_dir st) (trace_dir st @ q) bytes u u')" for q bytes u u'
    unfolding write_reserved_def rollback_reservation_if_absent_def
    by (intro preserving) (simp_all add: kf apart)
  have [preserving]: "preserves ?P (reserve_refmap cx fs (trace_dir st) (trace_dir st @ q) bytes)" for q bytes
    unfolding reserve_refmap_def by (intro preserving) (simp_all add: kf)
  have "lock_steps_keep ?P fs (artifact_lock_path (trace_dir st))"
    unfolding lock_steps_keep_def artifact_lock_path_def using kf(18) apart by (auto simp: kf)
  note locks = lock_preserves [OF this]
  have [preserving]: "preserves ?P (write_refmap_if_absent cx fs inh (trace_dir st) (trace_dir st @ q) bytes)" for q bytes
    unfolding write_refmap_if_absent_def artifact_lock_def by (intro preserving locks)
  have [preserving]: "preserves ?P (ensure_trace_dir fs d)" for d
    unfolding ensure_trace_dir_def io_call_def by (intro preserving) (simp_all add: kf)
  have [preserving]: "preserves ?P (trace_quietly (fl_platform fs) ev y)" for ev y
    unfolding trace_quietly_def trace_def by (intro preserving) (use tr in \<open>simp add: trace_apart_def\<close>)
  show ?thesis
    unfolding copy_refmap_if_full_def Let_def append_assoc by (intro preserving)
qed


lemma still_saved:
  assumes k: "keeps_files view fs" and tr: "trace_apart view fs" and saved: "saved_as cx view st i m w"
    and copy: "copy_refmap_if_full cx fs inh c st i m w = Some (Inr () :: app_error + unit, w1)"
    and emit: "trace (fl_platform fs) ev y w1 = Some (Inr (), w')"
  shows "saved_as cx view st i m w'"
proof -
  from saved obtain json where json: "validate_snapshot_id i = Inr ()"
      "serialize_with_size_check (cd_fx cx) (cd_to_json cx) m = Inr json" "view w (snapshot_path st i) = Some json"
    by (auto simp: saved_as_def)
  have "view w1 (snapshot_path st i) = Some json" using hoareD [OF copy_keeps_snapshot [OF k tr] _ copy] json(3) by blast
  moreover have "w' = snd (pf_trace (fl_platform fs) ev y w1)" using emit by (auto simp: trace_def)
  ultimately have "view w' (snapshot_path st i) = Some json" using tr by (simp add: trace_apart_def)
  with json show ?thesis by (auto simp: saved_as_def)
qed

section \<open>Full snapshots\<close>

text \<open>The steps of a snapshot from the world \<open>w\<close> in which it starts, up to the save under the id \<open>i\<close>.\<close>

definition snapshot_steps ::
  "'w engine \<Rightarrow> deadline option \<Rightarrow> command_context \<Rightarrow> tree_options \<Rightarrow> string option \<Rightarrow> string option \<Rightarrow> 'w \<Rightarrow>
     snapshot_result \<Rightarrow> ref_store \<Rightarrow> string \<Rightarrow> bool" where
  "snapshot_steps en inh c opts app window_id w r st i \<longleftrightarrow>
     (\<exists>d r0 w1 w2 w3 w4.
        snapshot_deadline (fl_platform (en_files en)) inh w = Some (Inr d, w1) \<and>
        build_snapshot en inh opts app window_id d w1 = Some (Inr r0, w2) \<and>
        store_for_session (en_files en) (cc_session c) w2 = Some (Inr st, w3) \<and>
        save_new_snapshot (en_codec en) (en_files en) inh st (sn_refmap r0) w3 = Some (Inr i, w4) \<and>
        sn_refmap r = sn_refmap r0 \<and> sn_window r = sn_window r0 \<and> sn_snapshot_id r = Some i \<and>
        tree_refs (sn_tree r) = map (qualify_ref_id i) (tree_refs (sn_tree r0)))"

text \<open>A ref that a printed tree shows loads from the store, as an entry with the given property.\<close>

definition loads_as :: "'w engine \<Rightarrow> ref_store \<Rightarrow> string \<Rightarrow> 'w \<Rightarrow> (ref_entry \<Rightarrow> bool) \<Rightarrow> bool" where
  "loads_as en st t w P \<longleftrightarrow>
     (\<exists>e. P e \<and> read_as (load_ref (en_codec en) (en_files en) st t None) w (\<lambda>e'. e' = e))"

lemma saved_refs_load:
  assumes k: "keeps_files view (en_files en)" and cx: "codec_ok (en_codec en)" and inv: "refmap_inv (cd_fx (en_codec en)) m"
    and saved: "saved_as (en_codec en) view st i m w" and r: "refmap_get m r = Some e" "P e"
  shows "loads_as en st (qualify_ref_id i r) w P"
proof -
  have d: "distinct (map fst (inner m))" using inv by (simp add: refmap_inv_def)
  have v: "validate_snapshot_id i = Inr ()" using saved by (auto simp: saved_as_def)
  have "is_local_ref r" using refmap_get_issued [OF inv r(1)] by (blast intro: issued_local)
  then show ?thesis
    using load_ref_from [OF v _ r(1) read_saved [OF k cx d saved]] r(2) unfolding loads_as_def by blast
qed

lemma observed_without_refs:
  assumes "builds ob" "observe_tree ob inh r request w = Some (Inr tree, w')"
  shows "into_accessibility_tree_partial tree = Some (Inr (n, b, k)) \<Longrightarrow> tree_refs n = []"
    "into_accessibility_tree tree = Some (Inr n) \<Longrightarrow> tree_refs n = []"
proof -
  have "built tree" using hoareD [OF observe_tree_built [OF assms(1)] TrueI assms(2)] by simp
  then obtain rs v where "from_roots rs (ot_source tree) (ot_stats tree) v = Inr tree" unfolding built_def by blast
  from printed_without_refs [OF this]
  show "into_accessibility_tree_partial tree = Some (Inr (n, b, k)) \<Longrightarrow> tree_refs n = []"
    "into_accessibility_tree tree = Some (Inr n) \<Longrightarrow> tree_refs n = []" by blast+
qed

lemma first_owner_observed:
  "observe_first_owner ob inh request vs w = Some (Inr (v, tree), w') \<Longrightarrow>
     v \<in> set vs \<and> (\<exists>w1 w2. observe_tree ob inh (RootWindow v) request w1 = Some (Inr tree, w2))"
proof (induction vs arbitrary: w)
  case (Cons u vs)
  obtain x w1 where x: "observe_tree ob inh (RootWindow u) request w = Some (x, w1)"
    using Cons.prems by (cases "observe_tree ob inh (RootWindow u) request w") (auto simp: abind_def attempt_def)
  then show ?case
    using Cons.prems Cons.IH by (cases x) (auto simp: abind_def attempt_def split: if_splits)
qed simp

lemma read_tree_Inr: "read_tree r w = Some (Inr x, w') \<longleftrightarrow> r = Some (Inr x) \<and> w' = w"
  by (cases r; cases "the r") (auto simp: read_tree_def)

lemma built_snapshot:
  assumes "builds (en_observer en)" "build_snapshot en inh opts app window_id d w = Some (Inr r, w')"
  shows "refmap_inv (cd_fx (en_codec en)) (sn_refmap r)" "distinct (tree_refs (sn_tree r))"
    "k \<in> set (tree_refs (sn_tree r)) \<Longrightarrow>
       \<exists>e. refmap_get (sn_refmap r) k = Some e \<and> lives_in (window_config (cd_fx (en_codec en)) opts (sn_window r)) e"
proof -
  let ?fx = "cd_fx (en_codec en)"
  from assms(2) obtain ws request v tree raw b n t m w1 w2 w3 where
    o: "observe_first_owner (en_observer en) inh request ws w1 = Some (Inr (v, tree), w2)"
    and raw: "read_tree (into_accessibility_tree_partial tree) w2 = Some (Inr (raw, b, n), w3)"
    and al: "allocate_refs ?fx raw refmap_new (window_config ?fx opts v) = Inr (t, m)"
    and r: "sn_tree r = add_structural_hints t" "sn_refmap r = m" "sn_window r = v"
    unfolding build_snapshot_def Let_def by (elim abind_InrE) (auto elim!: abind_InrE)
  from first_owner_observed [OF o] obtain w4 w5
    where "observe_tree (en_observer en) inh (RootWindow v) request w4 = Some (Inr tree, w5)" by blast
  from observed_without_refs(1) [OF assms(1) this] raw have "tree_refs raw = []" by (simp add: read_tree_Inr)
  moreover have "rooted (window_config ?fx opts v)" by (simp add: rooted_def window_config_def)
  ultimately show "refmap_inv ?fx (sn_refmap r)" "distinct (tree_refs (sn_tree r))"
    "k \<in> set (tree_refs (sn_tree r)) \<Longrightarrow>
       \<exists>e. refmap_get (sn_refmap r) k = Some e \<and> lives_in (window_config ?fx opts (sn_window r)) e"
    using refs_allocated [OF refmap_inv_new _ _ al] r by auto
qed

lemma qualify_inj:
  assumes "qualify_ref_id i r = qualify_ref_id i r'" "is_local_ref r" "is_local_ref r'" "validate_snapshot_id i = Inr ()"
  shows "r = r'"
proof -
  have "resolve_ref_target (qualify_ref_id i r) None = Inr (i, r)" using assms(2,4) by (simp add: resolve_qualified)
  moreover have "resolve_ref_target (qualify_ref_id i r') None = Inr (i, r')" using assms(3,4) by (simp add: resolve_qualified)
  ultimately show ?thesis unfolding assms(1) by simp
qed

text \<open>
  C22. Every ref that a snapshot prints can be used: the refs are distinct, and each of them, exactly as
  printed, loads from the store of the session as an entry that names the process, the window and
  the surface that was observed; only a failure of the file system can get in between.
\<close>

theorem snapshot_refs_load:
  assumes k: "keeps_files view (en_files en)" and cx: "codec_ok (en_codec en)" and ob: "builds (en_observer en)"
    and tr: "trace_apart view (en_files en)"
    and run: "run_snapshot en inh c opts app window_id w = Some (Inr r, w')"
  shows "\<exists>st i. snapshot_steps en inh c opts app window_id w r st i \<and> distinct (tree_refs (sn_tree r)) \<and>
    read_as (load_snapshot (en_codec en) (en_files en) st i) w' (\<lambda>m. same_map m (sn_refmap r)) \<and>
    (\<forall>t \<in> set (tree_refs (sn_tree r)). loads_as en st t w'
       (\<lambda>e. rp_pid (process e) = win_pid (sn_window r) \<and> rp_instance (process e) = win_instance (sn_window r) \<and>
          src_window_id (source e) = Some (win_id (sn_window r)) \<and> src_surface (source e) = to_surface opts))"
proof -
  from run obtain d w1 r0 w2 st w3 i w4 w5 where
    start: "snapshot_deadline (fl_platform (en_files en)) inh w = Some (Inr d, w1)" and
    b: "build_snapshot en inh opts app window_id d w1 = Some (Inr r0, w2)"
    and st: "store_for_session (en_files en) (cc_session c) w2 = Some (Inr st, w3)"
    and save: "save_new_snapshot (en_codec en) (en_files en) inh st (sn_refmap r0) w3 = Some (Inr i, w4)"
    and copy: "copy_refmap_if_full (en_codec en) (en_files en) inh c st i (sn_refmap r0) w4 = Some (Inr () :: app_error + unit, w5)"
    and emit: "emit_snapshot_saved (fl_platform (en_files en)) r w5 = Some (Inr (), w')"
    and r: "r = bind_snapshot_id i r0"
    unfolding run_snapshot_def Let_def by (elim abind_InrE) (auto elim!: abind_InrE)
  note built = built_snapshot [OF ob b]
  have saved: "saved_as (en_codec en) view st i (sn_refmap r0) w'"
    using k tr stored_saved [OF save_new_stored [OF k save]] copy emit [unfolded emit_snapshot_saved_def] by (rule still_saved)
  then have id: "validate_snapshot_id i = Inr ()" by (auto simp: saved_as_def)
  have d: "distinct (map fst (inner (sn_refmap r0)))" using built(1) by (simp add: refmap_inv_def)
  have local: "is_local_ref x" if "x \<in> set (tree_refs (sn_tree r0))" for x
    using built(3) [OF that] refmap_get_issued [OF built(1)] by (blast intro: issued_local)
  have refs: "tree_refs (sn_tree r) = map (qualify_ref_id i) (tree_refs (sn_tree r0))"
    by (simp add: r bind_snapshot_id_def tree_refs_qualify)
  have "inj_on (qualify_ref_id i) (set (tree_refs (sn_tree r0)))"
    by (rule inj_onI) (use local id qualify_inj in blast)
  then have "distinct (tree_refs (sn_tree r))" using built(2) by (simp add: refs distinct_map)
  moreover have "loads_as en st (qualify_ref_id i x) w'
       (\<lambda>e. rp_pid (process e) = win_pid (sn_window r) \<and> rp_instance (process e) = win_instance (sn_window r) \<and>
          src_window_id (source e) = Some (win_id (sn_window r)) \<and> src_surface (source e) = to_surface opts)"
    if "x \<in> set (tree_refs (sn_tree r0))" for x
    using built(3) [OF that] saved_refs_load [OF k cx built(1) saved]
    by (force simp: lives_in_def window_config_def r bind_snapshot_id_def)
  moreover have "snapshot_steps en inh c opts app window_id w r st i"
    using start b st save refs unfolding snapshot_steps_def by (force simp: r bind_snapshot_id_def)
  ultimately show ?thesis
    using read_saved [OF k cx d saved]
    by (intro exI [of _ st] exI [of _ i]) (auto simp: refs r bind_snapshot_id_def tree_refs_qualify)
qed


section \<open>Drill-downs\<close>

lemma loaded_from_base:
  assumes cx: "codec_ok cx" and run: "load_snapshot_from_base cx fs st i w = Some (Inr m, w')"
  shows "refmap_inv (cd_fx cx) m"
proof -
  from run obtain json where "cd_of_json cx json = Inr m" "refmap_validate (cd_fx cx) m = Inr ()"
    unfolding load_snapshot_from_base_def read_snapshot_if_present_def
    by (auto simp: attempt_Some_iff ok_or_def split: sum.splits if_splits option.splits elim!: abind_InrE)
  moreover from this(1) have "distinct (map fst (inner m))" using cx unfolding codec_ok_def by blast
  ultimately show ?thesis by (simp add: refmap_validate_inv)
qed

lemma updated_snapshot:
  assumes k: "keeps_files view fs" and cx: "codec_ok cx"
    and run: "update_existing_snapshot cx fs inh st i r e upd w = Some (Inr (v, m'), w')"
  obtains l m w1 w2 w3 where "store_lock fs inh (lock_path st) w = Some (Inr l, w1)"
    "load_snapshot_from_base cx fs st i w1 = Some (Inr m, w2)" "save_snapshot_unlocked cx fs st i m' w2 = Some (Inr (), w3)"
    "refmap_inv (cd_fx cx) m" "refmap_get m r = Some e" "upd m = Inr (v, m')" "saved_as cx view st i m' w'"
proof -
  from run obtain l m w1 w2 w3 where
    lock: "store_lock fs inh (lock_path st) w = Some (Inr l, w1)" and
    load: "load_snapshot_from_base cx fs st i w1 = Some (Inr m, w2)" and e: "refmap_get m r = Some e"
    and upd: "upd m = Inr (v, m')" and save: "save_snapshot_unlocked cx fs st i m' w2 = Some (Inr (), w3)"
    and close: "w' = fl_close fs (lock_handle l) w3"
    unfolding update_existing_snapshot_def
    by (elim abind_InrE with_write_lock_InrE) (auto elim!: abind_InrE split: if_splits)
  from k save obtain json where "validate_snapshot_id i = Inr ()"
    "serialize_with_size_check (cd_fx cx) (cd_to_json cx) m' = Inr json" "view w3 (snapshot_path st i) = Some json"
    by (rule save_unlocked)
  then have "saved_as cx view st i m' w'" by (simp add: saved_as_def close keeps_filesD(15) [OF k])
  with that lock load save loaded_from_base [OF cx load] e upd show ?thesis by blast
qed

text \<open>
  The map after a drill-down below \<open>k0\<close>, beside what it was before: what lay below the root is gone,
  every other ref keeps its entry, and nothing is added but the refs in \<open>new\<close>.
\<close>

definition replaced_below :: "string \<Rightarrow> ref_map \<Rightarrow> string set \<Rightarrow> ref_map \<Rightarrow> bool" where
  "replaced_below k0 m new m' \<longleftrightarrow>
     (\<forall>x e. refmap_get m x = Some e \<longrightarrow> refmap_get m' x = (if removed_by m k0 x e then None else Some e)) \<and>
     (\<forall>x. refmap_get m x = None \<longrightarrow> (refmap_get m' x \<noteq> None \<longleftrightarrow> x \<in> new))"

lemma replace_below_result:
  assumes inv: "refmap_inv fx m" and raw: "tree_refs raw = []" and "replace_below fx (ref_config opts k0 e) k0 raw m = Inr (n, m')"
  shows "refmap_inv fx m'" "distinct (tree_refs n)" "replaced_below k0 m (set (tree_refs n)) m'"
    "x \<in> set (tree_refs n) \<Longrightarrow> \<not> issued_key (counter m) x \<and>
       (\<exists>y. refmap_get m' x = Some y \<and> lives_in (ref_config opts k0 e) y)"
proof -
  let ?m = "remove_by_root_ref k0 m" and ?cfg = "ref_config opts k0 e"
  from assms(3) obtain t where al: "allocate_refs fx raw ?m ?cfg = Inr (t, m')" and n: "n = add_structural_hints t"
    by (auto simp: replace_below_def res_bind_Inr_iff)
  have "rooted ?cfg" by (simp add: rooted_def ref_config_def)
  note a = refs_allocated [OF remove_inv [OF inv] raw this al]
  show "refmap_inv fx m'" "distinct (tree_refs n)" using a(1,2) n by simp_all
  show "x \<in> set (tree_refs n) \<Longrightarrow> \<not> issued_key (counter m) x \<and> (\<exists>y. refmap_get m' x = Some y \<and> lives_in ?cfg y)"
    using a(3) n by auto
  have new: "refmap_get m x = None" if "x \<in> set (tree_refs t)" for x
    using a(3) [OF that] refmap_get_issued [OF inv, of x] by (cases "refmap_get m x") auto
  show "replaced_below k0 m (set (tree_refs n)) m'"
    unfolding replaced_below_def
  proof (intro conjI allI impI)
    fix x y assume y: "refmap_get m x = Some y"
    then have "x \<notin> set (tree_refs t)" using new by force
    then have "refmap_get m' x = refmap_get ?m x" using a(4) [of x] by simp
    then show "refmap_get m' x = (if removed_by m k0 x y then None else Some y)"
      using y by (simp add: remove_lookup [OF inv] option_filter_def)
  next
    fix x assume "refmap_get m x = None"
    then have "refmap_get ?m x = None" by (simp add: remove_lookup [OF inv] option_filter_def)
    then show "refmap_get m' x \<noteq> None \<longleftrightarrow> x \<in> set (tree_refs n)"
      using a(3) [of x] a(4) [of x] n by (cases "x \<in> set (tree_refs t)") auto
  qed
qed

text \<open>
  The steps of a drill-down, each from the world in which the one before ended: the snapshot is
  loaded and gives the entry \<open>e\<close> of the root; its window and its element are found and observed; then
  the store is locked, the map \<open>m\<close> is loaded again and still has \<open>e\<close>, and the new map is written.
\<close>

definition drill_steps ::
  "'w engine \<Rightarrow> deadline option \<Rightarrow> command_context \<Rightarrow> string \<Rightarrow> string option \<Rightarrow> 'w \<Rightarrow> snapshot_result \<Rightarrow>
     ref_store \<Rightarrow> string \<Rightarrow> string \<Rightarrow> ref_entry \<Rightarrow> ref_map \<Rightarrow> bool" where
  "drill_steps en inh c root_ref snapshot w r st i k0 e m \<longleftrightarrow>
     (\<exists>m0 d h request tree l w1 w2 w3 w4 w5 w6 w7 w8 w9.
        store_for_session (en_files en) (cc_session c) w = Some (Inr st, w1) \<and>
        resolve_ref_target root_ref snapshot = Inr (i, k0) \<and>
        load_snapshot (en_codec en) (en_files en) st i w1 = Some (Inr m0, w2) \<and> refmap_get m0 k0 = Some e \<and>
        snapshot_deadline (fl_platform (en_files en)) inh w2 = Some (Inr d, w3) \<and>
        resolve_result_window (en_desktop en) e d w3 = Some (Inr (sn_window r), w4) \<and>
        pf_resolve_element_strict (ob_platform (en_observer en)) e d w4 = (Inr h, w5) \<and>
        observe_tree (en_observer en) inh (RootElement h e (Some k0)) request w5 = Some (Inr tree, w6) \<and>
        store_lock (en_files en) inh (lock_path st) w6 = Some (Inr l, w7) \<and>
        load_snapshot_from_base (en_codec en) (en_files en) st i w7 = Some (Inr m, w8) \<and> refmap_get m k0 = Some e \<and>
        save_snapshot_unlocked (en_codec en) (en_files en) st i (sn_refmap r) w8 = Some (Inr (), w9) \<and>
        sn_snapshot_id r = Some i)"

text \<open>
  C23. A drill-down replaces what is below its root and nothing else.  The map it changes is the one it
  finds stored after it has taken the lock, and only when that still has the entry of the root that
  was resolved and observed: the refs below the root are gone; every other ref keeps its entry, the
  root too; and nothing is added but the refs it prints, which were never handed out before in this
  snapshot and load from the store as entries below the root in its process and window.
\<close>

theorem drill_down_replaces_below:
  assumes k: "keeps_files view (en_files en)" and cx: "codec_ok (en_codec en)" and ob: "builds (en_observer en)"
    and tr: "trace_apart view (en_files en)"
    and run: "run_from_ref en inh c opts root_ref snapshot w = Some (Inr r, w')"
  shows "\<exists>st i k0 e m new. drill_steps en inh c root_ref snapshot w r st i k0 e m \<and>
    tree_refs (sn_tree r) = map (qualify_ref_id i) new \<and> distinct new \<and> replaced_below k0 m (set new) (sn_refmap r) \<and>
    read_as (load_snapshot (en_codec en) (en_files en) st i) w' (\<lambda>m. same_map m (sn_refmap r)) \<and>
    (\<forall>x \<in> set new. \<not> issued_key (counter m) x \<and>
       loads_as en st (qualify_ref_id i x) w' (\<lambda>y. scope_root_ref (scope y) = Some k0 \<and>
         rp_pid (process y) = rp_pid (process e) \<and> rp_instance (process y) = rp_instance (process e) \<and>
         src_window_id (source y) = src_window_id (source e)))"
proof -
  let ?fs = "en_files en" and ?cx = "en_codec en"
  let ?fx = "cd_fx ?cx"
  from run obtain st i k0 e m0 d h v request tree raw n m' w1 w2 w3 w4 w5 w6 v5 v6 where
    st: "store_for_session ?fs (cc_session c) w = Some (Inr st, w1)"
    and target: "resolve_ref_target root_ref snapshot = Inr (i, k0)"
    and m0: "load_snapshot ?cx ?fs st i w1 = Some (Inr m0, w2)" "refmap_get m0 k0 = Some e"
    and d: "snapshot_deadline (fl_platform ?fs) inh w2 = Some (Inr d, w3)"
    and v: "resolve_result_window (en_desktop en) e d w3 = Some (Inr v, w4)"
    and h: "pf_resolve_element_strict (ob_platform (en_observer en)) e d w4 = (Inr h, w5)"
    and ob_run: "observe_tree (en_observer en) inh (RootElement h e (Some k0)) request w5 = Some (Inr tree, w6)"
    and raw: "into_accessibility_tree tree = Some (Inr raw)"
    and upd: "update_existing_snapshot ?cx ?fs inh st i k0 e (replace_below ?fx (ref_config opts k0 e) k0 raw) w6 =
      Some (Inr (n, m'), v5)"
    and copy: "copy_refmap_if_full ?cx ?fs inh c st i m' v5 = Some (Inr () :: app_error + unit, v6)"
    and emit: "trace (fl_platform ?fs) ''snapshot.root.saved''
      (JObj [(''root_ref'', JStr root_ref), (''snapshot_id'', JStr i), (''ref_count'', JInt (int (length (inner m'))))]) v6 =
      Some (Inr (), w')"
    and r: "r = \<lparr>sn_tree = qualify_tree_refs i n, sn_refmap = m', sn_window = v, sn_snapshot_id = Some i,
                sn_complete = True, sn_nodes_observed = count_nodes raw\<rparr>"
    unfolding run_from_ref_def Let_def validated_request_def
    by (elim abind_InrE) (auto simp: ok_or_Inr_iff app_call_def amap_err_Some_iff read_tree_Inr elim!: abind_InrE)
  have bare: "tree_refs raw = []" using raw observed_without_refs(2) [OF ob ob_run] by simp
  from k cx upd obtain l m w7 w8 w9 where lock: "store_lock ?fs inh (lock_path st) w6 = Some (Inr l, w7)"
    and load: "load_snapshot_from_base ?cx ?fs st i w7 = Some (Inr m, w8)"
    and save: "save_snapshot_unlocked ?cx ?fs st i m' w8 = Some (Inr (), w9)"
    and inv: "refmap_inv ?fx m" and e: "refmap_get m k0 = Some e"
    and repl: "replace_below ?fx (ref_config opts k0 e) k0 raw m = Inr (n, m')" and saved5: "saved_as ?cx view st i m' v5"
    by (rule updated_snapshot)
  have steps: "drill_steps en inh c root_ref snapshot w r st i k0 e m"
    unfolding drill_steps_def r snapshot_result.simps using st target m0 d v h ob_run lock load e save by blast
  note res = replace_below_result [OF inv bare repl]
  have saved: "saved_as ?cx view st i m' w'" using k tr saved5 copy emit by (rule still_saved)
  have ids: "distinct (map fst (inner m'))" using res(1) by (simp add: refmap_inv_def)
  have "\<not> issued_key (counter m) x \<and> loads_as en st (qualify_ref_id i x) w'
      (\<lambda>y. scope_root_ref (scope y) = Some k0 \<and> rp_pid (process y) = rp_pid (process e) \<and>
         rp_instance (process y) = rp_instance (process e) \<and> src_window_id (source y) = src_window_id (source e))"
    if "x \<in> set (tree_refs n)" for x
    using res(4) [OF that] saved_refs_load [OF k cx res(1) saved] by (force simp: lives_in_def ref_config_def)
  then show ?thesis
    using steps res(2,3) read_saved [OF k cx ids saved]
    by (intro exI [of _ st] exI [of _ i] exI [of _ k0] exI [of _ e] exI [of _ m] exI [of _ "tree_refs n"])
      (simp add: r tree_refs_qualify)
qed


section \<open>A sample\<close>

lemma alloc_all_succeeds:
  "unat (counter m) + length es < u32_max \<Longrightarrow>
     \<exists>ks m'. alloc_all allocate_validated m es = Inr (ks, m') \<and> unat (counter m') = unat (counter m) + length es"
proof (induction es arbitrary: m)
  case (Cons e es)
  then obtain k m1 where a: "allocate_validated m e = Inr (k, m1)"
    by (auto simp: allocate_validated_def u32_checked_add_def Let_def)
  note c = allocate_counter [OF a]
  from Cons.prems c have "unat (counter m1) + length es < u32_max" by simp
  from Cons.IH [OF this] a c show ?case by auto
qed simp

lemma planned_at_most:
  "length (planned_entries fx cfg A path n) \<le> count_nodes n"
  "length (planned_children fx cfg A path k cs) \<le> sum_list (map count_nodes cs)"
  by (induction fx cfg A path n and fx cfg A path k cs rule: planned_entries_planned_children.induct)
    (auto simp: node_entries_def)

lemma allocate_succeeds:
  assumes "tree_refs n = []" "rooted cfg" "unat (counter m) + count_nodes n < u32_max"
  obtains n' m' where "allocate_refs fx n m cfg = Inr (n', m')"
    "unat (counter m') \<le> unat (counter m) + count_nodes n" "length (tree_refs n') = length (tree_entries fx cfg n)"
proof -
  have le: "length (tree_entries fx cfg n) \<le> count_nodes n" unfolding tree_entries_def by (rule planned_at_most)
  then obtain ks m' where a: "alloc_all allocate_validated m (tree_entries fx cfg n) = Inr (ks, m')"
    "unat (counter m') = unat (counter m) + length (tree_entries fx cfg n)"
    using alloc_all_succeeds [of m "tree_entries fx cfg n"] assms(3) by auto
  then obtain n' where "allocate_refs fx n m cfg = Inr (n', m')" "tree_refs n' = ks"
    using allocate_refs_refines [OF assms(1,2), of fx m]
    by (cases "allocate_refs fx n m cfg") (auto simp: shown_refs_def)
  with that a le alloc_all_length [OF a(1)] show ?thesis by simp
qed

definition snap_window :: window_info where
  "snap_window = sample_window ''w-1'' True"

definition snap_desktop :: "disk desktop" where
  "snap_desktop =
     \<lparr>dk_platform = beside (sample_platform (sample_live True)),
      dk_list_windows = (\<lambda>f d w. (Inr [snap_window], w)),
      dk_list_apps_scoped = (\<lambda>n b d w. (Inr [], w)),
      dk_focused_window = (\<lambda>d w. (Inr None, w)),
      dk_capture_signal_baseline = (\<lambda>f d w. (Inl (internal_error []), w)),
      dk_wait_for_menu = (\<lambda>p b d w. (Inr (), w)),
      dk_list_notifications = (\<lambda>f p d l w. (Inr [], w)),
      dk_get_live_value = (\<lambda>h d w. (Inr None, w)),
      dk_get_live_state = (\<lambda>h d w. (Inr None, w))\<rparr>"

definition snap_observer :: "disk observer" where
  "snap_observer =
     \<lparr>ob_platform = beside (sample_platform (sample_live True)),
      ob_observe_tree = (\<lambda>r q w. (Inr (sample_observed True), w)),
      ob_resolve_locator_anchor = (\<lambda>e d w. (Inr 7, w)),
      ob_activate_renderer = (\<lambda>p l w. (Inr (), w))\<rparr>"

definition snap_options :: tree_options where
  "snap_options =
     \<lparr>to_max_depth = 10, to_include_bounds = False, to_interactive_only = False, to_compact = False,
      to_surface = SurfWindow, to_skeleton = False\<rparr>"

definition snap_context :: command_context where
  "snap_context = \<lparr>cc_session = None, cc_trace_enabled = False, cc_artifacts_full = False\<rparr>"

text \<open>The tree as it is read, its walk, and the walk of a drill-down below its first ref.\<close>

definition snap_raw :: node where
  "snap_raw = projection (sample_group True)"

definition snap_walk :: "node \<times> ref_map" where
  "snap_walk = projr (allocate_refs sum_hash snap_raw refmap_new (window_config sum_hash snap_options snap_window))"

definition snap_root :: string where
  "snap_root = tree_refs (fst snap_walk) ! 0"

definition snap_entry :: ref_entry where
  "snap_entry = the (refmap_get (snd snap_walk) snap_root)"

definition drill_walk :: "node \<times> ref_map" where
  "drill_walk = projr (replace_below sum_hash (ref_config snap_options snap_root snap_entry) snap_root snap_raw (snd snap_walk))"

definition snap_codec :: codec where
  "snap_codec =
     sample_codec\<lparr>
       cd_to_json := (\<lambda>m. if m = snd snap_walk then Inr ''one'' else if m = snd drill_walk then Inr ''two'' else Inl []),
       cd_of_json := (\<lambda>s. if s = ''one'' then Inr (snd snap_walk) else if s = ''two'' then Inr (snd drill_walk) else Inl [])\<rparr>"

definition snap_engine :: "disk engine" where
  "snap_engine =
     \<lparr>en_desktop = snap_desktop, en_observer = snap_observer, en_files = disk_files, en_codec = snap_codec\<rparr>"

lemma snap_raw_is:
  "\<exists>cs. snap_raw = Node None ''group''
       \<lparr>nid_retained_object = None, nid_name = Some ''dialog'', nid_value = None, nid_description = None, nid_native_id = None\<rparr>
       \<lparr>np_hint = None, np_states = [], np_available_actions = [''Click''], np_bounds = None\<rparr> None False cs"
  by (simp add: snap_raw_def sample_group_def sample_button_def new_subtree_def sample_field_evidence_def new_completeness_def
      preferred_identifier_def)

lemma snap_raw_bare: "tree_refs snap_raw = []" "count_nodes snap_raw = 2"
  by (simp_all add: snap_raw_def sample_group_def sample_button_def new_subtree_def)

lemma snap_config:
  "window_config sum_hash snap_options snap_window =
     \<lparr>cfg_options = \<lparr>opt_include_bounds = False, opt_interactive_only = False, opt_compact = False\<rparr>,
      cfg_source =
        \<lparr>ras_pid = 7, ras_app = Some ''Notes'', ras_window_id = Some ''w-1'', ras_window_title = Some ''Notes'',
         ras_window_bounds_hash = None, ras_process_instance = Some ''boot-1'', ras_surface = SurfWindow\<rparr>,
      cfg_scope = \<lparr>root_ref_id = None, path_prefix = []\<rparr>\<rparr>"
  by (simp add: window_config_def alloc_options_def snap_options_def snap_window_def sample_window_def)

lemma snap_root_planned: "0 < length (tree_entries sum_hash (window_config sum_hash snap_options snap_window) snap_raw)"
proof -
  obtain cs where raw: "snap_raw = Node None ''group''
       \<lparr>nid_retained_object = None, nid_name = Some ''dialog'', nid_value = None, nid_description = None, nid_native_id = None\<rparr>
       \<lparr>np_hint = None, np_states = [], np_available_actions = [''Click''], np_bounds = None\<rparr> None False cs" (is "_ = ?n")
    using snap_raw_is by blast
  have "valid_entry sum_hash (action_entry sum_hash (window_config sum_hash snap_options snap_window) [] ?n)"
    by (simp add: snap_config action_entry_def ref_entry_from_node_def drop_bounds_def meaningful_string_def
      valid_entry_iff process_ok_def role_ok_def fields_ok_def sample_roles
      text_fields_def MAX_FIELD_BYTES_def identifier_ok_def path_ok_def MAX_PATH_DEPTH_def evidence_ok_def)
  moreover have "is_ref_able ?n"
    by (simp add: is_ref_able_def is_ref_able_role_actions_def advertises_primary_action_def
      UBIQUITOUS_AFFORDANCES_def SET_FOCUS_def RIGHT_CLICK_def SCROLL_TO_def)
  moreover have "path_prefix (cfg_scope (window_config sum_hash snap_options snap_window)) = []" by (simp add: snap_config)
  ultimately show ?thesis
    unfolding tree_entries_def raw planned_entries.simps node_entries_def by simp
qed

lemma snap_walk_is:
  "allocate_refs sum_hash snap_raw refmap_new (window_config sum_hash snap_options snap_window) = Inr snap_walk"
  "unat (counter (snd snap_walk)) \<le> 2" "0 < length (tree_refs (fst snap_walk))"
proof -
  let ?cfg = "window_config sum_hash snap_options snap_window"
  have r: "rooted ?cfg" by (simp add: rooted_def window_config_def)
  obtain n m where nm: "allocate_refs sum_hash snap_raw refmap_new ?cfg = Inr (n, m)"
    "unat (counter m) \<le> unat (counter refmap_new) + 2" "length (tree_refs n) = length (tree_entries sum_hash ?cfg snap_raw)"
    by (rule allocate_succeeds [OF snap_raw_bare(1) r, where m = refmap_new]) (simp_all add: snap_raw_bare(2) refmap_new_def)
  then have w: "snap_walk = (n, m)" by (simp add: snap_walk_def)
  show "allocate_refs sum_hash snap_raw refmap_new ?cfg = Inr snap_walk" "unat (counter (snd snap_walk)) \<le> 2"
    "0 < length (tree_refs (fst snap_walk))"
    using nm snap_root_planned by (simp_all add: w refmap_new_def)
qed

lemma snap_inv:
  "refmap_inv sum_hash (snd snap_walk)" "refmap_get (snd snap_walk) snap_root = Some snap_entry"
  "lives_in (window_config sum_hash snap_options snap_window) snap_entry"
proof -
  have r: "rooted (window_config sum_hash snap_options snap_window)" by (simp add: rooted_def window_config_def)
  have al: "allocate_refs sum_hash snap_raw refmap_new (window_config sum_hash snap_options snap_window) =
      Inr (fst snap_walk, snd snap_walk)" using snap_walk_is(1) by simp
  note a = refs_allocated [OF refmap_inv_new snap_raw_bare(1) r al]
  show "refmap_inv sum_hash (snd snap_walk)" by (rule a(1))
  have "snap_root \<in> set (tree_refs (fst snap_walk))" using snap_walk_is(3) by (simp add: snap_root_def)
  from a(3) [OF this] obtain e where "refmap_get (snd snap_walk) snap_root = Some e"
    "lives_in (window_config sum_hash snap_options snap_window) e" by blast
  then show "refmap_get (snd snap_walk) snap_root = Some snap_entry"
    "lives_in (window_config sum_hash snap_options snap_window) snap_entry" by (simp_all add: snap_entry_def)
qed

lemma drill_walk_is:
  "replace_below sum_hash (ref_config snap_options snap_root snap_entry) snap_root snap_raw (snd snap_walk) = Inr drill_walk"
  "unat (counter (snd drill_walk)) \<le> 4" "refmap_inv sum_hash (snd drill_walk)"
proof -
  let ?cfg = "ref_config snap_options snap_root snap_entry" and ?m = "remove_by_root_ref snap_root (snd snap_walk)"
  have r: "rooted ?cfg" by (simp add: rooted_def ref_config_def)
  have c: "unat (counter ?m) \<le> 2" using snap_walk_is(2) by simp
  then have small: "unat (counter ?m) + count_nodes snap_raw < u32_max" by (simp add: snap_raw_bare(2))
  obtain n m where nm: "allocate_refs sum_hash snap_raw ?m ?cfg = Inr (n, m)"
    "unat (counter m) \<le> unat (counter ?m) + count_nodes snap_raw"
    by (rule allocate_succeeds [OF snap_raw_bare(1) r small])
  then have e: "replace_below sum_hash ?cfg snap_root snap_raw (snd snap_walk) = Inr (add_structural_hints n, m)"
    by (simp add: replace_below_def)
  then have w: "drill_walk = (add_structural_hints n, m)" by (simp add: drill_walk_def)
  show "replace_below sum_hash ?cfg snap_root snap_raw (snd snap_walk) = Inr drill_walk" using e w by simp
  show "unat (counter (snd drill_walk)) \<le> 4" using nm(2) c by (simp add: w snap_raw_bare(2))
  show "refmap_inv sum_hash (snd drill_walk)"
    using replace_below_result(1) [OF snap_inv(1) snap_raw_bare(1) e] by (simp add: w)
qed

lemma snap_codec_ok: "codec_ok snap_codec"
  using snap_inv(1) drill_walk_is(3) by (auto simp: codec_ok_def snap_codec_def refmap_inv_def)

lemma snap_serialized:
  "serialize_with_size_check (cd_fx snap_codec) (cd_to_json snap_codec) (snd snap_walk) = Inr ''one''"
  "\<exists>json. serialize_with_size_check (cd_fx snap_codec) (cd_to_json snap_codec) (snd drill_walk) = Inr json"
proof -
  have fx: "cd_fx snap_codec = sum_hash" by (simp add: snap_codec_def sample_codec_def)
  have v: "refmap_validate sum_hash (snd snap_walk) = Inr ()" "refmap_validate sum_hash (snd drill_walk) = Inr ()"
    using snap_inv(1) snap_walk_is(2) drill_walk_is(2,3) by (simp_all add: refmap_validate_inv refmap_inv_def)
  show "serialize_with_size_check (cd_fx snap_codec) (cd_to_json snap_codec) (snd snap_walk) = Inr ''one''"
    "\<exists>json. serialize_with_size_check (cd_fx snap_codec) (cd_to_json snap_codec) (snd drill_walk) = Inr json"
    using v unfolding serialize_Inr fx by (auto simp: snap_codec_def MAX_REFMAP_BYTES_def)
qed

lemma snap_builds: "builds snap_observer"
  by (simp add: builds_def snap_observer_def sample_built)

lemma disk_trace_apart: "trace_apart disk_view disk_files"
  by (simp add: trace_apart_def disk_files_def beside_def on_first_def sample_platform_def tick_def disk_view_def)


lemma snap_fields [simp]:
  "en_files snap_engine = disk_files" "en_codec snap_engine = snap_codec" "en_observer snap_engine = snap_observer"
  "en_desktop snap_engine = snap_desktop" "cd_fx snap_codec = sum_hash" "cc_session snap_context = None"
  "to_surface snap_options = SurfWindow"
  by (simp_all add: snap_engine_def snap_codec_def sample_codec_def snap_context_def snap_options_def)

lemma snap_deadline:
  assumes "t < 1000"
  obtains d where "snapshot_deadline (fl_platform disk_files) None (t, kvs) = Some (Inr d, (t + 1, kvs))"
proof -
  have "\<exists>d. deadline_after None t 3000 = Inr d"
    using assms by (simp add: deadline_after_def detached_after_def detached_at_def wait_timeout_duration_def
        MAX_WAIT_TIMEOUT_MS_def instant_checked_add_def instant_max_def ns_per_ms_def bound_by_def)
  then show ?thesis using that by (auto simp: snapshot_deadline_def abind_def)
qed

lemma snap_request:
  obtains request where "validated_request snap_options d = ret request"
proof -
  have "\<exists>request. validate_observation (snapshot_observation (with_ref_identity_bounds snap_options) d) = Inr request"
    by (simp add: validate_observation_def snapshot_observation_def with_ref_identity_bounds_def snap_options_def
      validate_budget_def default_budget_def validate_limit_def validate_plan_def uniform_plan_def
      snapshot_requirements_def requirements_cover_def union_requirements_def union_ref_requirements_def
      MAX_OBSERVATION_NODES_def MAX_OBSERVATION_EDGES_def MAX_CHILDREN_PER_NODE_def
      MAX_OBSERVATION_FIELD_BYTES_def MAX_OBSERVATION_TEXT_BYTES_def)
  then show ?thesis using that by (auto simp: validated_request_def fun_eq_iff)
qed

lemma snap_observes: "observe_tree snap_observer inh r request w = Some (Inr (sample_observed True), w)"
  unfolding observe_tree_def
  by (subst loop_unfold) (simp add: observe_round_def abind_def attempt_def snap_observer_def)

lemma snap_windows:
  "surface_windows snap_desktop None None SurfWindow d w = Some (Inr [snap_window], w)"
  by (simp add: surface_windows_def resolve_window_for_surface_def snapshot_window_def app_call_def snap_desktop_def
      abind_def amap_err_def select_window_def sole_def)

lemma snap_printed:
  "into_accessibility_tree_partial (sample_observed True) = Some (Inr (snap_raw, True, 2))"
  "into_accessibility_tree (sample_observed True) = Some (Inr snap_raw)"
  using printed_as_read [OF sample_from_roots [of True]]
  by (simp_all add: sample_whole snap_raw_def) (simp add: sample_group_def sample_button_def new_subtree_def)

lemma snap_built:
  obtains r where "build_snapshot snap_engine None snap_options None None d w = Some (Inr r, w)"
    "sn_refmap r = snd snap_walk" "sn_tree r = add_structural_hints (fst snap_walk)" "sn_window r = snap_window"
proof -
  obtain request where rq: "validated_request snap_options d = (ret request :: (disk, app_error, observation_request) act)"
    by (rule snap_request)
  have "observe_first_owner snap_observer None request [snap_window] w = Some (Inr (snap_window, sample_observed True), w)"
    by (simp add: abind_def attempt_def snap_observes)
  moreover have "read_tree (into_accessibility_tree_partial (sample_observed True)) w = Some (Inr (snap_raw, True, 2), w)"
    by (simp add: snap_printed read_tree_def)
  ultimately show ?thesis
    using that snap_walk_is(1)
    by (auto simp: build_snapshot_def abind_def snap_windows rq case_prod_beta simp del: observe_first_owner.simps)
qed

lemma snap_traces: "trace (fl_platform disk_files) ev j (t, kvs) = Some (Inr (), (t + 1, kvs))"
  by (simp add: trace_def disk_files_def beside_def on_first_def sample_platform_def tick_def)

lemma snap_store: "store_for_session disk_files None w = Some (Inr sample_store, w)"
  by (simp add: store_for_session_def abind_def disk_files_def sample_store_def)

lemma snap_copies: "copy_refmap_if_full cx disk_files inh snap_context st i m w = Some (Inr (), w)"
  by (simp add: copy_refmap_if_full_def artifacts_enabled_def snap_context_def)

lemma snap_runs:
  obtains r where
    "run_snapshot snap_engine None snap_context snap_options None None (0, []) = Some (Inr r, one_snapshot 5 ''one'')"
    "0 < length (tree_refs (sn_tree r))"
proof -
  obtain d where d: "snapshot_deadline (fl_platform disk_files) None (0, []) = Some (Inr d, (1, []))"
    using snap_deadline [of 0 "[]"] by auto
  obtain r where r: "build_snapshot snap_engine None snap_options None None d (1, []) = Some (Inr r, (1, []))"
    "sn_refmap r = snd snap_walk" "sn_tree r = add_structural_hints (fst snap_walk)" by (rule snap_built)
  have save: "save_new_snapshot snap_codec disk_files None sample_store (snd snap_walk) (1, []) =
      Some (Inr ''s0007'', one_snapshot 4 ''one'')"
    using disk_saves [OF snap_serialized(1), of 1] by simp
  have "emit_snapshot_saved (fl_platform disk_files) x (one_snapshot 4 ''one'') = Some (Inr (), one_snapshot 5 ''one'')" for x
    by (simp add: emit_snapshot_saved_def one_snapshot_def snap_traces)
  then have "run_snapshot snap_engine None snap_context snap_options None None (0, []) =
      Some (Inr (bind_snapshot_id ''s0007'' r), one_snapshot 5 ''one'')"
    using d r save by (simp add: run_snapshot_def abind_def snap_store snap_copies Let_def del: One_nat_def)
  moreover have "0 < length (tree_refs (sn_tree (bind_snapshot_id ''s0007'' r)))"
    using snap_walk_is(3) r(3) by (simp add: bind_snapshot_id_def tree_refs_qualify)
  ultimately show ?thesis by (rule that)
qed


lemma snap_loads:
  "load_snapshot_from_base snap_codec disk_files sample_store ''s0007'' (one_snapshot t ''one'') =
     Some (Inr (snd snap_walk), one_snapshot t ''one'')"
  "load_snapshot snap_codec disk_files sample_store ''s0007'' (one_snapshot t ''one'') =
     Some (Inr (snd snap_walk), one_snapshot t ''one'')"
proof -
  have i: "validate_snapshot_id ''s0007'' = Inr ()" by code_simp
  have "refmap_validate sum_hash (snd snap_walk) = Inr ()" using snap_serialized(1) by (simp add: serialize_Inr)
  moreover have "fl_read disk_files (snapshot_path sample_store ''s0007'') MAX_REFMAP_BYTES (one_snapshot t ''one'') =
      (Inr ''one'', one_snapshot t ''one'')"
    by (simp add: disk_files_def disk_view_def one_snapshot_def snapshot_path_def rs_base_sample MAX_REFMAP_BYTES_def)
  moreover have "cd_of_json snap_codec ''one'' = Inr (snd snap_walk)" by (simp add: snap_codec_def)
  ultimately show
    "load_snapshot_from_base snap_codec disk_files sample_store ''s0007'' (one_snapshot t ''one'') =
       Some (Inr (snd snap_walk), one_snapshot t ''one'')"
    "load_snapshot snap_codec disk_files sample_store ''s0007'' (one_snapshot t ''one'') =
       Some (Inr (snd snap_walk), one_snapshot t ''one'')"
    by (simp_all add: load_snapshot_def load_snapshot_from_base_def read_snapshot_if_present_def abind_def attempt_def i)
qed

lemma snap_updates:
  obtains json where
    "update_existing_snapshot snap_codec disk_files None sample_store ''s0007'' snap_root snap_entry
       (replace_below sum_hash (ref_config snap_options snap_root snap_entry) snap_root snap_raw) (one_snapshot 7 ''one'') =
     Some (Inr drill_walk, one_snapshot 10 json)"
proof -
  have i: "validate_snapshot_id ''s0007'' = Inr ()" by code_simp
  obtain json where j: "serialize_with_size_check sum_hash (cd_to_json snap_codec) (snd drill_walk) = Inr json"
    using snap_serialized(2) by auto
  have "save_snapshot_unlocked snap_codec disk_files sample_store ''s0007'' (snd drill_walk) (one_snapshot 10 ''one'') =
      Some (Inr (), one_snapshot 10 json)"
    by (simp add: save_snapshot_unlocked_def i j abind_def io_call_def amap_err_def one_snapshot_def snapshot_path_def
        rs_base_sample)
  then have "abind (load_snapshot_from_base snap_codec disk_files sample_store ''s0007'') (\<lambda>m.
      if refmap_get m snap_root \<noteq> Some snap_entry then fail_with (AppAdapter (stale_ref_error snap_root))
      else abind (lift_res (replace_below sum_hash (ref_config snap_options snap_root snap_entry) snap_root snap_raw m)) (\<lambda>(v, m').
           abind (save_snapshot_unlocked snap_codec disk_files sample_store ''s0007'' m') (\<lambda>_. ret (v, m'))))
      (one_snapshot 10 ''one'') = Some (Inr drill_walk, one_snapshot 10 json)"
    using drill_walk_is(1) snap_inv(2) by (simp add: abind_def snap_loads case_prod_beta)
  then show ?thesis
    using that i disk_store_lock [of 7 "lock_path sample_store"]
    by (simp add: update_existing_snapshot_def with_write_lock_def abind_def one_snapshot_def disk_holding)
qed

lemma snap_target: "resolve_ref_target (qualify_ref_id ''s0007'' snap_root) None = Inr (''s0007'', snap_root)"
proof -
  have i: "validate_snapshot_id ''s0007'' = Inr ()" by code_simp
  have "is_local_ref snap_root" using refmap_get_issued [OF snap_inv(1,2)] by (blast intro: issued_local)
  then show ?thesis using i by (simp add: resolve_qualified)
qed

lemma drill_runs:
  obtains r w' where
    "run_from_ref snap_engine None snap_context snap_options (qualify_ref_id ''s0007'' snap_root) None
       (one_snapshot 5 ''one'') = Some (Inr r, w')"
proof -
  note target = snap_target
  obtain d where d: "snapshot_deadline (fl_platform disk_files) None (one_snapshot 5 ''one'') = Some (Inr d, one_snapshot 6 ''one'')"
    using snap_deadline [of 5 "snd (one_snapshot 5 ''one'')"] by (auto simp: one_snapshot_def)
  have home: "src_window_id (source snap_entry) = Some ''w-1''" "rp_pid (process snap_entry) = 7"
    using snap_inv(3) [unfolded lives_in_def snap_config] by simp_all
  have window: "resolve_result_window snap_desktop snap_entry d w = Some (Inr snap_window, w)" for w
    by (simp add: resolve_result_window_def home app_call_def snap_desktop_def abind_def amap_err_def
        select_window_def sole_def snap_window_def sample_window_def)
  have element: "app_call (pf_resolve_element_strict (ob_platform snap_observer) e d) (one_snapshot 6 ''one'') =
      Some (Inr 7, one_snapshot 7 ''one'')" for e
    by (simp add: app_call_def amap_err_def snap_observer_def beside_def on_first_def sample_platform_def tick_def one_snapshot_def)
  obtain request where rq: "validated_request snap_options d = (ret request :: (disk, app_error, observation_request) act)"
    by (rule snap_request)
  have raw: "read_tree (into_accessibility_tree (sample_observed True)) w = Some (Inr snap_raw, w)" for w
    by (simp add: snap_printed read_tree_def)
  obtain json where upd:
    "update_existing_snapshot snap_codec disk_files None sample_store ''s0007'' snap_root snap_entry
       (replace_below sum_hash (ref_config snap_options snap_root snap_entry) snap_root snap_raw) (one_snapshot 7 ''one'') =
     Some (Inr drill_walk, one_snapshot 10 json)" by (rule snap_updates)
  have tr: "trace (fl_platform disk_files) ev y (one_snapshot 10 json) = Some (Inr (), one_snapshot 11 json)" for ev y
    by (simp add: one_snapshot_def snap_traces)
  show ?thesis
    using that upd d
    by (simp add: run_from_ref_def Let_def abind_def snap_store target snap_loads snap_inv(2) window element rq
        snap_observes raw snap_copies case_prod_beta tr)
qed

section \<open>The samples satisfy what was shown\<close>

theorem snapshot_refs_load_witness:
  "\<exists>r w' st t. run_snapshot snap_engine None snap_context snap_options None None (0, []) = Some (Inr r, w') \<and>
     t \<in> set (tree_refs (sn_tree r)) \<and> loads_as snap_engine st t w' (\<lambda>e. src_window_id (source e) = Some (win_id (sn_window r)))"
proof -
  obtain r where r: "run_snapshot snap_engine None snap_context snap_options None None (0, []) = Some (Inr r, one_snapshot 5 ''one'')"
    "0 < length (tree_refs (sn_tree r))" by (rule snap_runs)
  have "keeps_files disk_view (en_files snap_engine)" "codec_ok (en_codec snap_engine)" "builds (en_observer snap_engine)"
    "trace_apart disk_view (en_files snap_engine)"
    using disk_keeps snap_codec_ok snap_builds disk_trace_apart by simp_all
  from snapshot_refs_load [OF this r(1)] r show ?thesis
    by (auto simp: loads_as_def) (metis length_greater_0_conv list.set_sel(1))
qed

theorem drill_down_replaces_below_witness:
  "\<exists>r w' e m new. run_from_ref snap_engine None snap_context snap_options (qualify_ref_id ''s0007'' snap_root) None
       (one_snapshot 5 ''one'') = Some (Inr r, w') \<and>
     drill_steps snap_engine None snap_context (qualify_ref_id ''s0007'' snap_root) None (one_snapshot 5 ''one'') r
       sample_store ''s0007'' snap_root e m \<and>
     tree_refs (sn_tree r) = map (qualify_ref_id ''s0007'') new \<and> replaced_below snap_root m (set new) (sn_refmap r)"
proof -
  obtain r w' where r: "run_from_ref snap_engine None snap_context snap_options (qualify_ref_id ''s0007'' snap_root) None
       (one_snapshot 5 ''one'') = Some (Inr r, w')" by (rule drill_runs)
  have "keeps_files disk_view (en_files snap_engine)" "codec_ok (en_codec snap_engine)" "builds (en_observer snap_engine)"
    "trace_apart disk_view (en_files snap_engine)"
    using disk_keeps snap_codec_ok snap_builds disk_trace_apart by simp_all
  from drill_down_replaces_below [OF this r] obtain st i k0 e m new where
    steps: "drill_steps snap_engine None snap_context (qualify_ref_id ''s0007'' snap_root) None (one_snapshot 5 ''one'') r st i k0 e m"
    and m: "tree_refs (sn_tree r) = map (qualify_ref_id i) new" "replaced_below k0 m (set new) (sn_refmap r)" by blast
  have "i = ''s0007''" "k0 = snap_root" "st = sample_store"
    using steps snap_target by (auto simp: drill_steps_def snap_store)
  with steps m r show ?thesis by blast
qed

end
