(* ===== verification/Spec2Isabelle.thy ===== *)
theory Spec2Isabelle
  imports RefAlloc RefActionLog PostActionSpec PreflightSpec
    LocatorPlain LocatorFirst LocatorLease LocatorValid Commands Snapshots
begin

text \<open>
  A model of the core library of agent-desktop (\<open>crates/core/src\<close>), which lets a program observe
  an application through the operating system's accessibility interface and act on it.

  \<^bold>\<open>The program.\<close>  An observation reads the tree of a window's accessible elements.  The elements
  worth acting on get refs, short tokens \<open>@e1\<close>, \<open>@e2\<close>, \<dots>, and the tree is printed with
  them; each ref stands for an entry in a map that records how to find the element again (its
  role, texts, identifiers, position, process and window).  Acting on a ref finds the element
  that matches the entry, checks that it can be acted on (visible, stable, enabled, receiving
  events), takes a lease that excludes other agents, dispatches the action once, reads back what
  it did, and reports how certain the delivery is, so that the caller knows whether a retry is
  safe.  All of it happens before a deadline.

  Elements are also found by queries (a role, texts, an identifier, states, and nested queries on
  what an element contains).  A query is evaluated on an observation that may have gaps: fields not
  read, children not seen.  The answer must not depend on them, so verdicts are three-valued, an
  open answer is sought again until the deadline, and a selected match is read once more before it
  gets a ref.

  \<^bold>\<open>Theories.\<close>  Each follows the source files it names.
  \<^item> \<open>Prelude\<close>, \<open>F64\<close>, \<open>Json\<close>, \<open>Stores\<close>: results and options, UTF-8 strings with the
    standard library's trimming and case folding, binary64 with its rounding, JSON values and
    their accessors, and what a store that hands out fresh keys promises (locale \<open>fresh_store\<close>).
  \<^item> \<open>Policy\<close>, \<open>Errors\<close>, \<open>Roles\<close>, \<open>Geometry\<close>, \<open>Actions\<close>, \<open>Deadlines\<close>: the data the
    other parts share.  The locales \<open>bounded_join\<close>, \<open>token_codec\<close> and \<open>token_reader\<close> state
    the contracts of policies, of the names written to JSON and of the role vocabulary.
  \<^item> \<open>Refs\<close>: entries and their validation, tokens, the ref map and its operations
    (\<open>refs.rs\<close>, \<open>ref_token.rs\<close>, \<open>refs_validate.rs\<close>).
  \<^item> \<open>RefAlloc\<close>: the walk over an observed tree that prunes, collapses and allocates
    (\<open>ref_alloc.rs\<close>).
  \<^item> \<open>RefIdentity\<close>: whether a live element is the stored one (\<open>ref_identity.rs\<close>).
  \<^item> \<open>ActionResults\<close>: steps, results and what they say of delivery (\<open>action_result.rs\<close>).
  \<^item> \<open>Effects\<close>: actions on an abstract world, the platform behind the adapter traits, loops and
    the rules to reason about them.
  \<^item> \<open>Actionability\<close>, \<open>PostAction\<close>, \<open>RefAction\<close>: the checks before an action
    (\<open>actionability/\<close>), execution with verification (\<open>post_action.rs\<close>), and the whole
    operation on a ref (\<open>ref_action*.rs\<close>).  \<open>PreflightSpec\<close> and \<open>PostActionSpec\<close> say on what
    evidence an action is permitted and what its verification reports; \<open>RefActionTime\<close> proves
    that everything returns, \<open>RefActionLog\<close> what it does to the outside and in which order.
  \<^item> \<open>Locator\<close>, \<open>LocatorStats\<close>, \<open>LocatorTree\<close>: queries and the plain matcher (\<open>locator.rs\<close>,
    \<open>search_text.rs\<close>), statistics, and observed trees (\<open>live_locator/observed_*.rs\<close>).
  \<^item> \<open>LocatorEval\<close>: evaluating a query on an observed tree and selecting (\<open>evaluate.rs\<close>,
    \<open>predicate.rs\<close>, \<open>select.rs\<close>, \<open>materialize.rs\<close>, \<open>selection_completeness.rs\<close>, \<open>cardinality.rs\<close>).
    \<open>LocatorMatrix\<close> reduces the matrix of verdicts to a recursion over the tree, \<open>LocatorVerdict\<close>
    shows that more evidence never withdraws a verdict, \<open>LocatorPlain\<close> that a complete
    observation is matched like a printed tree, \<open>LocatorResult\<close> what a result says of the tree,
    \<open>LocatorFirst\<close> when a first match is final, \<open>LocatorValid\<close> which queries are run.
  \<^item> \<open>LocatorRequest\<close>: what an observation must read and its budgets (\<open>evidence_*.rs\<close>,
    \<open>observation_*.rs\<close>, \<open>tree_options.rs\<close>).
  \<^item> \<open>LocatorObserve\<close>, \<open>LocatorHydrate\<close>, \<open>LocatorResolve\<close>: reading an application and switching
    its renderer on (\<open>renderer_accessibility.rs\<close>), reading a match again (\<open>hydrate.rs\<close>), and the
    loop around them (\<open>resolve.rs\<close>).  \<open>LocatorLease\<close> shows that resolving only reads.
  \<^item> \<open>Signals\<close>: what changed on the desktop between two observations (\<open>signals.rs\<close> and the records
    it compares).  \<open>Waiting\<close>: pausing in a loop and holding a lease, with the rules for their end.
  \<^item> \<open>DesktopLookup\<close>: the platform that lists applications and windows, and the choice of the one a
    command is about (\<open>app_lookup.rs\<close>, \<open>window_lookup.rs\<close>, \<open>window_focus.rs\<close>).
  \<^item> \<open>WaitEvents\<close>, \<open>WaitElement\<close>, \<open>Waits\<close>: the wait command (\<open>commands/wait*.rs\<close>) for events, for
    a predicate on an element, and for windows, menus and notifications, with its modes and timeouts.
  \<^item> \<open>Commands\<close>: commands on windows, applications, notifications and keys (\<open>commands/\<close>).
  \<^item> \<open>Files\<close>: the file system as a record of calls, and locks on files (\<open>file_lock.rs\<close>,
    \<open>refs_lock.rs\<close>).  \<open>RefStore\<close>: the stored ref maps of snapshots (\<open>refs_store.rs\<close>,
    \<open>refs_store_prune.rs\<close>); \<open>RefStoreSpec\<close> shows what is read back and what pruning removes.
  \<^item> \<open>ArtifactBudget\<close>: screenshots and copies of ref maps that a session keeps, with the ledger of
    what was written (\<open>trace_artifact_budget.rs\<close>, \<open>trace_artifacts.rs\<close>).
  \<^item> \<open>Snapshots\<close>: taking a snapshot and drilling down below a ref of one, which join the lookup of the
    window, the observation, the allocation and the store (\<open>snapshot.rs\<close>, \<open>snapshot_ref.rs\<close>, \<open>hints.rs\<close>).

  \<^bold>\<open>How the model stands to the code.\<close>  Structs are records and enums datatypes with the source's
  constructors.  A Rust string is its list of UTF-8 bytes.  \<open>u32\<close> and \<open>u64\<close> are words where they
  are stored; instants and durations are natural numbers of nanoseconds with the bound of the
  platform's clock written out.  \<open>Result\<close> is a sum with the error on the left.  A hash map is an
  association list.  The hasher of rectangles is a parameter \<open>fx\<close>; witnesses use a concrete one.
  The deadline inherited through a thread-local variable is an argument.  Code that calls the
  platform is a function on an abstract world that gives a result and the next world, or nothing
  when it does not return; the platform's calls are the fields of a record, total functions about
  which nothing is assumed unless a theorem says so.

  \<^bold>\<open>What is shown.\<close>  Refs: a token resolves exactly to what it was made of; a ref never comes to
  denote another element; replacing a subtree removes exactly the refs below it; a stored map is
  accepted exactly when it is well formed.  Allocation: the walk hands out the planned refs in
  preorder and prints exactly them, and prints the same tree as the variant without refs.
  Identity: an unchanged element is recognised and a verdict survives more evidence.  Acting: the
  lease brackets at most one execution, an error that claims nothing was delivered is true, an
  action is permitted on evidence only, verification reports what was observed, and the operation
  returns.  Locating: verdicts are sound for every fuller observation, the evidence asked for is
  enough, a unique or first match is one, an answer is settled before it is given, its refs resolve
  to what was read, resolving does nothing but observe, holds the lease only while a renderer that was
  found off is switched on, and returns.  Deadlines: exact bounds and the effect
  of nested scopes.  Codecs and normal forms for the names.  The desktop: the events reported between
  two observations are exactly the changes, a window is chosen by what it is and not by its
  place in the list, and counts as focused only when it was seen focused twice; a wait reports what its
  last steps observed before the deadline; a command changes one thing at most, under the lease.  Files: a saved snapshot is read back under its
  id and as the latest, its refs load as their entries, pruning removes the oldest snapshots only, and
  the artifacts of a session stay within their budget.  Snapshots: every ref that is printed loads from
  the store, as an entry of the window that was observed, and a drill-down replaces what is below its
  root in the map it finds under the lock, and nothing else.

  \<^bold>\<open>Loops.\<close>  Loops without a bound on their rounds in the code (polling, sampling, settling,
  observing, resolving, waiting, taking a lock, the walk up the parents of a node) are partial functions into \<open>option\<close>,
  and are shown to return.  The recursions that follow indices of the flat tree
  (\<open>subtree_is_authoritative\<close>, \<open>project\<close>) take fuel: one more than the number of nodes, which is
  enough because children stand after their parents.  All other recursion is structural.

  \<^bold>\<open>Assumed of the platform.\<close>  \<open>timed\<close>, \<open>timed_observer\<close>, \<open>timed_desktop\<close> and \<open>timed_files\<close>:
  the clock does not go back and sleeping takes the time asked for.  \<open>builds\<close>: observed trees come
  from their constructor.  \<open>keeps_files\<close> and \<open>lists_files\<close>: reading returns what a file holds, writing
  and removing change one thing (an interrupted write may leave a temporary file), and listings are
  complete; \<open>trace_apart\<close>: traces are written elsewhere than snapshots.  \<open>codec_ok\<close>: the
  JSON library reads back the valid ref maps it wrote, the only ones the store writes; \<open>ledger_ok\<close>: and the
  ledgers.

  \<^bold>\<open>Not modelled.\<close>  The adapters for macOS (the platform of the model), Windows and Linux (stubs),
  the C interface and the command line (conversion and dispatch), the cursor overlay
  (presentation), the system calls of private files, writing and reading traces, session manifests,
  the wait for text and the remaining commands.
\<close>

end
